(* ===== verification/Prelude.thy ===== *)
theory Prelude imports Main "HOL-Library.Word" "HOL-Library.Sublist" begin

text \<open>
  Shared vocabulary of the development: instants and durations (Go's \<open>time\<close> package, in
  nanoseconds), tables as lists of rows (the SQL statements the store issues), the string
  functions of Go's \<open>strings\<close> package that the code calls, and the generic lemmas on them.
\<close>

section \<open>Instants and durations\<close>

type_synonym gotime = int

abbreviation second :: int where
  "second \<equiv> 1000000000"

abbreviation minute :: int where
  "minute \<equiv> 60000000000"

text \<open>Formatting with \<open>time.RFC3339\<close> and parsing back drops the fraction of a second.\<close>

definition rfc3339 :: "gotime \<Rightarrow> gotime" where
  "rfc3339 t = t - t mod second"

text \<open>The zero \<open>time.Time\<close> (January 1, year 1) counted from the Unix epoch.\<close>

definition zero_time :: gotime where
  "zero_time = - 62135596800 * second"

text \<open>\<open>Time.Sub\<close> saturates at the ends of \<open>Duration\<close>; \<open>Time.Truncate\<close> counts from the zero time.\<close>

definition time_sub :: "gotime \<Rightarrow> gotime \<Rightarrow> int" where
  "time_sub t u = max (- (2 ^ 63)) (min (2 ^ 63 - 1) (t - u))"

definition time_truncate :: "int \<Rightarrow> gotime \<Rightarrow> gotime" where
  "time_truncate d t = (if d \<le> 0 then t else t - (t - zero_time) mod d)"

text \<open>Go's \<open>int\<close> and \<open>int64\<close>.\<close>

type_synonym int64 = "64 word"

lemma sint_of_int64: "- (2 ^ 63) \<le> x \<Longrightarrow> x < 2 ^ 63 \<Longrightarrow> sint (word_of_int x :: int64) = x"
  by (simp add: signed_of_int signed_take_bit_int_eq_self)

lemma time_truncate_minute: "time_truncate minute t = t - t mod minute"
proof -
  have "minute dvd zero_time" by (simp add: zero_time_def)
  then have "(t - zero_time) mod minute = t mod minute" by (simp add: mod_eq_dvd_iff)
  then show ?thesis by (simp add: time_truncate_def)
qed

lemma rfc3339_le: "rfc3339 t \<le> t"
  by (simp add: rfc3339_def)

lemma rfc3339_gt: "t - second < rfc3339 t"
  by (simp add: rfc3339_def)

lemma rfc3339_idem [simp]: "rfc3339 (rfc3339 t) = rfc3339 t"
  by (simp add: rfc3339_def)

lemma rfc3339_mono: "s \<le> t \<Longrightarrow> rfc3339 s \<le> rfc3339 t"
proof -
  assume "s \<le> t"
  then have "second * (s div second) \<le> second * (t div second)"
    by (intro mult_left_mono zdiv_mono1) auto
  then show ?thesis by (simp add: rfc3339_def minus_mod_eq_mult_div)
qed

section \<open>Tables\<close>

text \<open>A table is the list of its rows; an SQL \<open>UPDATE ... WHERE\<close> maps over it.\<close>

definition update_where :: "('r \<Rightarrow> bool) \<Rightarrow> ('r \<Rightarrow> 'r) \<Rightarrow> 'r list \<Rightarrow> 'r list" where
  "update_where p f rows = map (\<lambda>r. if p r then f r else r) rows"

definition delete_where :: "('r \<Rightarrow> bool) \<Rightarrow> 'r list \<Rightarrow> 'r list" where
  "delete_where p rows = filter (\<lambda>r. \<not> p r) rows"

lemma update_where_Nil [simp]: "update_where p f [] = []"
  by (simp add: update_where_def)

lemma update_where_Cons [simp]:
  "update_where p f (r # rs) = (if p r then f r else r) # update_where p f rs"
  by (simp add: update_where_def)

lemma length_update_where [simp]: "length (update_where p f rows) = length rows"
  by (simp add: update_where_def)

lemma update_where_none: "(\<And>r. r \<in> set rows \<Longrightarrow> \<not> p r) \<Longrightarrow> update_where p f rows = rows"
  by (induction rows) auto

lemma set_update_where:
  "set (update_where p f rows) = {r \<in> set rows. \<not> p r} \<union> f ` {r \<in> set rows. p r}"
  by (induction rows) auto

lemma map_update_where:
  "(\<And>r. r \<in> set rows \<Longrightarrow> p r \<Longrightarrow> g (f r) = g r) \<Longrightarrow> map g (update_where p f rows) = map g rows"
  by (induction rows) auto

lemma filter_update_where_other:
  "(\<And>r. p r \<Longrightarrow> \<not> q r) \<Longrightarrow> (\<And>r. p r \<Longrightarrow> \<not> q (f r)) \<Longrightarrow>
   filter q (update_where p f rows) = filter q rows"
  by (induction rows) auto

lemma find_update_where_same:
  "List.find (\<lambda>r. k r = i) rows = Some r \<Longrightarrow> (\<And>r. k (f r) = k r) \<Longrightarrow>
   List.find (\<lambda>r. k r = i) (update_where (\<lambda>r. k r = i) f rows) = Some (f r)"
  by (induction rows) (auto split: if_splits)

lemma find_update_where_other:
  "i \<noteq> j \<Longrightarrow> (\<And>r. k (f r) = k r) \<Longrightarrow>
   List.find (\<lambda>r. k r = i) (update_where (\<lambda>r. k r = j) f rows) = List.find (\<lambda>r. k r = i) rows"
  by (induction rows) (auto split: if_splits)

lemma find_append:
  "List.find p (xs @ ys) = (case List.find p xs of None \<Rightarrow> List.find p ys | Some x \<Rightarrow> Some x)"
  by (induction xs) auto

lemma find_SomeD: "List.find p xs = Some x \<Longrightarrow> x \<in> set xs \<and> p x"
  by (induction xs) (auto split: if_splits)

lemma find_NoneD: "List.find p xs = None \<Longrightarrow> x \<in> set xs \<Longrightarrow> \<not> p x"
  by (induction xs) (auto split: if_splits)

lemma find_distinct_key:
  "distinct (map k xs) \<Longrightarrow> x \<in> set xs \<Longrightarrow> List.find (\<lambda>r. k r = k x) xs = Some x"
  by (induction xs) auto

lemma delete_where_Nil [simp]: "delete_where p [] = []"
  by (simp add: delete_where_def)

lemma delete_where_Cons [simp]:
  "delete_where p (r # rs) = (if p r then delete_where p rs else r # delete_where p rs)"
  by (simp add: delete_where_def)

lemma set_delete_where [simp]: "set (delete_where p rows) = {r \<in> set rows. \<not> p r}"
  by (auto simp: delete_where_def)

lemma length_delete_where_le: "length (delete_where p rows) \<le> length rows"
  by (simp add: delete_where_def)

lemma find_delete_where:
  "List.find (\<lambda>r. k r = i) (delete_where (\<lambda>r. k r = j) rows) =
     (if i = j then None else List.find (\<lambda>r. k r = i) rows)"
  by (induction rows) auto

lemma distinct_map_delete_where:
  "distinct (map k rows) \<Longrightarrow> distinct (map k (delete_where p rows))"
  by (simp add: delete_where_def distinct_map_filter)

section \<open>Ordered queries\<close>

text \<open>
  \<open>ORDER BY k LIMIT 1\<close> takes the first row with the least key, \<open>ORDER BY k DESC LIMIT 1\<close>
  the last row with the greatest one (SQL leaves ties open; this is the order of an index scan).
\<close>

fun min_by :: "('a \<Rightarrow> int) \<Rightarrow> 'a list \<Rightarrow> 'a option" where
  "min_by k [] = None"
| "min_by k (x # xs) =
     (case min_by k xs of None \<Rightarrow> Some x | Some y \<Rightarrow> if k x \<le> k y then Some x else Some y)"

fun max_by :: "('a \<Rightarrow> int) \<Rightarrow> 'a list \<Rightarrow> 'a option" where
  "max_by k [] = None"
| "max_by k (x # xs) =
     (case max_by k xs of None \<Rightarrow> Some x | Some y \<Rightarrow> if k y < k x then Some x else Some y)"

lemma min_by_None [simp]: "min_by k xs = None \<longleftrightarrow> xs = []"
  by (cases xs) (auto split: option.splits)

lemma max_by_None [simp]: "max_by k xs = None \<longleftrightarrow> xs = []"
  by (cases xs) (auto split: option.splits)

lemma min_by_in: "min_by k xs = Some x \<Longrightarrow> x \<in> set xs"
  by (induction xs arbitrary: x) (auto split: option.splits if_splits)

lemma max_by_in: "max_by k xs = Some x \<Longrightarrow> x \<in> set xs"
  by (induction xs arbitrary: x) (auto split: option.splits if_splits)

lemma min_by_least: "min_by k xs = Some x \<Longrightarrow> y \<in> set xs \<Longrightarrow> k x \<le> k y"
  by (induction xs arbitrary: x) (fastforce split: option.splits if_splits)+

lemma max_by_greatest: "max_by k xs = Some x \<Longrightarrow> y \<in> set xs \<Longrightarrow> k y \<le> k x"
  by (induction xs arbitrary: x) (fastforce split: option.splits if_splits)+

section \<open>Strings\<close>

text \<open>\<open>strings.Contains\<close>, \<open>strings.Split\<close> on a one-byte separator, and \<open>strings.HasPrefix\<close>.\<close>

fun str_contains :: "string \<Rightarrow> string \<Rightarrow> bool" where
  "str_contains [] sub = (sub = [])"
| "str_contains (c # cs) sub = (prefix sub (c # cs) \<or> str_contains cs sub)"

lemma str_contains_sublist: "str_contains s sub \<longleftrightarrow> sublist sub s"
  by (induction s) (auto simp: sublist_Cons_right)

fun str_split :: "char \<Rightarrow> string \<Rightarrow> string list" where
  "str_split sep [] = [[]]"
| "str_split sep (c # cs) =
     (if c = sep then [] # str_split sep cs
      else (case str_split sep cs of [] \<Rightarrow> [[c]] | t # ts \<Rightarrow> (c # t) # ts))"

fun str_join :: "char \<Rightarrow> string list \<Rightarrow> string" where
  "str_join sep [] = []"
| "str_join sep [t] = t"
| "str_join sep (t # u # ts) = t @ sep # str_join sep (u # ts)"

lemma str_split_nonempty [simp]: "str_split sep s \<noteq> []"
  by (induction s) (auto split: list.splits)

lemma str_split_no_sep: "sep \<notin> set s \<Longrightarrow> str_split sep s = [s]"
  by (induction s) auto

lemma str_split_append_sep:
  "sep \<notin> set t \<Longrightarrow> str_split sep (t @ sep # s) = t # str_split sep s"
  by (induction t) auto

lemma str_split_join:
  "ts \<noteq> [] \<Longrightarrow> (\<And>t. t \<in> set ts \<Longrightarrow> sep \<notin> set t) \<Longrightarrow> str_split sep (str_join sep ts) = ts"
  by (induction sep ts rule: str_join.induct) (auto simp: str_split_no_sep str_split_append_sep)

lemma str_join_split: "str_join sep (str_split sep s) = s"
proof (induction s)
  case Nil
  then show ?case by simp
next
  case (Cons c cs)
  obtain t ts where tts: "str_split sep cs = t # ts"
    by (cases "str_split sep cs") auto
  with Cons show ?case by (cases ts) auto
qed

section \<open>Invariants of step relations\<close>

text \<open>
  The contract of a component seen as a transition system: an invariant that every step keeps. Every
  stateful component of the development provides it for its own step relation.
\<close>

locale invariant_system =
  fixes step :: "'s \<Rightarrow> 's \<Rightarrow> bool"
    and inv :: "'s \<Rightarrow> bool"
  assumes step_keeps: "step s t \<Longrightarrow> inv s \<Longrightarrow> inv t"
begin

lemma reachable_keeps: "step\<^sup>*\<^sup>* s t \<Longrightarrow> inv s \<Longrightarrow> inv t"
  by (induction rule: rtranclp_induct) (auto intro: step_keeps)

end

lemma notin_mapD: "x \<notin> f ` A \<Longrightarrow> y \<in> A \<Longrightarrow> f y \<noteq> x"
  by blast

lemma foldl_keeps:
  "P s \<Longrightarrow> (\<And>s x. x \<in> set xs \<Longrightarrow> P s \<Longrightarrow> P (f s x)) \<Longrightarrow> P (foldl f s xs)"
  by (induction xs arbitrary: s) auto

text \<open>A sequence whose changes descend in a well-founded order changes finitely often.\<close>

lemma finite_changes:
  assumes wf: "wf r" and step: "\<And>n. g (Suc n) = g n \<or> (h (g (Suc n)), h (g n)) \<in> r"
  shows "finite {n. g (Suc n) \<noteq> g n}"
proof -
  have "\<forall>k. h (g k) = x \<longrightarrow> finite {n. k \<le> n \<and> g (Suc n) \<noteq> g n}" for x
    using wf
  proof (induction x rule: wf_induct_rule)
    case (less x)
    show ?case
    proof (intro allI impI)
      fix k assume k: "h (g k) = x"
      show "finite {n. k \<le> n \<and> g (Suc n) \<noteq> g n}"
      proof (cases "\<exists>n\<ge>k. g (Suc n) \<noteq> g n")
        case False
        then have "{n. k \<le> n \<and> g (Suc n) \<noteq> g n} = {}" by auto
        then show ?thesis by (simp only: finite.emptyI)
      next
        case True
        define n where "n = (LEAST n. k \<le> n \<and> g (Suc n) \<noteq> g n)"
        have n: "k \<le> n" "g (Suc n) \<noteq> g n"
          using LeastI_ex [OF True] by (simp_all add: n_def)
        have before: "g (Suc i) = g i" if "k \<le> i" "i < n" for i
          using that not_less_Least [of i "\<lambda>n. k \<le> n \<and> g (Suc n) \<noteq> g n"] by (simp add: n_def)
        have "g j = g k" if "k \<le> j" "j \<le> n" for j
          using that by (induction j rule: dec_induct) (auto simp: before)
        then have "g n = g k" using n(1) by blast
        then have "(h (g (Suc n)), x) \<in> r" using step [of n] n(2) k by metis
        from less [OF this] have "finite {i. Suc n \<le> i \<and> g (Suc i) \<noteq> g i}" by blast
        moreover have "{i. k \<le> i \<and> g (Suc i) \<noteq> g i} \<subseteq> insert n {i. Suc n \<le> i \<and> g (Suc i) \<noteq> g i}"
          using before by (auto simp: not_less_eq_eq intro: linorder_cases [of n])
        ultimately show ?thesis by (meson finite_insert finite_subset)
      qed
    qed
  qed
  from this [of "h (g 0)"] show ?thesis by auto
qed

end
