(* ===== verification/Lru.thy ===== *)
theory Lru imports Prelude begin

text \<open>
  The pair of structures the reply package keeps twice: a map from keys to list elements and a
  \<open>container/list\<close> ordered from the most to the least recently used value. An element is a
  handle with its value; the map and the list are updated separately, as the code does, and the
  lemmas show that the pair behaves as one list of values with distinct keys.
\<close>

section \<open>The map and the list\<close>

record 'v lru =
  lru_index :: "string \<Rightarrow> nat option"
  lru_order :: "(nat \<times> 'v) list"
  lru_fresh :: nat

definition lru_new :: "'v lru" where
  "lru_new = \<lparr>lru_index = (\<lambda>_. None), lru_order = [], lru_fresh = 0\<rparr>"

definition lru_len :: "'v lru \<Rightarrow> nat" where
  "lru_len st = length (lru_order st)"

text \<open>\<open>Element.Value\<close>, \<open>MoveToFront\<close>, \<open>PushFront\<close>, \<open>Remove\<close> and \<open>Back\<close>.\<close>

definition lru_value :: "'v lru \<Rightarrow> nat \<Rightarrow> 'v option" where
  "lru_value st h = map_of (lru_order st) h"

definition lru_set_value :: "'v lru \<Rightarrow> nat \<Rightarrow> 'v \<Rightarrow> 'v lru" where
  "lru_set_value st h v =
     st\<lparr>lru_order := map (\<lambda>e. if fst e = h then (h, v) else e) (lru_order st)\<rparr>"

definition lru_move_to_front :: "'v lru \<Rightarrow> nat \<Rightarrow> 'v lru" where
  "lru_move_to_front st h =
     st\<lparr>lru_order := filter (\<lambda>e. fst e = h) (lru_order st) @ filter (\<lambda>e. fst e \<noteq> h) (lru_order st)\<rparr>"

definition lru_push_front :: "'v lru \<Rightarrow> 'v \<Rightarrow> nat \<times> 'v lru" where
  "lru_push_front st v =
     (lru_fresh st, st\<lparr>lru_order := (lru_fresh st, v) # lru_order st, lru_fresh := Suc (lru_fresh st)\<rparr>)"

definition lru_remove :: "'v lru \<Rightarrow> nat \<Rightarrow> 'v lru" where
  "lru_remove st h = st\<lparr>lru_order := filter (\<lambda>e. fst e \<noteq> h) (lru_order st)\<rparr>"

definition lru_back :: "'v lru \<Rightarrow> (nat \<times> 'v) option" where
  "lru_back st = (if lru_order st = [] then None else Some (last (lru_order st)))"

definition index_put :: "'v lru \<Rightarrow> string \<Rightarrow> nat \<Rightarrow> 'v lru" where
  "index_put st k h = st\<lparr>lru_index := (lru_index st)(k := Some h)\<rparr>"

definition index_delete :: "'v lru \<Rightarrow> string \<Rightarrow> 'v lru" where
  "index_delete st k = st\<lparr>lru_index := (lru_index st)(k := None)\<rparr>"

section \<open>The invariant and the abstraction\<close>

definition lru_ok :: "('v \<Rightarrow> string) \<Rightarrow> 'v lru \<Rightarrow> bool" where
  "lru_ok kf st \<longleftrightarrow>
     distinct (map fst (lru_order st))
   \<and> (\<forall>e \<in> set (lru_order st). fst e < lru_fresh st)
   \<and> (\<forall>k h. lru_index st k = Some h \<longleftrightarrow> (\<exists>v. (h, v) \<in> set (lru_order st) \<and> kf v = k))"

definition lru_abs :: "'v lru \<Rightarrow> 'v list" where
  "lru_abs st = map snd (lru_order st)"

definition without_key :: "('v \<Rightarrow> string) \<Rightarrow> string \<Rightarrow> 'v list \<Rightarrow> 'v list" where
  "without_key kf k xs = filter (\<lambda>x. kf x \<noteq> k) xs"

lemma lru_new_ok: "lru_ok kf lru_new"
  by (simp add: lru_ok_def lru_new_def)

lemma lru_new_abs [simp]: "lru_abs lru_new = []"
  by (simp add: lru_abs_def lru_new_def)

lemma length_lru_abs [simp]: "length (lru_abs st) = lru_len st"
  by (simp add: lru_abs_def lru_len_def)

lemma lru_okD:
  assumes "lru_ok kf st"
  shows "distinct (map fst (lru_order st))"
    and "(h, v) \<in> set (lru_order st) \<Longrightarrow> h < lru_fresh st"
    and "lru_index st k = Some h \<longleftrightarrow> (\<exists>v. (h, v) \<in> set (lru_order st) \<and> kf v = k)"
  using assms unfolding lru_ok_def by (simp, fastforce, simp)

lemma key_in_abs: "k \<in> kf ` set (lru_abs st) \<longleftrightarrow> (\<exists>h v. (h, v) \<in> set (lru_order st) \<and> kf v = k)"
  by (force simp: lru_abs_def)

lemma lru_ok_inj:
  assumes "lru_ok kf st" "(h, v) \<in> set (lru_order st)" "(h', v') \<in> set (lru_order st)" "kf v = kf v'"
  shows "h = h' \<and> v = v'"
proof -
  have "lru_index st (kf v) = Some h" using assms(1,2) lru_okD(3) by blast
  moreover have "lru_index st (kf v) = Some h'" using assms(1,3,4) lru_okD(3) by metis
  ultimately have "h = h'" by simp
  with assms lru_okD(1) [OF assms(1)] show ?thesis by (auto dest: eq_key_imp_eq_value)
qed

lemma lru_ok_distinct_keys:
  assumes "lru_ok kf st"
  shows "distinct (map kf (lru_abs st))"
proof -
  have "distinct (lru_order st)" using lru_okD(1) [OF assms] by (simp add: distinct_map)
  moreover have "inj_on (\<lambda>e. kf (snd e)) (set (lru_order st))"
    using lru_ok_inj [OF assms] by (auto simp: inj_on_def) 
  ultimately show ?thesis by (simp add: lru_abs_def distinct_map comp_def)
qed

lemma index_None:
  assumes "lru_ok kf st"
  shows "lru_index st k = None \<longleftrightarrow> k \<notin> kf ` set (lru_abs st)"
proof -
  have "lru_index st k = None \<longleftrightarrow> (\<forall>h. lru_index st k \<noteq> Some h)" by (cases "lru_index st k") auto
  then show ?thesis unfolding key_in_abs lru_okD(3) [OF assms] by blast
qed

lemma index_Some:
  assumes "lru_ok kf st" "lru_index st k = Some h"
  obtains v where "(h, v) \<in> set (lru_order st)" "kf v = k" "lru_value st h = Some v"
    "List.find (\<lambda>x. kf x = k) (lru_abs st) = Some v"
proof -
  from assms obtain v where v: "(h, v) \<in> set (lru_order st)" "kf v = k"
    unfolding lru_ok_def by blast
  have "lru_value st h = Some v"
    using assms(1) v(1) by (simp add: lru_value_def lru_ok_def)
  moreover have "v \<in> set (lru_abs st)" using v(1) by (force simp: lru_abs_def)
  then have "List.find (\<lambda>x. kf x = kf v) (lru_abs st) = Some v"
    by (rule find_distinct_key [OF lru_ok_distinct_keys [OF assms(1)]])
  ultimately show thesis using v that by simp
qed

lemma handle_filter:
  assumes "lru_ok kf st" "(h, v) \<in> set (lru_order st)"
  shows "filter (\<lambda>e. fst e \<noteq> h) (lru_order st) = filter (\<lambda>e. kf (snd e) \<noteq> kf v) (lru_order st)"
proof (rule filter_cong [OF refl])
  fix e assume e: "e \<in> set (lru_order st)"
  obtain h' v' where [simp]: "e = (h', v')" by fastforce
  show "(fst e \<noteq> h) = (kf (snd e) \<noteq> kf v)"
    using assms e lru_ok_inj [OF assms(1), of h v h' v']
    by (auto simp: lru_ok_def dest: eq_key_imp_eq_value)
qed

section \<open>The operations on the pair\<close>

lemma lru_touch:
  assumes ok: "lru_ok kf st" and v: "(h, v) \<in> set (lru_order st)" and k: "kf v' = kf v"
  defines "st' \<equiv> lru_move_to_front (lru_set_value st h v') h"
  shows "lru_ok kf st'" and "lru_abs st' = v' # without_key kf (kf v) (lru_abs st)"
    and "lru_index st' = lru_index st"
proof -
  let ?rest = "filter (\<lambda>e. fst e \<noteq> h) (lru_order st)"
  have d: "distinct (map fst (lru_order st))" using ok by (simp add: lru_ok_def)
  have "filter (\<lambda>e. fst e = h) xs = (if h \<in> fst ` set xs then [(h, the (map_of xs h))] else [])"
    if "distinct (map fst xs)" for xs :: "(nat \<times> 'a) list"
    using that by (induction xs) (auto simp: filter_empty_conv image_iff)
  from this [OF d] have one: "filter (\<lambda>e. fst e = h) (lru_order st) = [(h, v)]"
    using v d by (force simp: image_iff)
  have ord: "lru_order st' = (h, v') # ?rest"
  proof -
    have "filter (\<lambda>e. fst e = h) (map (\<lambda>e. if fst e = h then (h, v') else e) xs) =
          map (\<lambda>_. (h, v')) (filter (\<lambda>e. fst e = h) xs)"
      and "filter (\<lambda>e. fst e \<noteq> h) (map (\<lambda>e. if fst e = h then (h, v') else e) xs) =
          filter (\<lambda>e. fst e \<noteq> h) xs" for xs :: "(nat \<times> 'a) list"
      by (induction xs) auto
    then show ?thesis
      by (simp add: st'_def lru_move_to_front_def lru_set_value_def one)
  qed
  show idx: "lru_index st' = lru_index st"
    by (simp add: st'_def lru_move_to_front_def lru_set_value_def)
  have fr: "lru_fresh st' = lru_fresh st"
    by (simp add: st'_def lru_move_to_front_def lru_set_value_def)
  show "lru_abs st' = v' # without_key kf (kf v) (lru_abs st)"
    by (simp add: lru_abs_def ord handle_filter [OF ok v] without_key_def filter_map comp_def)
  have mem: "(\<exists>x. (g, x) \<in> set (lru_order st') \<and> kf x = c) \<longleftrightarrow>
             (\<exists>x. (g, x) \<in> set (lru_order st) \<and> kf x = c)" for g c
    using v k d by (auto simp: ord dest: eq_key_imp_eq_value)
  have "distinct (map fst (lru_order st'))" using d by (auto simp: ord distinct_map_filter)
  moreover have "\<forall>e \<in> set (lru_order st'). fst e < lru_fresh st'"
    using ok v unfolding lru_ok_def fr by (auto simp: ord)
  ultimately show "lru_ok kf st'"
    using ok unfolding lru_ok_def idx mem by blast
qed

lemma lru_push:
  assumes ok: "lru_ok kf st" and none: "lru_index st (kf v) = None"
    and push: "lru_push_front st v = (h, st1)"
  shows "lru_ok kf (index_put st1 (kf v) h)" and "lru_abs (index_put st1 (kf v) h) = v # lru_abs st"
proof -
  have h: "h = lru_fresh st" "h \<notin> fst ` set (lru_order st)"
    using push ok by (auto simp: lru_push_front_def lru_ok_def)
  have st1: "lru_order st1 = (h, v) # lru_order st" "lru_fresh st1 = Suc h" "lru_index st1 = lru_index st"
    using push by (auto simp: lru_push_front_def)
  show "lru_abs (index_put st1 (kf v) h) = v # lru_abs st"
    by (simp add: lru_abs_def index_put_def st1)
  have "kf v \<notin> kf ` set (lru_abs st)" using index_None [OF ok] none by simp
  then have nk: "(g, x) \<in> set (lru_order st) \<Longrightarrow> kf x \<noteq> kf v" for g x
    unfolding key_in_abs by blast
  have fr: "(g, x) \<in> set (lru_order st) \<Longrightarrow> g < h" for g x
    using ok h(1) by (auto simp: lru_ok_def)
  have ix: "lru_index st c = Some g \<longleftrightarrow> (\<exists>x. (g, x) \<in> set (lru_order st) \<and> kf x = c)" for c g
    using ok by (simp add: lru_ok_def)
  have "lru_index (index_put st1 (kf v) h) c = Some g \<longleftrightarrow>
        (\<exists>x. (g, x) \<in> set (lru_order (index_put st1 (kf v) h)) \<and> kf x = c)" for c g
    using nk by (auto simp: index_put_def st1 ix)
  moreover have "distinct (map fst (lru_order (index_put st1 (kf v) h)))"
    using ok h(2) by (simp add: lru_ok_def index_put_def st1)
  moreover have "\<forall>e \<in> set (lru_order (index_put st1 (kf v) h)). fst e < lru_fresh (index_put st1 (kf v) h)"
    using fr by (auto simp: index_put_def st1 less_Suc_eq)
  ultimately show "lru_ok kf (index_put st1 (kf v) h)" unfolding lru_ok_def by blast
qed

lemma lru_drop:
  assumes ok: "lru_ok kf st" and v: "(h, v) \<in> set (lru_order st)"
  defines "st' \<equiv> lru_remove (index_delete st (kf v)) h"
  shows "lru_ok kf st'" and "lru_abs st' = without_key kf (kf v) (lru_abs st)"
    and "lru_index st' = (lru_index st)(kf v := None)"
proof -
  have ord: "lru_order st' = filter (\<lambda>e. kf (snd e) \<noteq> kf v) (lru_order st)"
    using handle_filter [OF ok v] by (simp add: st'_def lru_remove_def index_delete_def)
  show idx: "lru_index st' = (lru_index st)(kf v := None)"
    by (simp add: st'_def lru_remove_def index_delete_def)
  have fr: "lru_fresh st' = lru_fresh st" by (simp add: st'_def lru_remove_def index_delete_def)
  show "lru_abs st' = without_key kf (kf v) (lru_abs st)"
    by (simp add: lru_abs_def ord without_key_def filter_map comp_def)
  have ix: "lru_index st c = Some g \<longleftrightarrow> (\<exists>x. (g, x) \<in> set (lru_order st) \<and> kf x = c)" for c g
    using ok by (simp add: lru_ok_def)
  have "lru_index st' c = Some g \<longleftrightarrow> (\<exists>x. (g, x) \<in> set (lru_order st') \<and> kf x = c)" for c g
    by (auto simp: idx ord ix)
  moreover have "distinct (map fst (lru_order st'))" "\<forall>e \<in> set (lru_order st'). fst e < lru_fresh st'"
    using ok by (auto simp: lru_ok_def ord fr distinct_map_filter)
  ultimately show "lru_ok kf st'" unfolding lru_ok_def by blast
qed

lemma without_key_last:
  "distinct (map kf xs) \<Longrightarrow> xs \<noteq> [] \<Longrightarrow> without_key kf (kf (last xs)) xs = butlast xs"
proof (induction xs rule: rev_induct)
  case (snoc x xs)
  then have "filter (\<lambda>y. kf y \<noteq> kf x) xs = xs" by (auto simp: filter_id_conv image_iff)
  then show ?case by (simp add: without_key_def)
qed simp

lemma lru_drop_back:
  assumes ok: "lru_ok kf st" and b: "lru_back st = Some (h, v)"
  shows "(h, v) \<in> set (lru_order st)"
    and "without_key kf (kf v) (lru_abs st) = butlast (lru_abs st)"
proof -
  from b have ne: "lru_order st \<noteq> []" and l: "last (lru_order st) = (h, v)"
    by (auto simp: lru_back_def split: if_splits)
  then show "(h, v) \<in> set (lru_order st)" by (metis last_in_set)
  from ne l have "lru_abs st \<noteq> []" "last (lru_abs st) = v" by (auto simp: lru_abs_def last_map)
  with without_key_last [OF lru_ok_distinct_keys [OF ok]]
  show "without_key kf (kf v) (lru_abs st) = butlast (lru_abs st)" by metis
qed

lemma without_key_absent: "k \<notin> kf ` set xs \<Longrightarrow> without_key kf k xs = xs"
  by (auto simp: without_key_def filter_id_conv)

lemma length_without_key_le: "length (without_key kf k xs) \<le> length xs"
  by (simp add: without_key_def)

lemma length_without_key:
  "distinct (map kf xs) \<Longrightarrow> k \<in> kf ` set xs \<Longrightarrow> Suc (length (without_key kf k xs)) = length xs"
proof (induction xs)
  case (Cons x xs)
  show ?case
  proof (cases "kf x = k")
    case True
    with Cons.prems have "without_key kf k xs = xs" by (intro without_key_absent) auto
    then show ?thesis by (simp add: without_key_def True)
  next
    case False
    with Cons show ?thesis by (auto simp: without_key_def)
  qed
qed simp

end
