(* ===== verification/RateLimiter.thy ===== *)
theory RateLimiter imports Lru begin

text \<open>
  The reply rate limiter (\<open>internal/cloudevents/reply/rate_limiter.go\<close>): one sliding-window
  counter per organisation and reply type, in a map capped with LRU eviction, and the janitor that
  drops idle buckets. Counters and the scaled comparison are 64-bit words, as in the code. The
  mutex makes every call atomic; the clock reading is an argument.
\<close>

section \<open>The limiter\<close>

definition default_rate_limit :: int64 where
  "default_rate_limit = 60"

definition rl_window :: int where
  "rl_window = minute"

definition rl_max_buckets :: nat where
  "rl_max_buckets = 10000"

definition rl_grace :: int where
  "rl_grace = 2 * rl_window"

record bucket =
  bk_key :: string
  bk_window :: gotime
  bk_count :: int64
  bk_prev :: int64

definition new_bucket :: "string \<Rightarrow> gotime \<Rightarrow> bucket" where
  "new_bucket key aligned = \<lparr>bk_key = key, bk_window = aligned, bk_count = 0, bk_prev = 0\<rparr>"

text \<open>The \<open>switch\<close> that rolls a bucket found in the map.\<close>

definition bucket_roll :: "gotime \<Rightarrow> bucket \<Rightarrow> bucket" where
  "bucket_roll aligned b =
     (if aligned = bk_window b then b
      else if time_sub aligned (bk_window b) = rl_window
      then b\<lparr>bk_prev := bk_count b, bk_count := 0, bk_window := aligned\<rparr>
      else b\<lparr>bk_prev := 0, bk_count := 0, bk_window := aligned\<rparr>)"

text \<open>The decision, in 64-bit arithmetic scaled by the window.\<close>

definition bucket_decide :: "gotime \<Rightarrow> int64 \<Rightarrow> bucket \<Rightarrow> bool \<times> bucket" where
  "bucket_decide now limit b =
     (let e = time_sub now (bk_window b);
          elapsed = (if e < 0 then 0 else if rl_window < e then rl_window else e);
          window_ns = (word_of_int rl_window :: int64);
          scaled_effective = bk_count b * window_ns + bk_prev b * (window_ns - word_of_int elapsed);
          scaled_limit = limit * window_ns
      in if sint (scaled_effective + window_ns) > sint scaled_limit then (False, b)
         else (True, b\<lparr>bk_count := bk_count b + 1\<rparr>))"

definition rl_key :: "string \<Rightarrow> string \<Rightarrow> string" where
  "rl_key org reply_type = org @ ''|'' @ reply_type"

definition rl_evict_oldest :: "bucket lru \<Rightarrow> bucket lru" where
  "rl_evict_oldest st =
     (case lru_back st of
        None \<Rightarrow> st
      | Some (h, b) \<Rightarrow> lru_remove (index_delete st (bk_key b)) h)"

definition effective_limit :: "int64 \<Rightarrow> int64" where
  "effective_limit limit = (if sint limit \<le> 0 then default_rate_limit else limit)"

definition rl_allow ::
  "bucket lru \<Rightarrow> gotime \<Rightarrow> string \<Rightarrow> string \<Rightarrow> int64 \<Rightarrow> bool \<times> bucket lru" where
  "rl_allow st now org reply_type limit0 =
     (let limit = effective_limit limit0;
          key = rl_key org reply_type;
          aligned = time_truncate rl_window now
      in case lru_index st key of
           Some h \<Rightarrow>
             (let st1 = lru_move_to_front st h in
              case lru_value st1 h of
                None \<Rightarrow> (False, st1)
              | Some b \<Rightarrow>
                  (case bucket_decide now limit (bucket_roll aligned b) of
                     (ok, b') \<Rightarrow> (ok, lru_set_value st1 h b')))
         | None \<Rightarrow>
             (let st1 = (if rl_max_buckets \<le> lru_len st then rl_evict_oldest st else st);
                  b = new_bucket key aligned
              in case lru_push_front st1 b of
                   (h, st2) \<Rightarrow>
                     (case bucket_decide now limit b of
                        (ok, b') \<Rightarrow> (ok, lru_set_value (index_put st2 key h) h b'))))"

text \<open>\<open>sweepOnce\<close>; \<open>keys\<close> is the order in which Go ranges over the map.\<close>

fun rl_sweep :: "gotime \<Rightarrow> string list \<Rightarrow> bucket lru \<Rightarrow> bucket lru" where
  "rl_sweep now [] st = st"
| "rl_sweep now (k # keys) st =
     (case lru_index st k of
        None \<Rightarrow> rl_sweep now keys st
      | Some h \<Rightarrow>
          (case lru_value st h of
             None \<Rightarrow> rl_sweep now keys st
           | Some b \<Rightarrow>
               if rl_grace \<le> time_sub now (bk_window b)
               then rl_sweep now keys (lru_remove (index_delete st k) h)
               else rl_sweep now keys st))"

section \<open>The limiter as an ordered list of buckets\<close>

definition rl_allow_spec ::
  "bucket list \<Rightarrow> gotime \<Rightarrow> string \<Rightarrow> string \<Rightarrow> int64 \<Rightarrow> bool \<times> bucket list" where
  "rl_allow_spec bs now org reply_type limit0 =
     (let key = rl_key org reply_type; aligned = time_truncate rl_window now in
      case List.find (\<lambda>b. bk_key b = key) bs of
        Some b \<Rightarrow>
          (case bucket_decide now (effective_limit limit0) (bucket_roll aligned b) of
             (ok, b') \<Rightarrow> (ok, b' # without_key bk_key key bs))
      | None \<Rightarrow>
          (case bucket_decide now (effective_limit limit0) (new_bucket key aligned) of
             (ok, b') \<Rightarrow> (ok, b' # (if rl_max_buckets \<le> length bs then butlast bs else bs))))"

lemma bucket_key_simps [simp]:
  "bk_key (bucket_roll t b) = bk_key b"
  "bk_key (new_bucket k t) = k"
  "bk_window (bucket_roll t b) = t"
  "bk_window (new_bucket k t) = t"
  "bucket_roll t (new_bucket k t') = new_bucket k t"
  by (simp_all add: bucket_roll_def new_bucket_def)

lemma bucket_decideD:
  "bucket_decide now l b = (ok, b') \<Longrightarrow> bk_key b' = bk_key b \<and> bk_window b' = bk_window b"
  unfolding bucket_decide_def Let_def by (simp split: if_split_asm) auto

lemma lru_set_move:
  "lru_set_value (lru_move_to_front st h) h v = lru_move_to_front (lru_set_value st h v) h"
  by (simp add: lru_set_value_def lru_move_to_front_def filter_map comp_def)

lemma lru_value_move: "lru_value (lru_move_to_front st h) h = lru_value st h"
proof -
  have "map_of (filter (\<lambda>e. fst e = h) xs @ ys) h =
        (case map_of xs h of None \<Rightarrow> map_of ys h | Some v \<Rightarrow> Some v)" for xs ys :: "(nat \<times> 'a) list"
    by (induction xs) auto
  moreover have "map_of (filter (\<lambda>e. fst e \<noteq> h) xs) h = None" for xs :: "(nat \<times> 'a) list"
    by (induction xs) auto
  ultimately show ?thesis by (simp add: lru_value_def lru_move_to_front_def split: option.split)
qed

lemma lru_set_pushed:
  assumes "lru_ok kf st" "lru_push_front st v = (h, st2)"
  shows "lru_set_value (index_put st2 k h) h v' = index_put (snd (lru_push_front st v')) k h"
    and "fst (lru_push_front st v') = h"
proof -
  have h: "h = lru_fresh st" using assms(2) by (simp add: lru_push_front_def)
  have "e \<in> set (lru_order st) \<Longrightarrow> fst e \<noteq> h" for e
    using lru_okD(2) [OF assms(1)] h by (cases e) fastforce
  then have "map (\<lambda>e. if fst e = h then (h, v') else e) (lru_order st) = lru_order st"
    by (simp add: map_idI)
  with assms(2) h show "lru_set_value (index_put st2 k h) h v' = index_put (snd (lru_push_front st v')) k h"
    by (auto simp: lru_push_front_def lru_set_value_def index_put_def)
  show "fst (lru_push_front st v') = h" by (simp add: h lru_push_front_def)
qed

lemma rl_evict_oldest_refines:
  assumes "lru_ok bk_key st"
  shows "lru_ok bk_key (rl_evict_oldest st)"
    and "lru_abs (rl_evict_oldest st) = butlast (lru_abs st)"
    and "lru_index st k = None \<Longrightarrow> lru_index (rl_evict_oldest st) k = None"
proof -
  have "lru_ok bk_key (rl_evict_oldest st) \<and> lru_abs (rl_evict_oldest st) = butlast (lru_abs st)
     \<and> (lru_index st k = None \<longrightarrow> lru_index (rl_evict_oldest st) k = None)"
  proof (cases "lru_back st")
    case None
    then have "lru_abs st = []" by (simp add: lru_back_def lru_abs_def split: if_splits)
    with None show ?thesis using assms by (simp add: rl_evict_oldest_def)
  next
    case (Some hb)
    then obtain h b where bck: "lru_back st = Some (h, b)" by (cases hb) auto
    note dropped = lru_drop_back [OF assms bck]
    show ?thesis
      using lru_drop [OF assms dropped(1)] dropped(2) by (simp add: rl_evict_oldest_def bck)
  qed
  then show "lru_ok bk_key (rl_evict_oldest st)"
    "lru_abs (rl_evict_oldest st) = butlast (lru_abs st)"
    "lru_index st k = None \<Longrightarrow> lru_index (rl_evict_oldest st) k = None" by auto
qed


lemma rl_allow_step:
  assumes ok: "lru_ok bk_key st"
  shows "lru_ok bk_key (snd (rl_allow st now org rt lim))"
    and "rl_allow_spec (lru_abs st) now org rt lim =
           (fst (rl_allow st now org rt lim), lru_abs (snd (rl_allow st now org rt lim)))"
proof -
  let ?key = "rl_key org rt" and ?al = "time_truncate rl_window now" and ?l = "effective_limit lim"
  have "lru_ok bk_key (snd (rl_allow st now org rt lim)) \<and>
    rl_allow_spec (lru_abs st) now org rt lim =
      (fst (rl_allow st now org rt lim), lru_abs (snd (rl_allow st now org rt lim)))"
  proof (cases "lru_index st ?key")
    case (Some h)
    then obtain b where b: "(h, b) \<in> set (lru_order st)" "bk_key b = ?key" "lru_value st h = Some b"
      "List.find (\<lambda>x. bk_key x = ?key) (lru_abs st) = Some b"
      using index_Some [OF ok] by metis
    obtain r b' where d: "bucket_decide now ?l (bucket_roll ?al b) = (r, b')" by fastforce
    then have "bk_key b' = bk_key b" by (auto dest: bucket_decideD)
    note t = lru_touch [OF ok b(1) this]
    have "rl_allow st now org rt lim = (r, lru_move_to_front (lru_set_value st h b') h)"
      by (simp add: rl_allow_def Let_def Some lru_value_move b(3) d lru_set_move)
    with t show ?thesis by (simp add: rl_allow_spec_def Let_def b(2,4) d)
  next
    case None
    define st1 where "st1 = (if rl_max_buckets \<le> lru_len st then rl_evict_oldest st else st)"
    have ok1: "lru_ok bk_key st1" and none1: "lru_index st1 ?key = None"
      and abs1: "lru_abs st1 = (if rl_max_buckets \<le> lru_len st then butlast (lru_abs st) else lru_abs st)"
      using rl_evict_oldest_refines [OF ok] ok None by (auto simp: st1_def)
    obtain r b' where d: "bucket_decide now ?l (new_bucket ?key ?al) = (r, b')" by fastforce
    then have k: "bk_key b' = ?key" by (auto dest: bucket_decideD)
    obtain h st2 where p: "lru_push_front st1 (new_bucket ?key ?al) = (h, st2)" by fastforce
    obtain st3 where p': "lru_push_front st1 b' = (h, st3)"
      using lru_set_pushed(2) [OF ok1 p] by (metis prod.collapse)
    have "rl_allow st now org rt lim = (r, index_put st3 ?key h)"
      using lru_set_pushed(1) [OF ok1 p, of ?key b'] p'
      by (simp add: rl_allow_def Let_def None st1_def [symmetric] p d)
    moreover have "List.find (\<lambda>x. bk_key x = ?key) (lru_abs st) = None"
      using None index_None [OF ok] by (force simp: find_None_iff)
    ultimately show ?thesis
      using lru_push [OF ok1 none1 [folded k] p'] by (simp add: k abs1 rl_allow_spec_def Let_def d)
  qed
  then show "lru_ok bk_key (snd (rl_allow st now org rt lim))"
    and "rl_allow_spec (lru_abs st) now org rt lim =
           (fst (rl_allow st now org rt lim), lru_abs (snd (rl_allow st now org rt lim)))" by auto
qed

lemma rl_sweep_step:
  assumes "lru_ok bk_key st"
  shows "lru_ok bk_key (rl_sweep now keys st) \<and>
    lru_abs (rl_sweep now keys st) =
      filter (\<lambda>b. \<not> (bk_key b \<in> set keys \<and> rl_grace \<le> time_sub now (bk_window b))) (lru_abs st)"
  using assms
proof (induction keys arbitrary: st)
  case (Cons k keys)
  show ?case
  proof (cases "lru_index st k")
    case None
    then have "k \<notin> bk_key ` set (lru_abs st)" using index_None [OF Cons.prems] by simp
    with Cons.IH [OF Cons.prems] None show ?thesis by (auto intro!: filter_cong)
  next
    case (Some h)
    then obtain b where b: "(h, b) \<in> set (lru_order st)" "bk_key b = k" "lru_value st h = Some b"
      "List.find (\<lambda>x. bk_key x = k) (lru_abs st) = Some b"
      using index_Some [OF Cons.prems] by metis
    have uniq: "x = b" if "x \<in> set (lru_abs st)" "bk_key x = k" for x
      using find_distinct_key [OF lru_ok_distinct_keys [OF Cons.prems] that(1)] that(2) b(4) by simp
    show ?thesis
    proof (cases "rl_grace \<le> time_sub now (bk_window b)")
      case True
      note d = lru_drop [OF Cons.prems b(1), unfolded b(2)]
      show ?thesis
        using Cons.IH [OF d(1)] uniq b True Some
        by (auto simp: d(2) without_key_def intro!: filter_cong)
    next
      case False
      then show ?thesis using Cons.IH [OF Cons.prems] uniq b Some by (auto intro!: filter_cong)
    qed
  qed
qed simp

section \<open>One bucket over time\<close>

text \<open>The admitted instants of a key whose calls come at the instants of a list.\<close>

definition bucket_call :: "int64 \<Rightarrow> gotime list \<times> bucket \<Rightarrow> gotime \<Rightarrow> gotime list \<times> bucket" where
  "bucket_call limit s t =
     (case bucket_decide t limit (bucket_roll (time_truncate rl_window t) (snd s)) of
        (ok, b') \<Rightarrow> (if ok then fst s @ [t] else fst s, b'))"

definition bucket_run :: "int64 \<Rightarrow> bucket \<Rightarrow> gotime list \<Rightarrow> gotime list \<times> bucket" where
  "bucket_run limit b ts = foldl (bucket_call limit) ([], b) ts"

text \<open>Admitted calls of the aligned window that starts at \<open>w\<close>, and of the window of \<open>t\<close> until \<open>t\<close>.\<close>

definition in_window :: "gotime list \<Rightarrow> gotime \<Rightarrow> int" where
  "in_window ts w = int (length (filter (\<lambda>x. time_truncate rl_window x = w) ts))"

definition in_window_until :: "gotime list \<Rightarrow> gotime \<Rightarrow> int" where
  "in_window_until ts t =
     int (length (filter (\<lambda>x. time_truncate rl_window x = time_truncate rl_window t \<and> x \<le> t) ts))"

lemma truncate_window:
  "time_truncate rl_window t \<le> t" "t < time_truncate rl_window t + rl_window"
  "minute dvd time_truncate rl_window t"
  by (simp_all add: rl_window_def time_truncate_minute)

lemma truncate_mono: "s \<le> t \<Longrightarrow> time_truncate rl_window s \<le> time_truncate rl_window t"
proof -
  assume "s \<le> t"
  then have "minute * (s div minute) \<le> minute * (t div minute)"
    by (intro mult_left_mono zdiv_mono1) auto
  then show ?thesis by (simp add: rl_window_def time_truncate_minute minus_mod_eq_mult_div)
qed

lemma truncate_next:
  assumes "time_truncate rl_window s < time_truncate rl_window t"
  shows "time_truncate rl_window s + rl_window \<le> time_truncate rl_window t"
proof -
  have "minute dvd time_truncate rl_window t - time_truncate rl_window s"
    by (intro dvd_diff truncate_window)
  with assms show ?thesis using zdvd_imp_le by (fastforce simp: rl_window_def)
qed

lemma bucket_decide_exact:
  assumes "0 \<le> c" "c \<le> L" "0 \<le> p" "p \<le> L" "0 < L" "L \<le> 76861432"
    and "bk_count b = word_of_int c" "bk_prev b = word_of_int p"
    and e: "0 \<le> now - bk_window b" "now - bk_window b < rl_window"
  shows "bucket_decide now (word_of_int L) b =
    (if L * minute < c * minute + p * (minute - (now - bk_window b)) + minute
     then (False, b) else (True, b\<lparr>bk_count := word_of_int (c + 1)\<rparr>))"
proof -
  let ?e = "now - bk_window b"
  have sub: "time_sub now (bk_window b) = ?e"
    using e by (simp add: time_sub_def rl_window_def)
  have "0 \<le> p * (minute - ?e)" using assms(3) e by (simp add: rl_window_def)
  moreover have "p * (minute - ?e) \<le> 76861432 * minute"
    using assms(3,4,6) e by (intro mult_mono) (auto simp: rl_window_def)
  moreover have "c * minute \<le> 76861432 * minute" "0 \<le> c * minute" using assms(1,2,6) by auto
  ultimately have r: "0 \<le> c * minute + p * (minute - ?e) + minute"
    "c * minute + p * (minute - ?e) + minute < 2 ^ 63" by simp_all
  have "sint (word_of_int (c * minute + p * (minute - ?e) + minute) :: int64) =
      c * minute + p * (minute - ?e) + minute"
    using r by (intro sint_of_int64) auto
  moreover have "sint (word_of_int (L * minute) :: int64) = L * minute"
    using assms(5,6) by (intro sint_of_int64) auto
  ultimately show ?thesis
    using e by (simp add: bucket_decide_def Let_def sub assms(7,8) rl_window_def)
qed

definition bucket_trace_ok :: "int \<Rightarrow> gotime \<Rightarrow> gotime list \<times> bucket \<Rightarrow> bool" where
  "bucket_trace_ok L now s \<longleftrightarrow>
     bk_window (snd s) = time_truncate rl_window now
   \<and> (\<forall>x \<in> set (fst s). x \<le> now)
   \<and> bk_count (snd s) = word_of_int (in_window (fst s) (time_truncate rl_window now))
   \<and> bk_prev (snd s) = word_of_int (in_window (fst s) (time_truncate rl_window now - rl_window))
   \<and> (\<forall>w. in_window (fst s) w \<le> L)
   \<and> (\<forall>t \<in> set (fst s). rl_window * (in_window_until (fst s) t
           + in_window (fst s) (time_truncate rl_window t - rl_window))
         \<le> L * rl_window + in_window (fst s) (time_truncate rl_window t - rl_window)
             * (t - time_truncate rl_window t))"

lemma in_window_nonneg [simp]: "0 \<le> in_window ts w"
  by (simp add: in_window_def)

lemma in_window_snoc:
  "in_window (ts @ [t]) w = in_window ts w + (if time_truncate rl_window t = w then 1 else 0)"
  by (simp add: in_window_def)

lemma in_window_later:
  assumes "\<forall>x \<in> set ts. x \<le> now" "time_truncate rl_window now < w"
  shows "in_window ts w = 0"
proof -
  have "time_truncate rl_window x \<noteq> w" if "x \<in> set ts" for x
    using truncate_mono [of x now] assms that by fastforce
  then show ?thesis by (simp add: in_window_def filter_empty_conv)
qed

lemma in_window_until_last:
  "\<forall>x \<in> set ts. x \<le> t \<Longrightarrow> in_window_until ts t = in_window ts (time_truncate rl_window t)"
  unfolding in_window_until_def in_window_def
  by (metis (mono_tags, lifting) filter_cong)

lemma in_window_until_snoc:
  "in_window_until (ts @ [t]) x = in_window_until ts x
     + (if time_truncate rl_window t = time_truncate rl_window x \<and> t \<le> x then 1 else 0)"
  by (simp add: in_window_until_def)

lemma bucket_roll_trace:
  assumes inv: "bucket_trace_ok L now (adm, b)" and le: "now \<le> t" "t - now < 2 ^ 62"
  shows "bucket_trace_ok L t (adm, bucket_roll (time_truncate rl_window t) b)"
proof -
  let ?w = "time_truncate rl_window now" and ?w' = "time_truncate rl_window t"
  have old: "\<forall>x \<in> set adm. x \<le> now" using inv by (simp add: bucket_trace_ok_def)
  have w: "?w \<le> ?w'" using truncate_mono [OF le(1)] .
  have sub: "time_sub ?w' ?w = ?w' - ?w"
    using w le truncate_window [of t] truncate_window [of now] 
    by (simp add: time_sub_def rl_window_def)
  consider (same) "?w' = ?w" | (adjacent) "?w' = ?w + rl_window" | (later) "?w + rl_window < ?w'"
    using w truncate_next [of now t] by fastforce
  then show ?thesis
  proof cases
    case same
    with inv le old show ?thesis by (auto simp: bucket_trace_ok_def bucket_roll_def)
  next
    case adjacent
    have "in_window adm ?w' = 0" using in_window_later [OF old] adjacent by (simp add: rl_window_def)
    with inv le old adjacent sub show ?thesis
      by (auto simp: bucket_trace_ok_def bucket_roll_def rl_window_def)
  next
    case later
    have "in_window adm ?w' = 0" "in_window adm (?w' - rl_window) = 0"
      using in_window_later [OF old] later by (simp_all add: rl_window_def)
    with inv le old later sub show ?thesis
      by (auto simp: bucket_trace_ok_def bucket_roll_def rl_window_def)
  qed
qed

lemma bucket_call_trace:
  assumes inv: "bucket_trace_ok L now s" and le: "now \<le> t" "t - now < 2 ^ 62"
    and L: "0 < L" "L \<le> 76861432"
  shows "bucket_trace_ok L t (bucket_call (word_of_int L) s t)"
proof -
  obtain adm b where s: "s = (adm, b)" by fastforce
  let ?w = "time_truncate rl_window t" and ?b = "bucket_roll (time_truncate rl_window t) b"
  have rolled: "bucket_trace_ok L t (adm, ?b)" using bucket_roll_trace inv le s by blast
  then have w: "bk_window ?b = ?w" and old: "\<forall>x \<in> set adm. x \<le> t"
    and c: "bk_count ?b = word_of_int (in_window adm ?w)"
    and p: "bk_prev ?b = word_of_int (in_window adm (?w - rl_window))"
    and cap: "\<And>w. in_window adm w \<le> L"
    and bound: "\<And>x. x \<in> set adm \<Longrightarrow> rl_window * (in_window_until adm x
           + in_window adm (time_truncate rl_window x - rl_window))
         \<le> L * rl_window + in_window adm (time_truncate rl_window x - rl_window)
             * (x - time_truncate rl_window x)"
    by (auto simp: bucket_trace_ok_def)
  let ?c = "in_window adm ?w" and ?p = "in_window adm (?w - rl_window)"
  have dec: "bucket_decide t (word_of_int L) ?b =
    (if L * minute < ?c * minute + ?p * (minute - (t - ?w)) + minute
     then (False, ?b) else (True, ?b\<lparr>bk_count := word_of_int (?c + 1)\<rparr>))"
    using bucket_decide_exact [of ?c L ?p ?b t] cap L c p truncate_window [of t] by (simp add: w)
  show ?thesis
  proof (cases "L * minute < ?c * minute + ?p * (minute - (t - ?w)) + minute")
    case True
    with dec rolled s show ?thesis by (simp add: bucket_call_def)
  next
    case False
    then have adm: "minute * (?c + 1 + ?p) \<le> L * minute + ?p * (t - ?w)"
      by (simp add: algebra_simps)
    have pos: "0 \<le> ?p * (minute - (t - ?w))"
      using truncate_window [of t] by (simp add: rl_window_def)
    with False have one: "?c + 1 \<le> L" by (simp add: algebra_simps)
    have "in_window_until (adm @ [t]) t = ?c + 1"
      using in_window_until_last [OF old] by (simp add: in_window_until_snoc)
    with adm have new: "rl_window * (in_window_until (adm @ [t]) t + in_window (adm @ [t]) (?w - rl_window))
       \<le> L * rl_window + in_window (adm @ [t]) (?w - rl_window) * (t - ?w)"
      by (simp add: in_window_snoc rl_window_def)
    have before: "rl_window * (in_window_until (adm @ [t]) x
           + in_window (adm @ [t]) (time_truncate rl_window x - rl_window))
         \<le> L * rl_window + in_window (adm @ [t]) (time_truncate rl_window x - rl_window)
             * (x - time_truncate rl_window x)" if x: "x \<in> set adm" for x
    proof (cases "x = t")
      case True
      with new show ?thesis by simp
    next
      case False
      with old x have "x < t" by fastforce
      then have "in_window_until (adm @ [t]) x = in_window_until adm x"
        and "in_window (adm @ [t]) (time_truncate rl_window x - rl_window) =
             in_window adm (time_truncate rl_window x - rl_window)"
        using truncate_mono [of x t] by (auto simp: in_window_until_snoc in_window_snoc rl_window_def)
      with bound [OF x] show ?thesis by simp
    qed
    have "in_window (adm @ [t]) w \<le> L" for w
      using cap [of w] one by (auto simp: in_window_snoc)
    with new before old w p False dec s show ?thesis
      by (simp add: bucket_call_def bucket_trace_ok_def in_window_snoc) (simp add: rl_window_def)
  qed
qed

section \<open>The whole limiter over time\<close>

datatype rl_op = RlAllow gotime string string int64 | RlSweep gotime "string list"

fun op_time :: "rl_op \<Rightarrow> gotime" where
  "op_time (RlAllow t org rt lim) = t"
| "op_time (RlSweep t keys) = t"

fun op_keys :: "rl_op \<Rightarrow> string set" where
  "op_keys (RlAllow t org rt lim) = {rl_key org rt}"
| "op_keys (RlSweep t keys) = {}"

text \<open>A step appends the key and the instant of an admitted call.\<close>

fun rl_step :: "(string \<times> gotime) list \<times> bucket lru \<Rightarrow> rl_op \<Rightarrow> (string \<times> gotime) list \<times> bucket lru" where
  "rl_step (adm, st) (RlAllow t org rt lim) =
     (case rl_allow st t org rt lim of
        (ok, st') \<Rightarrow> (if ok then adm @ [(rl_key org rt, t)] else adm, st'))"
| "rl_step (adm, st) (RlSweep t keys) = (adm, rl_sweep t keys st)"

definition rl_exec :: "rl_op list \<Rightarrow> (string \<times> gotime) list \<times> bucket lru" where
  "rl_exec ops = foldl rl_step ([], lru_new) ops"

definition admitted :: "string \<Rightarrow> (string \<times> gotime) list \<Rightarrow> gotime list" where
  "admitted k adm = map snd (filter (\<lambda>e. fst e = k) adm)"

fun rl_step_spec :: "(string \<times> gotime) list \<times> bucket list \<Rightarrow> rl_op \<Rightarrow> (string \<times> gotime) list \<times> bucket list" where
  "rl_step_spec (adm, bs) (RlAllow t org rt lim) =
     (case rl_allow_spec bs t org rt lim of
        (ok, bs') \<Rightarrow> (if ok then adm @ [(rl_key org rt, t)] else adm, bs'))"
| "rl_step_spec (adm, bs) (RlSweep t keys) =
     (adm, filter (\<lambda>b. \<not> (bk_key b \<in> set keys \<and> rl_grace \<le> time_sub t (bk_window b))) bs)"

definition rl_exec_spec :: "rl_op list \<Rightarrow> (string \<times> gotime) list \<times> bucket list" where
  "rl_exec_spec ops = foldl rl_step_spec ([], []) ops"

lemma rl_step_refines:
  assumes "lru_ok bk_key st"
  shows "lru_ok bk_key (snd (rl_step (adm, st) p))"
    and "rl_step_spec (adm, lru_abs st) p = map_prod id lru_abs (rl_step (adm, st) p)"
proof -
  have "lru_ok bk_key (snd (rl_step (adm, st) p)) \<and>
    rl_step_spec (adm, lru_abs st) p = map_prod id lru_abs (rl_step (adm, st) p)"
  proof (cases p)
    case (RlAllow t org rt lim)
    show ?thesis
      using rl_allow_step [OF assms, of t org rt lim]
      by (cases "rl_allow st t org rt lim") (simp add: RlAllow)
  next
    case (RlSweep t keys)
    show ?thesis using rl_sweep_step [OF assms, of t keys] by (simp add: RlSweep)
  qed
  then show "lru_ok bk_key (snd (rl_step (adm, st) p))"
    and "rl_step_spec (adm, lru_abs st) p = map_prod id lru_abs (rl_step (adm, st) p)" by auto
qed

lemma rl_exec_simulates:
  "lru_ok bk_key (snd (rl_exec ops)) \<and> rl_exec_spec ops = map_prod id lru_abs (rl_exec ops)"
proof (induction ops rule: rev_induct)
  case Nil
  then show ?case by (simp add: rl_exec_def rl_exec_spec_def lru_new_ok)
next
  case (snoc p ops)
  obtain adm st where e: "rl_exec ops = (adm, st)" by fastforce
  have "rl_exec (ops @ [p]) = rl_step (adm, st) p" and
    "rl_exec_spec (ops @ [p]) = rl_step_spec (rl_exec_spec ops) p"
    using e by (simp_all add: rl_exec_def rl_exec_spec_def)
  with snoc e rl_step_refines [of st adm p] show ?case by (simp add: id_def)
qed

lemma rl_step_spec_length:
  "length bs \<le> rl_max_buckets \<Longrightarrow> length (snd (rl_step_spec (adm, bs) p)) \<le> rl_max_buckets"
proof (cases p)
  case (RlSweep t keys)
  assume "length bs \<le> rl_max_buckets"
  then show ?thesis using order_trans [OF length_filter_le] by (simp add: RlSweep)
next
  case (RlAllow t org rt lim)
  assume len: "length bs \<le> rl_max_buckets"
  show ?thesis
  proof (cases "List.find (\<lambda>b. bk_key b = rl_key org rt) bs")
    case None
    with len show ?thesis
      by (simp add: RlAllow rl_allow_spec_def Let_def rl_max_buckets_def split: prod.split)
  next
    case (Some b)
    then have "b \<in> set bs \<and> bk_key b = rl_key org rt" by (rule find_SomeD)
    then have "length (without_key bk_key (rl_key org rt) bs) < length bs"
      unfolding without_key_def by (intro length_filter_less [of b]) auto
    with Some len show ?thesis
      by (simp add: RlAllow rl_allow_spec_def Let_def split: prod.split)
  qed
qed

lemma rl_step_spec_length':
  "length (snd s) \<le> rl_max_buckets \<Longrightarrow> length (snd (rl_step_spec s p)) \<le> rl_max_buckets"
  by (cases s) (simp add: rl_step_spec_length)

text \<open>What the limiter knows of a key: its bucket, or that a fresh one would do.\<close>

definition key_bucket :: "string \<Rightarrow> gotime \<Rightarrow> bucket list \<Rightarrow> bucket" where
  "key_bucket k now bs =
     (case List.find (\<lambda>b. bk_key b = k) bs of
        Some b \<Rightarrow> bucket_roll (time_truncate rl_window now) b
      | None \<Rightarrow> new_bucket k (time_truncate rl_window now))"

definition key_inv :: "int \<Rightarrow> string \<Rightarrow> gotime \<Rightarrow> (string \<times> gotime) list \<times> bucket list \<Rightarrow> bool" where
  "key_inv L k now s \<longleftrightarrow> bucket_trace_ok L now (admitted k (fst s), key_bucket k now (snd s))"

lemma bucket_roll_twice:
  assumes "bk_window b \<le> v" "v \<le> w" "w - bk_window b < 2 ^ 62" "minute dvd v - bk_window b" "minute dvd w - v"
  shows "bucket_roll w (bucket_roll v b) = bucket_roll w b"
proof -
  have "v = bk_window b \<or> bk_window b + minute \<le> v"
    using assms(1,4) zdvd_imp_le [of minute "v - bk_window b"] by linarith
  moreover have "w = v \<or> v + minute \<le> w"
    using assms(2,5) zdvd_imp_le [of minute "w - v"] by linarith
  moreover have "time_sub v (bk_window b) = v - bk_window b" "time_sub w v = w - v"
    "time_sub w (bk_window b) = w - bk_window b"
    using assms(1-3) by (simp_all add: time_sub_def)
  ultimately show ?thesis
    using assms(1,2) by (cases "v = bk_window b"; cases "w = v") (auto simp: bucket_roll_def rl_window_def)
qed

definition windows_ok :: "gotime \<Rightarrow> gotime \<Rightarrow> bucket list \<Rightarrow> bool" where
  "windows_ok first now bs \<longleftrightarrow>
     distinct (map bk_key bs)
   \<and> (\<forall>b \<in> set bs. minute dvd bk_window b \<and> time_truncate rl_window first \<le> bk_window b
        \<and> bk_window b \<le> time_truncate rl_window now)"

lemma bucket_roll_same: "bk_window b = w \<Longrightarrow> bucket_roll w b = b"
  by (simp add: bucket_roll_def)

lemma key_bucket_window [simp]: "bk_window (key_bucket k t bs) = time_truncate rl_window t"
  by (simp add: key_bucket_def split: option.split)

lemma windows_ok_step:
  assumes "windows_ok first now bs" "first \<le> now" "now \<le> op_time p"
  shows "windows_ok first (op_time p) (snd (rl_step_spec (adm, bs) p))"
proof -
  have m: "time_truncate rl_window now \<le> time_truncate rl_window (op_time p)"
    "time_truncate rl_window first \<le> time_truncate rl_window (op_time p)"
    using truncate_mono assms(2,3) by (auto intro: order_trans)
  have d: "distinct (map bk_key bs)" and b: "\<And>x. x \<in> set bs \<Longrightarrow> minute dvd bk_window x \<and>
      time_truncate rl_window first \<le> bk_window x \<and> bk_window x \<le> time_truncate rl_window (op_time p)"
    using assms(1) m(1) by (auto simp: windows_ok_def intro: order_trans)
  show ?thesis
  proof (cases p)
    case (RlSweep t keys)
    then show ?thesis using b d by (auto simp: windows_ok_def distinct_map_filter)
  next
    case (RlAllow t org rt lim)
    let ?k = "rl_key org rt" and ?w = "time_truncate rl_window t"
    show ?thesis
    proof (cases "List.find (\<lambda>b. bk_key b = ?k) bs")
      case None
      obtain r b' where dec: "bucket_decide t (effective_limit lim) (new_bucket ?k ?w) = (r, b')" by fastforce
      have "?k \<notin> bk_key ` set bs" using None by (auto simp: find_None_iff)
      moreover have "x \<in> set (butlast bs) \<Longrightarrow> x \<in> set bs" for x by (rule in_set_butlastD)
      moreover have "bk_key b' = ?k" "bk_window b' = ?w" using dec by (auto dest: bucket_decideD)
      moreover have "snd (rl_step_spec (adm, bs) p) =
          b' # (if rl_max_buckets \<le> length bs then butlast bs else bs)"
        using None dec by (simp add: RlAllow rl_allow_spec_def Let_def)
      ultimately show ?thesis
        using b d m truncate_window(3) [of t]
        by (auto simp: windows_ok_def RlAllow map_butlast distinct_butlast)
    next
      case (Some x)
      obtain r b' where dec: "bucket_decide t (effective_limit lim) (bucket_roll ?w x) = (r, b')" by fastforce
      have "bk_key x = ?k" using find_SomeD [OF Some] by simp
      with dec have b': "bk_key b' = ?k" "bk_window b' = ?w" by (auto dest: bucket_decideD)
      have "snd (rl_step_spec (adm, bs) p) = b' # without_key bk_key ?k bs"
        using Some dec by (simp add: RlAllow rl_allow_spec_def Let_def)
      moreover have "distinct (map bk_key (b' # without_key bk_key ?k bs))"
        using d b'(1) by (auto simp: without_key_def distinct_map_filter)
      moreover have "\<forall>y \<in> set (b' # without_key bk_key ?k bs). minute dvd bk_window y
          \<and> time_truncate rl_window first \<le> bk_window y \<and> bk_window y \<le> time_truncate rl_window (op_time p)"
        using b b'(2) m(2) truncate_window(3) [of t] by (simp add: RlAllow without_key_def)
      ultimately show ?thesis by (simp only: windows_ok_def)
    qed
  qed
qed

lemma key_inv_advance:
  assumes inv: "key_inv L k now s" and w: "windows_ok first now (snd s)"
    and t: "first \<le> now" "now \<le> t" "t - first < 2 ^ 61"
  shows "key_inv L k t s"
proof -
  have "bucket_trace_ok L t (admitted k (fst s), bucket_roll (time_truncate rl_window t) (key_bucket k now (snd s)))"
    using inv t by (intro bucket_roll_trace) (auto simp: key_inv_def)
  moreover have "bucket_roll (time_truncate rl_window t) (key_bucket k now (snd s)) = key_bucket k t (snd s)"
  proof (cases "List.find (\<lambda>b. bk_key b = k) (snd s)")
    case None
    then show ?thesis by (simp add: key_bucket_def)
  next
    case (Some b)
    then have "b \<in> set (snd s)" using find_SomeD by fast
    with w have b: "minute dvd bk_window b" "time_truncate rl_window first \<le> bk_window b"
      "bk_window b \<le> time_truncate rl_window now" by (auto simp: windows_ok_def)
    have "bucket_roll (time_truncate rl_window t) (bucket_roll (time_truncate rl_window now) b) =
          bucket_roll (time_truncate rl_window t) b"
    proof (rule bucket_roll_twice)
      show "time_truncate rl_window t - bk_window b < 2 ^ 62"
        using b(2) t(3) truncate_window(1) [of t] truncate_window(2) [of first]
        by (simp add: rl_window_def)
    qed (use b t truncate_mono [of now t] truncate_window(3) in \<open>auto intro!: dvd_diff\<close>)
    with Some show ?thesis by (simp add: key_bucket_def)
  qed
  ultimately show ?thesis by (simp add: key_inv_def)
qed

lemma admitted_snoc [simp]:
  "admitted k (adm @ [(k', t)]) = admitted k adm @ (if k' = k then [t] else [])"
  by (simp add: admitted_def)

lemma find_without_key: "k \<noteq> k' \<Longrightarrow>
  List.find (\<lambda>b. kf b = k) (without_key kf k' bs) = List.find (\<lambda>b. kf b = k) bs"
  by (induction bs) (auto simp: without_key_def)

lemma find_filter_key:
  "distinct (map kf bs) \<Longrightarrow> List.find (\<lambda>b. kf b = k) (filter q bs) =
     (case List.find (\<lambda>b. kf b = k) bs of None \<Rightarrow> None | Some b \<Rightarrow> if q b then Some b else None)"
proof (induction bs)
  case (Cons b bs)
  have "List.find (\<lambda>x. kf x = kf b) bs = None" using Cons.prems by (auto simp: find_None_iff image_iff)
  with Cons show ?case by (auto split: option.splits)
qed simp

lemma key_bucket_step:
  assumes w: "windows_ok first (op_time p) bs" and room: "\<And>k. op_keys p = {k} \<Longrightarrow> k \<notin> bk_key ` set bs \<Longrightarrow> length bs < rl_max_buckets"
    and lim: "\<And>t org rt lim. p = RlAllow t org rt lim \<Longrightarrow> rl_key org rt = k \<Longrightarrow> effective_limit lim = l"
    and "rl_step_spec (adm, bs) p = (adm', bs')"
  shows "(admitted k adm', key_bucket k (op_time p) bs') =
    (if op_keys p = {k} then bucket_call l (admitted k adm, key_bucket k (op_time p) bs) (op_time p)
     else (admitted k adm, key_bucket k (op_time p) bs))"
proof (cases p)
  case (RlSweep t keys)
  have d: "distinct (map bk_key bs)" using w by (simp add: windows_ok_def)
  have "key_bucket k t bs' = key_bucket k t bs"
  proof (cases "List.find (\<lambda>b. bk_key b = k) bs")
    case None
    with d assms(4) show ?thesis by (auto simp: RlSweep key_bucket_def find_filter_key)
  next
    case (Some b)
    then have b: "b \<in> set bs" "bk_key b = k" using find_SomeD by fastforce+
    with w have win: "minute dvd bk_window b" "bk_window b \<le> time_truncate rl_window t"
      by (auto simp: windows_ok_def RlSweep)
    have "bucket_roll (time_truncate rl_window t) b = new_bucket k (time_truncate rl_window t)"
      if old: "rl_grace \<le> time_sub t (bk_window b)"
    proof -
      have "bk_window b + 2 * minute \<le> t" using old by (simp add: rl_grace_def rl_window_def time_sub_def)
      moreover have "time_truncate rl_window (bk_window b + 2 * minute) = bk_window b + 2 * minute"
        using win(1) by (simp add: rl_window_def time_truncate_minute)
      ultimately have "bk_window b + 2 * minute \<le> time_truncate rl_window t"
        using truncate_mono by metis
      then have "bk_window b \<noteq> time_truncate rl_window t"
        and "time_sub (time_truncate rl_window t) (bk_window b) \<noteq> rl_window"
        by (simp_all add: time_sub_def rl_window_def)
      then show ?thesis
        using b(2) by (cases b) (simp add: bucket_roll_def new_bucket_def)
    qed
    with Some d assms(4) show ?thesis by (auto simp: RlSweep key_bucket_def find_filter_key)
  qed
  with assms(4) show ?thesis by (auto simp: RlSweep)
next
  case (RlAllow t org rt li)
  let ?k = "rl_key org rt" and ?w = "time_truncate rl_window t"
  let ?b = "case List.find (\<lambda>b. bk_key b = ?k) bs of Some b \<Rightarrow> bucket_roll ?w b | None \<Rightarrow> new_bucket ?k ?w"
  have kb: "?b = key_bucket ?k t bs" by (simp add: key_bucket_def)
  have kk: "bk_key ?b = ?k" using find_SomeD by (fastforce split: option.split)
  obtain r b' where dec: "bucket_decide t (effective_limit li) ?b = (r, b')" by fastforce
  then have b': "bk_key b' = ?k" "bk_window b' = ?w" using kk by (auto simp: kb dest!: bucket_decideD)
  have room': "List.find (\<lambda>b. bk_key b = ?k) bs = None \<Longrightarrow> length bs < rl_max_buckets"
    using room [of ?k] by (force simp: RlAllow find_None_iff)
  have st: "rl_allow_spec bs t org rt li = (r, b' # without_key bk_key ?k bs)"
  proof (cases "List.find (\<lambda>b. bk_key b = ?k) bs")
    case None
    then have "without_key bk_key ?k bs = bs" by (auto simp: find_None_iff without_key_def filter_id_conv)
    then show ?thesis using None dec room' by (simp add: rl_allow_spec_def Let_def)
  next
    case (Some b)
    then show ?thesis using dec by (simp add: rl_allow_spec_def Let_def)
  qed
  with assms(4) have r: "adm' = (if r then adm @ [(?k, t)] else adm)" "bs' = b' # without_key bk_key ?k bs"
    by (auto simp: RlAllow)
  show ?thesis
  proof (cases "k = ?k")
    case True
    then have "effective_limit li = l" using lim RlAllow by simp
    then show ?thesis
      using dec b' True by (simp add: RlAllow r kb key_bucket_def [of _ _ "b' # _"] bucket_call_def
          bucket_roll_same)
  next
    case False
    then show ?thesis using b' by (simp add: RlAllow r key_bucket_def find_without_key)
  qed
qed

lemma windows_ok_advance:
  "windows_ok first now bs \<Longrightarrow> now \<le> t \<Longrightarrow> windows_ok first t bs"
  unfolding windows_ok_def using truncate_mono order_trans by blast

lemma key_inv_step:
  assumes inv: "key_inv L k now s" and w: "windows_ok first now (snd s)"
    and t: "first \<le> now" "now \<le> op_time p" "op_time p - first < 2 ^ 61"
    and room: "\<And>k. op_keys p = {k} \<Longrightarrow> k \<notin> bk_key ` set (snd s) \<Longrightarrow> length (snd s) < rl_max_buckets"
    and lim: "\<And>t org rt lim. p = RlAllow t org rt lim \<Longrightarrow> rl_key org rt = k \<Longrightarrow> effective_limit lim = word_of_int L"
    and L: "0 < L" "L \<le> 76861432"
  shows "key_inv L k (op_time p) (rl_step_spec s p)"
proof -
  obtain adm bs where s: "s = (adm, bs)" by fastforce
  obtain adm' bs' where s': "rl_step_spec (adm, bs) p = (adm', bs')" by fastforce
  have "bucket_trace_ok L (op_time p) (admitted k adm, key_bucket k (op_time p) bs)"
    using key_inv_advance [OF inv w t] by (simp add: key_inv_def s)
  moreover from this have "bucket_trace_ok L (op_time p)
      (bucket_call (word_of_int L) (admitted k adm, key_bucket k (op_time p) bs) (op_time p))"
    by (rule bucket_call_trace) (use L in auto)
  moreover have "windows_ok first (op_time p) bs" using windows_ok_advance w t(2) s by simp
  note key_bucket_step [OF this _ lim s']
  ultimately show ?thesis
    using room by (simp add: key_inv_def s s')
qed

lemma rl_step_spec_keys:
  "bk_key ` set (snd (rl_step_spec (adm, bs) p)) \<subseteq> bk_key ` set bs \<union> op_keys p"
proof (cases p)
  case (RlAllow t org rt lim)
  let ?b = "case List.find (\<lambda>b. bk_key b = rl_key org rt) bs of
      Some b \<Rightarrow> bucket_roll (time_truncate rl_window t) b
    | None \<Rightarrow> new_bucket (rl_key org rt) (time_truncate rl_window t)"
  have kk: "bk_key ?b = rl_key org rt" using find_SomeD by (fastforce split: option.split)
  obtain r b' where dec: "bucket_decide t (effective_limit lim) ?b = (r, b')" by fastforce
  with kk have "bk_key b' = rl_key org rt" by (auto dest: bucket_decideD)
  with dec show ?thesis
    by (cases "List.find (\<lambda>b. bk_key b = rl_key org rt) bs")
      (auto simp: RlAllow rl_allow_spec_def Let_def without_key_def dest: in_set_butlastD)
qed auto

lemma rl_exec_spec_inv:
  assumes sorted: "sorted (first # map op_time ops)"
    and span: "\<forall>p \<in> set ops. op_time p - first < 2 ^ 61"
    and keys: "finite K" "card K \<le> rl_max_buckets" "\<forall>p \<in> set ops. op_keys p \<subseteq> K"
    and lim: "\<forall>t org rt lim. RlAllow t org rt lim \<in> set ops \<longrightarrow> rl_key org rt = k \<longrightarrow>
      effective_limit lim = word_of_int L"
    and L: "0 < L" "L \<le> 76861432"
  shows "key_inv L k (last (first # map op_time ops)) (rl_exec_spec ops)
    \<and> windows_ok first (last (first # map op_time ops)) (snd (rl_exec_spec ops))
    \<and> bk_key ` set (snd (rl_exec_spec ops)) \<subseteq> K"
  using sorted span keys(3) lim
proof (induction ops rule: rev_induct)
  case Nil
  have "in_window [] w = 0" for w by (simp add: in_window_def)
  then show ?case
    using L by (simp add: rl_exec_spec_def key_inv_def bucket_trace_ok_def admitted_def key_bucket_def
        windows_ok_def) (simp add: new_bucket_def)
next
  case (snoc p ops)
  define now where "now = last (first # map op_time ops)"
  define s where "s = rl_exec_spec ops"
  have srt: "sorted (first # map op_time ops)"
    using snoc.prems(1) by (metis append_Cons map_append sorted_append)
  have IH: "key_inv L k now s" "windows_ok first now (snd s)" "bk_key ` set (snd s) \<subseteq> K"
    using snoc.IH [OF srt] snoc.prems(2-4) by (auto simp: now_def s_def)
  have "now \<in> set (first # map op_time ops)" unfolding now_def by (rule last_in_set) simp
  then have t: "first \<le> now" "now \<le> op_time p"
    using snoc.prems(1) by (auto simp: sorted_append)
  have span: "op_time p - first < 2 ^ 61" using snoc.prems(2) by simp
  have dist: "distinct (map bk_key (snd s))" using IH(2) by (simp add: windows_ok_def)
  have room: "length (snd s) < rl_max_buckets" if "op_keys p = {x}" "x \<notin> bk_key ` set (snd s)" for x
  proof -
    have "insert x (bk_key ` set (snd s)) \<subseteq> K" using IH(3) snoc.prems(3) that by simp
    then have "card (insert x (bk_key ` set (snd s))) \<le> rl_max_buckets"
      using card_mono [OF keys(1)] keys(2) by (meson le_trans)
    moreover have "card (bk_key ` set (snd s)) = length (snd s)"
      using distinct_card [OF dist] by simp
    ultimately show ?thesis using that(2) by simp
  qed
  have step: "rl_exec_spec (ops @ [p]) = rl_step_spec s p" by (simp add: rl_exec_spec_def s_def)
  have "key_inv L k (op_time p) (rl_step_spec s p)"
    using key_inv_step [OF IH(1,2) t span room _ L] snoc.prems(4) by fastforce
  moreover have "windows_ok first (op_time p) (snd (rl_step_spec s p))"
    using windows_ok_step [OF IH(2) t, of "fst s"] by simp
  moreover have "bk_key ` set (snd (rl_step_spec s p)) \<subseteq> K"
    using rl_step_spec_keys [of "fst s" "snd s" p] IH(3) snoc.prems(3) by auto
  ultimately show ?case by (simp add: step)
qed

section \<open>Properties\<close>

text \<open>
  C3: The limiter behaves as one list of buckets with distinct keys, most recently used first: after
  any sequence of \<open>Allow\<close> calls and sweeps, in any map-iteration order, the map and the
  linked list agree with each other and with the ordered-list specification, the verdicts are the
  same, and the number of buckets never exceeds the cap.
\<close>

theorem rate_limiter_refines:
  "fst (rl_exec ops) = fst (rl_exec_spec ops)
   \<and> lru_abs (snd (rl_exec ops)) = snd (rl_exec_spec ops)
   \<and> lru_ok bk_key (snd (rl_exec ops))
   \<and> lru_len (snd (rl_exec ops)) \<le> rl_max_buckets"
proof -
  have "length (snd (rl_exec_spec ops)) \<le> rl_max_buckets"
    by (induction ops rule: rev_induct)
      (auto simp: rl_exec_spec_def intro: rl_step_spec_length')
  with rl_exec_simulates [of ops] show ?thesis by simp
qed


definition sample_calls :: "rl_op list" where
  "sample_calls = [RlAllow 59000000000 ''o'' ''t'' 1, RlAllow 61000000000 ''o'' ''t'' 1]"


text \<open>
  The scaled comparison overflows for very large limits: the first call of a key is admitted
  under every limit that fits the scaling and refused under every limit of the next range, although
  a larger limit is meant to be more permissive.
\<close>

theorem rate_limiter_first_call:
  assumes "rl_key org rt \<notin> bk_key ` set (lru_abs st)" and "lru_ok bk_key st"
    and "0 < L" and "L \<le> 307445734"
  shows "fst (rl_allow st now org rt (word_of_int L)) \<longleftrightarrow> L \<le> 153722867"
proof -
  let ?w = "time_truncate rl_window now"
  have idx: "lru_index st (rl_key org rt) = None" using index_None [OF assms(2)] assms(1) by simp
  have "sint (word_of_int L :: int64) = L" using assms(3,4) by (intro sint_of_int64) auto
  then have eff: "effective_limit (word_of_int L) = word_of_int L" using assms(3) by (simp add: effective_limit_def)
  have scaled: "sint (word_of_int (L * minute) :: int64) =
      (if L \<le> 153722867 then L * minute else L * minute - 2 ^ 64)"
  proof (cases "L \<le> 153722867")
    case True
    with assms(3) show ?thesis using sint_of_int64 [of "L * minute"] by simp
  next
    case False
    have "(word_of_int (L * minute) :: int64) = word_of_int (L * minute - 2 ^ 64)"
      by (simp add: word_of_int_eq_iff take_bit_eq_mod mod_eq_dvd_iff)
    moreover have "sint (word_of_int (L * minute - 2 ^ 64) :: int64) = L * minute - 2 ^ 64"
      using False assms(4) by (intro sint_of_int64) auto
    ultimately show ?thesis using False by (simp only: if_False)
  qed
  have "sint (word_of_int minute :: int64) = minute" by (intro sint_of_int64) auto
  moreover have "sint (word_of_int L * word_of_int minute :: int64) = sint (word_of_int (L * minute) :: int64)"
    by simp
  ultimately have "fst (bucket_decide now (word_of_int L) (new_bucket (rl_key org rt) ?w)) \<longleftrightarrow> L \<le> 153722867"
    using scaled assms(3,4) by (auto simp: bucket_decide_def Let_def new_bucket_def rl_window_def)
  then show ?thesis
    by (simp add: rl_allow_def Let_def idx eff lru_push_front_def case_prod_unfold)
qed

theorem rate_limiter_first_call_witness:
  "fst (rl_allow lru_new 0 ''o'' ''t'' (word_of_int 153722867))
   \<and> \<not> fst (rl_allow lru_new 0 ''o'' ''t'' (word_of_int 153722868))"
  using rate_limiter_first_call [of "''o''" "''t''" lru_new 153722867 0]
    rate_limiter_first_call [of "''o''" "''t''" lru_new 153722868 0] by (simp add: lru_new_ok)

end
