(* ===== verification/Json.thy ===== *)
theory Json imports Prelude "HOL-Library.AList" begin

text \<open>
  The part of Go's \<open>encoding/json\<close> that the program uses: unmarshalling a document into a
  struct. A document is its parse tree (\<open>None\<close> stands for bytes that are no JSON text,
  which \<open>json.Unmarshal\<close> refuses). A struct decoder walks the members in order: a member
  whose name folds to the field's name assigns it, a later one overrides an earlier one, \<open>null\<close>
  leaves the field alone, and a value of the wrong shape makes the whole call fail.
\<close>

datatype json =
    JNull
  | JBool bool
  | JInt int
  | JFloat string
  | JStr string
  | JArr "json list"
  | JObj "(string \<times> json) list"

type_synonym raw_json = "json option"

section \<open>Member lookup\<close>

definition fold_char :: "char \<Rightarrow> nat" where
  "fold_char c = (let n = (of_char c :: nat) in if 97 \<le> n \<and> n \<le> 122 then n - 32 else n)"

definition fold_name :: "string \<Rightarrow> nat list" where
  "fold_name s = map fold_char s"

fun json_field :: "(json \<Rightarrow> 'a option) \<Rightarrow> string \<Rightarrow> (string \<times> json) list \<Rightarrow> 'a \<Rightarrow> 'a option" where
  "json_field dec k [] acc = Some acc"
| "json_field dec k (kv # rest) acc =
     (if fold_name (fst kv) = fold_name k \<and> snd kv \<noteq> JNull
      then (case dec (snd kv) of None \<Rightarrow> None | Some a \<Rightarrow> json_field dec k rest a)
      else json_field dec k rest acc)"

definition json_string :: "json \<Rightarrow> string option" where
  "json_string j = (case j of JStr s \<Rightarrow> Some s | _ \<Rightarrow> None)"

definition json_int64 :: "json \<Rightarrow> int option" where
  "json_int64 j = (case j of JInt i \<Rightarrow> if - (2 ^ 63) \<le> i \<and> i < 2 ^ 63 then Some i else None | _ \<Rightarrow> None)"

definition json_object :: "json \<Rightarrow> (string \<times> json) list option" where
  "json_object j = (case j of JObj kvs \<Rightarrow> Some kvs | _ \<Rightarrow> None)"

text \<open>An element of a \<open>[]map[string]any\<close>: \<open>null\<close> gives a nil map.\<close>

fun json_object_list :: "json list \<Rightarrow> (string \<times> json) list list option" where
  "json_object_list [] = Some []"
| "json_object_list (j # js) =
     (case (if j = JNull then Some [] else json_object j) of
        None \<Rightarrow> None
      | Some kvs \<Rightarrow> map_option ((#) kvs) (json_object_list js))"

definition json_objects :: "json \<Rightarrow> (string \<times> json) list list option" where
  "json_objects j = (case j of JArr js \<Rightarrow> json_object_list js | _ \<Rightarrow> None)"

definition get_string :: "string \<Rightarrow> (string \<times> json) list \<Rightarrow> string option" where
  "get_string k kvs = json_field json_string k kvs []"

definition get_int :: "string \<Rightarrow> (string \<times> json) list \<Rightarrow> int option" where
  "get_int k kvs = json_field json_int64 k kvs 0"

text \<open>A \<open>map[string]any\<close> field: members with equal names collapse to the last one.\<close>

fun last_wins :: "(string \<times> 'a) list \<Rightarrow> (string \<times> 'a) list" where
  "last_wins [] = []"
| "last_wins (kv # rest) =
     (if fst kv \<in> fst ` set rest then last_wins rest else kv # last_wins rest)"

text \<open>A \<open>[]string\<close> field: \<open>null\<close> resets it, a \<open>null\<close> element is the empty string.\<close>

fun json_strings :: "json list \<Rightarrow> string list option" where
  "json_strings [] = Some []"
| "json_strings (j # js) =
     (case (if j = JNull then Some [] else json_string j) of
        None \<Rightarrow> None | Some s \<Rightarrow> map_option ((#) s) (json_strings js))"

fun strings_field :: "string \<Rightarrow> (string \<times> json) list \<Rightarrow> string list \<Rightarrow> string list option" where
  "strings_field k [] acc = Some acc"
| "strings_field k (kv # rest) acc =
     (if fold_name (fst kv) = fold_name k
      then (case snd kv of
              JNull \<Rightarrow> strings_field k rest []
            | JArr js \<Rightarrow> (case json_strings js of None \<Rightarrow> None | Some ss \<Rightarrow> strings_field k rest ss)
            | _ \<Rightarrow> None)
      else strings_field k rest acc)"

definition get_strings :: "string \<Rightarrow> (string \<times> json) list \<Rightarrow> string list option" where
  "get_strings k kvs = strings_field k kvs []"

definition get_bool :: "string \<Rightarrow> (string \<times> json) list \<Rightarrow> bool option" where
  "get_bool k kvs = json_field (\<lambda>j. case j of JBool b \<Rightarrow> Some b | _ \<Rightarrow> None) k kvs False"

text \<open>
  A struct field, as the members decoded into it one after the other (\<open>null\<close> leaves it alone), and
  a field that is a pointer to a struct (\<open>null\<close> makes it nil).
\<close>

fun struct_field :: "string \<Rightarrow> (string \<times> json) list \<Rightarrow> (string \<times> json) list \<Rightarrow> (string \<times> json) list option" where
  "struct_field k [] acc = Some acc"
| "struct_field k (kv # rest) acc =
     (if fold_name (fst kv) = fold_name k
      then (case snd kv of JNull \<Rightarrow> struct_field k rest acc | JObj m \<Rightarrow> struct_field k rest (acc @ m) | _ \<Rightarrow> None)
      else struct_field k rest acc)"

fun pointer_field ::
  "string \<Rightarrow> (string \<times> json) list \<Rightarrow> (string \<times> json) list option \<Rightarrow> (string \<times> json) list option option" where
  "pointer_field k [] acc = Some acc"
| "pointer_field k (kv # rest) acc =
     (if fold_name (fst kv) = fold_name k
      then (case snd kv of
              JNull \<Rightarrow> pointer_field k rest None
            | JObj m \<Rightarrow> pointer_field k rest (Some (case acc of None \<Rightarrow> m | Some a \<Rightarrow> a @ m))
            | _ \<Rightarrow> None)
      else pointer_field k rest acc)"

text \<open>A \<open>map[string]string\<close> field: members are merged, \<open>null\<close> resets the map.\<close>

fun string_map_field :: "string \<Rightarrow> (string \<times> json) list \<Rightarrow> (string \<times> string) list \<Rightarrow> (string \<times> string) list option" where
  "string_map_field k [] acc = Some acc"
| "string_map_field k (kv # rest) acc =
     (if fold_name (fst kv) = fold_name k
      then (case snd kv of
              JNull \<Rightarrow> string_map_field k rest []
            | JObj m \<Rightarrow>
                (case json_strings (map snd m) of
                   None \<Rightarrow> None
                 | Some vs \<Rightarrow> string_map_field k rest (fold (\<lambda>(n, v) a. AList.update n v a) (zip (map fst m) vs) acc))
            | _ \<Rightarrow> None)
      else string_map_field k rest acc)"

section \<open>Unmarshal into a struct\<close>

definition unmarshal :: "((string \<times> json) list \<Rightarrow> 'a option) \<Rightarrow> raw_json \<Rightarrow> 'a option" where
  "unmarshal dec raw =
     (case raw of
        None \<Rightarrow> None
      | Some JNull \<Rightarrow> dec []
      | Some (JObj kvs) \<Rightarrow> dec kvs
      | Some _ \<Rightarrow> None)"

lemma last_wins_keys [simp]: "fst ` set (last_wins kvs) = fst ` set kvs"
  by (induction kvs) auto

lemma distinct_last_wins: "distinct (map fst (last_wins kvs))"
proof (induction kvs)
  case (Cons kv rest)
  moreover have "fst ` set (last_wins rest) = fst ` set rest" by simp
  ultimately show ?case by auto
qed simp

lemma set_last_wins: "set (last_wins kvs) \<subseteq> set kvs"
  by (induction kvs) auto

lemma json_int64_range: "json_int64 j = Some i \<Longrightarrow> - (2 ^ 63) \<le> i \<and> i < 2 ^ 63"
  by (auto simp: json_int64_def split: json.splits if_splits)

end
