(* ===== verification/Domain.thy ===== *)
theory Domain imports Json begin

text \<open>
  The program's data (\<open>internal/domain\<close> and the row types of \<open>internal/store\<close>). A Go
  string type with named constants becomes a datatype with one constructor per constant and one for
  any other string (the zero value is the other string \<open>''''\<close>); a struct becomes a record;
  an optional pointer becomes an option; a \<open>time.Time\<close> is a nanosecond count.
\<close>

section \<open>Monitors and checks (internal/domain/monitor.go)\<close>

datatype monitor_type =
    MonitorHTTP | MonitorTCP | MonitorPing | MonitorDNS | MonitorHeartbeat | MonitorOther string

datatype check_status = StatusUp | StatusDown | StatusDegraded | StatusOther string

abbreviation no_status :: check_status where
  "no_status \<equiv> StatusOther []"

datatype severity = SeverityCritical | SeverityWarning | SeverityInfo | SeverityOther string

abbreviation no_severity :: severity where
  "no_severity \<equiv> SeverityOther []"

record monitor =
  mon_id :: string
  mon_org :: string
  mon_name :: string
  mon_type :: monitor_type
  mon_config :: raw_json
  mon_interval :: int
  mon_timeout :: int
  mon_latency_warning :: int
  mon_latency_critical :: int
  mon_down_severity :: severity
  mon_degraded_severity :: severity
  mon_regions :: "string list"
  mon_policy :: string
  mon_heartbeat_token :: string
  mon_integration_key :: string
  mon_runbook :: string
  mon_service :: string
  mon_group :: string
  mon_description :: string
  mon_auto_resolve :: bool
  mon_muted :: bool
  mon_enabled :: bool
  mon_labels :: "(string \<times> string) list"
  mon_created_at :: gotime
  mon_updated_at :: gotime

record monitor_check =
  chk_id :: string
  chk_monitor :: string
  chk_status :: check_status
  chk_latency :: int
  chk_status_code :: int
  chk_error :: string
  chk_metadata :: string
  chk_tls_expiry :: "gotime option"
  chk_checked_at :: gotime
  chk_matched_state :: string

record dns_check_config =
  dns_hostname :: string
  dns_record_type :: string
  dns_expected :: string
  dns_nameserver :: string

definition decode_dns_config :: "raw_json \<Rightarrow> dns_check_config option" where
  "decode_dns_config = unmarshal (\<lambda>kvs.
     case (get_string ''hostname'' kvs, get_string ''record_type'' kvs,
           get_string ''expected'' kvs, get_string ''nameserver'' kvs) of
       (Some h, Some r, Some e, Some n) \<Rightarrow>
         Some \<lparr>dns_hostname = h, dns_record_type = r, dns_expected = e, dns_nameserver = n\<rparr>
     | _ \<Rightarrow> None)"

text \<open>\<open>HeartbeatCheckConfig\<close> has the single field \<open>grace_period_seconds\<close>.\<close>

definition decode_heartbeat_config :: "raw_json \<Rightarrow> int option" where
  "decode_heartbeat_config = unmarshal (get_int ''grace_period_seconds'')"

section \<open>Match rules and states (internal/domain/monitor\_state.go)\<close>

record match_rule =
  rule_id :: string
  rule_monitor :: string
  rule_position :: int
  rule_status_code :: "int option"
  rule_status_code_min :: "int option"
  rule_status_code_max :: "int option"
  rule_body_match :: string
  rule_body_match_mode :: string
  rule_header_match :: string
  rule_header_value :: string
  rule_header_match_mode :: string
  rule_state_id :: string
  rule_state_name :: string
  rule_state_color :: string
  rule_health_class :: string

section \<open>Alerts (internal/domain/alert.go)\<close>

datatype alert_status = AlertFiring | AlertAcknowledged | AlertResolved

record alert =
  al_id :: string
  al_monitor :: string
  al_org :: string
  al_status :: alert_status
  al_severity :: severity
  al_error :: string
  al_started_at :: gotime
  al_acked_at :: "gotime option"
  al_acked_by :: string
  al_resolved_at :: "gotime option"
  al_current_step :: string
  al_incident :: string

datatype alert_event_type =
    EventTriggered | EventNotified | EventAck | EventEscalated | EventResolved
  | EventReplyClaimed | EventReplyEnriched | EventReplyLinked
  | EventDuplicated | EventOwnershipTransferred | EventAckWithContext | EventSuppressed
  | EventEscalatedReply | EventRemediationStarted | EventRemediationResult | EventRouted
  | EventStatusPageSynced

record alert_event =
  evt_id :: string
  evt_alert :: string
  evt_type :: alert_event_type
  evt_channel :: string
  evt_user :: string
  evt_detail :: raw_json
  evt_created_at :: gotime

record escalation_state =
  es_alert :: string
  es_step :: string
  es_entered_at :: gotime
  es_retry :: int
  es_last_notified :: "gotime option"
  es_sent :: raw_json

section \<open>Escalation policies (internal/domain/escalation.go)\<close>

record escalation_policy =
  pol_id :: string
  pol_org :: string
  pol_name :: string
  pol_loop :: bool
  pol_max_loops :: "int option"

record escalation_step =
  step_id :: string
  step_policy :: string
  step_position :: int
  step_wait :: int
  step_repeat :: int
  step_repeat_interval :: int
  step_terminal :: bool

datatype target_type =
    TargetOnCallPrimary | TargetOnCallSecondary | TargetUser | TargetTeam | TargetChannel
  | TargetOther string

record step_target =
  tgt_id :: string
  tgt_step :: string
  tgt_type :: target_type
  tgt_target :: string
  tgt_channel :: string
  tgt_simultaneous :: bool

section \<open>Notification (internal/domain/notification.go)\<close>

record notification_channel =
  ch_id :: string
  ch_org :: string
  ch_type :: string
  ch_name :: string
  ch_config :: string
  ch_enabled :: bool

text \<open>
  \<open>TargetConfig\<close> is the base64 text of a version byte and the configuration bytes; the
  model keeps the bytes.
\<close>

record notification_job =
  job_id :: string
  job_alert :: string
  job_org :: string
  job_monitor_name :: string
  job_severity :: severity
  job_channel :: string
  job_target_config :: string
  job_message :: string
  job_ack_url :: string
  job_dedupe_key :: string
  job_runbook :: string
  job_service_name :: string
  job_service_notes :: string
  job_context_links :: raw_json
  job_dependency_status :: raw_json

record ack_event =
  ack_alert :: string
  ack_user :: string
  ack_channel :: string

section \<open>Maintenance windows (internal/domain/maintenance.go)\<close>

record maintenance_window =
  mw_id :: string
  mw_org :: string
  mw_monitor :: string
  mw_name :: string
  mw_description :: string
  mw_start :: gotime
  mw_end :: gotime
  mw_public :: bool
  mw_suppress :: bool
  mw_recurrence :: string
  mw_recurrence_end :: "gotime option"
  mw_days :: raw_json
  mw_day_of_month :: int
  mw_created_at :: gotime
  mw_created_by :: string

section \<open>Users and teams (internal/domain/user.go, schedule.go)\<close>

record user =
  usr_id :: string
  usr_org :: string
  usr_email :: string
  usr_name :: string
  usr_password_hash :: string
  usr_role :: string
  usr_phone :: string
  usr_force_password_change :: bool
  usr_mfa_app_enabled :: bool
  usr_mfa_enforced_at :: string
  usr_email_verified_at :: "gotime option"
  usr_verification_sent_at :: "gotime option"
  usr_verification_resends :: int
  usr_verification_window :: "gotime option"
  usr_created_at :: gotime
  usr_updated_at :: gotime
  usr_disabled_at :: "gotime option"

record team =
  team_id :: string
  team_org :: string
  team_name :: string

record team_member =
  tm_team :: string
  tm_user :: string
  tm_position :: int

section \<open>State written by replies (internal/store/phase5\_reply.go, cloudevent\_reply\_audit.go)\<close>

record alert_suppression =
  sup_id :: string
  sup_org :: string
  sup_alert :: string
  sup_monitor :: string
  sup_filter :: raw_json
  sup_expires_at :: gotime
  sup_reason :: string
  sup_source :: string
  sup_created_at :: gotime

datatype remediation_status =
    RemediationInProgress | RemediationSuccess | RemediationFailure | RemediationPartial

record alert_remediation =
  rem_id :: string
  rem_alert :: string
  rem_org :: string
  rem_status :: remediation_status
  rem_started_at :: gotime
  rem_completed_at :: "gotime option"
  rem_expires_at :: gotime
  rem_description :: string
  rem_message :: string
  rem_artifact :: string
  rem_source :: string

record alert_routing_rule =
  rr_id :: string
  rr_org :: string
  rr_channel :: string
  rr_filter :: raw_json
  rr_expires_at :: gotime
  rr_priority :: int
  rr_reason :: string
  rr_source :: string
  rr_created_at :: gotime

record alert_status_page_ref =
  sp_id :: string
  sp_alert :: string
  sp_provider :: string
  sp_url :: string
  sp_message :: string
  sp_updated_at :: gotime
  sp_source :: string

text \<open>
  \<open>writeAudit\<close> marshals the values before and after the change; the model keeps the values
  (a nil value is the empty object).
\<close>

datatype audit_value =
    AuditEmpty
  | AuditAlert alert
  | AuditMonitor monitor
  | AuditSuppression alert_suppression
  | AuditRemediation alert_remediation
  | AuditResult "alert_remediation option" "alert option"
  | AuditRouting alert_routing_rule
  | AuditPage alert_status_page_ref
  | AuditPayload json

record reply_audit =
  au_reply :: string
  au_type :: string
  au_source :: string
  au_sub :: string
  au_alert :: string
  au_monitor :: string
  au_org :: string
  au_channel :: string
  au_outcome :: string
  au_before :: audit_value
  au_after :: audit_value
  au_received_at :: gotime

end
