(* ===== verification/Store.thy ===== *)
theory Store imports Domain "HOL-Library.Char_ord" "HOL-Library.List_Lexorder" begin

text \<open>
  The world the services act on: the SQLite tables (\<open>internal/store/sqlite\<close>), the messages
  published on the bus, the CloudEvents handed to the emitter, the metrics, and a supply of UUIDs.
  Every store method of the modelled components is one definition, with the statement's
  constraints (primary keys, foreign keys, the partial unique index of migration 005) and an
  injected SQL fault \<open>w_fails op key\<close> as its error branches. Timestamps are stored at the
  precision of the column's text format.
\<close>

section \<open>The world\<close>

datatype db_error = ErrSQL | ErrConstraint | ErrNotFound | ErrAlreadyComplete | ErrEmptyArgument

datatype sql_op =
    AlertsInsert | AlertsGet | AlertsGetActive | AlertsUpdate | AlertsListFiring
  | AlertsMarkDuplicate | AlertsSetOwner | AlertsAck
  | EventsInsert | EscGet | EscUpsert | EscDelete
  | MonitorsGet | MonitorsListEnabled | MonitorsList | MonitorsDisable
  | PoliciesGet | StepsList | StepsNext | TargetsList
  | ChannelsGet | ChannelsList | WindowsListActive | WindowsListAll
  | UsersGet | TeamsGet | MembersList
  | ChecksLatest | ChecksPing | ChecksInsert | RulesList
  | SuppressionsInsert | RemediationsInsert | RemediationsGet | RemediationsComplete
  | RoutingInsert | PagesInsert | AuditInsert
  | MonitorsByKey | SettingsGet | SeenUpsert

text \<open>A row of \<open>alerts\<close>: the columns of the struct and the five of migration 032.\<close>

record alert_row =
  row_alert :: alert
  row_duplicate_of :: string
  row_owner_kind :: string
  row_owner_id :: string
  row_ack_reason :: string
  row_ack_reference :: string

record trigger_event =
  te_org :: string
  te_monitor :: string
  te_monitor_name :: string
  te_status :: check_status
  te_latency :: int
  te_status_code :: int
  te_error :: string
  te_checked_at :: gotime

datatype bus_payload =
    PayloadJob notification_job
  | PayloadTrigger trigger_event
  | PayloadCheckDue string
  | PayloadDead notification_job
  | PayloadAck ack_event

datatype cloud_event =
    CEAlertFired string string string severity string gotime
  | CEAlertAcknowledged string string string string gotime
  | CEAlertResolved string string string gotime
  | CEAlertEscalated string string string int string gotime
  | CEMonitorUp string string string int gotime
  | CEMonitorDown string string string string gotime
  | CEMonitorDegraded string string string string gotime
  | CEHeartbeatMissed string string gotime gotime
  | CEMaintenanceStarted string string "string list" gotime gotime
  | CEMaintenanceEnded string string gotime bool

record world =
  w_monitors :: "monitor list"
  w_alerts :: "alert_row list"
  w_events :: "alert_event list"
  w_esc :: "escalation_state list"
  w_policies :: "escalation_policy list"
  w_steps :: "escalation_step list"
  w_targets :: "step_target list"
  w_channels :: "notification_channel list"
  w_windows :: "maintenance_window list"
  w_users :: "user list"
  w_teams :: "team list"
  w_members :: "team_member list"
  w_checks :: "monitor_check list"
  w_rules :: "match_rule list"
  w_suppressions :: "alert_suppression list"
  w_remediations :: "alert_remediation list"
  w_routing :: "alert_routing_rule list"
  w_pages :: "alert_status_page_ref list"
  w_audit :: "reply_audit list"
  w_fails :: "sql_op \<Rightarrow> string \<Rightarrow> bool"
  w_uuid :: "nat \<Rightarrow> string"
  w_uuid_next :: nat
  w_bus :: "(string \<times> bus_payload) list"
  w_emitter :: bool
  w_emitted :: "cloud_event list"
  w_metrics :: bool
  w_gauge :: "string \<Rightarrow> int"
  w_step_metric :: "(string \<times> int) list"

text \<open>\<open>sqliteCloudEventTimeFormat\<close> keeps milliseconds.\<close>

definition rfc3339_ms :: "gotime \<Rightarrow> gotime" where
  "rfc3339_ms t = t - t mod 1000000"

definition new_uuid :: "world \<Rightarrow> string \<times> world" where
  "new_uuid w = (w_uuid w (w_uuid_next w), w\<lparr>w_uuid_next := Suc (w_uuid_next w)\<rparr>)"

text \<open>The nil-safe \<open>cloudevents.Emit*\<close> wrappers; callers only log the error.\<close>

definition emit :: "world \<Rightarrow> cloud_event \<Rightarrow> world" where
  "emit w ev = (if w_emitter w then w\<lparr>w_emitted := w_emitted w @ [ev]\<rparr> else w)"

definition bus_publish :: "world \<Rightarrow> string \<Rightarrow> bus_payload \<Rightarrow> world" where
  "bus_publish w subject p = w\<lparr>w_bus := w_bus w @ [(subject, p)]\<rparr>"

definition add_active_alert :: "world \<Rightarrow> string \<Rightarrow> int \<Rightarrow> world" where
  "add_active_alert w org delta =
     (if w_metrics w then w\<lparr>w_gauge := (w_gauge w)(org := w_gauge w org + delta)\<rparr> else w)"

definition record_escalation_step :: "world \<Rightarrow> string \<Rightarrow> int \<Rightarrow> world" where
  "record_escalation_step w org pos =
     (if w_metrics w then w\<lparr>w_step_metric := w_step_metric w @ [(org, pos)]\<rparr> else w)"

section \<open>Alerts (internal/store/sqlite/alerts.go)\<close>

definition is_active :: "alert \<Rightarrow> bool" where
  "is_active a \<longleftrightarrow> al_status a \<noteq> AlertResolved"

text \<open>The partial unique index \<open>idx_alerts_active_monitor\<close>.\<close>

definition active_unique :: "alert_row list \<Rightarrow> bool" where
  "active_unique rows \<longleftrightarrow>
     distinct (map (\<lambda>r. al_monitor (row_alert r)) (filter (\<lambda>r. is_active (row_alert r)) rows))"

definition row_of_alert :: "alert \<Rightarrow> alert_row" where
  "row_of_alert a =
     \<lparr>row_alert = a\<lparr>al_started_at := rfc3339 (al_started_at a),
                   al_acked_at := map_option rfc3339 (al_acked_at a),
                   al_resolved_at := map_option rfc3339 (al_resolved_at a)\<rparr>,
      row_duplicate_of = [], row_owner_kind = [], row_owner_id = [],
      row_ack_reason = [], row_ack_reference = []\<rparr>"

definition has_alert :: "world \<Rightarrow> string \<Rightarrow> bool" where
  "has_alert w i \<longleftrightarrow> i \<in> set (map (\<lambda>r. al_id (row_alert r)) (w_alerts w))"

definition has_monitor :: "world \<Rightarrow> string \<Rightarrow> bool" where
  "has_monitor w i \<longleftrightarrow> i \<in> set (map mon_id (w_monitors w))"

definition alerts_create :: "world \<Rightarrow> alert \<Rightarrow> db_error option \<times> world" where
  "alerts_create w a =
     (let rows = w_alerts w @ [row_of_alert a] in
      if w_fails w AlertsInsert (al_id a) then (Some ErrSQL, w)
      else if has_alert w (al_id a) \<or> \<not> has_monitor w (al_monitor a) \<or> \<not> active_unique rows
      then (Some ErrConstraint, w)
      else (None, w\<lparr>w_alerts := rows\<rparr>))"

definition alerts_get :: "world \<Rightarrow> string \<Rightarrow> db_error + alert" where
  "alerts_get w i =
     (if w_fails w AlertsGet i then Inl ErrSQL
      else case List.find (\<lambda>r. al_id (row_alert r) = i) (w_alerts w) of
             None \<Rightarrow> Inl ErrNotFound
           | Some r \<Rightarrow> Inr (row_alert r))"

definition alerts_get_active :: "world \<Rightarrow> string \<Rightarrow> db_error + alert" where
  "alerts_get_active w m =
     (if w_fails w AlertsGetActive m then Inl ErrSQL
      else case max_by al_started_at
                  (filter (\<lambda>a. al_monitor a = m \<and> is_active a) (map row_alert (w_alerts w))) of
             None \<Rightarrow> Inl ErrNotFound
           | Some a \<Rightarrow> Inr a)"

text \<open>The columns \<open>UPDATE alerts SET ...\<close> writes.\<close>

definition set_alert_columns :: "alert \<Rightarrow> alert_row \<Rightarrow> alert_row" where
  "set_alert_columns a r =
     r\<lparr>row_alert := (row_alert r)
         \<lparr>al_status := al_status a, al_severity := al_severity a,
          al_acked_at := map_option rfc3339 (al_acked_at a), al_acked_by := al_acked_by a,
          al_resolved_at := map_option rfc3339 (al_resolved_at a),
          al_current_step := al_current_step a, al_incident := al_incident a\<rparr>\<rparr>"

text \<open>An \<open>UPDATE\<close> of one row by id under the index, and \<open>expectOneRow\<close>.\<close>

definition alerts_write ::
  "world \<Rightarrow> sql_op \<Rightarrow> string \<Rightarrow> (alert_row \<Rightarrow> alert_row) \<Rightarrow> db_error option \<times> world" where
  "alerts_write w op i f =
     (let rows = update_where (\<lambda>r. al_id (row_alert r) = i) f (w_alerts w) in
      if w_fails w op i then (Some ErrSQL, w)
      else if \<not> active_unique rows then (Some ErrConstraint, w)
      else if \<not> has_alert w i then (Some ErrNotFound, w)
      else (None, w\<lparr>w_alerts := rows\<rparr>))"

definition alerts_update :: "world \<Rightarrow> alert \<Rightarrow> db_error option \<times> world" where
  "alerts_update w a = alerts_write w AlertsUpdate (al_id a) (set_alert_columns a)"

definition alerts_list_firing :: "world \<Rightarrow> db_error + alert list" where
  "alerts_list_firing w =
     (if w_fails w AlertsListFiring [] then Inl ErrSQL
      else Inr (sort_key al_started_at
                  (filter (\<lambda>a. al_status a = AlertFiring) (map row_alert (w_alerts w)))))"

definition events_create :: "world \<Rightarrow> alert_event \<Rightarrow> db_error option \<times> world" where
  "events_create w e =
     (if w_fails w EventsInsert (evt_alert e) then (Some ErrSQL, w)
      else if \<not> has_alert w (evt_alert e) \<or> evt_id e \<in> set (map evt_id (w_events w))
      then (Some ErrConstraint, w)
      else (None, w\<lparr>w_events := w_events w @
              [e\<lparr>evt_detail := (if evt_detail e = None then Some (JObj []) else evt_detail e),
                 evt_created_at := rfc3339 (evt_created_at e)\<rparr>]\<rparr>))"

definition esc_get :: "world \<Rightarrow> string \<Rightarrow> db_error + escalation_state" where
  "esc_get w i =
     (if w_fails w EscGet i then Inl ErrSQL
      else case List.find (\<lambda>s. es_alert s = i) (w_esc w) of
             None \<Rightarrow> Inl ErrNotFound
           | Some s \<Rightarrow> Inr s)"

definition stored_esc :: "escalation_state \<Rightarrow> escalation_state" where
  "stored_esc s =
     s\<lparr>es_entered_at := rfc3339 (es_entered_at s),
       es_last_notified := map_option rfc3339 (es_last_notified s),
       es_sent := (if es_sent s = None then Some (JArr []) else es_sent s)\<rparr>"

definition esc_upsert :: "world \<Rightarrow> escalation_state \<Rightarrow> db_error option \<times> world" where
  "esc_upsert w s =
     (if w_fails w EscUpsert (es_alert s) then (Some ErrSQL, w)
      else if \<not> has_alert w (es_alert s) then (Some ErrConstraint, w)
      else (None, w\<lparr>w_esc :=
              (if es_alert s \<in> set (map es_alert (w_esc w))
               then update_where (\<lambda>t. es_alert t = es_alert s) (\<lambda>_. stored_esc s) (w_esc w)
               else w_esc w @ [stored_esc s])\<rparr>))"

definition esc_delete :: "world \<Rightarrow> string \<Rightarrow> db_error option \<times> world" where
  "esc_delete w i =
     (if w_fails w EscDelete i then (Some ErrSQL, w)
      else (None, w\<lparr>w_esc := delete_where (\<lambda>s. es_alert s = i) (w_esc w)\<rparr>))"

section \<open>Monitors, policies, channels, users (read side)\<close>

definition monitors_get :: "world \<Rightarrow> string \<Rightarrow> db_error + monitor" where
  "monitors_get w i =
     (if w_fails w MonitorsGet i then Inl ErrSQL
      else case List.find (\<lambda>m. mon_id m = i) (w_monitors w) of
             None \<Rightarrow> Inl ErrNotFound
           | Some m \<Rightarrow> Inr m)"

definition monitors_disable :: "world \<Rightarrow> gotime \<Rightarrow> string \<Rightarrow> db_error option \<times> world" where
  "monitors_disable w now i =
     (if i = [] then (Some ErrEmptyArgument, w)
      else if w_fails w MonitorsDisable i then (Some ErrSQL, w)
      else if \<not> has_monitor w i then (Some ErrNotFound, w)
      else (None, w\<lparr>w_monitors := update_where (\<lambda>m. mon_id m = i)
              (\<lambda>m. m\<lparr>mon_enabled := False, mon_updated_at := rfc3339 now\<rparr>) (w_monitors w)\<rparr>))"

text \<open>An empty integration key is stored as \<open>NULL\<close>, which equals no argument.\<close>

definition monitors_by_key :: "world \<Rightarrow> string \<Rightarrow> db_error + monitor" where
  "monitors_by_key w key =
     (if w_fails w MonitorsByKey key then Inl ErrSQL
      else case List.find (\<lambda>m. mon_integration_key m \<noteq> [] \<and> mon_integration_key m = key) (w_monitors w) of
             None \<Rightarrow> Inl ErrNotFound
           | Some m \<Rightarrow> Inr m)"

definition policies_get :: "world \<Rightarrow> string \<Rightarrow> db_error + escalation_policy" where
  "policies_get w i =
     (if w_fails w PoliciesGet i then Inl ErrSQL
      else case List.find (\<lambda>p. pol_id p = i) (w_policies w) of
             None \<Rightarrow> Inl ErrNotFound
           | Some p \<Rightarrow> Inr p)"

definition steps_list :: "world \<Rightarrow> string \<Rightarrow> db_error + escalation_step list" where
  "steps_list w pol =
     (if w_fails w StepsList pol then Inl ErrSQL
      else Inr (sort_key step_position (filter (\<lambda>s. step_policy s = pol) (w_steps w))))"

definition steps_next :: "world \<Rightarrow> string \<Rightarrow> int \<Rightarrow> db_error + escalation_step option" where
  "steps_next w pol pos =
     (if w_fails w StepsNext pol then Inl ErrSQL
      else Inr (min_by step_position
                 (filter (\<lambda>s. step_policy s = pol \<and> pos < step_position s) (w_steps w))))"

definition targets_list :: "world \<Rightarrow> string \<Rightarrow> db_error + step_target list" where
  "targets_list w st =
     (if w_fails w TargetsList st then Inl ErrSQL
      else Inr (filter (\<lambda>t. tgt_step t = st) (w_targets w)))"

definition channels_get :: "world \<Rightarrow> string \<Rightarrow> db_error + notification_channel" where
  "channels_get w i =
     (if w_fails w ChannelsGet i then Inl ErrSQL
      else case List.find (\<lambda>c. ch_id c = i) (w_channels w) of
             None \<Rightarrow> Inl ErrNotFound
           | Some c \<Rightarrow> Inr c)"

definition users_get :: "world \<Rightarrow> string \<Rightarrow> db_error + user" where
  "users_get w i =
     (if w_fails w UsersGet i then Inl ErrSQL
      else case List.find (\<lambda>u. usr_id u = i) (w_users w) of
             None \<Rightarrow> Inl ErrNotFound
           | Some u \<Rightarrow> Inr u)"

definition teams_get :: "world \<Rightarrow> string \<Rightarrow> db_error + team" where
  "teams_get w i =
     (if w_fails w TeamsGet i then Inl ErrSQL
      else case List.find (\<lambda>t. team_id t = i) (w_teams w) of
             None \<Rightarrow> Inl ErrNotFound
           | Some t \<Rightarrow> Inr t)"

definition members_list :: "world \<Rightarrow> string \<Rightarrow> db_error + team_member list" where
  "members_list w t =
     (if w_fails w MembersList t then Inl ErrSQL
      else Inr (sort_key tm_position (filter (\<lambda>m. tm_team m = t) (w_members w))))"

definition channels_list :: "world \<Rightarrow> string \<Rightarrow> nat \<Rightarrow> db_error + notification_channel list" where
  "channels_list w org limit =
     (if w_fails w ChannelsList org then Inl ErrSQL
      else Inr (take limit (sort_key ch_name (filter (\<lambda>c. ch_org c = org) (w_channels w)))))"

section \<open>Checks and match rules (checks.go, monitor\_states.go)\<close>

definition checks_latest :: "world \<Rightarrow> string \<Rightarrow> db_error + monitor_check" where
  "checks_latest w m =
     (if w_fails w ChecksLatest m then Inl ErrSQL
      else case max_by chk_checked_at (filter (\<lambda>c. chk_monitor c = m) (w_checks w)) of
             None \<Rightarrow> Inl ErrNotFound
           | Some c \<Rightarrow> Inr c)"

text \<open>
  \<open>metadata LIKE '%source\_ip%'\<close>: SQLite compares ASCII letters without regard to case, and the
  underscore stands for any one character (an UTF-8 sequence).
\<close>

fun like_prefix :: "string \<Rightarrow> string \<Rightarrow> bool" where
  "like_prefix [] s = True"
| "like_prefix (p # ps) [] = False"
| "like_prefix (p # ps) (c # cs) =
     (if p = CHR ''_''
      then like_prefix ps (if 192 \<le> (of_char c :: nat) then dropWhile (\<lambda>d. (of_char d :: nat) div 64 = 2) cs else cs)
      else fold_char p = fold_char c \<and> like_prefix ps cs)"

fun like_contains :: "string \<Rightarrow> string \<Rightarrow> bool" where
  "like_contains [] pat = like_prefix pat []"
| "like_contains (c # cs) pat = (like_prefix pat (c # cs) \<or> like_contains cs pat)"

text \<open>\<open>GetLatestHeartbeatPing\<close>: no row is a nil check, not an error.\<close>

definition checks_latest_ping :: "world \<Rightarrow> string \<Rightarrow> db_error + monitor_check option" where
  "checks_latest_ping w m =
     (if w_fails w ChecksPing m then Inl ErrSQL
      else Inr (max_by chk_checked_at
                 (filter (\<lambda>c. chk_monitor c = m \<and> chk_status c = StatusUp
                            \<and> like_contains (chk_metadata c) ''source_ip'') (w_checks w))))"

text \<open>The statement has no column for \<open>MatchedStateID\<close>.\<close>

definition checks_create :: "world \<Rightarrow> monitor_check \<Rightarrow> db_error option \<times> world" where
  "checks_create w c =
     (if w_fails w ChecksInsert (chk_id c) then (Some ErrSQL, w)
      else if chk_id c \<in> set (map chk_id (w_checks w)) \<or> \<not> has_monitor w (chk_monitor c)
      then (Some ErrConstraint, w)
      else (None, w\<lparr>w_checks := w_checks w @
              [c\<lparr>chk_tls_expiry := map_option rfc3339 (chk_tls_expiry c),
                 chk_checked_at := rfc3339 (chk_checked_at c), chk_matched_state := []\<rparr>]\<rparr>))"

definition rules_list :: "world \<Rightarrow> string \<Rightarrow> db_error + match_rule list" where
  "rules_list w m =
     (if w_fails w RulesList m then Inl ErrSQL
      else Inr (sort_key rule_position (filter (\<lambda>r. rule_monitor r = m) (w_rules w))))"

section \<open>Reply state (alerts\_phase5.go, phase5\_reply.go, cloudevent\_reply\_audit.go)\<close>

text \<open>
  \<open>MarkDuplicate\<close>, \<open>SetOwner\<close> and \<open>AckWithContext\<close> update one alert row and then insert
  a timeline event; the two statements are separate unless the caller opened a transaction, so a
  failing insert leaves the update in place.
\<close>

definition write_then_event ::
  "db_error option \<times> world \<Rightarrow> gotime \<Rightarrow> string \<Rightarrow> alert_event_type \<Rightarrow> json \<Rightarrow> db_error option \<times> world" where
  "write_then_event r now i ty detail =
     (case r of
        (Some e, w1) \<Rightarrow> (Some e, w1)
      | (None, w1) \<Rightarrow>
          (case new_uuid w1 of (u, w2) \<Rightarrow>
             events_create w2 \<lparr>evt_id = u, evt_alert = i, evt_type = ty, evt_channel = [],
                evt_user = [], evt_detail = Some detail, evt_created_at = now\<rparr>))"

definition alerts_mark_duplicate ::
  "world \<Rightarrow> gotime \<Rightarrow> string \<Rightarrow> string \<Rightarrow> string \<Rightarrow> db_error option \<times> world" where
  "alerts_mark_duplicate w now i dup reason =
     (if i = [] \<or> dup = [] then (Some ErrEmptyArgument, w)
      else write_then_event
             (alerts_write w AlertsMarkDuplicate i (\<lambda>r. r\<lparr>row_duplicate_of := dup\<rparr>))
             now i EventDuplicated
             (JObj [(''duplicate_of'', JStr dup), (''reason'', JStr reason)]))"

definition alerts_set_owner ::
  "world \<Rightarrow> gotime \<Rightarrow> string \<Rightarrow> string \<Rightarrow> string \<Rightarrow> string \<Rightarrow> db_error option \<times> world" where
  "alerts_set_owner w now i kind owner reason =
     (if i = [] then (Some ErrEmptyArgument, w)
      else write_then_event
             (alerts_write w AlertsSetOwner i
                (\<lambda>r. r\<lparr>row_owner_kind := kind, row_owner_id := owner\<rparr>))
             now i EventOwnershipTransferred
             (JObj [(''owner_id'', JStr owner), (''owner_kind'', JStr kind),
                    (''reason'', JStr reason)]))"

definition alerts_ack_with_context ::
  "world \<Rightarrow> gotime \<Rightarrow> string \<Rightarrow> string \<Rightarrow> string \<Rightarrow> string \<Rightarrow> string \<Rightarrow> db_error option \<times> world" where
  "alerts_ack_with_context w now i code note ref acked_by =
     (if i = [] then (Some ErrEmptyArgument, w)
      else write_then_event
             (alerts_write w AlertsAck i
                (\<lambda>r. r\<lparr>row_alert := (row_alert r)\<lparr>al_status := AlertAcknowledged,
                         al_acked_at := Some (rfc3339 now), al_acked_by := acked_by\<rparr>,
                       row_ack_reason := code, row_ack_reference := ref\<rparr>))
             now i EventAckWithContext
             (JObj [(''acked_by'', JStr acked_by), (''note'', JStr note),
                    (''reason_code'', JStr code), (''reference_id'', JStr ref)]))"

definition suppressions_create :: "world \<Rightarrow> gotime \<Rightarrow> alert_suppression \<Rightarrow> db_error option \<times> world" where
  "suppressions_create w now r =
     (if w_fails w SuppressionsInsert (sup_id r) then (Some ErrSQL, w)
      else if sup_id r \<in> set (map sup_id (w_suppressions w)) then (Some ErrConstraint, w)
      else (None, w\<lparr>w_suppressions := w_suppressions w @
              [r\<lparr>sup_filter := (if sup_filter r = None then Some (JObj []) else sup_filter r),
                 sup_expires_at := rfc3339_ms (sup_expires_at r),
                 sup_created_at := rfc3339_ms (if sup_created_at r = zero_time then now else sup_created_at r)\<rparr>]\<rparr>))"

definition suppressions_active_for_alert ::
  "world \<Rightarrow> string \<Rightarrow> gotime \<Rightarrow> alert_suppression list" where
  "suppressions_active_for_alert w i at =
     filter (\<lambda>r. sup_alert r = i \<and> rfc3339_ms at < sup_expires_at r) (w_suppressions w)"

definition suppressions_delete_expired :: "world \<Rightarrow> gotime \<Rightarrow> world" where
  "suppressions_delete_expired w cutoff =
     w\<lparr>w_suppressions := delete_where (\<lambda>r. sup_expires_at r < rfc3339_ms cutoff) (w_suppressions w)\<rparr>"

text \<open>\<open>Create\<close> derives an empty org id from the alert's row.\<close>

definition remediations_create :: "world \<Rightarrow> alert_remediation \<Rightarrow> db_error option \<times> world" where
  "remediations_create w r =
     (case (if rem_org r \<noteq> [] then Inr (rem_org r)
            else case List.find (\<lambda>a. al_id (row_alert a) = rem_alert r) (w_alerts w) of
                   None \<Rightarrow> Inl ErrNotFound
                 | Some a \<Rightarrow> Inr (al_org (row_alert a))) of
        Inl e \<Rightarrow> (Some e, w)
      | Inr org \<Rightarrow>
          (if w_fails w RemediationsInsert (rem_id r) then (Some ErrSQL, w)
           else if rem_id r \<in> set (map rem_id (w_remediations w)) then (Some ErrConstraint, w)
           else (None, w\<lparr>w_remediations := w_remediations w @
                   [r\<lparr>rem_org := org, rem_started_at := rfc3339_ms (rem_started_at r),
                      rem_completed_at := map_option rfc3339 (rem_completed_at r),
                      rem_expires_at := rfc3339_ms (rem_expires_at r)\<rparr>]\<rparr>)))"

definition remediations_get :: "world \<Rightarrow> string \<Rightarrow> db_error + alert_remediation" where
  "remediations_get w i =
     (if w_fails w RemediationsGet i then Inl ErrSQL
      else case List.find (\<lambda>r. rem_id r = i) (w_remediations w) of
             None \<Rightarrow> Inl ErrNotFound
           | Some r \<Rightarrow> Inr r)"

text \<open>
  The compare-and-set of \<open>Complete\<close>: only a row still in progress changes; when none did, a
  second query tells a missing row from a completed one.
\<close>

definition remediations_complete ::
  "world \<Rightarrow> gotime \<Rightarrow> string \<Rightarrow> remediation_status \<Rightarrow> string \<Rightarrow> string \<Rightarrow> db_error option \<times> world" where
  "remediations_complete w now i st msg artifact =
     (if w_fails w RemediationsComplete i then (Some ErrSQL, w)
      else if \<exists>r \<in> set (w_remediations w). rem_id r = i \<and> rem_status r = RemediationInProgress
      then (None, w\<lparr>w_remediations := update_where
              (\<lambda>r. rem_id r = i \<and> rem_status r = RemediationInProgress)
              (\<lambda>r. r\<lparr>rem_status := st, rem_message := msg, rem_artifact := artifact,
                     rem_completed_at := Some (rfc3339_ms now)\<rparr>) (w_remediations w)\<rparr>)
      else (case remediations_get w i of
              Inr _ \<Rightarrow> (Some ErrAlreadyComplete, w)
            | Inl _ \<Rightarrow> (Some ErrNotFound, w)))"

definition remediations_expire_stale :: "world \<Rightarrow> gotime \<Rightarrow> world" where
  "remediations_expire_stale w cutoff =
     w\<lparr>w_remediations := update_where
          (\<lambda>r. rem_status r = RemediationInProgress \<and> rem_expires_at r < rfc3339_ms cutoff)
          (\<lambda>r. r\<lparr>rem_status := RemediationFailure, rem_message := ''expired'',
                 rem_completed_at := Some (rfc3339_ms cutoff)\<rparr>) (w_remediations w)\<rparr>"

definition routing_create :: "world \<Rightarrow> gotime \<Rightarrow> alert_routing_rule \<Rightarrow> db_error option \<times> world" where
  "routing_create w now r =
     (if w_fails w RoutingInsert (rr_id r) then (Some ErrSQL, w)
      else if rr_id r \<in> set (map rr_id (w_routing w)) then (Some ErrConstraint, w)
      else (None, w\<lparr>w_routing := w_routing w @
              [r\<lparr>rr_filter := (if rr_filter r = None then Some (JObj []) else rr_filter r),
                 rr_expires_at := rfc3339_ms (rr_expires_at r),
                 rr_created_at := rfc3339_ms (if rr_created_at r = zero_time then now else rr_created_at r)\<rparr>]\<rparr>))"

definition pages_create :: "world \<Rightarrow> alert_status_page_ref \<Rightarrow> db_error option \<times> world" where
  "pages_create w r =
     (if w_fails w PagesInsert (sp_id r) then (Some ErrSQL, w)
      else if sp_id r \<in> set (map sp_id (w_pages w)) then (Some ErrConstraint, w)
      else (None, w\<lparr>w_pages := w_pages w @ [r\<lparr>sp_updated_at := rfc3339_ms (sp_updated_at r)\<rparr>]\<rparr>))"

text \<open>\<open>Write\<close> under the unique index \<open>(org\_id, alert\_id, reply\_id)\<close> of migration 033.\<close>

definition audit_write :: "world \<Rightarrow> gotime \<Rightarrow> reply_audit \<Rightarrow> db_error option \<times> world" where
  "audit_write w now e =
     (if w_fails w AuditInsert (au_reply e) then (Some ErrSQL, w)
      else if (au_org e, au_alert e, au_reply e) \<in>
                set (map (\<lambda>x. (au_org x, au_alert x, au_reply x)) (w_audit w))
      then (Some ErrConstraint, w)
      else (None, w\<lparr>w_audit := w_audit w @ 
              [e\<lparr>au_received_at := rfc3339_ms (if au_received_at e = zero_time then now else au_received_at e)\<rparr>]\<rparr>))"

end
