(* ===== verification/StoreLaws.thy ===== *)
theory StoreLaws imports Store begin

text \<open>
  What every store operation changes (one table at most) and the invariant of the schema: keys are
  unique, foreign keys resolve, and a monitor has at most one active alert.
\<close>

named_theorems store_effect \<open>an operation's result world is its argument with one table replaced\<close>
named_theorems store_keeps \<open>an operation keeps the schema invariant (by its result equation)\<close>
named_theorems op_keeps \<open>an operation keeps the schema invariant (as an introduction rule)\<close>

section \<open>Frame\<close>

lemma new_uuid_effect [store_effect]:
  "new_uuid w = (u, w') \<Longrightarrow> \<exists>n. w' = w\<lparr>w_uuid_next := n\<rparr>"
  by (auto simp: new_uuid_def)

lemma emit_effect: "\<exists>es. emit w ev = w\<lparr>w_emitted := es\<rparr>"
proof (cases "w_emitter w")
  case False
  then have "emit w ev = w\<lparr>w_emitted := w_emitted w\<rparr>" by (simp add: emit_def)
  then show ?thesis by blast
qed (auto simp: emit_def)

lemma alerts_create_effect [store_effect]:
  "alerts_create w a = (r, w') \<Longrightarrow> \<exists>rows. w' = w\<lparr>w_alerts := rows\<rparr>"
  by (auto simp: alerts_create_def Let_def split: if_splits intro: exI [of _ "w_alerts w"])

lemma alerts_write_effect [store_effect]:
  "alerts_write w op i f = (r, w') \<Longrightarrow> \<exists>rows. w' = w\<lparr>w_alerts := rows\<rparr>"
  by (auto simp: alerts_write_def Let_def split: if_splits intro: exI [of _ "w_alerts w"])

lemma alerts_update_effect [store_effect]:
  "alerts_update w a = (r, w') \<Longrightarrow> \<exists>rows. w' = w\<lparr>w_alerts := rows\<rparr>"
  by (auto simp: alerts_update_def dest: alerts_write_effect)

lemma events_create_effect [store_effect]:
  "events_create w e = (r, w') \<Longrightarrow> \<exists>es. w' = w\<lparr>w_events := w_events w @ es\<rparr>
     \<and> (\<forall>x \<in> set es. evt_alert x = evt_alert e \<and> evt_type x = evt_type e)"
  by (auto simp: events_create_def split: if_splits intro: exI [of _ "[]"])

lemma esc_upsert_effect [store_effect]:
  "esc_upsert w s = (r, w') \<Longrightarrow> \<exists>ss. w' = w\<lparr>w_esc := ss\<rparr>"
  by (auto simp: esc_upsert_def split: if_splits intro: exI [of _ "w_esc w"])

lemma esc_delete_effect [store_effect]:
  "esc_delete w i = (r, w') \<Longrightarrow> \<exists>ss. w' = w\<lparr>w_esc := ss\<rparr>"
  by (auto simp: esc_delete_def split: if_splits intro: exI [of _ "w_esc w"])

lemma audit_write_effect [store_effect]:
  "audit_write w now e = (r, w') \<Longrightarrow> \<exists>rows. w' = w\<lparr>w_audit := rows\<rparr>"
  by (auto simp: audit_write_def split: if_splits intro: exI [of _ "w_audit w"])

lemma suppressions_create_effect [store_effect]:
  "suppressions_create w now s = (r, w') \<Longrightarrow> \<exists>rows. w' = w\<lparr>w_suppressions := rows\<rparr>"
  by (auto simp: suppressions_create_def split: if_splits intro: exI [of _ "w_suppressions w"])

lemma remediations_create_effect [store_effect]:
  "remediations_create w s = (r, w') \<Longrightarrow> \<exists>rows. w' = w\<lparr>w_remediations := rows\<rparr>"
  by (auto simp: remediations_create_def split: if_splits sum.splits option.splits
      intro: exI [of _ "w_remediations w"])

lemma remediations_complete_effect [store_effect]:
  "remediations_complete w now i st m a = (r, w') \<Longrightarrow> \<exists>rows. w' = w\<lparr>w_remediations := rows\<rparr>"
  by (auto simp: remediations_complete_def split: if_splits sum.splits
      intro: exI [of _ "w_remediations w"])

lemma routing_create_effect [store_effect]:
  "routing_create w now s = (r, w') \<Longrightarrow> \<exists>rows. w' = w\<lparr>w_routing := rows\<rparr>"
  by (auto simp: routing_create_def split: if_splits intro: exI [of _ "w_routing w"])

lemma pages_create_effect [store_effect]:
  "pages_create w s = (r, w') \<Longrightarrow> \<exists>rows. w' = w\<lparr>w_pages := rows\<rparr>"
  by (auto simp: pages_create_def split: if_splits intro: exI [of _ "w_pages w"])

lemma monitors_disable_effect [store_effect]:
  "monitors_disable w now i = (r, w') \<Longrightarrow> \<exists>rows. w' = w\<lparr>w_monitors := rows\<rparr>"
  by (auto simp: monitors_disable_def split: if_splits intro: exI [of _ "w_monitors w"])

lemma checks_create_effect [store_effect]:
  "checks_create w c = (r, w') \<Longrightarrow> \<exists>rows. w' = w\<lparr>w_checks := rows\<rparr>"
  by (auto simp: checks_create_def split: if_splits intro: exI [of _ "w_checks w"])

section \<open>The schema invariant\<close>

definition alert_ids :: "world \<Rightarrow> string list" where
  "alert_ids w = map (\<lambda>r. al_id (row_alert r)) (w_alerts w)"

definition schema_ok :: "world \<Rightarrow> bool" where
  "schema_ok w \<longleftrightarrow>
     distinct (alert_ids w)
   \<and> active_unique (w_alerts w)
   \<and> (\<forall>r \<in> set (w_alerts w). has_monitor w (al_monitor (row_alert r)))
   \<and> distinct (map evt_id (w_events w))
   \<and> (\<forall>e \<in> set (w_events w). has_alert w (evt_alert e))
   \<and> distinct (map es_alert (w_esc w))
   \<and> (\<forall>s \<in> set (w_esc w). has_alert w (es_alert s))"

lemma has_alert_ids: "has_alert w i \<longleftrightarrow> i \<in> set (alert_ids w)"
  by (simp add: has_alert_def alert_ids_def)

lemma schema_ok_cong:
  "w_alerts w' = w_alerts w \<Longrightarrow> w_events w' = w_events w \<Longrightarrow> w_esc w' = w_esc w \<Longrightarrow>
   set (map mon_id (w_monitors w')) = set (map mon_id (w_monitors w)) \<Longrightarrow>
   schema_ok w' \<longleftrightarrow> schema_ok w"
  by (simp only: schema_ok_def alert_ids_def has_alert_def has_monitor_def)

lemma schema_ok_frame [simp]:
  "schema_ok (w\<lparr>w_uuid_next := n\<rparr>) = schema_ok w"
  "schema_ok (w\<lparr>w_emitted := ev\<rparr>) = schema_ok w"
  "schema_ok (w\<lparr>w_bus := b\<rparr>) = schema_ok w"
  "schema_ok (w\<lparr>w_gauge := g\<rparr>) = schema_ok w"
  "schema_ok (w\<lparr>w_step_metric := sm\<rparr>) = schema_ok w"
  "schema_ok (w\<lparr>w_audit := au\<rparr>) = schema_ok w"
  "schema_ok (w\<lparr>w_suppressions := su\<rparr>) = schema_ok w"
  "schema_ok (w\<lparr>w_remediations := re\<rparr>) = schema_ok w"
  "schema_ok (w\<lparr>w_routing := ro\<rparr>) = schema_ok w"
  "schema_ok (w\<lparr>w_pages := pa\<rparr>) = schema_ok w"
  "schema_ok (w\<lparr>w_checks := ch\<rparr>) = schema_ok w"
  by (rule schema_ok_cong; simp)+

lemma emit_keeps [op_keeps]: "schema_ok w \<Longrightarrow> schema_ok (emit w ev)"
  using emit_effect [of w ev] by auto

lemma bus_publish_keeps [op_keeps]: "schema_ok w \<Longrightarrow> schema_ok (bus_publish w s p)"
  by (simp add: bus_publish_def)

lemma add_active_alert_keeps [op_keeps]:
  "schema_ok w \<Longrightarrow> schema_ok (add_active_alert w org d)"
  by (simp add: add_active_alert_def)

lemma record_escalation_step_keeps [op_keeps]:
  "schema_ok w \<Longrightarrow> schema_ok (record_escalation_step w org p)"
  by (simp add: record_escalation_step_def)

lemma new_uuid_keeps [store_keeps]: "new_uuid w = (u, w') \<Longrightarrow> schema_ok w \<Longrightarrow> schema_ok w'"
  by (auto simp: new_uuid_def)

lemma row_alert_row_of_alert [simp]:
  "al_id (row_alert (row_of_alert a)) = al_id a"
  "al_monitor (row_alert (row_of_alert a)) = al_monitor a"
  "al_org (row_alert (row_of_alert a)) = al_org a"
  "al_status (row_alert (row_of_alert a)) = al_status a"
  "al_severity (row_alert (row_of_alert a)) = al_severity a"
  "is_active (row_alert (row_of_alert a)) = is_active a"
  by (simp_all add: row_of_alert_def is_active_def)

lemma alerts_create_cases:
  assumes "alerts_create w a = (r, w')"
  obtains (err) e where "r = Some e" "w' = w"
  | (ok) "r = None" "\<not> has_alert w (al_id a)" "has_monitor w (al_monitor a)"
      "active_unique (w_alerts w @ [row_of_alert a])" "w' = w\<lparr>w_alerts := w_alerts w @ [row_of_alert a]\<rparr>"
  using assms unfolding alerts_create_def Let_def by (cases r) (auto split: if_split_asm)

lemma alerts_create_keeps [store_keeps]:
  assumes "alerts_create w a = (r, w')" and "schema_ok w"
  shows "schema_ok w'"
  using assms(1)
proof (cases rule: alerts_create_cases)
  case (err e)
  with assms(2) show ?thesis by simp
next
  case ok
  have ids: "alert_ids w' = alert_ids w @ [al_id a]"
    by (simp add: ok(5) alert_ids_def)
  have "al_id a \<notin> set (alert_ids w)" using ok(2) by (simp add: has_alert_ids)
  with assms(2) have d: "distinct (alert_ids w')" by (simp add: ids schema_ok_def)
  have m: "\<forall>r \<in> set (w_alerts w'). has_monitor w' (al_monitor (row_alert r))"
    using assms(2) ok(3) by (simp add: schema_ok_def ok(5) has_monitor_def)
  from assms(2) d m ok(4) show ?thesis
    by (simp add: schema_ok_def has_alert_ids ids) (simp add: ok(5))
qed

lemma alerts_write_keeps:
  assumes "alerts_write w op i f = (r, w')" and "schema_ok w"
    and id: "\<And>r. al_id (row_alert (f r)) = al_id (row_alert r)"
    and mon: "\<And>r. al_monitor (row_alert (f r)) = al_monitor (row_alert r)"
  shows "schema_ok w'"
proof (cases "r = None")
  case False
  with assms show ?thesis by (auto simp: alerts_write_def Let_def split: if_splits)
next
  case True
  let ?rows = "update_where (\<lambda>r. al_id (row_alert r) = i) f (w_alerts w)"
  from True assms(1) have w': "w' = w\<lparr>w_alerts := ?rows\<rparr>" and uniq: "active_unique ?rows"
    by (auto simp: alerts_write_def Let_def split: if_splits)
  have ids: "alert_ids w' = alert_ids w"
    by (simp add: w' alert_ids_def map_update_where id)
  have m: "\<forall>r \<in> set ?rows. has_monitor w (al_monitor (row_alert r))"
    using assms(2) by (auto simp: schema_ok_def set_update_where mon)
  show ?thesis
    using assms(2) uniq ids m by (simp add: schema_ok_def has_alert_ids has_monitor_def) (simp add: w')
qed

lemma alerts_update_keeps [store_keeps]:
  "alerts_update w a = (r, w') \<Longrightarrow> schema_ok w \<Longrightarrow> schema_ok w'"
  unfolding alerts_update_def
  by (erule alerts_write_keeps) (auto simp: set_alert_columns_def)

lemma events_create_keeps [store_keeps]:
  "events_create w e = (r, w') \<Longrightarrow> schema_ok w \<Longrightarrow> schema_ok w'"
  by (auto simp: events_create_def schema_ok_def alert_ids_def has_alert_def has_monitor_def
      split: if_splits)

lemma esc_upsert_keeps [store_keeps]:
  assumes "esc_upsert w s = (r, w')" and "schema_ok w"
  shows "schema_ok w'"
proof (cases "r = None \<and> es_alert s \<in> set (map es_alert (w_esc w))")
  case True
  let ?ss = "update_where (\<lambda>t. es_alert t = es_alert s) (\<lambda>_. stored_esc s) (w_esc w)"
  from True assms(1) have w': "w' = w\<lparr>w_esc := ?ss\<rparr>" and has: "has_alert w (es_alert s)"
    by (auto simp: esc_upsert_def split: if_splits)
  have "map es_alert ?ss = map es_alert (w_esc w)"
    by (rule map_update_where) (simp add: stored_esc_def)
  with assms(2) has show ?thesis
    by (auto simp: w' schema_ok_def alert_ids_def has_alert_def has_monitor_def
        set_update_where stored_esc_def)
next
  case False
  with assms show ?thesis
    by (auto simp: esc_upsert_def schema_ok_def alert_ids_def has_alert_def has_monitor_def
        stored_esc_def split: if_splits)
qed

lemma esc_delete_keeps [store_keeps]:
  "esc_delete w i = (r, w') \<Longrightarrow> schema_ok w \<Longrightarrow> schema_ok w'"
  by (auto simp: esc_delete_def schema_ok_def alert_ids_def has_alert_def has_monitor_def
      distinct_map_delete_where split: if_splits)

lemma monitors_disable_keeps [store_keeps]:
  assumes "monitors_disable w now i = (r, w')" and "schema_ok w"
  shows "schema_ok w'"
proof -
  have "set (map mon_id (update_where (\<lambda>m. mon_id m = i)
          (\<lambda>m. m\<lparr>mon_enabled := False, mon_updated_at := rfc3339 now\<rparr>) (w_monitors w))) =
        set (map mon_id (w_monitors w))"
    by (subst map_update_where) auto
  with assms show ?thesis
    by (auto simp: monitors_disable_def schema_ok_def alert_ids_def has_alert_def has_monitor_def
        split: if_splits)
qed

lemma audit_write_keeps [store_keeps]:
  "audit_write w now e = (r, w') \<Longrightarrow> schema_ok w \<Longrightarrow> schema_ok w'"
  by (drule audit_write_effect) auto

lemma suppressions_create_keeps [store_keeps]:
  "suppressions_create w now e = (r, w') \<Longrightarrow> schema_ok w \<Longrightarrow> schema_ok w'"
  by (drule suppressions_create_effect) auto

lemma remediations_create_keeps [store_keeps]:
  "remediations_create w e = (r, w') \<Longrightarrow> schema_ok w \<Longrightarrow> schema_ok w'"
  by (drule remediations_create_effect) auto

lemma remediations_complete_keeps [store_keeps]:
  "remediations_complete w now i st m a = (r, w') \<Longrightarrow> schema_ok w \<Longrightarrow> schema_ok w'"
  by (drule remediations_complete_effect) auto

lemma routing_create_keeps [store_keeps]:
  "routing_create w now e = (r, w') \<Longrightarrow> schema_ok w \<Longrightarrow> schema_ok w'"
  by (drule routing_create_effect) auto

lemma pages_create_keeps [store_keeps]:
  "pages_create w e = (r, w') \<Longrightarrow> schema_ok w \<Longrightarrow> schema_ok w'"
  by (drule pages_create_effect) auto

lemma snd_keeps [op_keeps]:
  assumes "schema_ok w"
  shows "schema_ok (snd (new_uuid w))" "schema_ok (snd (alerts_create w a))"
    "schema_ok (snd (alerts_update w a))" "schema_ok (snd (events_create w ev))"
    "schema_ok (snd (esc_upsert w st))" "schema_ok (snd (esc_delete w i))"
    "schema_ok (snd (audit_write w now au))"
  using assms new_uuid_keeps [OF prod.collapse [symmetric]] alerts_create_keeps [OF prod.collapse [symmetric]]
    alerts_update_keeps [OF prod.collapse [symmetric]] events_create_keeps [OF prod.collapse [symmetric]]
    esc_upsert_keeps [OF prod.collapse [symmetric]] esc_delete_keeps [OF prod.collapse [symmetric]]
    audit_write_keeps [OF prod.collapse [symmetric]]
  by (simp_all only:)

lemma write_then_event_keeps:
  assumes "write_then_event (e1, w1) now i ty d = (r, w')" and "schema_ok w1"
  shows "schema_ok w'"
  using assms
  by (auto simp: write_then_event_def split: option.splits prod.splits
      dest: new_uuid_keeps events_create_keeps)

lemma alerts_mark_duplicate_keeps [store_keeps]:
  assumes "alerts_mark_duplicate w now i dup reason = (r, w')" and "schema_ok w"
  shows "schema_ok w'"
proof -
  obtain e1 w1 where w1: "alerts_write w AlertsMarkDuplicate i (\<lambda>r. r\<lparr>row_duplicate_of := dup\<rparr>) = (e1, w1)"
    by fastforce
  then have "schema_ok w1" using assms(2) by (rule alerts_write_keeps) auto
  with assms w1 show ?thesis
    by (auto simp: alerts_mark_duplicate_def split: if_splits dest: write_then_event_keeps)
qed

lemma alerts_set_owner_keeps [store_keeps]:
  assumes "alerts_set_owner w now i kind owner reason = (r, w')" and "schema_ok w"
  shows "schema_ok w'"
proof -
  obtain e1 w1 where w1: "alerts_write w AlertsSetOwner i
      (\<lambda>r. r\<lparr>row_owner_kind := kind, row_owner_id := owner\<rparr>) = (e1, w1)"
    by fastforce
  then have "schema_ok w1" using assms(2) by (rule alerts_write_keeps) auto
  with assms w1 show ?thesis
    by (auto simp: alerts_set_owner_def split: if_splits dest: write_then_event_keeps)
qed

lemma alerts_ack_with_context_keeps [store_keeps]:
  assumes "alerts_ack_with_context w now i code note ref by = (r, w')" and "schema_ok w"
  shows "schema_ok w'"
proof -
  obtain e1 w1 where w1: "alerts_write w AlertsAck i
      (\<lambda>r. r\<lparr>row_alert := (row_alert r)\<lparr>al_status := AlertAcknowledged,
               al_acked_at := Some (rfc3339 now), al_acked_by := by\<rparr>,
             row_ack_reason := code, row_ack_reference := ref\<rparr>) = (e1, w1)"
    by fastforce
  then have "schema_ok w1" using assms(2) by (rule alerts_write_keeps) auto
  with assms w1 show ?thesis
    by (auto simp: alerts_ack_with_context_def split: if_splits dest: write_then_event_keeps)
qed

section \<open>Reading back\<close>

lemma alerts_get_SomeD:
  "alerts_get w i = Inr a \<Longrightarrow> al_id a = i \<and> (\<exists>r \<in> set (w_alerts w). row_alert r = a)"
  by (auto simp: alerts_get_def split: if_splits option.splits dest!: find_SomeD)

lemma alerts_get_active_SomeD:
  "alerts_get_active w m = Inr a \<Longrightarrow>
     al_monitor a = m \<and> is_active a \<and> a \<in> set (map row_alert (w_alerts w))"
  by (auto simp: alerts_get_active_def split: if_splits option.splits dest!: max_by_in)

lemma schema_ok_row_unique:
  assumes "schema_ok w" "r \<in> set (w_alerts w)" "r' \<in> set (w_alerts w)"
    "al_id (row_alert r) = al_id (row_alert r')"
  shows "r = r'"
  using assms by (auto simp: schema_ok_def alert_ids_def distinct_map inj_on_def)

lemma active_unique_two:
  assumes "active_unique rows" "r \<in> set rows" "r' \<in> set rows"
    "is_active (row_alert r)" "is_active (row_alert r')"
    "al_monitor (row_alert r) = al_monitor (row_alert r')"
  shows "r = r'"
  using assms by (auto simp: active_unique_def distinct_map inj_on_def)

section \<open>A world with empty tables, for the examples\<close>

definition empty_world :: world where
  "empty_world =
     \<lparr>w_monitors = [], w_alerts = [], w_events = [], w_esc = [], w_policies = [], w_steps = [],
      w_targets = [], w_channels = [], w_windows = [], w_users = [], w_teams = [], w_members = [],
      w_checks = [], w_rules = [], w_suppressions = [], w_remediations = [], w_routing = [],
      w_pages = [], w_audit = [], w_fails = (\<lambda>_ _. False),
      w_uuid = (\<lambda>n. replicate n (CHR ''u'')), w_uuid_next = 0, w_bus = [], w_emitter = True,
      w_emitted = [], w_metrics = True, w_gauge = (\<lambda>_. 0), w_step_metric = []\<rparr>"

lemma empty_world_simps [simp]:
  "w_monitors empty_world = []" "w_alerts empty_world = []" "w_events empty_world = []"
  "w_esc empty_world = []" "w_windows empty_world = []" "w_audit empty_world = []"
  "w_fails empty_world p i = False" "w_emitter empty_world" "w_emitted empty_world = []"
  by (simp_all add: empty_world_def)

lemma schema_ok_empty [simp]: "schema_ok empty_world"
  by (simp add: schema_ok_def alert_ids_def active_unique_def)

end
