(* ===== verification/Calendar.thy ===== *)
theory Calendar imports Prelude begin

text \<open>
  The civil calendar behind Go's \<open>Time.Weekday\<close>, \<open>Time.Day\<close> and \<open>time.Date\<close>, for instants
  in UTC (the store writes every instant in UTC and reads it back so).
\<close>

definition day_ns :: int where
  "day_ns = 86400 * second"

definition day_number :: "gotime \<Rightarrow> int" where
  "day_number t = t div day_ns"

definition midnight :: "gotime \<Rightarrow> gotime" where
  "midnight t = day_number t * day_ns"

text \<open>Sunday is 0; the epoch was a Thursday.\<close>

definition weekday :: "gotime \<Rightarrow> int" where
  "weekday t = (day_number t + 4) mod 7"

text \<open>Year, month and day of a day number, and back (proleptic Gregorian calendar).\<close>

definition civil_of_days :: "int \<Rightarrow> int \<times> int \<times> int" where
  "civil_of_days n =
     (let z = n + 719468; era = z div 146097; doe = z mod 146097;
          yoe = (doe - doe div 1460 + doe div 36524 - doe div 146096) div 365;
          doy = doe - (365 * yoe + yoe div 4 - yoe div 100);
          mp = (5 * doy + 2) div 153;
          d = doy - (153 * mp + 2) div 5 + 1;
          m = (if mp < 10 then mp + 3 else mp - 9)
      in (yoe + era * 400 + (if m \<le> 2 then 1 else 0), m, d))"

definition days_of_civil :: "int \<Rightarrow> int \<Rightarrow> int \<Rightarrow> int" where
  "days_of_civil y m d =
     (let y' = (if m \<le> 2 then y - 1 else y); era = y' div 400; yoe = y' mod 400;
          doy = (153 * (if 2 < m then m - 3 else m + 9) + 2) div 5 + d - 1;
          doe = yoe * 365 + yoe div 4 - yoe div 100 + doy
      in era * 146097 + doe - 719468)"

definition day_of_month :: "gotime \<Rightarrow> int" where
  "day_of_month t = snd (snd (civil_of_days (day_number t)))"

text \<open>The clock of an instant, to the second: \<open>Hour\<close>, \<open>Minute\<close> and \<open>Second\<close>.\<close>

definition clock_of :: "gotime \<Rightarrow> int" where
  "clock_of t = rfc3339 (t mod day_ns)"

lemma day_ns_pos [simp]: "0 < day_ns" "day_ns \<noteq> 0"
  by (simp_all add: day_ns_def)

lemma midnight_mod: "t = midnight t + t mod day_ns"
  by (simp add: midnight_def day_number_def)

lemma mod_day_range: "0 \<le> t mod day_ns" "t mod day_ns < day_ns"
  by simp_all

lemma midnight_le: "midnight t \<le> t" "t < midnight t + day_ns"
  using midnight_mod [of t] mod_day_range [of t] by linarith+

lemma day_number_unique:
  assumes "k * day_ns \<le> t" "t < k * day_ns + day_ns"
  shows "day_number t = k"
proof -
  have "t = (t - k * day_ns) + k * day_ns" by simp
  then have "t div day_ns = (t - k * day_ns) div day_ns + k"
    by (metis day_ns_pos(2) div_mult_self1 add.commute mult.commute)
  moreover have "(t - k * day_ns) div day_ns = 0" using assms by (intro div_pos_pos_trivial) auto
  ultimately show ?thesis by (simp add: day_number_def)
qed

lemma clock_of_range: "0 \<le> clock_of t" "clock_of t < day_ns" "clock_of t \<le> t mod day_ns"
proof -
  obtain x where x: "x = t mod day_ns" by simp
  have m: "0 \<le> x" "x < day_ns" by (simp_all add: x)
  have "rfc3339 x \<le> x" by (rule rfc3339_le)
  moreover have "0 \<le> rfc3339 x" using rfc3339_mono [OF m(1)] by (simp add: rfc3339_def)
  ultimately show "0 \<le> clock_of t" "clock_of t < day_ns" "clock_of t \<le> t mod day_ns"
    using m(2) by (simp_all add: clock_of_def x [symmetric])
qed

lemma civil_samples:
  "civil_of_days 0 = (1970, 1, 1)" "civil_of_days 19782 = (2024, 2, 29)"
  "civil_of_days (-1) = (1969, 12, 31)" "days_of_civil 2024 2 29 = 19782"
  by code_simp+

end
