(* ===== verification/Maintenance.thy ===== *)
theory Maintenance imports StoreLaws Calendar begin

text \<open>
  Maintenance windows: when a window is active (\<open>internal/domain/maintenance.go\<close>), the store's
  query for the windows that mute a monitor (\<open>internal/store/sqlite/maintenance.go\<close>), and the
  ticker that turns activity into lifecycle events (\<open>internal/maintenance/ticker.go\<close>).
\<close>

section \<open>Activity of a window\<close>

text \<open>
  \<open>json.Unmarshal\<close> into \<open>[]int\<close> with the error ignored: a text that is no array leaves the slice
  nil, an element of the wrong type leaves a zero.
\<close>

definition days_of_week :: "raw_json \<Rightarrow> int list" where
  "days_of_week raw =
     (case raw of
        Some (JArr js) \<Rightarrow> map (\<lambda>j. case json_int64 j of Some i \<Rightarrow> i | None \<Rightarrow> 0) js
      | _ \<Rightarrow> [])"

text \<open>The occurrence on the calendar day of \<open>t\<close>.\<close>

definition occurrence_start :: "maintenance_window \<Rightarrow> gotime \<Rightarrow> gotime" where
  "occurrence_start mw t = midnight t + clock_of (mw_start mw)"

definition in_occurrence :: "maintenance_window \<Rightarrow> gotime \<Rightarrow> bool" where
  "in_occurrence mw t \<longleftrightarrow>
     occurrence_start mw t \<le> t
   \<and> t \<le> occurrence_start mw t + time_sub (mw_end mw) (mw_start mw)"

definition is_active_at :: "maintenance_window \<Rightarrow> gotime \<Rightarrow> bool" where
  "is_active_at mw t =
     (if mw_recurrence mw = [] \<or> mw_recurrence mw = ''none''
      then mw_start mw \<le> t \<and> t \<le> mw_end mw
      else if (case mw_recurrence_end mw of None \<Rightarrow> False | Some e \<Rightarrow> e < t) then False
      else if t < mw_start mw then False
      else if mw_recurrence mw = ''daily'' then in_occurrence mw t
      else if mw_recurrence mw = ''weekly''
      then weekday t \<in> set (days_of_week (mw_days mw)) \<and> in_occurrence mw t
      else if mw_recurrence mw = ''monthly''
      then day_of_month t = mw_day_of_month mw \<and> in_occurrence mw t
      else False)"

section \<open>The store's queries\<close>

text \<open>Instants are compared as RFC 3339 texts, to the second.\<close>

definition windows_sql_active :: "maintenance_window \<Rightarrow> string \<Rightarrow> gotime \<Rightarrow> bool" where
  "windows_sql_active mw m at_time \<longleftrightarrow>
     mw_monitor mw = m \<and> mw_suppress mw
   \<and> ((mw_recurrence mw = ''none'' \<and> mw_start mw \<le> rfc3339 at_time \<and> rfc3339 at_time \<le> mw_end mw)
      \<or> (mw_recurrence mw \<noteq> ''none'' \<and> mw_start mw \<le> rfc3339 at_time
          \<and> (case mw_recurrence_end mw of None \<Rightarrow> True | Some e \<Rightarrow> rfc3339 at_time \<le> e)))"

definition windows_list_active :: "world \<Rightarrow> string \<Rightarrow> gotime \<Rightarrow> db_error + maintenance_window list" where
  "windows_list_active w m at_time =
     (if w_fails w WindowsListActive m then Inl ErrSQL
      else Inr (filter (\<lambda>mw. is_active_at mw at_time)
                  (filter (\<lambda>mw. windows_sql_active mw m at_time) (w_windows w))))"

definition windows_list_all :: "world \<Rightarrow> db_error + maintenance_window list" where
  "windows_list_all w =
     (if w_fails w WindowsListAll [] then Inl ErrSQL
      else Inr (sort_key (\<lambda>mw. - mw_start mw) (w_windows w)))"

text \<open>The row \<open>Create\<close> and \<open>Update\<close> write: defaults filled in, instants to the second.\<close>

definition stored_window :: "maintenance_window \<Rightarrow> maintenance_window" where
  "stored_window mw =
     mw\<lparr>mw_recurrence := (if mw_recurrence mw = [] then ''none'' else mw_recurrence mw),
        mw_start := rfc3339 (mw_start mw), mw_end := rfc3339 (mw_end mw),
        mw_recurrence_end := map_option rfc3339 (mw_recurrence_end mw)\<rparr>"

section \<open>The ticker\<close>

record window_state =
  ws_active :: bool
  ws_org :: string
  ws_monitor :: string

type_synonym ticker = "string \<Rightarrow> window_state option"

definition started_event :: "maintenance_window \<Rightarrow> gotime \<Rightarrow> cloud_event" where
  "started_event mw now =
     CEMaintenanceStarted (mw_org mw) (mw_id mw)
       (if mw_monitor mw = [] then [] else [mw_monitor mw]) now
       (if mw_recurrence mw = [] \<or> mw_recurrence mw = ''none'' then mw_end mw else zero_time)"

definition ticker_emit_started :: "world \<Rightarrow> maintenance_window \<Rightarrow> gotime \<Rightarrow> world" where
  "ticker_emit_started w mw now = emit w (started_event mw now)"

definition ticker_emit_ended :: "world \<Rightarrow> string \<Rightarrow> string \<Rightarrow> gotime \<Rightarrow> bool \<Rightarrow> world" where
  "ticker_emit_ended w org i now early = emit w (CEMaintenanceEnded org i now early)"

definition window_state_of :: "maintenance_window \<Rightarrow> gotime \<Rightarrow> window_state" where
  "window_state_of mw now =
     \<lparr>ws_active = is_active_at mw now, ws_org = mw_org mw, ws_monitor = mw_monitor mw\<rparr>"

text \<open>The first loop of \<open>poll\<close>, over the listed windows.\<close>

fun poll_windows :: "ticker \<times> world \<Rightarrow> gotime \<Rightarrow> maintenance_window list \<Rightarrow> ticker \<times> world" where
  "poll_windows (tk, w) now [] = (tk, w)"
| "poll_windows (tk, w) now (mw # mws) =
     (let active = is_active_at mw now;
          w1 = (case tk (mw_id mw) of
                  None \<Rightarrow> if active then ticker_emit_started w mw now else w
                | Some prev \<Rightarrow>
                    if \<not> ws_active prev \<and> active then ticker_emit_started w mw now
                    else if ws_active prev \<and> \<not> active
                    then ticker_emit_ended w (mw_org mw) (mw_id mw) now False
                    else w)
      in poll_windows (tk(mw_id mw \<mapsto> window_state_of mw now), w1) now mws)"

text \<open>The second loop, over the remembered ids in the map's iteration order.\<close>

fun poll_gone :: "ticker \<times> world \<Rightarrow> gotime \<Rightarrow> string set \<Rightarrow> string list \<Rightarrow> ticker \<times> world" where
  "poll_gone (tk, w) now seen [] = (tk, w)"
| "poll_gone (tk, w) now seen (i # rest) =
     (if i \<in> seen then poll_gone (tk, w) now seen rest
      else case tk i of
             None \<Rightarrow> poll_gone (tk, w) now seen rest
           | Some prev \<Rightarrow>
               poll_gone (tk(i := None),
                          if ws_active prev then ticker_emit_ended w (ws_org prev) i now True else w)
                 now seen rest)"

definition poll :: "ticker \<times> world \<Rightarrow> gotime \<Rightarrow> string list \<Rightarrow> ticker \<times> world" where
  "poll s now order =
     (case windows_list_all (snd s) of
        Inl e \<Rightarrow> s
      | Inr mws \<Rightarrow> poll_gone (poll_windows s now mws) now (set (map mw_id mws)) order)"

section \<open>Windows\<close>

lemma in_occurrence_iff:
  "in_occurrence mw t \<longleftrightarrow> clock_of (mw_start mw) \<le> t mod day_ns
     \<and> t mod day_ns \<le> clock_of (mw_start mw) + time_sub (mw_end mw) (mw_start mw)"
  using midnight_mod [of t] by (simp add: in_occurrence_def occurrence_start_def) linarith

lemma rfc3339_le_iff: "rfc3339 s \<le> rfc3339 t \<longleftrightarrow> rfc3339 s \<le> t"
  using rfc3339_le [of t] rfc3339_mono [of "rfc3339 s" t] by auto

lemma active_imp_sql_active:
  assumes "is_active_at (stored_window mw) t" "mw_monitor mw = m" "mw_suppress mw"
  shows "windows_sql_active (stored_window mw) m t"
proof -
  have le: "rfc3339 t \<le> t" by (rule rfc3339_le)
  have "rfc3339 (mw_start mw) \<le> rfc3339 t"
    using assms(1) by (auto simp: is_active_at_def stored_window_def rfc3339_le_iff split: if_splits)
  then show ?thesis
    using assms le by (auto simp: windows_sql_active_def is_active_at_def stored_window_def
        split: if_splits option.splits)
qed

text \<open>
  C29: The query that mutes a monitor is exact: on stored rows its SQL conditions, which compare
  texts of whole seconds, drop no window that \<open>IsActiveAt\<close> accepts, so the result is the list of
  the monitor's own suppressing windows that are active at the instant. Windows of the whole
  organisation (empty monitor id) are never in it for a monitor.
\<close>

theorem muting_windows_exact:
  assumes "\<not> w_fails w WindowsListActive m" and "\<forall>mw \<in> set (w_windows w). stored_window mw = mw"
  shows "windows_list_active w m t =
    Inr (filter (\<lambda>mw. mw_monitor mw = m \<and> mw_suppress mw \<and> is_active_at mw t) (w_windows w))"
proof -
  have "windows_sql_active mw m t \<and> is_active_at mw t \<longleftrightarrow>
        mw_monitor mw = m \<and> mw_suppress mw \<and> is_active_at mw t" if "mw \<in> set (w_windows w)" for mw
    using active_imp_sql_active [of mw t m] assms(2) that
    by (auto simp: windows_sql_active_def)
  then show ?thesis using assms(1) by (simp add: windows_list_active_def cong: filter_cong)
qed

text \<open>
  A daily window whose occurrence ends on the day it starts is active exactly during its
  occurrences: at \<open>t\<close> when some whole number of days after the stored window \<open>t\<close> lies between its
  start and its end.
\<close>

theorem daily_window_exact:
  assumes "mw_recurrence mw = ''daily''" and "mw_recurrence_end mw = None"
    and "rfc3339 (mw_start mw) = mw_start mw"
    and "mw_start mw \<le> mw_end mw" and "clock_of (mw_start mw) + (mw_end mw - mw_start mw) < day_ns"
  shows "is_active_at mw t \<longleftrightarrow>
    (\<exists>k\<ge>0. mw_start mw + k * day_ns \<le> t \<and> t \<le> mw_end mw + k * day_ns)"
proof -
  let ?d = "mw_end mw - mw_start mw" and ?c = "clock_of (mw_start mw)"
  have "?d < 86400 * second" using assms(5) clock_of_range(1) [of "mw_start mw"] by (simp add: day_ns_def)
  then have sub: "time_sub (mw_end mw) (mw_start mw) = ?d" using assms(4) by (simp add: time_sub_def)
  have "second dvd mw_start mw" using assms(3) by (simp add: rfc3339_def dvd_eq_mod_eq_0)
  then have "second dvd mw_start mw mod day_ns" by (simp add: dvd_mod day_ns_def)
  then have c: "?c = mw_start mw mod day_ns" by (simp add: clock_of_def rfc3339_def)
  then have start: "mw_start mw = midnight (mw_start mw) + ?c" using midnight_mod by simp
  have act: "is_active_at mw t \<longleftrightarrow> mw_start mw \<le> t \<and> ?c \<le> t mod day_ns \<and> t mod day_ns \<le> ?c + ?d"
    using assms(1,2) by (simp add: is_active_at_def in_occurrence_iff sub)
  show ?thesis
  proof
    assume a: "is_active_at mw t"
    let ?k = "day_number t - day_number (mw_start mw)"
    have t: "t = day_number t * day_ns + t mod day_ns" using midnight_mod [of t] by (simp add: midnight_def)
    have "mw_start mw + ?k * day_ns = day_number t * day_ns + ?c"
      using start by (simp add: midnight_def algebra_simps)
    moreover have "0 \<le> ?k"
      using a act zdiv_mono1 [of "mw_start mw" t day_ns] by (simp add: day_number_def)
    ultimately show "\<exists>k\<ge>0. mw_start mw + k * day_ns \<le> t \<and> t \<le> mw_end mw + k * day_ns"
      using a act t by (intro exI [of _ ?k]) linarith
  next
    assume "\<exists>k\<ge>0. mw_start mw + k * day_ns \<le> t \<and> t \<le> mw_end mw + k * day_ns"
    then obtain k where k: "0 \<le> k" "mw_start mw + k * day_ns \<le> t" "t \<le> mw_end mw + k * day_ns" by blast
    let ?n = "day_number (mw_start mw) + k"
    have base: "mw_start mw + k * day_ns = ?n * day_ns + ?c"
      using start by (simp add: midnight_def algebra_simps)
    have "day_number t = ?n"
      using base k clock_of_range(1) [of "mw_start mw"] assms(5) by (intro day_number_unique) linarith+
    then have "t mod day_ns = t - ?n * day_ns" using midnight_mod [of t] by (simp add: midnight_def)
    moreover have "0 \<le> k * day_ns" using mult_nonneg_nonneg [OF k(1), of day_ns] by (simp add: day_ns_def)
    ultimately show "is_active_at mw t" using act base k by linarith
  qed
qed

text \<open>
  A recurring window that crosses midnight is not active after midnight: at any instant whose
  time of day is before the window's start time, \<open>IsActiveAt\<close> is false, although the occurrence of
  the evening before may still be running.
\<close>

theorem recurring_window_stops_at_midnight:
  assumes "mw_recurrence mw \<noteq> []" "mw_recurrence mw \<noteq> ''none''"
    and "t mod day_ns < clock_of (mw_start mw)"
  shows "\<not> is_active_at mw t"
  using assms by (simp add: is_active_at_def in_occurrence_iff)

section \<open>The ticker\<close>

text \<open>The edge an event is for the window \<open>i\<close>: it starts (\<open>True\<close>), ends, or is about another one.\<close>

fun lifecycle_edge :: "string \<Rightarrow> cloud_event \<Rightarrow> bool option" where
  "lifecycle_edge i (CEMaintenanceStarted org j ms t e) = (if i = j then Some True else None)"
| "lifecycle_edge i (CEMaintenanceEnded org j t early) = (if i = j then Some False else None)"
| "lifecycle_edge i ev = None"

text \<open>The lifecycle automaton of a window: starts and ends alternate.\<close>

fun lifecycle :: "string \<Rightarrow> bool \<Rightarrow> cloud_event list \<Rightarrow> bool option" where
  "lifecycle i b [] = Some b"
| "lifecycle i b (ev # evs) =
     (case lifecycle_edge i ev of
        None \<Rightarrow> lifecycle i b evs
      | Some e \<Rightarrow> if e = b then None else lifecycle i e evs)"

lemma lifecycle_append:
  "lifecycle i b (es @ fs) = (case lifecycle i b es of None \<Rightarrow> None | Some c \<Rightarrow> lifecycle i c fs)"
  by (induction es arbitrary: b) (auto split: option.splits)

definition remembered :: "ticker \<Rightarrow> string \<Rightarrow> bool" where
  "remembered tk i = (case tk i of None \<Rightarrow> False | Some s \<Rightarrow> ws_active s)"

definition ticker_ok :: "nat \<Rightarrow> ticker \<times> world \<Rightarrow> bool" where
  "ticker_ok n s \<longleftrightarrow> w_emitter (snd s) \<and> n \<le> length (w_emitted (snd s))
     \<and> (\<forall>i. lifecycle i False (drop n (w_emitted (snd s))) = Some (remembered (fst s) i))"

lemma ticker_ok_extend:
  assumes "ticker_ok n (tk, w)"
    and "\<And>i. lifecycle i (remembered tk i) es = Some (remembered tk' i)"
  shows "ticker_ok n (tk', w\<lparr>w_emitted := w_emitted w @ es\<rparr>)"
  using assms by (simp add: ticker_ok_def lifecycle_append)

lemma ticker_ok_silent:
  "ticker_ok n (tk, w) \<Longrightarrow> (\<And>i. remembered tk' i = remembered tk i) \<Longrightarrow> ticker_ok n (tk', w)"
  by (simp add: ticker_ok_def)

lemma poll_windows_ok: "ticker_ok n s \<Longrightarrow> ticker_ok n (poll_windows s now mws)"
proof (induction mws arbitrary: s)
  case Nil
  then show ?case by (cases s) simp
next
  case (Cons mw mws)
  obtain tk w where s: "s = (tk, w)" by fastforce
  let ?tk = "tk(mw_id mw \<mapsto> window_state_of mw now)"
  have on: "w_emitter w" using Cons.prems by (simp add: s ticker_ok_def)
  have rem: "remembered ?tk i = (if i = mw_id mw then is_active_at mw now else remembered tk i)" for i
    by (simp add: remembered_def window_state_of_def)
  consider (start) "\<not> remembered tk (mw_id mw)" "is_active_at mw now"
    | (stop) "remembered tk (mw_id mw)" "\<not> is_active_at mw now"
    | (same) "remembered tk (mw_id mw) = is_active_at mw now" by blast
  then show ?case
  proof cases
    case start
    have "ticker_ok n (?tk, ticker_emit_started w mw now)"
      unfolding ticker_emit_started_def emit_def using on ticker_ok_extend [OF Cons.prems [unfolded s]] start
      by (simp add: rem started_event_def)
    with Cons.IH start show ?thesis by (auto simp: s Let_def remembered_def split: option.splits)
  next
    case stop
    have "ticker_ok n (?tk, ticker_emit_ended w (mw_org mw) (mw_id mw) now False)"
      unfolding ticker_emit_ended_def emit_def using on ticker_ok_extend [OF Cons.prems [unfolded s]] stop
      by (simp add: rem)
    with Cons.IH stop show ?thesis by (auto simp: s Let_def remembered_def split: option.splits)
  next
    case same
    have "ticker_ok n (?tk, w)" using ticker_ok_silent [OF Cons.prems [unfolded s]] same by (simp add: rem)
    with Cons.IH same show ?thesis by (auto simp: s Let_def remembered_def split: option.splits)
  qed
qed

lemma poll_gone_ok: "ticker_ok n s \<Longrightarrow> ticker_ok n (poll_gone s now seen order)"
proof (induction order arbitrary: s)
  case Nil
  then show ?case by (cases s) simp
next
  case (Cons i rest)
  obtain tk w where s: "s = (tk, w)" by fastforce
  have on: "w_emitter w" using Cons.prems by (simp add: s ticker_ok_def)
  have rem: "remembered (tk(i := None)) j = (j \<noteq> i \<and> remembered tk j)" for j
    by (simp add: remembered_def)
  show ?case
  proof (cases "remembered tk i")
    case True
    then obtain prev where prev: "tk i = Some prev" "ws_active prev"
      by (auto simp: remembered_def split: option.splits)
    have "ticker_ok n (tk(i := None), ticker_emit_ended w (ws_org prev) i now True)"
      unfolding ticker_emit_ended_def emit_def using on ticker_ok_extend [OF Cons.prems [unfolded s]] True
      by (simp add: rem)
    with Cons.IH Cons.prems prev show ?thesis by (simp add: s)
  next
    case False
    have "ticker_ok n (tk(i := None), w)"
      by (rule ticker_ok_silent [OF Cons.prems [unfolded s]]) (use False in \<open>auto simp: rem\<close>)
    with Cons.IH Cons.prems False show ?thesis by (auto simp: s remembered_def split: option.splits)
  qed
qed

text \<open>
  A run of the ticker: before each poll the table of windows is whatever the API has made of it.
\<close>

fun ticker_run :: "ticker \<times> world \<Rightarrow> (maintenance_window list \<times> gotime \<times> string list) list \<Rightarrow> ticker \<times> world" where
  "ticker_run s [] = s"
| "ticker_run s (p # polls) =
     ticker_run (poll (fst s, (snd s)\<lparr>w_windows := fst p\<rparr>) (fst (snd p)) (snd (snd p))) polls"

lemma poll_ok: "ticker_ok n s \<Longrightarrow> ticker_ok n (poll s now order)"
  by (simp add: poll_def poll_windows_ok poll_gone_ok split: sum.split)

text \<open>
  However the windows change between polls, whatever the iteration order of the ticker's map and
  also when listing fails, the events the ticker emits for a window alternate, starting with
  \<open>started\<close>, and the last one agrees with the remembered state.
\<close>

theorem ticker_events_alternate:
  assumes "w_emitter w" and "ticker_run (Map.empty, w) polls = (tk, w')"
  shows "lifecycle i False (drop (length (w_emitted w)) (w_emitted w')) = Some (remembered tk i)"
proof -
  have "ticker_ok n s \<Longrightarrow> ticker_ok n (ticker_run s polls)" for n s
  proof (induction polls arbitrary: s)
    case (Cons p polls)
    have "ticker_ok n (fst s, (snd s)\<lparr>w_windows := fst p\<rparr>)" using Cons.prems by (simp add: ticker_ok_def)
    then show ?case using Cons.IH poll_ok by simp
  qed simp
  moreover have "ticker_ok (length (w_emitted w)) (Map.empty, w)"
    using assms(1) by (simp add: ticker_ok_def remembered_def)
  ultimately have "ticker_ok (length (w_emitted w)) (tk, w')" using assms(2) by metis
  then show ?thesis by (simp add: ticker_ok_def)
qed

lemma poll_windows_fresh:
  assumes "w_emitter w" "distinct (map mw_id mws)" "\<And>mw. mw \<in> set mws \<Longrightarrow> tk (mw_id mw) = None"
  shows "w_emitted (snd (poll_windows (tk, w) now mws)) = w_emitted w @
    map (\<lambda>mw. started_event mw now)
      (filter (\<lambda>mw. is_active_at mw now) mws)"
  using assms
proof (induction mws arbitrary: tk w)
  case (Cons mw mws)
  define tk' where "tk' = tk(mw_id mw \<mapsto> window_state_of mw now)"
  have none: "tk (mw_id mw) = None" using Cons.prems by simp
  have fresh: "\<And>x. x \<in> set mws \<Longrightarrow> tk' (mw_id x) = None"
    using Cons.prems(2,3) by (auto simp: tk'_def image_iff)
  have d: "distinct (map mw_id mws)" using Cons.prems(2) by simp
  have "w_emitter (ticker_emit_started w mw now)"
    using Cons.prems(1) by (simp add: ticker_emit_started_def emit_def)
  from Cons.IH [of _ tk', OF this d fresh] Cons.IH [of _ tk', OF Cons.prems(1) d fresh] none
  show ?case
    using Cons.prems(1) by (simp add: Let_def tk'_def [symmetric]) (simp add: ticker_emit_started_def emit_def)
qed simp

text \<open>
  The poll that is meant to prime the ticker is not silent: on an empty memory it emits
  \<open>started\<close> for every window that is active when the service boots.
\<close>

theorem first_poll_emits_every_active_window:
  assumes "w_emitter w" and "\<not> w_fails w WindowsListAll []" and "distinct (map mw_id (w_windows w))"
  shows "w_emitted (snd (poll (Map.empty, w) now [])) = w_emitted w @
    map (\<lambda>mw. started_event mw now)
      (filter (\<lambda>mw. is_active_at mw now) (sort_key (\<lambda>mw. - mw_start mw) (w_windows w)))"
proof -
  let ?l = "sort_key (\<lambda>mw. - mw_start mw) (w_windows w)"
  have "distinct (map mw_id ?l)" using assms(3) by (simp add: distinct_map)
  then show ?thesis
    using poll_windows_fresh [OF assms(1), of ?l Map.empty now] assms(2)
    by (cases "poll_windows (Map.empty, w) now ?l") (simp add: poll_def windows_list_all_def)
qed

section \<open>Examples\<close>

definition sample_window :: "string \<Rightarrow> string \<Rightarrow> maintenance_window" where
  "sample_window i m =
     \<lparr>mw_id = i, mw_org = ''o'', mw_monitor = m, mw_name = [], mw_description = [],
      mw_start = 36000 * second, mw_end = 39600 * second, mw_public = False, mw_suppress = True,
      mw_recurrence = ''daily'', mw_recurrence_end = None, mw_days = None, mw_day_of_month = 0,
      mw_created_at = 0, mw_created_by = []\<rparr>"

definition sample_windows_world :: world where
  "sample_windows_world = empty_world\<lparr>w_windows := [sample_window ''a'' ''m'', sample_window ''b'' []]\<rparr>"

lemma sample_window_simps:
  "mw_id (sample_window i m) = i" "mw_monitor (sample_window i m) = m"
  "mw_suppress (sample_window i m)" "mw_start (sample_window i m) = 36000 * second"
  "stored_window (sample_window i m) = sample_window i m"
  by (simp_all add: sample_window_def stored_window_def rfc3339_def)

lemma sample_clock: "clock_of (mw_start (sample_window i m)) = 36000 * second"
  by (simp add: clock_of_def sample_window_def rfc3339_def day_ns_def)

theorem daily_window_exact_witness: "is_active_at (sample_window ''a'' ''m'') (day_ns + 37000 * second)"
  using daily_window_exact [of "sample_window ''a'' ''m''" "day_ns + 37000 * second"]
  by (simp add: sample_clock) (auto simp: sample_window_def rfc3339_def day_ns_def intro!: exI [of _ 1])

theorem recurring_window_stops_at_midnight_witness: "\<not> is_active_at (sample_window ''a'' ''m'') day_ns"
  using recurring_window_stops_at_midnight [of "sample_window ''a'' ''m''" day_ns]
  by (simp add: sample_clock) (simp add: sample_window_def)

lemma sample_active: "is_active_at (sample_window i m) 37000000000000"
  by (simp add: is_active_at_def in_occurrence_iff sample_clock)
    (simp add: sample_window_def day_ns_def time_sub_def)

theorem muting_windows_exact_witness:
  "windows_list_active sample_windows_world ''m'' (37000 * second) = Inr [sample_window ''a'' ''m'']"
  using muting_windows_exact [of sample_windows_world "''m''" "37000 * second"]
  by (simp add: sample_windows_world_def sample_active sample_window_simps)

definition sample_polls :: "(maintenance_window list \<times> gotime \<times> string list) list" where
  "sample_polls = [([sample_window ''a'' ''m''], 37000 * second, [''a'']),
                   ([], 38000 * second, [''a''])]"

theorem ticker_events_alternate_witness:
  "lifecycle ''a'' False (w_emitted (snd (ticker_run (Map.empty, empty_world) sample_polls))) =
     Some (remembered (fst (ticker_run (Map.empty, empty_world) sample_polls)) ''a'')"
  using ticker_events_alternate [of empty_world sample_polls _ _ "''a''", OF _ prod.collapse [symmetric]]
  by simp

theorem first_poll_emits_every_active_window_witness:
  "w_emitted (snd (poll (Map.empty, sample_windows_world) (37000 * second) [])) =
     [started_event (sample_window ''a'' ''m'') (37000 * second),
      started_event (sample_window ''b'' []) (37000 * second)]"
  using first_poll_emits_every_active_window [of sample_windows_world "37000 * second"]
  by (simp add: sample_windows_world_def sample_active sample_window_simps)

end
