(* ===== verification/Registry.thy ===== *)
theory Registry imports Json Lru begin

text \<open>
  CloudEvents and the outbound registry (\<open>internal/cloudevents/reply/registry.go\<close>): an LRU with
  a time to live that remembers which event the program emitted to which channel, so that a reply
  can only name an event that was really sent. The first part states what any implementation of
  \<open>OutboundRegistry\<close> promises and what follows for a run of it; the second models
  \<open>MemoryRegistry\<close>, relates it to a list ordered by recency and interprets the contract on it.
\<close>

section \<open>CloudEvents\<close>

text \<open>
  An extension value of the SDK: a string, a value with a \<open>String\<close> method, nil, or any other
  value, with the text \<open>fmt\<close> prints for it.
\<close>

datatype extension = ExtString string | ExtStringer string | ExtNil | ExtOther string

record ce_event =
  ce_id :: string
  ce_type :: string
  ce_source :: string
  ce_data :: raw_json
  ce_extensions :: "string \<Rightarrow> extension option"

record entry =
  en_event :: string
  en_org :: string
  en_alert :: string
  en_monitor :: string
  en_channel :: string
  en_emitted :: gotime

text \<open>
  \<open>extractDataIDs\<close> ignores the error of \<open>json.Unmarshal\<close>: a member of the wrong type is
  skipped and the others are still assigned; data that is no object assigns nothing.
\<close>

fun lenient_string :: "string \<Rightarrow> (string \<times> json) list \<Rightarrow> string \<Rightarrow> string" where
  "lenient_string k [] acc = acc"
| "lenient_string k (kv # rest) acc =
     lenient_string k rest
       (case snd kv of JStr s \<Rightarrow> if fold_name (fst kv) = fold_name k then s else acc | _ \<Rightarrow> acc)"

definition extract_data_ids :: "ce_event \<Rightarrow> string \<times> string" where
  "extract_data_ids ev =
     (case ce_data ev of
        Some (JObj kvs) \<Rightarrow> (lenient_string ''alert_id'' kvs [], lenient_string ''monitor_id'' kvs [])
      | _ \<Rightarrow> ([], []))"

definition new_entry :: "gotime \<Rightarrow> ce_event \<Rightarrow> string \<Rightarrow> string \<Rightarrow> entry" where
  "new_entry emitted ev org channel =
     \<lparr>en_event = ce_id ev, en_org = org, en_alert = fst (extract_data_ids ev),
      en_monitor = snd (extract_data_ids ev), en_channel = channel, en_emitted = emitted\<rparr>"

section \<open>The contract of OutboundRegistry\<close>

text \<open>A run: events recorded, and ids looked up, in the order the registry's lock serialises them.\<close>

datatype registry_op =
    RegRecord gotime gotime ce_event string string
  | RegLookup gotime string

text \<open>The latest recording of an id in a run, as the entry it made.\<close>

fun last_recorded :: "registry_op list \<Rightarrow> string \<Rightarrow> entry option" where
  "last_recorded [] i = None"
| "last_recorded (RegRecord e t ev org ch # ops) i =
     (case last_recorded ops i of
        Some x \<Rightarrow> Some x
      | None \<Rightarrow> if ce_id ev = i \<and> i \<noteq> [] then Some (new_entry e ev org ch) else None)"
| "last_recorded (RegLookup t j # ops) i = last_recorded ops i"

lemma last_recorded_append:
  "last_recorded (xs @ ys) i = (case last_recorded ys i of Some x \<Rightarrow> Some x | None \<Rightarrow> last_recorded xs i)"
  by (induction xs i rule: last_recorded.induct) (auto split: option.splits)

locale outbound_registry =
  fixes empty :: 'r
    and holds :: "'r \<Rightarrow> entry set"
    and ok :: "'r \<Rightarrow> bool"
    and record_op :: "'r \<Rightarrow> gotime \<Rightarrow> gotime \<Rightarrow> ce_event \<Rightarrow> string \<Rightarrow> string \<Rightarrow> bool \<times> 'r"
    and lookup_op :: "'r \<Rightarrow> gotime \<Rightarrow> string \<Rightarrow> entry option \<times> 'r"
  assumes ok_empty: "ok empty"
    and holds_empty: "holds empty = {}"
    and ok_record: "ok r \<Longrightarrow> ok (snd (record_op r e t ev org ch))"
    and ok_lookup: "ok r \<Longrightarrow> ok (snd (lookup_op r t i))"
    and named: "ok r \<Longrightarrow> x \<in> holds r \<Longrightarrow> en_event x \<noteq> []"
    and record_holds: "ok r \<Longrightarrow> x \<in> holds (snd (record_op r e t ev org ch)) \<Longrightarrow>
      (ce_id ev \<noteq> [] \<and> x = new_entry e ev org ch) \<or> (x \<in> holds r \<and> en_event x \<noteq> ce_id ev)"
    and lookup_holds: "ok r \<Longrightarrow> holds (snd (lookup_op r t i)) \<subseteq> holds r"
    and lookup_sound: "ok r \<Longrightarrow> fst (lookup_op r t i) = Some x \<Longrightarrow> x \<in> holds r \<and> en_event x = i"
begin

fun run_step :: "'r \<Rightarrow> registry_op \<Rightarrow> 'r" where
  "run_step r (RegRecord e t ev org ch) = snd (record_op r e t ev org ch)"
| "run_step r (RegLookup t i) = snd (lookup_op r t i)"

lemma run_provenance:
  "ok (foldl run_step empty ops)
   \<and> (\<forall>x \<in> holds (foldl run_step empty ops). last_recorded ops (en_event x) = Some x)"
proof (induction ops rule: rev_induct)
  case Nil
  then show ?case by (simp add: ok_empty holds_empty)
next
  case (snoc op ops)
  let ?r = "foldl run_step empty ops"
  have ok: "ok ?r" and old: "x \<in> holds ?r \<Longrightarrow> last_recorded ops (en_event x) = Some x" for x
    using snoc by auto
  show ?case
  proof (cases op)
    case (RegRecord e t ev org ch)
    have "last_recorded (ops @ [op]) (en_event x) = Some x"
      if "x \<in> holds (snd (record_op ?r e t ev org ch))" for x
      using record_holds [OF ok that] old
      by (auto simp: RegRecord last_recorded_append new_entry_def)
    then show ?thesis by (simp add: RegRecord ok_record [OF ok])
  next
    case (RegLookup t i)
    have "last_recorded (ops @ [op]) (en_event x) = Some x" if "x \<in> holds (snd (lookup_op ?r t i))" for x
      using old lookup_holds [OF ok] that by (auto simp: RegLookup last_recorded_append)
    then show ?thesis by (simp add: RegLookup ok_lookup [OF ok])
  qed
qed

lemma run_lookup:
  assumes "fst (lookup_op (foldl run_step empty ops) t i) = Some x"
  shows "last_recorded ops i = Some x"
  using run_provenance [of ops] lookup_sound [OF _ assms] by blast

end

section \<open>MemoryRegistry\<close>

record memory_registry =
  reg_max_entries :: int
  reg_ttl :: int
  reg_lru :: "entry lru"

definition new_memory_registry :: "int \<Rightarrow> int \<Rightarrow> memory_registry" where
  "new_memory_registry max_entries ttl =
     \<lparr>reg_max_entries = max_entries, reg_ttl = ttl, reg_lru = lru_new\<rparr>"

definition reg_len :: "memory_registry \<Rightarrow> nat" where
  "reg_len r = lru_len (reg_lru r)"

definition reg_expired :: "memory_registry \<Rightarrow> gotime \<Rightarrow> entry \<Rightarrow> bool" where
  "reg_expired r now e \<longleftrightarrow> 0 < reg_ttl r \<and> reg_ttl r < time_sub now (en_emitted e)"

definition reg_remove :: "memory_registry \<Rightarrow> nat \<times> entry \<Rightarrow> memory_registry" where
  "reg_remove r el =
     r\<lparr>reg_lru := lru_remove (index_delete (reg_lru r) (en_event (snd el))) (fst el)\<rparr>"

lemma reg_remove_shorter:
  assumes "lru_back (reg_lru r) = Some el"
  shows "reg_len (reg_remove r el) < reg_len r"
proof -
  from assms have "el \<in> set (lru_order (reg_lru r))"
    by (auto simp: lru_back_def split: if_splits)
  then have "length (filter (\<lambda>e. fst e \<noteq> fst el) (lru_order (reg_lru r))) < length (lru_order (reg_lru r))"
    by (intro length_filter_less) auto
  then show ?thesis by (simp add: reg_len_def lru_len_def reg_remove_def lru_remove_def index_delete_def)
qed

text \<open>
  The two loops of \<open>evictLocked\<close>: expired entries from the back, then the back while the cap is
  exceeded. The clock is read once per operation.
\<close>

function evict_expired :: "memory_registry \<Rightarrow> gotime \<Rightarrow> memory_registry" where
  "evict_expired r now =
     (case lru_back (reg_lru r) of
        None \<Rightarrow> r
      | Some el \<Rightarrow>
          if reg_expired r now (snd el) then evict_expired (reg_remove r el) now else r)"
  by pat_completeness auto
termination by (relation "measure (\<lambda>(r, now). reg_len r)") (auto intro: reg_remove_shorter)

function evict_capacity :: "memory_registry \<Rightarrow> memory_registry" where
  "evict_capacity r =
     (if reg_max_entries r < int (reg_len r)
      then (case lru_back (reg_lru r) of None \<Rightarrow> r | Some el \<Rightarrow> evict_capacity (reg_remove r el))
      else r)"
  by pat_completeness auto
termination by (relation "measure reg_len") (auto intro: reg_remove_shorter)

declare evict_expired.simps [simp del] evict_capacity.simps [simp del]

definition reg_evict :: "memory_registry \<Rightarrow> gotime \<Rightarrow> memory_registry" where
  "reg_evict r now =
     (let r1 = (if 0 < reg_ttl r then evict_expired r now else r)
      in if 0 < reg_max_entries r1 then evict_capacity r1 else r1)"

text \<open>
  \<open>Record\<close> reads the clock before it takes the lock (\<open>emitted\<close>) and again while it evicts
  (\<open>now\<close>). An event without an id is refused.
\<close>

definition reg_record ::
  "memory_registry \<Rightarrow> gotime \<Rightarrow> gotime \<Rightarrow> ce_event \<Rightarrow> string \<Rightarrow> string \<Rightarrow> bool \<times> memory_registry" where
  "reg_record r emitted now ev org channel =
     (if ce_id ev = [] then (False, r)
      else
        let en = new_entry emitted ev org channel;
            l = (case lru_index (reg_lru r) (en_event en) of
                   Some h \<Rightarrow> lru_move_to_front (lru_set_value (reg_lru r) h en) h
                 | None \<Rightarrow>
                     (case lru_push_front (reg_lru r) en of (h, l1) \<Rightarrow> index_put l1 (en_event en) h))
        in (True, reg_evict (r\<lparr>reg_lru := l\<rparr>) now))"

definition reg_lookup :: "memory_registry \<Rightarrow> gotime \<Rightarrow> string \<Rightarrow> entry option \<times> memory_registry" where
  "reg_lookup r now event_id =
     (if event_id = [] then (None, r)
      else case lru_index (reg_lru r) event_id of
             None \<Rightarrow> (None, r)
           | Some h \<Rightarrow>
               (case lru_value (reg_lru r) h of
                  None \<Rightarrow> (None, r)
                | Some en \<Rightarrow>
                    if reg_expired r now en then (None, reg_remove r (h, en)) else (Some en, r)))"

section \<open>The list the registry stands for\<close>

definition reg_abs :: "memory_registry \<Rightarrow> entry list" where
  "reg_abs r = lru_abs (reg_lru r)"

definition reg_ok :: "memory_registry \<Rightarrow> bool" where
  "reg_ok r \<longleftrightarrow> lru_ok en_event (reg_lru r) \<and> (\<forall>e \<in> set (reg_abs r). en_event e \<noteq> [])
     \<and> (0 < reg_max_entries r \<longrightarrow> int (reg_len r) \<le> reg_max_entries r)"

definition drop_expired :: "int \<Rightarrow> gotime \<Rightarrow> entry list \<Rightarrow> entry list" where
  "drop_expired ttl now es =
     (if 0 < ttl then rev (dropWhile (\<lambda>e. ttl < time_sub now (en_emitted e)) (rev es)) else es)"

definition cap_entries :: "int \<Rightarrow> entry list \<Rightarrow> entry list" where
  "cap_entries cap es = (if 0 < cap then take (nat cap) es else es)"

text \<open>What recording and looking up do to the list.\<close>

definition record_spec :: "int \<Rightarrow> int \<Rightarrow> gotime \<Rightarrow> entry \<Rightarrow> entry list \<Rightarrow> entry list" where
  "record_spec cap ttl now en es =
     cap_entries cap (drop_expired ttl now (en # without_key en_event (en_event en) es))"

lemma length_reg_abs [simp]: "length (reg_abs r) = reg_len r"
  by (simp add: reg_abs_def reg_len_def)

lemma reg_remove_back:
  assumes "lru_ok en_event (reg_lru r)" "lru_back (reg_lru r) = Some el"
  shows "lru_ok en_event (reg_lru (reg_remove r el))" and "reg_abs (reg_remove r el) = butlast (reg_abs r)"
    and "reg_ttl (reg_remove r el) = reg_ttl r" "reg_max_entries (reg_remove r el) = reg_max_entries r"
proof -
  obtain h v where el: "el = (h, v)" by fastforce
  note d = lru_drop_back [OF assms(1) assms(2) [unfolded el]]
  show "lru_ok en_event (reg_lru (reg_remove r el))" "reg_abs (reg_remove r el) = butlast (reg_abs r)"
    using lru_drop(1,2) [OF assms(1) d(1)] d(2) by (simp_all add: el reg_remove_def reg_abs_def)
qed (simp_all add: reg_remove_def)

lemma lru_back_abs:
  "lru_back (reg_lru r) = None \<longleftrightarrow> reg_abs r = []"
  "lru_back (reg_lru r) = Some el \<Longrightarrow> reg_abs r \<noteq> [] \<and> last (reg_abs r) = snd el"
  by (auto simp: lru_back_def reg_abs_def lru_abs_def last_map split: if_splits)

lemma evict_expired_abs:
  assumes "lru_ok en_event (reg_lru r)" and "0 < reg_ttl r"
  shows "lru_ok en_event (reg_lru (evict_expired r now))
     \<and> reg_abs (evict_expired r now) = drop_expired (reg_ttl r) now (reg_abs r)
     \<and> reg_ttl (evict_expired r now) = reg_ttl r
     \<and> reg_max_entries (evict_expired r now) = reg_max_entries r"
  using assms
proof (induction r now rule: evict_expired.induct)
  case (1 r now)
  show ?case
  proof (cases "lru_back (reg_lru r)")
    case None
    then have "reg_abs r = []" by (simp add: lru_back_abs)
    with 1(2) None show ?thesis by (simp add: evict_expired.simps [of r] drop_expired_def)
  next
    case (Some el)
    note b = reg_remove_back [OF 1(2) Some]
    have l: "reg_abs r = butlast (reg_abs r) @ [snd el]"
      using lru_back_abs(2) [OF Some] by (metis append_butlast_last_id)
    show ?thesis
    proof (cases "reg_expired r now (snd el)")
      case True
      have "drop_expired (reg_ttl r) now (reg_abs r) = drop_expired (reg_ttl r) now (butlast (reg_abs r))"
        using True 1(3) by (subst l) (simp add: drop_expired_def reg_expired_def)
      then show ?thesis
        using 1(1) [OF Some True] b 1(3) Some True
        by (simp add: evict_expired.simps [of r])
    next
      case False
      have "drop_expired (reg_ttl r) now (reg_abs r) = reg_abs r"
        using False 1(3) by (subst (1 2) l) (simp add: drop_expired_def reg_expired_def)
      then show ?thesis using 1(2) Some False by (simp add: evict_expired.simps [of r])
    qed
  qed
qed

lemma evict_capacity_abs:
  assumes "lru_ok en_event (reg_lru r)" and "0 < reg_max_entries r"
  shows "lru_ok en_event (reg_lru (evict_capacity r))
     \<and> reg_abs (evict_capacity r) = cap_entries (reg_max_entries r) (reg_abs r)
     \<and> reg_ttl (evict_capacity r) = reg_ttl r
     \<and> reg_max_entries (evict_capacity r) = reg_max_entries r"
  using assms
proof (induction r rule: evict_capacity.induct)
  case (1 r)
  show ?case
  proof (cases "reg_max_entries r < int (reg_len r)")
    case False
    with 1 show ?thesis by (simp add: evict_capacity.simps [of r] cap_entries_def)
  next
    case True
    then obtain el where el: "lru_back (reg_lru r) = Some el"
      using 1(3) lru_back_abs(1) [of r] length_reg_abs [of r] by (cases "lru_back (reg_lru r)") auto
    note b = reg_remove_back [OF 1(2) el]
    have "cap_entries (reg_max_entries r) (butlast (reg_abs r)) = cap_entries (reg_max_entries r) (reg_abs r)"
      using True 1(3) by (simp add: cap_entries_def take_butlast)
    then show ?thesis
      using 1(1) [OF True el] b 1(3) True el by (simp add: evict_capacity.simps [of r])
  qed
qed

lemma reg_evict_abs:
  assumes "lru_ok en_event (reg_lru r)"
  shows "lru_ok en_event (reg_lru (reg_evict r now))
     \<and> reg_abs (reg_evict r now) = cap_entries (reg_max_entries r) (drop_expired (reg_ttl r) now (reg_abs r))
     \<and> reg_ttl (reg_evict r now) = reg_ttl r
     \<and> reg_max_entries (reg_evict r now) = reg_max_entries r"
proof -
  obtain r1 where r1: "r1 = (if 0 < reg_ttl r then evict_expired r now else r)" by simp
  have "lru_ok en_event (reg_lru r1) \<and> reg_abs r1 = drop_expired (reg_ttl r) now (reg_abs r)
      \<and> reg_ttl r1 = reg_ttl r \<and> reg_max_entries r1 = reg_max_entries r"
    using evict_expired_abs [OF assms] assms by (simp add: r1 drop_expired_def)
  then show ?thesis
    using evict_capacity_abs [of r1]
    by (auto simp: reg_evict_def r1 [symmetric] cap_entries_def)
qed

lemma reg_record_abs:
  assumes "lru_ok en_event (reg_lru r)" "ce_id ev \<noteq> []"
  shows "lru_ok en_event (reg_lru (snd (reg_record r emitted now ev org ch)))
     \<and> reg_abs (snd (reg_record r emitted now ev org ch)) =
        record_spec (reg_max_entries r) (reg_ttl r) now (new_entry emitted ev org ch) (reg_abs r)
     \<and> reg_ttl (snd (reg_record r emitted now ev org ch)) = reg_ttl r
     \<and> reg_max_entries (snd (reg_record r emitted now ev org ch)) = reg_max_entries r
     \<and> fst (reg_record r emitted now ev org ch)"
proof -
  let ?en = "new_entry emitted ev org ch"
  let ?l = "case lru_index (reg_lru r) (en_event ?en) of
              Some h \<Rightarrow> lru_move_to_front (lru_set_value (reg_lru r) h ?en) h
            | None \<Rightarrow> (case lru_push_front (reg_lru r) ?en of (h, l1) \<Rightarrow> index_put l1 (en_event ?en) h)"
  have l: "lru_ok en_event ?l \<and> lru_abs ?l = ?en # without_key en_event (en_event ?en) (lru_abs (reg_lru r))"
  proof (cases "lru_index (reg_lru r) (en_event ?en)")
    case None
    obtain h l1 where p: "lru_push_front (reg_lru r) ?en = (h, l1)" by fastforce
    have "en_event ?en \<notin> en_event ` set (lru_abs (reg_lru r))" using None index_None [OF assms(1)] by simp
    then show ?thesis
      using lru_push [OF assms(1) None p] by (simp add: None p without_key_absent)
  next
    case (Some h)
    obtain v where v: "(h, v) \<in> set (lru_order (reg_lru r))" "en_event v = en_event ?en"
      using index_Some [OF assms(1) Some] by metis
    show ?thesis
      using lru_touch(1,2) [OF assms(1) v(1) v(2) [symmetric]] by (simp add: Some v(2))
  qed
  let ?r = "r\<lparr>reg_lru := ?l\<rparr>"
  have "reg_abs ?r = ?en # without_key en_event (en_event ?en) (reg_abs r)"
    using l by (simp add: reg_abs_def)
  moreover have "snd (reg_record r emitted now ev org ch) = reg_evict ?r now"
    and "fst (reg_record r emitted now ev org ch)"
    using assms(2) by (simp_all add: reg_record_def Let_def)
  ultimately show ?thesis
    using reg_evict_abs [of ?r now] l by (simp add: record_spec_def)
qed

lemma reg_record_no_id [simp]: "ce_id ev = [] \<Longrightarrow> reg_record r e t ev org ch = (False, r)"
  by (simp add: reg_record_def)

lemma reg_lookup_abs:
  assumes "lru_ok en_event (reg_lru r)"
  shows "lru_ok en_event (reg_lru (snd (reg_lookup r now i)))
     \<and> fst (reg_lookup r now i) =
        (case List.find (\<lambda>e. en_event e = i) (reg_abs r) of
           Some e \<Rightarrow> if i = [] \<or> reg_expired r now e then None else Some e
         | None \<Rightarrow> None)
     \<and> reg_abs (snd (reg_lookup r now i)) =
        (case List.find (\<lambda>e. en_event e = i) (reg_abs r) of
           Some e \<Rightarrow> if i \<noteq> [] \<and> reg_expired r now e then without_key en_event i (reg_abs r) else reg_abs r
         | None \<Rightarrow> reg_abs r)
     \<and> reg_ttl (snd (reg_lookup r now i)) = reg_ttl r
     \<and> reg_max_entries (snd (reg_lookup r now i)) = reg_max_entries r"
proof (cases "lru_index (reg_lru r) i")
  case None
  then have "i \<notin> en_event ` set (reg_abs r)" using index_None [OF assms] by (simp add: reg_abs_def)
  then have "List.find (\<lambda>e. en_event e = i) (reg_abs r) = None" by (auto simp: find_None_iff)
  with None assms show ?thesis by (simp add: reg_lookup_def)
next
  case (Some h)
  obtain v where v: "(h, v) \<in> set (lru_order (reg_lru r))" "en_event v = i"
      "lru_value (reg_lru r) h = Some v" "List.find (\<lambda>x. en_event x = i) (reg_abs r) = Some v"
    using index_Some [OF assms Some] unfolding reg_abs_def by metis
  show ?thesis
    using assms lru_drop(1,2) [OF assms v(1)] Some v
    by (simp add: reg_lookup_def reg_remove_def reg_abs_def)
qed

lemma set_drop_expired: "set (drop_expired ttl now es) \<subseteq> set es"
  by (auto simp: drop_expired_def dest: set_dropWhileD)

lemma set_cap_entries: "set (cap_entries cap es) \<subseteq> set es"
  by (auto simp: cap_entries_def dest: in_set_takeD)

lemma set_record_spec:
  "x \<in> set (record_spec cap ttl now en es) \<Longrightarrow> x = en \<or> x \<in> set es \<and> en_event x \<noteq> en_event en"
  using set_drop_expired set_cap_entries unfolding record_spec_def without_key_def by fastforce

lemma en_event_new_entry [simp]: "en_event (new_entry e ev org ch) = ce_id ev"
  by (simp add: new_entry_def)

lemma reg_record_ok: "reg_ok r \<Longrightarrow> reg_ok (snd (reg_record r e t ev org ch))"
proof (cases "ce_id ev = []")
  case False
  assume ok: "reg_ok r"
  then have l: "lru_ok en_event (reg_lru r)" by (simp add: reg_ok_def)
  note a = reg_record_abs [OF l False, of e t org ch]
  let ?r = "snd (reg_record r e t ev org ch)"
  have "\<forall>x \<in> set (reg_abs ?r). en_event x \<noteq> []"
    using a ok False set_record_spec by (fastforce simp: reg_ok_def)
  moreover have "int (length (reg_abs ?r)) \<le> reg_max_entries r" if "0 < reg_max_entries r"
    using a that by (simp only: record_spec_def cap_entries_def) simp
  moreover have "lru_ok en_event (reg_lru ?r)" "reg_max_entries ?r = reg_max_entries r"
    using a by simp_all
  ultimately show ?thesis by (simp add: reg_ok_def)
qed simp

lemma reg_lookup_ok: "reg_ok r \<Longrightarrow> reg_ok (snd (reg_lookup r t i))"
proof -
  assume ok: "reg_ok r"
  then have l: "lru_ok en_event (reg_lru r)" by (simp add: reg_ok_def)
  note a = reg_lookup_abs [OF l, of t i]
  have s: "set (reg_abs (snd (reg_lookup r t i))) \<subseteq> set (reg_abs r)"
    using a by (auto simp: without_key_def split: option.splits if_splits)
  have n: "length (reg_abs (snd (reg_lookup r t i))) \<le> length (reg_abs r)"
    using a by (simp add: without_key_def del: length_reg_abs split: option.splits)
  have m: "lru_ok en_event (reg_lru (snd (reg_lookup r t i)))"
      "reg_max_entries (snd (reg_lookup r t i)) = reg_max_entries r"
      "int (reg_len (snd (reg_lookup r t i))) \<le> int (reg_len r)"
    subgoal using a by blast
    subgoal using a by blast
    subgoal using n by (simp only: length_reg_abs of_nat_le_iff)
    done
  show ?thesis using ok s m unfolding reg_ok_def m(2) by fastforce
qed

interpretation mem: outbound_registry "new_memory_registry cap ttl" "\<lambda>r. set (reg_abs r)" reg_ok
    reg_record reg_lookup
  for cap ttl
proof
  show "reg_ok (new_memory_registry cap ttl)" "set (reg_abs (new_memory_registry cap ttl)) = {}"
    by (simp_all add: reg_ok_def new_memory_registry_def lru_new_ok reg_abs_def reg_len_def)
       (simp add: lru_len_def lru_new_def)
next
  fix r t i x
  assume ok: "reg_ok r"
  then have l: "lru_ok en_event (reg_lru r)" by (simp add: reg_ok_def)
  note a = reg_lookup_abs [OF l, of t i]
  show "reg_ok (snd (reg_lookup r t i))" by (rule reg_lookup_ok [OF ok])
  show "set (reg_abs (snd (reg_lookup r t i))) \<subseteq> set (reg_abs r)"
    using a by (auto simp: without_key_def split: option.splits if_splits)
  assume "fst (reg_lookup r t i) = Some x"
  then show "x \<in> set (reg_abs r) \<and> en_event x = i"
    using a by (auto dest: find_SomeD split: option.splits if_splits)
next
  fix r x e t ev org ch
  assume ok: "reg_ok r" and x: "x \<in> set (reg_abs (snd (reg_record r e t ev org ch)))"
  then have l: "lru_ok en_event (reg_lru r)" by (simp add: reg_ok_def)
  show "ce_id ev \<noteq> [] \<and> x = new_entry e ev org ch \<or> x \<in> set (reg_abs r) \<and> en_event x \<noteq> ce_id ev"
  proof (cases "ce_id ev = []")
    case True
    with ok x show ?thesis by (auto simp: reg_ok_def)
  next
    case False
    then show ?thesis
      using reg_record_abs [OF l False, of e t org ch] x set_record_spec by fastforce
  qed
next
  fix r :: memory_registry and x
  assume "reg_ok r" "x \<in> set (reg_abs r)"
  then show "en_event x \<noteq> []" by (simp add: reg_ok_def)
qed (rule reg_record_ok)

section \<open>Runs\<close>

text \<open>One call on the registry, as the contract's run takes it.\<close>

fun reg_step :: "memory_registry \<Rightarrow> registry_op \<Rightarrow> memory_registry" where
  "reg_step r (RegRecord e t ev org ch) = snd (reg_record r e t ev org ch)"
| "reg_step r (RegLookup t i) = snd (reg_lookup r t i)"

lemma run_step_reg_step: "mem.run_step = reg_step"
proof (intro ext)
  fix r op
  show "mem.run_step r op = reg_step r op" by (cases op) simp_all
qed

lemmas mem_run = mem.run_provenance [unfolded run_step_reg_step] mem.run_lookup [unfolded run_step_reg_step]

abbreviation reg_run :: "int \<Rightarrow> int \<Rightarrow> registry_op list \<Rightarrow> memory_registry" where
  "reg_run cap ttl ops \<equiv> foldl reg_step (new_memory_registry cap ttl) ops"

lemma reg_run_ok: "reg_ok (reg_run cap ttl ops)"
  using mem_run(1) [of cap ttl ops] by blast

lemma reg_step_config:
  assumes "reg_ok r"
  shows "reg_ttl (reg_step r op) = reg_ttl r" "reg_max_entries (reg_step r op) = reg_max_entries r"
proof -
  from assms have l: "lru_ok en_event (reg_lru r)" by (simp add: reg_ok_def)
  have "reg_ttl (reg_step r op) = reg_ttl r \<and> reg_max_entries (reg_step r op) = reg_max_entries r"
  proof (cases op)
    case (RegRecord e t ev org ch)
    then show ?thesis
      using reg_record_abs [OF l, of ev e t org ch] by (cases "ce_id ev = []") simp_all
  next
    case (RegLookup t i)
    then show ?thesis using reg_lookup_abs [OF l, of t i] by simp
  qed
  then show "reg_ttl (reg_step r op) = reg_ttl r"
    "reg_max_entries (reg_step r op) = reg_max_entries r" by simp_all
qed

lemma reg_step_ok: "reg_ok r \<Longrightarrow> reg_ok (reg_step r op)"
  by (cases op) (simp_all add: reg_record_ok reg_lookup_ok)

lemma reg_run_config:
  "reg_ttl (reg_run cap ttl ops) = ttl \<and> reg_max_entries (reg_run cap ttl ops) = cap"
  by (induction ops rule: rev_induct)
    (simp add: new_memory_registry_def, simp add: reg_step_config [OF reg_run_ok])

text \<open>
  C8: After any sequence of Record and Lookup calls on a new MemoryRegistry, whatever Lookup returns
  for an id is the entry of the last Record with that id: its org and channel are the ones that call
  passed, its alert and monitor ids the ones in that event's data; it is not older than the TTL, and
  the registry never holds more than its cap. A reply can not reach an event the program did not
  emit, nor one that was emitted to another org or channel under the same id.
\<close>
theorem lookup_returns_the_last_recorded:
  "(case fst (reg_lookup (foldl reg_step (new_memory_registry cap ttl) ops) now i) of
      None \<Rightarrow> True
    | Some x \<Rightarrow> last_recorded ops i = Some x \<and> (ttl \<le> 0 \<or> time_sub now (en_emitted x) \<le> ttl))
   \<and> (cap \<le> 0 \<or> int (reg_len (foldl reg_step (new_memory_registry cap ttl) ops)) \<le> cap)"
proof -
  let ?r = "reg_run cap ttl ops"
  have l: "lru_ok en_event (reg_lru ?r)" using reg_run_ok by (simp add: reg_ok_def)
  have "cap \<le> 0 \<or> int (reg_len ?r) \<le> cap"
    using reg_run_ok [of cap ttl ops] reg_run_config [of cap ttl ops] by (auto simp: reg_ok_def)
  moreover have "last_recorded ops i = Some x \<and> (ttl \<le> 0 \<or> time_sub now (en_emitted x) \<le> ttl)"
    if x: "fst (reg_lookup ?r now i) = Some x" for x
  proof
    show "last_recorded ops i = Some x" by (rule mem_run(2) [OF x])
    have "\<not> reg_expired ?r now x"
      using reg_lookup_abs [OF l, of now i] x by (auto split: option.splits if_splits)
    then show "ttl \<le> 0 \<or> time_sub now (en_emitted x) \<le> ttl"
      using reg_run_config [of cap ttl ops] by (auto simp: reg_expired_def)
  qed
  ultimately show ?thesis by (simp split: option.split)
qed

text \<open>Positions: an entry moves one place back per record and is dropped only at the end of the list.\<close>

definition kept_at :: "entry \<Rightarrow> nat \<Rightarrow> entry list \<Rightarrow> bool" where
  "kept_at x n es \<longleftrightarrow> (\<exists>front back. es = front @ x # back \<and> length front \<le> n)"

lemma kept_at_drop_expired:
  assumes "kept_at x n es" and "\<not> ttl < time_sub now (en_emitted x)"
  shows "kept_at x n (drop_expired ttl now es)"
proof -
  from assms(1) obtain pre post where es: "es = pre @ x # post" "length pre \<le> n"
    unfolding kept_at_def by blast
  have "\<exists>b. rev (dropWhile (\<lambda>e. ttl < time_sub now (en_emitted e)) (rev es)) = pre @ x # b"
  proof (cases "\<exists>y \<in> set post. \<not> ttl < time_sub now (en_emitted y)")
    case True
    then show ?thesis by (auto simp: es dropWhile_append1)
  next
    case False
    then have "dropWhile (\<lambda>e. ttl < time_sub now (en_emitted e)) (rev post @ x # rev pre) = x # rev pre"
      using assms(2) by (subst dropWhile_append2) auto
    then show ?thesis by (simp add: es)
  qed
  then show ?thesis using es assms(1) unfolding kept_at_def drop_expired_def by auto
qed

lemma kept_at_cap:
  assumes "kept_at x n es" and "cap \<le> 0 \<or> int n < cap"
  shows "kept_at x n (cap_entries cap es)"
proof (cases "0 < cap")
  case True
  from assms(1) obtain pre post where es: "es = pre @ x # post" "length pre \<le> n"
    unfolding kept_at_def by blast
  obtain k where k: "nat cap - length pre = Suc k"
    using assms(2) True es(2) by (cases "nat cap - length pre") auto
  have "take (nat cap) es = pre @ x # take k post"
    using k by (simp add: es(1))
  then show ?thesis using es(2) True unfolding kept_at_def cap_entries_def by auto
qed (simp add: cap_entries_def assms(1))

lemma kept_at_without:
  assumes "kept_at x n es" and "en_event x \<noteq> k"
  shows "kept_at x n (without_key en_event k es)"
proof -
  from assms(1) obtain pre post where es: "es = pre @ x # post" "length pre \<le> n"
    unfolding kept_at_def by blast
  then have "without_key en_event k es = without_key en_event k pre @ x # without_key en_event k post"
    using assms(2) by (simp add: without_key_def)
  moreover have "length (without_key en_event k pre) \<le> n"
    using es(2) length_without_key_le [of en_event k pre] by simp
  ultimately show ?thesis unfolding kept_at_def by blast
qed

fun op_read :: "registry_op \<Rightarrow> gotime" where
  "op_read (RegRecord e t ev org ch) = t"
| "op_read (RegLookup t i) = t"

fun records_id :: "string \<Rightarrow> registry_op \<Rightarrow> bool" where
  "records_id i (RegRecord e t ev org ch) = (ce_id ev = i)"
| "records_id i (RegLookup t j) = False"

fun is_record :: "registry_op \<Rightarrow> bool" where
  "is_record (RegRecord e t ev org ch) = True"
| "is_record (RegLookup t j) = False"

lemma kept_step:
  assumes ok: "reg_ok r" and k: "kept_at x n (reg_abs r)" and nid: "\<not> records_id (en_event x) op"
    and fresh: "\<not> reg_ttl r < time_sub (op_read op) (en_emitted x)"
    and room: "reg_max_entries r \<le> 0 \<or> int (if is_record op then Suc n else n) < reg_max_entries r"
  shows "kept_at x (if is_record op then Suc n else n) (reg_abs (reg_step r op))"
proof (cases op)
  case (RegRecord e t ev org ch)
  from ok have l: "lru_ok en_event (reg_lru r)" by (simp add: reg_ok_def)
  have up: "kept_at x (Suc n) es" if "kept_at x n es" for es
    using that unfolding kept_at_def by (metis le_SucI)
  show ?thesis
  proof (cases "ce_id ev = []")
    case True
    then show ?thesis using up [OF k] by (simp add: RegRecord)
  next
    case False
    let ?en = "new_entry e ev org ch"
    have "kept_at x n (without_key en_event (en_event ?en) (reg_abs r))"
      using nid by (intro kept_at_without [OF k]) (simp add: RegRecord)
    then have "kept_at x (Suc n) (?en # without_key en_event (en_event ?en) (reg_abs r))"
      unfolding kept_at_def by (metis append_Cons length_Cons not_less_eq_eq)
    then have "kept_at x (Suc n) (record_spec (reg_max_entries r) (reg_ttl r) t ?en (reg_abs r))"
      unfolding record_spec_def using fresh room
      by (intro kept_at_cap kept_at_drop_expired) (simp_all add: RegRecord)
    then show ?thesis using reg_record_abs [OF l False, of e t org ch] by (simp add: RegRecord)
  qed
next
  case (RegLookup t i)
  from ok have l: "lru_ok en_event (reg_lru r)" by (simp add: reg_ok_def)
  have d: "distinct (map en_event (reg_abs r))"
    using lru_ok_distinct_keys [OF l] by (simp add: reg_abs_def)
  have x: "x \<in> set (reg_abs r)" using k by (auto simp: kept_at_def)
  show ?thesis
  proof (cases "i = en_event x")
    case True
    then have "List.find (\<lambda>e. en_event e = i) (reg_abs r) = Some x"
      using find_distinct_key [OF d x] by simp
    then have "reg_abs (snd (reg_lookup r t i)) = reg_abs r"
      using reg_lookup_abs [OF l, of t i] fresh by (simp add: reg_expired_def RegLookup)
    then show ?thesis using k by (simp add: RegLookup)
  next
    case False
    have "reg_abs (snd (reg_lookup r t i)) = reg_abs r
        \<or> reg_abs (snd (reg_lookup r t i)) = without_key en_event i (reg_abs r)"
      using reg_lookup_abs [OF l, of t i] by (auto split: option.splits)
    then show ?thesis using k kept_at_without [OF k, of i] False by (auto simp: RegLookup)
  qed
qed

lemma kept_run:
  assumes ok: "reg_ok r" and k: "kept_at x n (reg_abs r)"
    and nid: "\<forall>op \<in> set ops. \<not> records_id (en_event x) op"
    and fresh: "\<forall>op \<in> set ops. \<not> reg_ttl r < time_sub (op_read op) (en_emitted x)"
    and room: "reg_max_entries r \<le> 0 \<or> int (n + length (filter is_record ops)) < reg_max_entries r"
  shows "kept_at x (n + length (filter is_record ops)) (reg_abs (foldl reg_step r ops))"
  using assms
proof (induction ops arbitrary: r n)
  case (Cons op ops)
  let ?m = "if is_record op then Suc n else n"
  have r': "?m + length (filter is_record ops) = n + length (filter is_record (op # ops))" by simp
  have "kept_at x ?m (reg_abs (reg_step r op))"
    using Cons.prems by (intro kept_step) auto
  moreover have "\<forall>op' \<in> set ops. \<not> reg_ttl (reg_step r op) < time_sub (op_read op') (en_emitted x)"
    using Cons.prems(4) reg_step_config [OF Cons.prems(1)] by simp
  moreover have "reg_max_entries (reg_step r op) \<le> 0
      \<or> int (?m + length (filter is_record ops)) < reg_max_entries (reg_step r op)"
    using Cons.prems(5) unfolding r' reg_step_config [OF Cons.prems(1)] .
  ultimately have "kept_at x (?m + length (filter is_record ops))
      (reg_abs (foldl reg_step (reg_step r op) ops))"
    using Cons.prems(3) by (intro Cons.IH reg_step_ok [OF Cons.prems(1)]) auto
  then show ?case unfolding r' by simp
qed simp

text \<open>
  An event that was recorded is found: in a registry with any history, after Record of an event
  with an id, and then any operations that record at most cap - 1 further events (none with that id)
  and read the clock at most the TTL after it, Lookup returns exactly its entry, with the org and
  channel it was recorded with.
\<close>
theorem recorded_event_is_found:
  fixes cap ttl :: int
  assumes "ce_id ev \<noteq> []"
    and "\<forall>op \<in> set later. \<not> records_id (ce_id ev) op"
    and "\<forall>op \<in> set later. time_sub (op_read op) emitted \<le> ttl"
    and "time_sub now emitted \<le> ttl" "time_sub t emitted \<le> ttl"
    and "cap \<le> 0 \<or> int (length (filter is_record later)) < cap"
  shows "fst (reg_lookup (foldl reg_step (new_memory_registry cap ttl)
            (earlier @ RegRecord emitted t ev org ch # later)) now (ce_id ev)) =
         Some (new_entry emitted ev org ch)"
proof -
  let ?x = "new_entry emitted ev org ch"
  let ?r0 = "reg_run cap ttl earlier" and ?r1 = "reg_run cap ttl (earlier @ [RegRecord emitted t ev org ch])"
  have em: "en_emitted ?x = emitted" by (simp add: new_entry_def)
  have c: "reg_ttl ?r1 = ttl" "reg_max_entries ?r1 = cap" "reg_ttl ?r0 = ttl" "reg_max_entries ?r0 = cap"
    using reg_run_config [of cap ttl] by metis+
  have "lru_ok en_event (reg_lru ?r0)" using reg_run_ok [of cap ttl earlier] by (simp add: reg_ok_def)
  then have "reg_abs ?r1 = record_spec cap ttl t ?x (reg_abs ?r0)"
    using reg_record_abs [OF _ assms(1), of ?r0 emitted t org ch] c by simp
  moreover have "kept_at ?x 0 (record_spec cap ttl t ?x (reg_abs ?r0))"
    unfolding record_spec_def using assms(5,6) em
    by (intro kept_at_cap kept_at_drop_expired) (auto simp: kept_at_def)
  ultimately have k: "kept_at ?x 0 (reg_abs ?r1)" by simp
  have "kept_at ?x (0 + length (filter is_record later)) (reg_abs (foldl reg_step ?r1 later))"
  proof (rule kept_run [OF reg_run_ok k])
    show "\<forall>op \<in> set later. \<not> records_id (en_event ?x) op" using assms(2) by simp
    show "\<forall>op \<in> set later. \<not> reg_ttl ?r1 < time_sub (op_read op) (en_emitted ?x)"
      using assms(3) unfolding c em by (simp add: not_less)
    show "reg_max_entries ?r1 \<le> 0 \<or> int (0 + length (filter is_record later)) < reg_max_entries ?r1"
      using assms(6) unfolding c by simp
  qed
  moreover have r: "foldl reg_step ?r1 later = reg_run cap ttl (earlier @ RegRecord emitted t ev org ch # later)"
    by simp
  ultimately have x: "?x \<in> set (reg_abs (reg_run cap ttl (earlier @ RegRecord emitted t ev org ch # later)))"
    by (auto simp: kept_at_def)
  let ?r = "reg_run cap ttl (earlier @ RegRecord emitted t ev org ch # later)"
  have l: "lru_ok en_event (reg_lru ?r)"
    using reg_run_ok [of cap ttl "earlier @ RegRecord emitted t ev org ch # later"]
    unfolding reg_ok_def by blast
  have "List.find (\<lambda>e. en_event e = en_event ?x) (reg_abs ?r) = Some ?x"
    using lru_ok_distinct_keys [OF l] x by (intro find_distinct_key) (simp_all add: reg_abs_def)
  moreover have "reg_ttl ?r = ttl"
    using reg_run_config [of cap ttl "earlier @ RegRecord emitted t ev org ch # later"] by blast
  then have "\<not> reg_expired ?r now ?x"
    using assms(4) unfolding reg_expired_def em by simp
  ultimately show ?thesis using reg_lookup_abs [OF l, of now "ce_id ev"] assms(1) by simp
qed

definition sample_ce :: "string \<Rightarrow> ce_event" where
  "sample_ce i = \<lparr>ce_id = i, ce_type = ''run.yipyap.alert.fired.v1'', ce_source = ''yipyap'',
     ce_data = Some (JObj [(''alert_id'', JStr ''a1'')]), ce_extensions = (\<lambda>_. None)\<rparr>"

theorem recorded_event_is_found_witness:
  "fst (reg_lookup (foldl reg_step (new_memory_registry 2 60)
      ([] @ RegRecord 0 0 (sample_ce ''e1'') ''o1'' ''c1''
        # [RegRecord 10 10 (sample_ce ''e2'') ''o2'' ''c2''])) 30 (ce_id (sample_ce ''e1''))) =
   Some (new_entry 0 (sample_ce ''e1'') ''o1'' ''c1'')"
  by (rule recorded_event_is_found) (simp_all add: sample_ce_def time_sub_def)

end
