(* ===== verification/Utf8.thy ===== *)
theory Utf8 imports Prelude begin

text \<open>
  The runes of a Go string. A string is its bytes; \<open>range\<close>, \<open>utf8.RuneCountInString\<close>,
  \<open>strings.TrimSpace\<close> and \<open>[]rune\<close> walk it one UTF-8 sequence at a time, a byte that
  starts no valid sequence standing for \<open>U+FFFD\<close>. On top of it: the field caps and the
  rune-aware truncation of the reply handlers (\<open>reply/handlers/common\_phase5.go\<close>).
\<close>

section \<open>Segments\<close>

definition byte :: "char \<Rightarrow> int" where
  "byte c = of_char c"

definition cont_byte :: "int \<Rightarrow> bool" where
  "cont_byte b \<longleftrightarrow> 128 \<le> b \<and> b \<le> 191"

text \<open>
  The width of the valid sequence a string starts with (0 when there is none): the table of first
  bytes and second-byte ranges of \<open>unicode/utf8\<close>.
\<close>

definition seq_len :: "int \<Rightarrow> int \<Rightarrow> int \<Rightarrow> int \<Rightarrow> nat" where
  "seq_len b0 b1 b2 b3 =
     (if b0 < 128 then 1
      else if 194 \<le> b0 \<and> b0 \<le> 223 then (if cont_byte b1 then 2 else 0)
      else if 224 \<le> b0 \<and> b0 \<le> 239 then
        (if cont_byte b1 \<and> (b0 = 224 \<longrightarrow> 160 \<le> b1) \<and> (b0 = 237 \<longrightarrow> b1 \<le> 159) \<and> cont_byte b2
         then 3 else 0)
      else if 240 \<le> b0 \<and> b0 \<le> 244 then
        (if cont_byte b1 \<and> (b0 = 240 \<longrightarrow> 144 \<le> b1) \<and> (b0 = 244 \<longrightarrow> b1 \<le> 143)
            \<and> cont_byte b2 \<and> cont_byte b3
         then 4 else 0)
      else 0)"

definition byte_at :: "string \<Rightarrow> nat \<Rightarrow> int" where
  "byte_at s i = (if i < length s then byte (s ! i) else 0)"

definition rune_len :: "string \<Rightarrow> nat" where
  "rune_len s =
     (if s = [] then 0 else seq_len (byte_at s 0) (byte_at s 1) (byte_at s 2) (byte_at s 3))"

lemma rune_len_Nil [simp]: "rune_len [] = 0"
  by (simp add: rune_len_def)

lemma cont_byte_at: "cont_byte (byte_at s i) \<Longrightarrow> i < length s"
  by (simp add: byte_at_def cont_byte_def split: if_splits)

lemma seq_len_conts:
  "seq_len b0 b1 b2 b3 \<le> 1 \<or> seq_len b0 b1 b2 b3 = 2 \<and> cont_byte b1
   \<or> seq_len b0 b1 b2 b3 = 3 \<and> cont_byte b2 \<or> seq_len b0 b1 b2 b3 = 4 \<and> cont_byte b3"
  by (simp add: seq_len_def)

lemma rune_len_le: "rune_len s \<le> length s"
proof (cases "s = []")
  case False
  then have "1 \<le> length s" by (cases s) auto
  moreover from False have "rune_len s = seq_len (byte_at s 0) (byte_at s 1) (byte_at s 2) (byte_at s 3)"
    by (simp add: rune_len_def)
  ultimately show ?thesis
    using seq_len_conts [of "byte_at s 0" "byte_at s 1" "byte_at s 2" "byte_at s 3"]
      cont_byte_at [of s 1] cont_byte_at [of s 2] cont_byte_at [of s 3]
    by (elim disjE conjE) simp_all
qed simp

lemma rune_len_bound: "rune_len s \<le> 4"
  by (simp add: rune_len_def seq_len_def)

text \<open>The decision looks at the bytes of the sequence only.\<close>

lemma seq_len_eq:
  "seq_len b0 b1 b2 b3 = 1 \<longleftrightarrow> b0 < 128"
  "seq_len b0 b1 b2 b3 = 2 \<longleftrightarrow> 194 \<le> b0 \<and> b0 \<le> 223 \<and> cont_byte b1"
  "seq_len b0 b1 b2 b3 = 3 \<longleftrightarrow> 224 \<le> b0 \<and> b0 \<le> 239 \<and> cont_byte b1
     \<and> (b0 = 224 \<longrightarrow> 160 \<le> b1) \<and> (b0 = 237 \<longrightarrow> b1 \<le> 159) \<and> cont_byte b2"
  by (simp_all add: seq_len_def)

lemma seq_len_local:
  assumes "seq_len b0 b1 b2 b3 = n" "0 < n"
    and "1 < n \<Longrightarrow> c1 = b1" "2 < n \<Longrightarrow> c2 = b2" "3 < n \<Longrightarrow> c3 = b3"
  shows "seq_len b0 c1 c2 c3 = n"
proof -
  have "n = 1 \<or> n = 2 \<or> n = 3 \<or> n = 4"
    using seq_len_conts [of b0 b1 b2 b3] assms(1,2) by linarith
  then show ?thesis
    using assms by (elim disjE) (simp_all only: seq_len_eq, simp_all)
qed

lemma rune_len_take:
  assumes "rune_len s = n" "0 < n"
  shows "rune_len (take n s @ t) = n"
proof -
  have le: "n \<le> length s" using rune_len_le [of s] assms by simp
  have at: "byte_at (take n s @ t) i = byte_at s i" if "i < n" for i
    using that le by (simp add: byte_at_def nth_append)
  have "s \<noteq> []" using assms by auto
  then have q: "seq_len (byte_at s 0) (byte_at s 1) (byte_at s 2) (byte_at s 3) = n"
    using assms(1) by (simp add: rune_len_def)
  have "seq_len (byte_at s 0) (byte_at (take n s @ t) 1) (byte_at (take n s @ t) 2)
          (byte_at (take n s @ t) 3) = n"
    by (rule seq_len_local [OF q assms(2)]) (simp_all only: at)
  moreover have "byte_at (take n s @ t) 0 = byte_at s 0" by (rule at [OF assms(2)])
  moreover have "take n s @ t \<noteq> []" using assms(2) \<open>s \<noteq> []\<close> by simp
  ultimately show ?thesis unfolding rune_len_def by (simp only: if_False)
qed

function segs :: "string \<Rightarrow> string list" where
  "segs [] = []"
| "segs (c # cs) =
     (let n = max 1 (rune_len (c # cs)) in take n (c # cs) # segs (drop n (c # cs)))"
  by pat_completeness auto
termination by (relation "measure length") (auto simp: Let_def max_def)

lemma concat_segs [simp]: "concat (segs s) = s"
  by (induction s rule: segs.induct) (simp_all add: Let_def)

lemma segs_eq_Nil [simp]: "segs s = [] \<longleftrightarrow> s = []"
  by (cases s) (auto simp: Let_def)

lemma segs_nonempty: "x \<in> set (segs s) \<Longrightarrow> x \<noteq> []"
  by (induction s rule: segs.induct) (auto simp: Let_def)

lemma length_segs: "length (segs s) \<le> length s"
proof (induction s rule: segs.induct)
  case (2 c cs)
  then show ?case by (simp add: Let_def max_def split: if_splits)
qed simp

section \<open>Runes\<close>

text \<open>The encoding of the rune a segment stands for.\<close>

definition replacement :: string where
  "replacement = [CHR 0xEF, CHR 0xBF, CHR 0xBD]"

definition rune_text :: "string \<Rightarrow> string" where
  "rune_text seg = (if rune_len seg = 0 then replacement else seg)"

definition runes :: "string \<Rightarrow> string list" where
  "runes s = map rune_text (segs s)"

definition rune_count :: "string \<Rightarrow> nat" where
  "rune_count s = length (segs s)"

definition valid_utf8 :: "string \<Rightarrow> bool" where
  "valid_utf8 s \<longleftrightarrow> (\<forall>seg \<in> set (segs s). rune_len seg \<noteq> 0)"

lemma rune_count_le: "rune_count s \<le> length s"
  by (simp add: rune_count_def length_segs)

lemma runes_valid: "valid_utf8 s \<Longrightarrow> runes s = segs s"
  unfolding runes_def valid_utf8_def by (rule map_idI) (auto simp: rune_text_def)

text \<open>A rune: a nonempty string that is one valid sequence.\<close>

definition is_rune :: "string \<Rightarrow> bool" where
  "is_rune r \<longleftrightarrow> r \<noteq> [] \<and> rune_len r = length r"

lemma seg_rune: "x \<in> set (segs s) \<Longrightarrow> rune_len x \<noteq> 0 \<Longrightarrow> is_rune x"
proof (induction s rule: segs.induct)
  case (2 c cs)
  let ?n = "rune_len (c # cs)"
  show ?case
  proof (cases "?n = 0")
    case True
    have "is_rune [c]" if "rune_len [c] \<noteq> 0" using that rune_len_le [of "[c]"] by (simp add: is_rune_def)
    then show ?thesis using 2 True by (auto simp: Let_def)
  next
    case False
    have "rune_len (take ?n (c # cs)) = ?n"
      using rune_len_take [of "c # cs" ?n "[]"] False by simp
    moreover have "length (take ?n (c # cs)) = ?n" using rune_len_le [of "c # cs"] by simp
    moreover have "take ?n (c # cs) \<noteq> []" using False by simp
    ultimately have "is_rune (take ?n (c # cs))" by (simp add: is_rune_def)
    moreover have "max 1 ?n = ?n" using False by simp
    ultimately show ?thesis using 2 by (auto simp: Let_def)
  qed
qed simp

lemma replacement_rune: "is_rune replacement"
  by (simp add: is_rune_def replacement_def rune_len_def byte_at_def byte_def seq_len_def cont_byte_def)

lemma rune_text_rune: "x \<in> set (segs s) \<Longrightarrow> is_rune (rune_text x)"
  using seg_rune replacement_rune by (auto simp: rune_text_def)

lemma runes_are_runes: "x \<in> set (runes s) \<Longrightarrow> is_rune x"
  by (auto simp: runes_def rune_text_rune)

lemma segs_rune_append: "is_rune r \<Longrightarrow> segs (r @ t) = r # segs t"
proof -
  assume r: "is_rune r"
  then obtain c cs where c: "r = c # cs" by (auto simp: is_rune_def neq_Nil_conv)
  have "rune_len (take (length r) r @ t) = length r"
    using r by (intro rune_len_take) (auto simp: is_rune_def)
  then have "rune_len (c # cs @ t) = length r" by (simp add: c)
  then show ?thesis by (simp add: c Let_def)
qed

lemma segs_concat_runes: "(\<And>r. r \<in> set rs \<Longrightarrow> is_rune r) \<Longrightarrow> segs (concat rs) = rs"
  by (induction rs) (auto simp: segs_rune_append)

lemma valid_concat_runes: "(\<And>r. r \<in> set rs \<Longrightarrow> is_rune r) \<Longrightarrow> valid_utf8 (concat rs)"
  unfolding valid_utf8_def by (subst segs_concat_runes) (auto simp: is_rune_def)

section \<open>Field caps and truncation\<close>

text \<open>\<open>truncateUTF8Runes\<close>: whole runes while they fit; an invalid byte is written as \<open>U+FFFD\<close>.\<close>

fun take_runes :: "nat \<Rightarrow> string list \<Rightarrow> string" where
  "take_runes cap [] = []"
| "take_runes cap (r # rs) = (if cap < length r then [] else r @ take_runes (cap - length r) rs)"

definition truncate_utf8_runes :: "string \<Rightarrow> int \<Rightarrow> string" where
  "truncate_utf8_runes s max_bytes =
     (if max_bytes \<le> 0 \<or> int (length s) \<le> max_bytes then s
      else take_runes (nat max_bytes) (runes s))"

text \<open>\<open>enforceMaxRunes\<close>: whether the field is within its cap.\<close>

definition within_runes :: "string \<Rightarrow> nat \<Rightarrow> bool" where
  "within_runes s cap \<longleftrightarrow> rune_count s \<le> cap"

lemma take_runes_prefix:
  "\<exists>n. take_runes cap rs = concat (take n rs) \<and> length (take_runes cap rs) \<le> cap
     \<and> (n < length rs \<longrightarrow> cap < length (concat (take (Suc n) rs)))"
proof (induction rs arbitrary: cap)
  case (Cons r rs)
  show ?case
  proof (cases "cap < length r")
    case True
    then show ?thesis by (intro exI [of _ 0]) simp
  next
    case False
    obtain n where "take_runes (cap - length r) rs = concat (take n rs)"
        "length (take_runes (cap - length r) rs) \<le> cap - length r"
        "n < length rs \<longrightarrow> cap - length r < length (concat (take (Suc n) rs))"
      using Cons.IH by blast
    with False show ?thesis by (intro exI [of _ "Suc n"]) auto
  qed
qed simp

text \<open>
  For every string longer than the cap (positive), truncateUTF8Runes returns the longest run of
  whole runes that fits: the result is at most the cap in bytes, is the concatenation of the first n
  runes of the input, is valid UTF-8 even when the input is not, and one more rune would exceed the
  cap; on a valid input it is a prefix of it.
\<close>
theorem truncate_keeps_whole_runes:
  assumes "0 < cap" and "cap < int (length s)"
  shows "\<exists>n. truncate_utf8_runes s cap = concat (take n (runes s))
     \<and> int (length (truncate_utf8_runes s cap)) \<le> cap
     \<and> valid_utf8 (truncate_utf8_runes s cap)
     \<and> (n < length (runes s) \<longrightarrow> cap < int (length (concat (take (Suc n) (runes s)))))
     \<and> (valid_utf8 s \<longrightarrow> prefix (truncate_utf8_runes s cap) s)"
proof -
  have t: "truncate_utf8_runes s cap = take_runes (nat cap) (runes s)"
    using assms by (simp add: truncate_utf8_runes_def)
  obtain n where n: "take_runes (nat cap) (runes s) = concat (take n (runes s))"
      "length (take_runes (nat cap) (runes s)) \<le> nat cap"
      "n < length (runes s) \<longrightarrow> nat cap < length (concat (take (Suc n) (runes s)))"
    using take_runes_prefix by blast
  have "valid_utf8 (concat (take n (runes s)))"
    by (rule valid_concat_runes) (auto dest: in_set_takeD intro: runes_are_runes)
  moreover have "prefix (concat (take n (runes s))) s" if "valid_utf8 s"
  proof -
    have "s = concat (take n (segs s) @ drop n (segs s))" by simp
    then show ?thesis unfolding runes_valid [OF that] concat_append by (metis prefixI)
  qed
  ultimately show ?thesis using n assms by (intro exI [of _ n]) (auto simp: t)
qed

theorem truncate_keeps_whole_runes_witness:
  "int (length (truncate_utf8_runes ([CHR ''a'', CHR 0xC3, CHR 0xA9, CHR ''b'']) 2)) \<le> 2
   \<and> truncate_utf8_runes ([CHR ''a'', CHR 0xC3, CHR 0xA9, CHR ''b'']) 2 = ''a''"
proof
  show "int (length (truncate_utf8_runes [CHR ''a'', CHR 0xC3, CHR 0xA9, CHR ''b''] 2)) \<le> 2"
    using truncate_keeps_whole_runes [of 2 "[CHR ''a'', CHR 0xC3, CHR 0xA9, CHR ''b'']"] by fastforce
  show "truncate_utf8_runes [CHR ''a'', CHR 0xC3, CHR 0xA9, CHR ''b''] 2 = ''a''"
    by (simp add: truncate_utf8_runes_def runes_def rune_text_def rune_len_def
      byte_at_def byte_def seq_len_def cont_byte_def)
qed

section \<open>White space\<close>

text \<open>The segments of the runes with \<open>unicode.IsSpace\<close>.\<close>

definition space_segments :: "int list list" where
  "space_segments =
     [[9], [10], [11], [12], [13], [32], [194, 133], [194, 160], [225, 154, 128],
      [226, 128, 168], [226, 128, 169], [226, 128, 175], [226, 129, 159], [227, 128, 128]]
     @ map (\<lambda>x. [226, 128, x]) [128, 129, 130, 131, 132, 133, 134, 135, 136, 137, 138]"

definition is_space :: "string \<Rightarrow> bool" where
  "is_space seg \<longleftrightarrow> map byte seg \<in> set space_segments"

definition trim_space :: "string \<Rightarrow> string" where
  "trim_space s = concat (rev (dropWhile is_space (rev (dropWhile is_space (segs s)))))"

lemma length_trim_space: "length (trim_space s) \<le> length s"
proof -
  let ?d = "dropWhile is_space (segs s)"
  have "length (concat (rev (dropWhile is_space (rev xs)))) \<le> length (concat xs)" for xs
  proof -
    have "xs = rev (dropWhile is_space (rev xs)) @ rev (takeWhile is_space (rev xs))"
      by (metis rev_append rev_rev_ident takeWhile_dropWhile_id)
    then show ?thesis by (metis concat_append length_append le_add1)
  qed
  moreover have "length (concat ?d) \<le> length (concat (segs s))"
    by (metis concat_append le_add2 length_append takeWhile_dropWhile_id)
  ultimately show ?thesis unfolding trim_space_def concat_segs by (meson le_trans)
qed

end
