(* ===== verification/GoTime.thy ===== *)
theory GoTime imports Calendar Json begin

text \<open>
  \<open>time.Time\<close> as JSON: the RFC 3339 text of an instant with its offset, read and written. A
  decoded time is its instant and the offset in minutes it was written with.
\<close>

type_synonym zoned_time = "gotime \<times> int"

definition zero_zoned :: zoned_time where
  "zero_zoned = (zero_time, 0)"

section \<open>Digits\<close>

definition digit_val :: "char \<Rightarrow> int option" where
  "digit_val c = (let n = (of_char c :: nat) in if 48 \<le> n \<and> n \<le> 57 then Some (int n - 48) else None)"

fun digits_val :: "int \<Rightarrow> string \<Rightarrow> int option" where
  "digits_val acc [] = Some acc"
| "digits_val acc (c # cs) =
     (case digit_val c of None \<Rightarrow> None | Some d \<Rightarrow> digits_val (10 * acc + d) cs)"

text \<open>Exactly \<open>n\<close> leading digits with a value in a range.\<close>

definition take_num :: "nat \<Rightarrow> int \<Rightarrow> int \<Rightarrow> string \<Rightarrow> (int \<times> string) option" where
  "take_num n lo hi s =
     (if length s < n then None
      else case digits_val 0 (take n s) of
             None \<Rightarrow> None
           | Some v \<Rightarrow> if lo \<le> v \<and> v \<le> hi then Some (v, drop n s) else None)"

definition take_char :: "char \<Rightarrow> string \<Rightarrow> string option" where
  "take_char c s = (case s of [] \<Rightarrow> None | d # ds \<Rightarrow> if d = c then Some ds else None)"

section \<open>Reading\<close>

definition days_in_month :: "int \<Rightarrow> int \<Rightarrow> int" where
  "days_in_month y m =
     (if m = 2 then (if y mod 4 = 0 \<and> (y mod 100 \<noteq> 0 \<or> y mod 400 = 0) then 29 else 28)
      else if m \<in> {4, 6, 9, 11} then 30 else 31)"

text \<open>The fraction: digits after the ninth are dropped.\<close>

definition take_fraction :: "string \<Rightarrow> int \<times> string" where
  "take_fraction s =
     (case s of
        c # cs \<Rightarrow>
          let ds = takeWhile (\<lambda>d. digit_val d \<noteq> None) cs in
          if c = CHR ''.'' \<and> ds \<noteq> []
          then (the (digits_val 0 (take 9 (ds @ replicate 9 CHR ''0''))), drop (length ds) cs)
          else (0, s)
      | [] \<Rightarrow> (0, s))"

text \<open>The offset in minutes; the text ends with it.\<close>

definition parse_offset :: "string \<Rightarrow> int option" where
  "parse_offset s =
     (if s = ''Z'' then Some 0
      else case s of
        sign # t \<Rightarrow>
          if sign = CHR ''+'' \<or> sign = CHR ''-'' then
            (case take_num 2 0 23 t of
               None \<Rightarrow> None
             | Some (h, t1) \<Rightarrow>
                 (case take_char CHR '':'' t1 of
                    None \<Rightarrow> None
                  | Some t2 \<Rightarrow>
                      (case take_num 2 0 59 t2 of
                         Some (m, []) \<Rightarrow> Some ((if sign = CHR ''-'' then - 1 else 1) * (60 * h + m))
                       | _ \<Rightarrow> None)))
          else None
      | [] \<Rightarrow> None)"

text \<open>Numbers separated by the given characters: the date and the clock.\<close>

fun take_fields :: "(nat \<times> int \<times> int \<times> char option) list \<Rightarrow> string \<Rightarrow> (int list \<times> string) option" where
  "take_fields [] s = Some ([], s)"
| "take_fields ((n, lo, hi, sep) # fs) s =
     (case take_num n lo hi s of
        None \<Rightarrow> None
      | Some (v, s1) \<Rightarrow>
          (case (case sep of None \<Rightarrow> Some s1 | Some c \<Rightarrow> take_char c s1) of
             None \<Rightarrow> None
           | Some s2 \<Rightarrow> map_option (\<lambda>r. (v # fst r, snd r)) (take_fields fs s2)))"

definition parse_rfc3339 :: "string \<Rightarrow> zoned_time option" where
  "parse_rfc3339 s =
     (case take_fields [(4, 0, 9999, Some CHR ''-''), (2, 1, 12, Some CHR ''-''),
                        (2, 1, 31, Some CHR ''T''), (2, 0, 23, Some CHR '':''),
                        (2, 0, 59, Some CHR '':''), (2, 0, 59, None)] s of
        Some ([y, mo, d, h, mi, sec], rest) \<Rightarrow>
          (case take_fraction rest of
             (ns, tail) \<Rightarrow>
               (case parse_offset tail of
                  None \<Rightarrow> None
                | Some off \<Rightarrow>
                    if days_in_month y mo < d then None
                    else Some (days_of_civil y mo d * day_ns
                               + (3600 * h + 60 * mi + sec - 60 * off) * second + ns, off)))
      | _ \<Rightarrow> None)"

definition json_time :: "json \<Rightarrow> zoned_time option" where
  "json_time j = (case j of JStr s \<Rightarrow> parse_rfc3339 s | _ \<Rightarrow> None)"

definition get_time :: "string \<Rightarrow> (string \<times> json) list \<Rightarrow> zoned_time option" where
  "get_time k kvs = json_field json_time k kvs zero_zoned"

section \<open>Writing (\<open>time.RFC3339Nano\<close>)\<close>

fun digits_of :: "nat \<Rightarrow> int \<Rightarrow> string" where
  "digits_of 0 v = []"
| "digits_of (Suc n) v = digits_of n (v div 10) @ [char_of (nat (48 + v mod 10))]"

definition fraction_text :: "int \<Rightarrow> string" where
  "fraction_text ns =
     (if ns = 0 then []
      else CHR ''.'' # rev (dropWhile (\<lambda>c. c = CHR ''0'') (rev (digits_of 9 ns))))"

definition offset_text :: "int \<Rightarrow> string" where
  "offset_text off =
     (if off = 0 then ''Z''
      else (if off < 0 then CHR ''-'' else CHR ''+'')
        # digits_of 2 (\<bar>off\<bar> div 60) @ '':'' @ digits_of 2 (\<bar>off\<bar> mod 60))"

definition format_rfc3339_nano :: "zoned_time \<Rightarrow> string" where
  "format_rfc3339_nano z =
     (let t = fst z + snd z * minute; c = t mod day_ns div second
      in case civil_of_days (day_number t) of
           (y, mo, d) \<Rightarrow>
             digits_of 4 y @ ''-'' @ digits_of 2 mo @ ''-'' @ digits_of 2 d @ ''T''
             @ digits_of 2 (c div 3600) @ '':'' @ digits_of 2 (c mod 3600 div 60) @ '':''
             @ digits_of 2 (c mod 60) @ fraction_text (t mod second) @ offset_text (snd z))"

lemma rfc3339_samples:
  "parse_rfc3339 ''1970-01-01T00:00:01.5Z'' = Some (1500000000, 0)"
  "parse_rfc3339 ''2024-02-29T23:59:60Z'' = None"
  "parse_rfc3339 ''2023-02-29T00:00:00Z'' = None"
  "parse_rfc3339 ''1970-01-01T01:30:00+01:30'' = Some (0, 90)"
  by code_simp+

lemma format_samples:
  "format_rfc3339_nano (1500000000, 0) = ''1970-01-01T00:00:01.5Z''"
  "format_rfc3339_nano (0, 90) = ''1970-01-01T01:30:00+01:30''"
  by code_simp+

end
