(* ===== verification/ReplyCommon.thy ===== *)
theory ReplyCommon imports StoreLaws Registry Utf8 GoTime begin

text \<open>
  What the reply handlers share (\<open>internal/cloudevents/reply/handlers/common.go\<close> and
  \<open>common\_phase5.go\<close>, and the channel configuration of \<open>reply/dispatcher.go\<close>): the caps, the
  audit row every outcome writes, the guards in the order a handler applies them, and the alert it
  loads and verifies. The second half is the contract every handler is held to: a rejected reply
  changes only the audit log, and an accepted one writes only inside the org, and on the alert, of
  the event it replies to.
\<close>

section \<open>Channel configuration (reply/dispatcher.go)\<close>

record dispatcher_config =
  cfg_accepted :: "string list"
  cfg_rate_limit :: int64
  cfg_trust_elevated :: bool
  cfg_allow_deregister :: bool
  cfg_max_suppress :: int
  cfg_max_remediation :: int
  cfg_max_route :: int

definition default_max_suppress :: int where
  "default_max_suppress = 3600"

definition default_max_remediation :: int where
  "default_max_remediation = 600"

definition default_max_route :: int where
  "default_max_route = 86400"

definition clamp_seconds :: "int \<Rightarrow> int \<Rightarrow> int \<Rightarrow> int" where
  "clamp_seconds configured fallback requested =
     (let cap = (if configured \<le> 0 then fallback else configured)
      in if requested \<le> 0 \<or> cap < requested then cap else requested)"

definition clamp_suppress_seconds :: "dispatcher_config \<Rightarrow> int \<Rightarrow> int" where
  "clamp_suppress_seconds cfg = clamp_seconds (cfg_max_suppress cfg) default_max_suppress"

definition clamp_remediation_seconds :: "dispatcher_config \<Rightarrow> int \<Rightarrow> int" where
  "clamp_remediation_seconds cfg = clamp_seconds (cfg_max_remediation cfg) default_max_remediation"

definition clamp_route_duration :: "dispatcher_config \<Rightarrow> int \<Rightarrow> int" where
  "clamp_route_duration cfg = clamp_seconds (cfg_max_route cfg) default_max_route"

lemma clamp_seconds_bounds:
  "0 < clamp_seconds c d r \<or> d \<le> 0" "0 < d \<Longrightarrow> clamp_seconds c d r \<le> (if c \<le> 0 then d else c)"
  by (auto simp: clamp_seconds_def Let_def)

text \<open>\<open>time.Duration(n) * time.Second\<close> in int64.\<close>

definition duration_of_seconds :: "int \<Rightarrow> int" where
  "duration_of_seconds n = sint (word_of_int (n * second) :: int64)"

section \<open>Caps\<close>

definition max_reason_chars :: nat where "max_reason_chars = 512"
definition max_note_chars :: nat where "max_note_chars = 2048"
definition max_description_chars :: nat where "max_description_chars = 2048"
definition max_message_chars :: nat where "max_message_chars = 2048"
definition max_title_chars :: nat where "max_title_chars = 256"
definition max_reference_id_chars :: nat where "max_reference_id_chars = 256"
definition max_url_chars :: nat where "max_url_chars = 2048"
definition max_match_filter_keys :: nat where "max_match_filter_keys = 16"
definition max_match_filter_value_chars :: nat where "max_match_filter_value_chars = 256"
definition max_attachment_label_chars :: nat where "max_attachment_label_chars = 256"
definition max_attachment_preview_chars :: nat where "max_attachment_preview_chars = 4096"
definition max_attachment_kind_chars :: nat where "max_attachment_kind_chars = 64"
definition max_status_page_message_bytes :: int where "max_status_page_message_bytes = 2048"

section \<open>Decoding\<close>

text \<open>
  A \<open>map[string]any\<close> member: \<open>null\<close> resets it, and a repeated member is merged into the map
  that is already there. Keys of the result are distinct; the last value of a key wins.
\<close>

fun map_field :: "string \<Rightarrow> (string \<times> json) list \<Rightarrow> (string \<times> json) list \<Rightarrow> (string \<times> json) list option" where
  "map_field k [] acc = Some acc"
| "map_field k (kv # rest) acc =
     (if fold_name (fst kv) = fold_name k
      then (case snd kv of JNull \<Rightarrow> map_field k rest [] | JObj m \<Rightarrow> map_field k rest (acc @ m) | _ \<Rightarrow> None)
      else map_field k rest acc)"

definition get_filter :: "string \<Rightarrow> (string \<times> json) list \<Rightarrow> (string \<times> json) list option" where
  "get_filter k kvs = map_option last_wins (map_field k kvs [])"

fun objects_field :: "string \<Rightarrow> (string \<times> json) list \<Rightarrow> (string \<times> json) list list \<Rightarrow>
    (string \<times> json) list list option" where
  "objects_field k [] acc = Some acc"
| "objects_field k (kv # rest) acc =
     (if fold_name (fst kv) = fold_name k
      then (if snd kv = JNull then objects_field k rest []
            else case json_objects (snd kv) of None \<Rightarrow> None | Some ms \<Rightarrow> objects_field k rest ms)
      else objects_field k rest acc)"

text \<open>\<open>json.Marshal\<close> of such a map sorts the keys; \<open>omitempty\<close> drops an empty string.\<close>

definition json_of_map :: "(string \<times> json) list \<Rightarrow> json" where
  "json_of_map m = JObj (sort_key fst m)"

definition opt_str :: "string \<Rightarrow> string \<Rightarrow> (string \<times> json) list" where
  "opt_str k s = (if s = [] then [] else [(k, JStr s)])"

section \<open>Field checks\<close>

definition filter_text_ok :: "string \<Rightarrow> bool" where
  "filter_text_ok s \<longleftrightarrow> trim_space s \<noteq> [] \<and> within_runes s max_match_filter_value_chars"

definition filter_item_ok :: "json \<Rightarrow> bool" where
  "filter_item_ok j = (case j of JStr s \<Rightarrow> filter_text_ok s | _ \<Rightarrow> False)"

definition filter_value_ok :: "json \<Rightarrow> bool" where
  "filter_value_ok v =
     (case v of
        JStr s \<Rightarrow> filter_text_ok s
      | JArr js \<Rightarrow> js \<noteq> [] \<and> list_all filter_item_ok js
      | _ \<Rightarrow> False)"

definition match_filter_ok :: "(string \<times> json) list \<Rightarrow> bool" where
  "match_filter_ok mf \<longleftrightarrow>
     length mf \<le> max_match_filter_keys
     \<and> list_all (\<lambda>kv. filter_text_ok (fst kv) \<and> filter_value_ok (snd kv)) mf"

text \<open>
  \<open>validateReplyURL\<close>. The URL parser is a parameter: the scheme and the host it reports, or
  None when it fails.
\<close>

type_synonym url_parser = "string \<Rightarrow> (string \<times> string) option"

definition lower_char :: "char \<Rightarrow> char" where
  "lower_char c = (let n = (of_char c :: nat) in if 65 \<le> n \<and> n \<le> 90 then char_of (n + 32) else c)"

definition allowed_reply_url_schemes :: "string list" where
  "allowed_reply_url_schemes = [''http'', ''https'']"

definition reply_url_ok :: "url_parser \<Rightarrow> string \<Rightarrow> bool" where
  "reply_url_ok url_parse raw \<longleftrightarrow>
     raw = []
     \<or> within_runes raw max_url_chars
       \<and> (case url_parse raw of
            None \<Rightarrow> False
          | Some (scheme, host) \<Rightarrow> map lower_char scheme \<in> set allowed_reply_url_schemes \<and> host \<noteq> [])"

section \<open>Outcomes and the audit row\<close>

datatype reply_error =
    NilEntry
  | Rejected string
  | AlertNotLoaded db_error
  | HandlerFailed string

type_synonym reply_handler_fun =
  "dispatcher_config \<Rightarrow> world \<Rightarrow> gotime \<Rightarrow> ce_event \<Rightarrow> entry option \<Rightarrow> string \<Rightarrow> reply_error option \<times> world"

text \<open>\<open>writeAudit\<close> logs and drops a failing write.\<close>

definition write_audit ::
  "world \<Rightarrow> gotime \<Rightarrow> ce_event \<Rightarrow> entry \<Rightarrow> string \<Rightarrow> string \<Rightarrow> audit_value \<Rightarrow> audit_value \<Rightarrow> world" where
  "write_audit w now ev en sub outcome before after =
     snd (audit_write w now
       \<lparr>au_reply = ce_id ev, au_type = ce_type ev, au_source = ce_source ev, au_sub = sub,
        au_alert = en_alert en, au_monitor = en_monitor en, au_org = en_org en,
        au_channel = en_channel en, au_outcome = outcome, au_before = before, au_after = after,
        au_received_at = now\<rparr>)"

definition reject ::
  "world \<Rightarrow> gotime \<Rightarrow> ce_event \<Rightarrow> entry \<Rightarrow> string \<Rightarrow> string \<Rightarrow> reply_error option \<times> world" where
  "reject w now ev en sub reason =
     (Some (Rejected reason), write_audit w now ev en sub (''rejected:'' @ reason) AuditEmpty AuditEmpty)"

definition handler_failed ::
  "world \<Rightarrow> gotime \<Rightarrow> ce_event \<Rightarrow> entry \<Rightarrow> string \<Rightarrow> string \<Rightarrow> audit_value \<Rightarrow> reply_error option \<times> world" where
  "handler_failed w now ev en sub what before =
     (Some (HandlerFailed what),
      write_audit w now ev en sub (''handler_error:'' @ what) before AuditEmpty)"

definition accept ::
  "world \<Rightarrow> gotime \<Rightarrow> ce_event \<Rightarrow> entry \<Rightarrow> string \<Rightarrow> audit_value \<Rightarrow> audit_value \<Rightarrow> reply_error option \<times> world" where
  "accept w now ev en sub before after = (None, write_audit w now ev en sub ''accepted'' before after)"

text \<open>The guards of a handler in their order: the first that applies rejects with its reason.\<close>

fun first_failure :: "(bool \<times> string) list \<Rightarrow> string option" where
  "first_failure [] = None"
| "first_failure ((failed, reason) # gs) = (if failed then Some reason else first_failure gs)"

definition guarded ::
  "world \<Rightarrow> gotime \<Rightarrow> ce_event \<Rightarrow> entry \<Rightarrow> string \<Rightarrow> (bool \<times> string) list \<Rightarrow>
   reply_error option \<times> world \<Rightarrow> reply_error option \<times> world" where
  "guarded w now ev en sub gs rest =
     (case first_failure gs of Some reason \<Rightarrow> reject w now ev en sub reason | None \<Rightarrow> rest)"

definition effective_alert_id :: "string \<Rightarrow> string \<Rightarrow> string" where
  "effective_alert_id entry_alert data_alert = (if entry_alert \<noteq> [] then entry_alert else data_alert)"

definition effective_actor :: "ce_event \<Rightarrow> string \<Rightarrow> string" where
  "effective_actor ev sub = (if sub \<noteq> [] then sub else ''cloudevent:reply:'' @ ce_id ev)"

definition cross_alert :: "entry \<Rightarrow> string \<Rightarrow> bool" where
  "cross_alert en data_alert \<longleftrightarrow> en_alert en \<noteq> [] \<and> data_alert \<noteq> [] \<and> data_alert \<noteq> en_alert en"

text \<open>\<open>requireAlertScopedEntry\<close>\<close>

definition not_alert_scoped :: "entry \<Rightarrow> bool" where
  "not_alert_scoped en \<longleftrightarrow> en_alert en = []"

text \<open>\<open>loadAndVerifyAlert\<close>, with the handler's continuation on the alert.\<close>

definition with_alert ::
  "world \<Rightarrow> gotime \<Rightarrow> ce_event \<Rightarrow> entry \<Rightarrow> string \<Rightarrow> string \<Rightarrow>
   (alert \<Rightarrow> reply_error option \<times> world) \<Rightarrow> reply_error option \<times> world" where
  "with_alert w now ev en sub i rest =
     (case alerts_get w i of
        Inl e \<Rightarrow> (Some (AlertNotLoaded e),
                  write_audit w now ev en sub ''rejected:alert_not_found'' AuditEmpty AuditEmpty)
      | Inr a \<Rightarrow>
          if en_org en \<noteq> [] \<and> al_org a \<noteq> en_org en then reject w now ev en sub ''cross_org_alert''
          else rest a)"

text \<open>
  A timeline row. \<open>writeTimelineEvent\<close> (the annotating handlers) reports a failing insert; the
  other handlers ignore it.
\<close>

definition insert_timeline_event ::
  "world \<Rightarrow> gotime \<Rightarrow> string \<Rightarrow> alert_event_type \<Rightarrow> json \<Rightarrow> db_error option \<times> world" where
  "insert_timeline_event w now i ty detail =
     (case new_uuid w of
        (u, w1) \<Rightarrow> events_create w1 \<lparr>evt_id = u, evt_alert = i, evt_type = ty, evt_channel = [],
                     evt_user = [], evt_detail = Some detail, evt_created_at = now\<rparr>)"

definition write_timeline_event ::
  "world \<Rightarrow> gotime \<Rightarrow> string \<Rightarrow> alert_event_type \<Rightarrow> json \<Rightarrow> db_error option \<times> world" where
  "write_timeline_event w now i ty detail =
     (if i = [] then (Some ErrEmptyArgument, w) else insert_timeline_event w now i ty detail)"

text \<open>The end of an annotating handler: the timeline row, then the audit row.\<close>

definition annotate ::
  "world \<Rightarrow> gotime \<Rightarrow> ce_event \<Rightarrow> entry \<Rightarrow> string \<Rightarrow> string \<Rightarrow> alert_event_type \<Rightarrow> json \<Rightarrow>
   reply_error option \<times> world" where
  "annotate w now ev en sub i ty payload =
     (case write_timeline_event w now i ty payload of
        (Some _, w1) \<Rightarrow> handler_failed w1 now ev en sub ''write_timeline'' AuditEmpty
      | (None, w1) \<Rightarrow> accept w1 now ev en sub AuditEmpty (AuditPayload payload))"

end
