(* ===== verification/ReplyContract.thy ===== *)
theory ReplyContract imports ReplyCommon begin

text \<open>
  The contract of a reply handler. A refusal (missing entry, a failed guard, an alert that is not
  there or belongs to another org) changes nothing but the audit log. Anything else stays in the
  scope of the entry the reply names: the alert row with the entry's alert id, which is in the
  entry's org, new timeline rows, suppressions, remediations and status-page references of that
  alert, new routing rules of that org, and the audit log.
\<close>

section \<open>Changing only the audit log\<close>

definition audit_only :: "world \<Rightarrow> world \<Rightarrow> bool" where
  "audit_only w w' \<longleftrightarrow> w' = w\<lparr>w_audit := w_audit w'\<rparr>"

lemma audit_only_refl [simp]: "audit_only w w"
  by (simp add: audit_only_def)

lemma audit_only_write_audit [simp]: "audit_only w (write_audit w now ev en sub oc b a)"
  by (auto simp: audit_only_def write_audit_def audit_write_def)

lemma audit_only_same:
  assumes "audit_only w w'"
  shows "w_alerts w' = w_alerts w" "w_monitors w' = w_monitors w" "w_channels w' = w_channels w"
    "w_remediations w' = w_remediations w" "w_events w' = w_events w" "w_routing w' = w_routing w"
proof -
  have e: "w' = w\<lparr>w_audit := w_audit w'\<rparr>" using assms by (simp add: audit_only_def)
  show "w_alerts w' = w_alerts w" "w_monitors w' = w_monitors w" "w_channels w' = w_channels w"
    "w_remediations w' = w_remediations w" "w_events w' = w_events w" "w_routing w' = w_routing w"
    by (subst e, simp)+
qed

lemma audit_only_schema: "audit_only w w' \<Longrightarrow> schema_ok w' = schema_ok w"
  unfolding audit_only_def by (metis schema_ok_frame(6))

section \<open>Staying in scope\<close>

definition owned :: "entry \<Rightarrow> world \<Rightarrow> bool" where
  "owned en w \<longleftrightarrow>
     has_alert w (en_alert en)
   \<and> (\<forall>r \<in> set (w_alerts w). al_id (row_alert r) = en_alert en \<longrightarrow>
        en_org en = [] \<or> al_org (row_alert r) = en_org en)"

definition row_key :: "alert_row \<Rightarrow> string \<times> string \<times> string \<times> string \<times> gotime" where
  "row_key r = (al_id (row_alert r), al_monitor (row_alert r), al_org (row_alert r),
                al_error (row_alert r), al_started_at (row_alert r))"

definition same_elsewhere :: "world \<Rightarrow> world \<Rightarrow> bool" where
  "same_elsewhere w w' \<longleftrightarrow>
     w_monitors w' = w_monitors w \<and> w_esc w' = w_esc w \<and> w_policies w' = w_policies w
   \<and> w_steps w' = w_steps w \<and> w_targets w' = w_targets w \<and> w_channels w' = w_channels w
   \<and> w_windows w' = w_windows w \<and> w_users w' = w_users w \<and> w_teams w' = w_teams w
   \<and> w_members w' = w_members w \<and> w_checks w' = w_checks w \<and> w_rules w' = w_rules w
   \<and> w_bus w' = w_bus w \<and> w_emitted w' = w_emitted w \<and> w_gauge w' = w_gauge w"

definition in_scope :: "entry \<Rightarrow> world \<Rightarrow> world \<Rightarrow> bool" where
  "in_scope en w w' \<longleftrightarrow>
     owned en w \<and> same_elsewhere w w'
   \<and> map row_key (w_alerts w') = map row_key (w_alerts w)
   \<and> filter (\<lambda>r. al_id (row_alert r) \<noteq> en_alert en) (w_alerts w') =
       filter (\<lambda>r. al_id (row_alert r) \<noteq> en_alert en) (w_alerts w)
   \<and> (\<exists>es. w_events w' = w_events w @ es \<and> (\<forall>e \<in> set es. evt_alert e = en_alert en))
   \<and> (\<exists>rs. w_suppressions w' = w_suppressions w @ rs
         \<and> (\<forall>r \<in> set rs. sup_alert r = en_alert en \<and> sup_org r = en_org en))
   \<and> filter (\<lambda>r. rem_alert r \<noteq> en_alert en) (w_remediations w') =
       filter (\<lambda>r. rem_alert r \<noteq> en_alert en) (w_remediations w)
   \<and> (\<exists>rs. w_routing w' = w_routing w @ rs \<and> (\<forall>r \<in> set rs. rr_org r = en_org en))
   \<and> (\<exists>rs. w_pages w' = w_pages w @ rs \<and> (\<forall>r \<in> set rs. sp_alert r = en_alert en))"

lemma in_scope_refl: "owned en w \<Longrightarrow> in_scope en w w"
  by (simp add: in_scope_def same_elsewhere_def)

lemma owned_load:
  assumes "schema_ok w" "alerts_get w (en_alert en) = Inr a" "en_org en = [] \<or> al_org a = en_org en"
  shows "owned en w"
proof -
  obtain r where r: "r \<in> set (w_alerts w)" "row_alert r = a" "al_id a = en_alert en"
    using alerts_get_SomeD [OF assms(2)] by blast
  have "has_alert w (en_alert en)" using r by (force simp: has_alert_def)
  moreover have "en_org en = [] \<or> al_org (row_alert r') = en_org en"
    if "r' \<in> set (w_alerts w)" "al_id (row_alert r') = en_alert en" for r'
    using schema_ok_row_unique [OF assms(1) that(1) r(1)] that(2) r assms(3) by auto
  ultimately show ?thesis by (simp add: owned_def)
qed

named_theorems scope_intro \<open>operations that stay in scope\<close>

lemma in_scope_uuid: "in_scope en w w1 \<Longrightarrow> in_scope en w (w1\<lparr>w_uuid_next := n\<rparr>)"
  by (simp add: in_scope_def same_elsewhere_def)

lemma in_scope_audit [scope_intro]: "in_scope en w w1 \<Longrightarrow> in_scope en w (write_audit w1 now ev en' sub oc b a)"
  by (auto simp: write_audit_def audit_write_def in_scope_def same_elsewhere_def)

lemma in_scope_events:
  assumes "in_scope en w w1" "evt_alert e = en_alert en"
  shows "in_scope en w (snd (events_create w1 e))"
  using assms unfolding events_create_def in_scope_def same_elsewhere_def
  by (cases "w_fails w1 EventsInsert (evt_alert e)";
      cases "\<not> has_alert w1 (evt_alert e) \<or> evt_id e \<in> set (map evt_id (w_events w1))") auto

lemma in_scope_insert_event [scope_intro]:
  "in_scope en w w1 \<Longrightarrow> in_scope en w (snd (insert_timeline_event w1 now (en_alert en) ty d))"
  unfolding insert_timeline_event_def new_uuid_def by (auto intro!: in_scope_events in_scope_uuid)

lemma in_scope_alerts_write:
  assumes "in_scope en w w1" and "\<And>r. row_key (f r) = row_key r"
  shows "in_scope en w (snd (alerts_write w1 op (en_alert en) f))"
proof -
  have id: "al_id (row_alert (f r)) = al_id (row_alert r)" for r
    using assms(2) [of r] by (simp add: row_key_def)
  show ?thesis
    using assms(1) unfolding alerts_write_def in_scope_def same_elsewhere_def Let_def
    by (auto simp: map_update_where [of _ _ row_key] assms(2) filter_update_where_other id)
qed

lemma in_scope_alerts_update [scope_intro]:
  "in_scope en w w1 \<Longrightarrow> al_id a = en_alert en \<Longrightarrow> in_scope en w (snd (alerts_update w1 a))"
  unfolding alerts_update_def using in_scope_alerts_write [of en w w1 "set_alert_columns a"]
  by (simp add: row_key_def set_alert_columns_def)

lemma in_scope_write_then_event:
  assumes "in_scope en w (snd r)"
  shows "in_scope en w (snd (write_then_event r now (en_alert en) ty d))"
  using assms unfolding write_then_event_def new_uuid_def
  by (auto simp: split: prod.splits option.splits
      intro!: in_scope_events in_scope_uuid)

lemma in_scope_row_ops [scope_intro]:
  assumes "in_scope en w w1"
  shows "in_scope en w (snd (alerts_mark_duplicate w1 now (en_alert en) dup reason))"
    "in_scope en w (snd (alerts_set_owner w1 now (en_alert en) kind owner reason))"
    "in_scope en w (snd (alerts_ack_with_context w1 now (en_alert en) code note ref actor))"
  using assms unfolding alerts_mark_duplicate_def alerts_set_owner_def alerts_ack_with_context_def
  by (auto intro!: in_scope_write_then_event in_scope_alerts_write simp: row_key_def)

lemma in_scope_suppressions [scope_intro]:
  assumes "in_scope en w w1" "sup_alert r = en_alert en" "sup_org r = en_org en"
  shows "in_scope en w (snd (suppressions_create w1 now r))"
  using assms unfolding suppressions_create_def in_scope_def same_elsewhere_def
  by (cases "w_fails w1 SuppressionsInsert (sup_id r)";
      cases "sup_id r \<in> set (map sup_id (w_suppressions w1))") auto

lemma in_scope_routing [scope_intro]:
  assumes "in_scope en w w1" "rr_org r = en_org en"
  shows "in_scope en w (snd (routing_create w1 now r))"
  using assms unfolding routing_create_def in_scope_def same_elsewhere_def
  by (cases "w_fails w1 RoutingInsert (rr_id r)"; cases "rr_id r \<in> set (map rr_id (w_routing w1))") auto

lemma in_scope_pages [scope_intro]:
  assumes "in_scope en w w1" "sp_alert r = en_alert en"
  shows "in_scope en w (snd (pages_create w1 r))"
  using assms unfolding pages_create_def in_scope_def same_elsewhere_def
  by (cases "w_fails w1 PagesInsert (sp_id r)"; cases "sp_id r \<in> set (map sp_id (w_pages w1))") auto

lemma in_scope_remediations_create [scope_intro]:
  assumes "in_scope en w w1" "rem_alert r = en_alert en"
  shows "in_scope en w (snd (remediations_create w1 r))"
  using assms unfolding remediations_create_def in_scope_def same_elsewhere_def
  by (auto split: sum.splits option.splits)

lemma filter_update_where_same:
  "(\<And>r. r \<in> set rows \<Longrightarrow> p r \<Longrightarrow> \<not> q r \<and> \<not> q (f r)) \<Longrightarrow>
   filter q (update_where p f rows) = filter q rows"
  by (induction rows) auto

text \<open>
  Completing writes the rows with the id that are in progress; the handler has read the first row
  with that id, and ids are unique.
\<close>

lemma in_scope_remediations_complete:
  assumes "in_scope en w w1"
    and "\<And>r. r \<in> set (w_remediations w1) \<Longrightarrow> rem_id r = i \<Longrightarrow> rem_alert r = en_alert en"
  shows "in_scope en w (snd (remediations_complete w1 now i st msg art))"
proof -
  let ?p = "\<lambda>r. rem_id r = i \<and> rem_status r = RemediationInProgress"
  let ?f = "\<lambda>r. r\<lparr>rem_status := st, rem_message := msg, rem_artifact := art,
                   rem_completed_at := Some (rfc3339_ms now)\<rparr>"
  have f: "filter (\<lambda>r. rem_alert r \<noteq> en_alert en) (update_where ?p ?f (w_remediations w1)) =
        filter (\<lambda>r. rem_alert r \<noteq> en_alert en) (w_remediations w1)"
    using assms(2) by (intro filter_update_where_same) simp
  have c: "snd (remediations_complete w1 now i st msg art) = w1
    \<or> snd (remediations_complete w1 now i st msg art) =
        w1\<lparr>w_remediations := update_where ?p ?f (w_remediations w1)\<rparr>"
    by (cases "w_fails w1 RemediationsComplete i"; cases "remediations_get w1 i";
        cases "\<exists>r \<in> set (w_remediations w1). rem_id r = i \<and> rem_status r = RemediationInProgress")
      (simp_all only: remediations_complete_def if_True if_False sum.case snd_conv simp_thms)
  have "in_scope en w (w1\<lparr>w_remediations := update_where ?p ?f (w_remediations w1)\<rparr>)"
    using assms(1) f by (simp add: in_scope_def same_elsewhere_def)
  with c assms(1) show ?thesis by (elim disjE) (simp_all only:)
qed

lemma in_scope_owned: "in_scope en w w' \<Longrightarrow> owned en w"
  by (simp add: in_scope_def)

section \<open>The tables\<close>

text \<open>The schema invariant with the primary key of \<open>alert\_remediations\<close>.\<close>

definition tables_ok :: "world \<Rightarrow> bool" where
  "tables_ok w \<longleftrightarrow> schema_ok w \<and> distinct (map rem_id (w_remediations w))"

named_theorems tables_keeps \<open>a store call of a handler keeps the table invariants\<close>

lemma tables_okI:
  "schema_ok w' \<Longrightarrow> w_remediations w' = w_remediations w \<Longrightarrow> tables_ok w \<Longrightarrow> tables_ok w'"
  by (simp add: tables_ok_def)

lemma tables_okD: "tables_ok w \<Longrightarrow> schema_ok w"
  by (simp add: tables_ok_def)

lemma audit_only_tables: "audit_only w w' \<Longrightarrow> tables_ok w' = tables_ok w"
  using audit_only_schema [of w w'] audit_only_same(4) [of w w'] by (simp add: tables_ok_def)

lemma alerts_update_tables [tables_keeps]:
  "alerts_update w a = (r, w') \<Longrightarrow> tables_ok w \<Longrightarrow> tables_ok w'"
  by (rule tables_okI [of _ w]) (auto dest: alerts_update_effect alerts_update_keeps tables_okD)

lemma insert_event_tables [tables_keeps]:
  assumes "insert_timeline_event w now i ty d = (r, w')" "tables_ok w"
  shows "tables_ok w'"
proof (rule tables_okI [OF _ _ assms(2)])
  let ?w1 = "snd (new_uuid w)"
  have e: "\<exists>x. events_create ?w1 x = (r, w')"
    using assms(1) unfolding insert_timeline_event_def by (auto split: prod.splits)
  have "schema_ok ?w1" by (rule snd_keeps(1) [OF tables_okD [OF assms(2)]])
  then show "schema_ok w'" using e events_create_keeps by blast
  have "w_remediations ?w1 = w_remediations w" by (simp add: new_uuid_def)
  then show "w_remediations w' = w_remediations w" using e by (auto dest: events_create_effect)
qed

lemma write_then_event_tables:
  assumes "write_then_event (e1, w1) now i ty d = (r, w')" "tables_ok w1"
  shows "tables_ok w'"
proof (cases e1)
  case None
  then have "insert_timeline_event w1 now i ty d = (r, w')"
    using assms(1) by (simp add: write_then_event_def insert_timeline_event_def)
  then show ?thesis using assms(2) by (rule insert_event_tables)
next
  case (Some e)
  then show ?thesis using assms by (simp add: write_then_event_def)
qed

lemma alerts_write_tables:
  assumes "alerts_write w op i f = (r, w')" "tables_ok w" "\<And>r. row_key (f r) = row_key r"
  shows "tables_ok w'"
proof (rule tables_okI [OF _ _ assms(2)])
  have k: "row_key (f x) = row_key x" for x by (rule assms(3))
  show "schema_ok w'"
    using alerts_write_keeps [OF assms(1) tables_okD [OF assms(2)]] k by (simp add: row_key_def)
  show "w_remediations w' = w_remediations w" using alerts_write_effect [OF assms(1)] by auto
qed

lemma write_then_event_row_tables:
  assumes "write_then_event (alerts_write w op i f) now i ty d = (r, w')" "tables_ok w"
    and "\<And>r. row_key (f r) = row_key r"
  shows "tables_ok w'"
proof (cases "alerts_write w op i f")
  case (Pair e1 w1)
  then have "tables_ok w1" using alerts_write_tables assms(2,3) by blast
  with assms(1) Pair show ?thesis using write_then_event_tables by simp
qed

lemma alerts_mark_duplicate_tables [tables_keeps]:
  "alerts_mark_duplicate w now i dup reason = (r, w') \<Longrightarrow> tables_ok w \<Longrightarrow> tables_ok w'"
  unfolding alerts_mark_duplicate_def
  by (erule write_then_event_row_tables [of w _ _ _ now _ _ r w'] | simp add: row_key_def split: if_splits)+

lemma alerts_set_owner_tables [tables_keeps]:
  "alerts_set_owner w now i kind owner reason = (r, w') \<Longrightarrow> tables_ok w \<Longrightarrow> tables_ok w'"
  unfolding alerts_set_owner_def
  by (erule write_then_event_row_tables [of w _ _ _ now _ _ r w'] | simp add: row_key_def split: if_splits)+

lemma alerts_ack_with_context_tables [tables_keeps]:
  "alerts_ack_with_context w now i code note ref actor = (r, w') \<Longrightarrow> tables_ok w \<Longrightarrow> tables_ok w'"
  unfolding alerts_ack_with_context_def
  by (erule write_then_event_row_tables [of w _ _ _ now _ _ r w'] | simp add: row_key_def split: if_splits)+

lemma suppressions_create_tables [tables_keeps]:
  "suppressions_create w now x = (r, w') \<Longrightarrow> tables_ok w \<Longrightarrow> tables_ok w'"
  by (rule tables_okI [of _ w]) (auto dest: suppressions_create_effect suppressions_create_keeps tables_okD)

lemma routing_create_tables [tables_keeps]:
  "routing_create w now x = (r, w') \<Longrightarrow> tables_ok w \<Longrightarrow> tables_ok w'"
  by (rule tables_okI [of _ w]) (auto dest: routing_create_effect routing_create_keeps tables_okD)

lemma pages_create_tables [tables_keeps]:
  "pages_create w x = (r, w') \<Longrightarrow> tables_ok w \<Longrightarrow> tables_ok w'"
  by (rule tables_okI [of _ w]) (auto dest: pages_create_effect pages_create_keeps tables_okD)

lemma remediations_create_tables [tables_keeps]:
  assumes "remediations_create w x = (r, w')" "tables_ok w"
  shows "tables_ok w'"
proof -
  have "schema_ok w'" using remediations_create_keeps [OF assms(1) tables_okD [OF assms(2)]] .
  moreover have "distinct (map rem_id (w_remediations w'))"
    using assms unfolding remediations_create_def tables_ok_def
    by (auto split: sum.splits if_splits)
  ultimately show ?thesis by (simp add: tables_ok_def)
qed

lemma remediations_complete_tables [tables_keeps]:
  assumes "remediations_complete w now i st msg art = (r, w')" "tables_ok w"
  shows "tables_ok w'"
proof -
  have "schema_ok w'" using remediations_complete_keeps [OF assms(1) tables_okD [OF assms(2)]] .
  moreover have "map rem_id (w_remediations w') = map rem_id (w_remediations w)"
    using assms(1) unfolding remediations_complete_def
    by (auto simp: map_update_where split: sum.splits if_splits)
  ultimately show ?thesis using assms(2) by (simp add: tables_ok_def)
qed

section \<open>The contract\<close>

definition refusal :: "reply_error \<Rightarrow> bool" where
  "refusal e \<longleftrightarrow> (\<forall>x. e \<noteq> HandlerFailed x)"

definition within_contract :: "entry \<Rightarrow> world \<Rightarrow> reply_error option \<times> world \<Rightarrow> bool" where
  "within_contract en w res \<longleftrightarrow>
     (case fst res of Some e \<Rightarrow> refusal e \<longrightarrow> audit_only w (snd res) | None \<Rightarrow> True)
   \<and> (tables_ok w \<longrightarrow> tables_ok (snd res) \<and> (audit_only w (snd res) \<or> in_scope en w (snd res))
        \<and> (fst res = None \<longrightarrow> in_scope en w (snd res)))"

text \<open>A handler under way: what it has written so far is in scope.\<close>

definition under_way :: "entry \<Rightarrow> world \<Rightarrow> world \<Rightarrow> bool" where
  "under_way en w w1 \<longleftrightarrow> (tables_ok w \<longrightarrow> tables_ok w1 \<and> in_scope en w w1)"

lemma under_wayI: "(tables_ok w \<Longrightarrow> tables_ok w1) \<Longrightarrow> (tables_ok w \<Longrightarrow> in_scope en w w1) \<Longrightarrow> under_way en w w1"
  by (simp add: under_way_def)

lemma contract_reject: "within_contract en w (reject w now ev en' sub reason)"
  using audit_only_tables [OF audit_only_write_audit] by (simp add: within_contract_def reject_def)

lemma contract_guarded:
  "(first_failure gs = None \<Longrightarrow> within_contract en w rest) \<Longrightarrow>
   within_contract en w (guarded w now ev en' sub gs rest)"
  by (simp add: guarded_def contract_reject split: option.split)

lemma contract_accept:
  "under_way en w w1 \<Longrightarrow> within_contract en w (accept w1 now ev en' sub b a)"
  using audit_only_tables [OF audit_only_write_audit]
  by (simp add: within_contract_def accept_def under_way_def in_scope_audit)

lemma contract_failed:
  "under_way en w w1 \<Longrightarrow> within_contract en w (handler_failed w1 now ev en' sub what b)"
  using audit_only_tables [OF audit_only_write_audit]
  by (simp add: within_contract_def handler_failed_def under_way_def refusal_def in_scope_audit)

lemma contract_with_alert:
  assumes "i = en_alert en"
    and "\<And>a. alerts_get w i = Inr a \<Longrightarrow> al_id a = en_alert en \<Longrightarrow> under_way en w w \<Longrightarrow>
      within_contract en w (rest a)"
  shows "within_contract en w (with_alert w now ev en sub i rest)"
proof (cases "alerts_get w i")
  case (Inl e)
  then show ?thesis
    using audit_only_tables [OF audit_only_write_audit] by (simp add: with_alert_def within_contract_def)
next
  case (Inr a)
  show ?thesis
  proof (cases "en_org en \<noteq> [] \<and> al_org a \<noteq> en_org en")
    case True
    then show ?thesis by (simp add: with_alert_def Inr contract_reject)
  next
    case False
    have "under_way en w w"
      using False Inr assms(1) by (auto intro!: under_wayI in_scope_refl owned_load intro: tables_okD)
    moreover have "al_id a = en_alert en" using alerts_get_SomeD [OF Inr] assms(1) by simp
    ultimately have "within_contract en w (rest a)" using assms(2) [OF Inr] by blast
    moreover have "with_alert w now ev en sub i rest = rest a"
      using False by (simp only: with_alert_def Inr sum.case if_False)
    ultimately show ?thesis by simp
  qed
qed

text \<open>The contract of a two-outcome store call: either branch of the handler keeps it.\<close>

lemma contract_store_call:
  assumes "under_way en w (snd r)"
    and "under_way en w (snd r) \<Longrightarrow> within_contract en w (failed (snd r))"
    and "under_way en w (snd r) \<Longrightarrow> within_contract en w (done1 (snd r))"
  shows "within_contract en w (case r of (Some e, w1) \<Rightarrow> failed w1 | (None, w1) \<Rightarrow> done1 w1)"
  using assms by (cases r; cases "fst r") auto

lemma under_way_event:
  "under_way en w w1 \<Longrightarrow> under_way en w (snd (insert_timeline_event w1 now (en_alert en) ty d))"
proof (intro under_wayI)
  assume u: "under_way en w w1" and s: "tables_ok w"
  show "in_scope en w (snd (insert_timeline_event w1 now (en_alert en) ty d))"
    using u s by (intro in_scope_insert_event) (simp add: under_way_def)
  have "tables_ok w1" using u s by (simp add: under_way_def)
  then show "tables_ok (snd (insert_timeline_event w1 now (en_alert en) ty d))"
    by (intro tables_keeps [OF prod.collapse [symmetric]])
qed

lemma under_way_snd:
  assumes "under_way en w w1" and "\<And>r w2. f w1 = (r, w2) \<Longrightarrow> tables_ok w1 \<Longrightarrow> tables_ok w2"
    and "in_scope en w w1 \<Longrightarrow> in_scope en w (snd (f w1))"
  shows "under_way en w (snd (f w1))"
  using assms by (auto simp: under_way_def intro: assms(2) [OF prod.collapse [symmetric]])

lemma contract_annotate:
  assumes "under_way en w w" "i = en_alert en"
  shows "within_contract en w (annotate w now ev en' sub i ty payload)"
  unfolding annotate_def
proof (rule contract_store_call)
  show "under_way en w (snd (write_timeline_event w now i ty payload))"
    using assms under_way_event by (simp add: write_timeline_event_def)
qed (auto intro: contract_failed contract_accept)

text \<open>The interface the dispatcher holds its alert handlers to, and what follows from it.\<close>

locale alert_reply_handler =
  fixes handle :: reply_handler_fun
  assumes nil_entry: "handle cfg w now ev None sub = (Some NilEntry, w)"
    and contract: "within_contract en w (handle cfg w now ev (Some en) sub)"
begin

lemma refused_changes_only_audit:
  "handle cfg w now ev (Some en) sub = (Some e, w') \<Longrightarrow> refusal e \<Longrightarrow> audit_only w w'"
  using contract [of en w cfg now ev sub] by (simp add: within_contract_def)

lemma keeps_tables: "tables_ok w \<Longrightarrow> tables_ok (snd (handle cfg w now ev en sub))"
  using contract [of "the en" w cfg now ev sub] nil_entry by (cases en) (auto simp: within_contract_def)

lemma accepted_in_scope:
  "tables_ok w \<Longrightarrow> handle cfg w now ev (Some en) sub = (None, w') \<Longrightarrow> in_scope en w w'"
  using contract [of en w cfg now ev sub] by (simp add: within_contract_def)

lemma foreign_rows_kept:
  assumes "tables_ok w" "r \<in> set (w_alerts w)" "al_id (row_alert r) \<noteq> en_alert en"
  shows "r \<in> set (w_alerts (snd (handle cfg w now ev (Some en) sub)))"
proof -
  let ?w' = "snd (handle cfg w now ev (Some en) sub)"
  have "audit_only w ?w' \<or> in_scope en w ?w'"
    using contract [of en w cfg now ev sub] assms(1) by (simp add: within_contract_def)
  then show ?thesis
  proof
    assume "audit_only w ?w'"
    then show ?thesis using audit_only_same(1) assms(2) by simp
  next
    assume "in_scope en w ?w'"
    then have "filter (\<lambda>r. al_id (row_alert r) \<noteq> en_alert en) (w_alerts ?w') =
        filter (\<lambda>r. al_id (row_alert r) \<noteq> en_alert en) (w_alerts w)"
      by (simp add: in_scope_def)
    moreover have "r \<in> set (filter (\<lambda>r. al_id (row_alert r) \<noteq> en_alert en) (w_alerts w))"
      using assms(2,3) by simp
    ultimately have "r \<in> set (filter (\<lambda>r. al_id (row_alert r) \<noteq> en_alert en) (w_alerts ?w'))"
      by (simp only:)
    then show ?thesis by simp
  qed
qed

end

end
