(* ===== verification/ReplyAnnotations.thy ===== *)
theory ReplyAnnotations imports ReplyContract begin

text \<open>
  The three annotating handlers (\<open>reply/handlers/claimed.go\<close>, \<open>enriched.go\<close>, \<open>linked.go\<close>):
  they append one timeline row to the alert of the entry and leave its status alone.
\<close>

section \<open>reply.alert.claimed.v1\<close>

record claimed_data =
  cl_alert :: string
  cl_who :: string
  cl_claimed_at :: zoned_time
  cl_note :: string

definition decode_claimed :: "raw_json \<Rightarrow> claimed_data option" where
  "decode_claimed = unmarshal (\<lambda>kvs.
     case (get_string ''alert_id'' kvs, get_string ''who'' kvs, get_time ''claimed_at'' kvs,
           get_string ''note'' kvs) of
       (Some a, Some who, Some t, Some n) \<Rightarrow>
         Some \<lparr>cl_alert = a, cl_who = who, cl_claimed_at = t, cl_note = n\<rparr>
     | _ \<Rightarrow> None)"

definition claimed_payload :: "ce_event \<Rightarrow> string \<Rightarrow> claimed_data \<Rightarrow> json" where
  "claimed_payload ev sub d =
     JObj ([(''actor'', JStr (effective_actor ev sub))] @ opt_str ''reported_as'' (cl_who d)
       @ [(''claimed_at'', JStr (format_rfc3339_nano (cl_claimed_at d)))]
       @ opt_str ''note'' (cl_note d) @ opt_str ''sub'' sub)"

definition claimed_handle :: reply_handler_fun where
  "claimed_handle cfg w now ev entry sub =
     (case entry of
        None \<Rightarrow> (Some NilEntry, w)
      | Some en \<Rightarrow>
          (case decode_claimed (ce_data ev) of
             None \<Rightarrow> reject w now ev en sub ''malformed_data''
           | Some d \<Rightarrow>
               let i = effective_alert_id (en_alert en) (cl_alert d) in
               guarded w now ev en sub
                 [(cl_who d = [], ''missing_who''),
                  (\<not> within_runes (cl_who d) max_reference_id_chars, ''field_too_long''),
                  (\<not> within_runes (cl_note d) max_note_chars, ''field_too_long''),
                  (cross_alert en (cl_alert d), ''cross_alert''),
                  (not_alert_scoped en, ''alert_scope_required''),
                  (i = [], ''missing_alert_id'')]
               (with_alert w now ev en sub i
                 (\<lambda>_. annotate w now ev en sub i EventReplyClaimed (claimed_payload ev sub d)))))"

section \<open>reply.alert.enriched.v1\<close>

record enriched_data =
  er_alert :: string
  er_attachments :: "(string \<times> json) list list"

definition decode_enriched :: "raw_json \<Rightarrow> enriched_data option" where
  "decode_enriched = unmarshal (\<lambda>kvs.
     case (get_string ''alert_id'' kvs, objects_field ''attachments'' kvs []) of
       (Some a, Some atts) \<Rightarrow> Some \<lparr>er_alert = a, er_attachments = atts\<rparr>
     | _ \<Rightarrow> None)"

definition max_enriched_attachments :: nat where
  "max_enriched_attachments = 20"

record attachment =
  att_label :: string
  att_href :: string
  att_preview :: string
  att_kind :: string

text \<open>\<open>raw[k].(string)\<close>: the empty string unless the value is a string.\<close>

definition attachment_string :: "string \<Rightarrow> (string \<times> json) list \<Rightarrow> string" where
  "attachment_string k raw = (case map_of (last_wins raw) k of Some (JStr s) \<Rightarrow> s | _ \<Rightarrow> [])"

definition normalise_attachment :: "url_parser \<Rightarrow> (string \<times> json) list \<Rightarrow> attachment option" where
  "normalise_attachment url_parse raw =
     (let label = attachment_string ''label'' raw; href = attachment_string ''href'' raw;
          preview = attachment_string ''preview'' raw; kind = attachment_string ''kind'' raw
      in if label = [] then None
         else if \<not> within_runes label max_attachment_label_chars then None
         else if href \<noteq> [] \<and> \<not> reply_url_ok url_parse href then None
         else if \<not> within_runes preview max_attachment_preview_chars then None
         else if \<not> within_runes kind max_attachment_kind_chars then None
         else Some \<lparr>att_label = label, att_href = href, att_preview = preview, att_kind = kind\<rparr>)"

fun normalise_attachments :: "url_parser \<Rightarrow> (string \<times> json) list list \<Rightarrow> attachment list option" where
  "normalise_attachments url_parse [] = Some []"
| "normalise_attachments url_parse (raw # raws) =
     (case normalise_attachment url_parse raw of
        None \<Rightarrow> None
      | Some a \<Rightarrow> map_option ((#) a) (normalise_attachments url_parse raws))"

definition json_of_attachment :: "attachment \<Rightarrow> json" where
  "json_of_attachment a =
     JObj ([(''label'', JStr (att_label a))] @ opt_str ''href'' (att_href a)
       @ opt_str ''preview'' (att_preview a) @ opt_str ''kind'' (att_kind a))"

definition enriched_payload :: "ce_event \<Rightarrow> string \<Rightarrow> attachment list \<Rightarrow> json" where
  "enriched_payload ev sub atts =
     JObj ([(''attachments'', JArr (map json_of_attachment atts)),
            (''actor'', JStr (effective_actor ev sub))] @ opt_str ''sub'' sub)"

definition enriched_handle :: "url_parser \<Rightarrow> reply_handler_fun" where
  "enriched_handle url_parse cfg w now ev entry sub =
     (case entry of
        None \<Rightarrow> (Some NilEntry, w)
      | Some en \<Rightarrow>
          (case decode_enriched (ce_data ev) of
             None \<Rightarrow> reject w now ev en sub ''malformed_data''
           | Some d \<Rightarrow>
               guarded w now ev en sub
                 [(cross_alert en (er_alert d), ''cross_alert''),
                  (not_alert_scoped en, ''alert_scope_required''),
                  (max_enriched_attachments < length (er_attachments d), ''too_many_attachments'')]
               (case normalise_attachments url_parse (er_attachments d) of
                  None \<Rightarrow> reject w now ev en sub ''attachment_invalid''
                | Some atts \<Rightarrow>
                    let i = effective_alert_id (en_alert en) (er_alert d) in
                    guarded w now ev en sub [(i = [], ''missing_alert_id'')]
                    (with_alert w now ev en sub i
                      (\<lambda>_. annotate w now ev en sub i EventReplyEnriched (enriched_payload ev sub atts))))))"

section \<open>reply.alert.linked.v1\<close>

record linked_data =
  ln_alert :: string
  ln_kind :: string
  ln_id :: string
  ln_url :: string
  ln_title :: string

definition decode_linked :: "raw_json \<Rightarrow> linked_data option" where
  "decode_linked = unmarshal (\<lambda>kvs.
     case (get_string ''alert_id'' kvs, get_string ''kind'' kvs, get_string ''id'' kvs,
           get_string ''url'' kvs, get_string ''title'' kvs) of
       (Some a, Some k, Some i, Some u, Some t) \<Rightarrow>
         Some \<lparr>ln_alert = a, ln_kind = k, ln_id = i, ln_url = u, ln_title = t\<rparr>
     | _ \<Rightarrow> None)"

definition allowed_link_kinds :: "string list" where
  "allowed_link_kinds =
     [''jira'', ''pagerduty'', ''slack_thread'', ''github_issue'', ''gitlab_issue'', ''linear'',
      ''servicenow'', ''other'']"

definition linked_payload :: "ce_event \<Rightarrow> string \<Rightarrow> linked_data \<Rightarrow> json" where
  "linked_payload ev sub d =
     JObj ([(''kind'', JStr (ln_kind d)), (''id'', JStr (ln_id d))] @ opt_str ''url'' (ln_url d)
       @ opt_str ''title'' (ln_title d) @ [(''actor'', JStr (effective_actor ev sub))]
       @ opt_str ''sub'' sub)"

definition linked_handle :: "url_parser \<Rightarrow> reply_handler_fun" where
  "linked_handle url_parse cfg w now ev entry sub =
     (case entry of
        None \<Rightarrow> (Some NilEntry, w)
      | Some en \<Rightarrow>
          (case decode_linked (ce_data ev) of
             None \<Rightarrow> reject w now ev en sub ''malformed_data''
           | Some d \<Rightarrow>
               let i = effective_alert_id (en_alert en) (ln_alert d) in
               guarded w now ev en sub
                 [(cross_alert en (ln_alert d), ''cross_alert''),
                  (not_alert_scoped en, ''alert_scope_required''),
                  (ln_kind d \<notin> set allowed_link_kinds, ''invalid_kind''),
                  (ln_id d = [], ''missing_id''),
                  (\<not> within_runes (ln_id d) max_reference_id_chars, ''field_too_long''),
                  (\<not> within_runes (ln_title d) max_title_chars, ''field_too_long''),
                  (\<not> reply_url_ok url_parse (ln_url d), ''url_scheme''),
                  (i = [], ''missing_alert_id'')]
               (with_alert w now ev en sub i
                 (\<lambda>_. annotate w now ev en sub i EventReplyLinked (linked_payload ev sub d)))))"

section \<open>The contract\<close>

lemma scoped_alert_id: "\<not> not_alert_scoped en \<Longrightarrow> effective_alert_id (en_alert en) d = en_alert en"
  by (simp add: not_alert_scoped_def effective_alert_id_def)

interpretation claimed: alert_reply_handler claimed_handle
proof
  show "within_contract en w (claimed_handle cfg w now ev (Some en) sub)" for cfg w now ev en sub
    unfolding claimed_handle_def option.case Let_def
    by (auto split: option.split intro!: contract_reject contract_guarded contract_with_alert
        contract_annotate simp: scoped_alert_id split: if_split_asm)
qed (simp add: claimed_handle_def)

interpretation enriched: alert_reply_handler "enriched_handle url_parse" for url_parse
proof
  show "within_contract en w (enriched_handle url_parse cfg w now ev (Some en) sub)" for cfg w now ev en sub
    unfolding enriched_handle_def option.case Let_def
    by (auto split: option.split intro!: contract_reject contract_guarded contract_with_alert
        contract_annotate simp: scoped_alert_id split: if_split_asm)
qed (simp add: enriched_handle_def)

interpretation linked: alert_reply_handler "linked_handle url_parse" for url_parse
proof
  show "within_contract en w (linked_handle url_parse cfg w now ev (Some en) sub)" for cfg w now ev en sub
    unfolding linked_handle_def option.case Let_def
    by (auto split: option.split intro!: contract_reject contract_guarded contract_with_alert
        contract_annotate simp: scoped_alert_id split: if_split_asm)
qed (simp add: linked_handle_def)

end
