(* ===== verification/ReplyMutations.thy ===== *)
theory ReplyMutations imports ReplyAnnotations begin

text \<open>
  The handlers that change an alert or write a row about it: \<open>suppressed.go\<close>,
  \<open>deduplicated.go\<close>, \<open>escalated.go\<close>, \<open>remediation\_started.go\<close>, \<open>ownership.go\<close>,
  \<open>ack\_with\_context.go\<close>, \<open>route.go\<close> and \<open>status\_page.go\<close>
  (all in \<open>internal/cloudevents/reply/handlers\<close>).
\<close>

definition stored_alert :: "world \<Rightarrow> string \<Rightarrow> audit_value" where
  "stored_alert w i = (case alerts_get w i of Inl _ \<Rightarrow> AuditEmpty | Inr a \<Rightarrow> AuditAlert a)"

section \<open>reply.alert.suppressed.v1\<close>

record suppressed_data =
  su_alert :: string
  su_duration :: int
  su_reason :: string
  su_filter :: "(string \<times> json) list"

definition decode_suppressed :: "raw_json \<Rightarrow> suppressed_data option" where
  "decode_suppressed = unmarshal (\<lambda>kvs.
     case (get_string ''alert_id'' kvs, get_int ''duration_seconds'' kvs, get_string ''reason'' kvs,
           get_filter ''match_filter'' kvs) of
       (Some a, Some n, Some r, Some f) \<Rightarrow>
         Some \<lparr>su_alert = a, su_duration = n, su_reason = r, su_filter = f\<rparr>
     | _ \<Rightarrow> None)"

definition suppressed_row ::
  "dispatcher_config \<Rightarrow> gotime \<Rightarrow> ce_event \<Rightarrow> entry \<Rightarrow> string \<Rightarrow> string \<Rightarrow> suppressed_data \<Rightarrow> alert_suppression" where
  "suppressed_row cfg now ev en u i d =
     \<lparr>sup_id = u, sup_org = en_org en, sup_alert = i, sup_monitor = en_monitor en,
      sup_filter = (if su_filter d = [] then None else Some (json_of_map (su_filter d))),
      sup_expires_at = now + duration_of_seconds (clamp_suppress_seconds cfg (su_duration d)),
      sup_reason = su_reason d, sup_source = ce_id ev, sup_created_at = now\<rparr>"

definition suppressed_handle :: reply_handler_fun where
  "suppressed_handle cfg w now ev entry sub =
     (case entry of
        None \<Rightarrow> (Some NilEntry, w)
      | Some en \<Rightarrow>
          (case decode_suppressed (ce_data ev) of
             None \<Rightarrow> reject w now ev en sub ''malformed_data''
           | Some d \<Rightarrow>
               let i = effective_alert_id (en_alert en) (su_alert d) in
               guarded w now ev en sub
                 [(cross_alert en (su_alert d), ''cross_alert''),
                  (not_alert_scoped en, ''alert_scope_required''),
                  (\<not> within_runes (su_reason d) max_reason_chars, ''field_too_long''),
                  (\<not> match_filter_ok (su_filter d), ''filter_invalid'')]
               (with_alert w now ev en sub i (\<lambda>_.
                 let u = fst (new_uuid w); row = suppressed_row cfg now ev en u i d in
                 case suppressions_create (snd (new_uuid w)) now row of
                   (Some _, w1) \<Rightarrow> handler_failed w1 now ev en sub ''create_suppression'' AuditEmpty
                 | (None, w1) \<Rightarrow>
                     let w2 = (if i \<noteq> [] then snd (insert_timeline_event w1 now i EventSuppressed
                                (JObj [(''duration_seconds'', JInt (clamp_suppress_seconds cfg (su_duration d))),
                                       (''reason'', JStr (su_reason d)), (''sub'', JStr sub),
                                       (''suppression_id'', JStr u)])) else w1)
                     in accept w2 now ev en sub AuditEmpty (AuditSuppression row)))))"

section \<open>reply.alert.deduplicated.v1\<close>

record deduplicated_data =
  dd_alert :: string
  dd_duplicate_of :: string
  dd_reason :: string

definition decode_deduplicated :: "raw_json \<Rightarrow> deduplicated_data option" where
  "decode_deduplicated = unmarshal (\<lambda>kvs.
     case (get_string ''alert_id'' kvs, get_string ''duplicate_of'' kvs, get_string ''reason'' kvs) of
       (Some a, Some d, Some r) \<Rightarrow> Some \<lparr>dd_alert = a, dd_duplicate_of = d, dd_reason = r\<rparr>
     | _ \<Rightarrow> None)"

definition foreign :: "entry \<Rightarrow> db_error + 'a \<Rightarrow> ('a \<Rightarrow> string) \<Rightarrow> bool" where
  "foreign en r org = (case r of Inl _ \<Rightarrow> False | Inr x \<Rightarrow> en_org en \<noteq> [] \<and> org x \<noteq> en_org en)"

definition deduplicated_handle :: reply_handler_fun where
  "deduplicated_handle cfg w now ev entry sub =
     (case entry of
        None \<Rightarrow> (Some NilEntry, w)
      | Some en \<Rightarrow>
          (case decode_deduplicated (ce_data ev) of
             None \<Rightarrow> reject w now ev en sub ''malformed_data''
           | Some d \<Rightarrow>
               let i = effective_alert_id (en_alert en) (dd_alert d);
                   primary = alerts_get w (dd_duplicate_of d) in
               guarded w now ev en sub
                 [(\<not> within_runes (dd_reason d) max_reason_chars, ''field_too_long''),
                  (cross_alert en (dd_alert d), ''cross_alert''),
                  (not_alert_scoped en, ''alert_scope_required''),
                  (dd_duplicate_of d = [], ''missing_duplicate_of''),
                  (i = [], ''missing_alert_id''),
                  (i = dd_duplicate_of d, ''self_duplicate''),
                  (isl primary, ''unknown_duplicate_of''),
                  (foreign en primary al_org, ''cross_org_duplicate'')]
               (with_alert w now ev en sub i (\<lambda>before.
                 case alerts_mark_duplicate w now i (dd_duplicate_of d) (dd_reason d) of
                   (Some _, w1) \<Rightarrow> handler_failed w1 now ev en sub ''mark_duplicate'' (AuditAlert before)
                 | (None, w1) \<Rightarrow> accept w1 now ev en sub (AuditAlert before) (stored_alert w1 i)))))"

section \<open>reply.alert.escalated.v1\<close>

record escalated_data =
  ec_alert :: string
  ec_new_severity :: string
  ec_step_index :: int
  ec_reason :: string

definition decode_escalated :: "raw_json \<Rightarrow> escalated_data option" where
  "decode_escalated = unmarshal (\<lambda>kvs.
     case (get_string ''alert_id'' kvs, get_string ''new_severity'' kvs, get_int ''step_index'' kvs,
           get_string ''reason'' kvs) of
       (Some a, Some s, Some n, Some r) \<Rightarrow>
         Some \<lparr>ec_alert = a, ec_new_severity = s, ec_step_index = n, ec_reason = r\<rparr>
     | _ \<Rightarrow> None)"

definition escalation_severity :: "string \<Rightarrow> severity option" where
  "escalation_severity s =
     map_of [(''critical'', SeverityCritical), (''warning'', SeverityWarning), (''info'', SeverityInfo)] s"

definition lookup_escalation_step :: "world \<Rightarrow> string \<Rightarrow> int \<Rightarrow> string option" where
  "lookup_escalation_step w monitor idx =
     (case monitors_get w monitor of
        Inl _ \<Rightarrow> None
      | Inr m \<Rightarrow>
          if mon_policy m = [] then None
          else (case steps_list w (mon_policy m) of
                  Inl _ \<Rightarrow> None
                | Inr steps \<Rightarrow> map_option step_id (List.find (\<lambda>s. step_position s = idx) steps)))"

definition escalated_handle :: reply_handler_fun where
  "escalated_handle cfg w now ev entry sub =
     (case entry of
        None \<Rightarrow> (Some NilEntry, w)
      | Some en \<Rightarrow>
          guarded w now ev en sub [(\<not> cfg_trust_elevated cfg, ''trust_flag_required'')]
          (case decode_escalated (ce_data ev) of
             None \<Rightarrow> reject w now ev en sub ''malformed_data''
           | Some d \<Rightarrow>
               let i = effective_alert_id (en_alert en) (ec_alert d);
                   sev = escalation_severity (ec_new_severity d) in
               guarded w now ev en sub
                 [(\<not> within_runes (ec_reason d) max_reason_chars, ''field_too_long''),
                  (cross_alert en (ec_alert d), ''cross_alert''),
                  (not_alert_scoped en, ''alert_scope_required''),
                  (ec_new_severity d \<noteq> [] \<and> sev = None, ''invalid_severity''),
                  (ec_new_severity d = [] \<and> ec_step_index d = 0, ''no_mutation''),
                  (i = [], ''missing_alert_id'')]
               (with_alert w now ev en sub i (\<lambda>before.
                 let step = lookup_escalation_step w (al_monitor before) (ec_step_index d) in
                 guarded w now ev en sub
                   [(0 < ec_step_index d \<and> step = None, ''invalid_step_index'')]
                 (let a1 = (if ec_new_severity d \<noteq> [] then before\<lparr>al_severity := the sev\<rparr> else before);
                      a2 = (if 0 < ec_step_index d then a1\<lparr>al_current_step := the step\<rparr> else a1)
                  in case alerts_update w a2 of
                       (Some _, w1) \<Rightarrow> handler_failed w1 now ev en sub ''update_alert'' (AuditAlert before)
                     | (None, w1) \<Rightarrow>
                         let w2 = snd (insert_timeline_event w1 now i EventEscalatedReply
                                (JObj [(''new_severity'', JStr (ec_new_severity d)),
                                       (''reason'', JStr (ec_reason d)),
                                       (''step_index'', JInt (ec_step_index d)), (''sub'', JStr sub)]))
                         in accept w2 now ev en sub (AuditAlert before) (stored_alert w2 i))))))"

section \<open>reply.alert.ownership.v1\<close>

record ownership_data =
  ow_alert :: string
  ow_kind :: string
  ow_id :: string
  ow_reason :: string

definition decode_ownership :: "raw_json \<Rightarrow> ownership_data option" where
  "decode_ownership = unmarshal (\<lambda>kvs.
     case (get_string ''alert_id'' kvs, get_string ''owner_kind'' kvs, get_string ''owner_id'' kvs,
           get_string ''reason'' kvs) of
       (Some a, Some k, Some i, Some r) \<Rightarrow>
         Some \<lparr>ow_alert = a, ow_kind = k, ow_id = i, ow_reason = r\<rparr>
     | _ \<Rightarrow> None)"

definition allowed_owner_kinds :: "string list" where
  "allowed_owner_kinds = [''user'', ''team'']"

text \<open>The checks on the new owner: it exists, belongs to the org, and a user is not disabled.\<close>

definition owner_guards :: "world \<Rightarrow> entry \<Rightarrow> ownership_data \<Rightarrow> (bool \<times> string) list" where
  "owner_guards w en d =
     (if ow_kind d = ''user'' then
        (let u = users_get w (ow_id d) in
         [(isl u, ''unknown_owner''),
          (foreign en u usr_org, ''cross_org_owner''),
          (case u of Inr x \<Rightarrow> usr_disabled_at x \<noteq> None | Inl _ \<Rightarrow> False, ''owner_disabled'')])
      else if ow_kind d = ''team'' then
        (let t = teams_get w (ow_id d) in
         [(isl t, ''unknown_owner''), (foreign en t team_org, ''cross_org_owner'')])
      else [])"

definition ownership_handle :: reply_handler_fun where
  "ownership_handle cfg w now ev entry sub =
     (case entry of
        None \<Rightarrow> (Some NilEntry, w)
      | Some en \<Rightarrow>
          (case decode_ownership (ce_data ev) of
             None \<Rightarrow> reject w now ev en sub ''malformed_data''
           | Some d \<Rightarrow>
               let i = effective_alert_id (en_alert en) (ow_alert d) in
               guarded w now ev en sub
                 [(cross_alert en (ow_alert d), ''cross_alert''),
                  (not_alert_scoped en, ''alert_scope_required''),
                  (ow_kind d \<notin> set allowed_owner_kinds, ''invalid_owner_kind''),
                  (ow_id d = [], ''missing_owner_id''),
                  (\<not> within_runes (ow_reason d) max_reason_chars, ''field_too_long''),
                  (i = [], ''missing_alert_id'')]
               (guarded w now ev en sub (owner_guards w en d)
               (with_alert w now ev en sub i (\<lambda>before.
                 case alerts_set_owner w now i (ow_kind d) (ow_id d) (ow_reason d) of
                   (Some _, w1) \<Rightarrow> handler_failed w1 now ev en sub ''set_owner'' (AuditAlert before)
                 | (None, w1) \<Rightarrow> accept w1 now ev en sub (AuditAlert before) (stored_alert w1 i))))))"

section \<open>reply.alert.ack\_with\_context.v1\<close>

record ack_context_data =
  ak_alert :: string
  ak_reason_code :: string
  ak_note :: string
  ak_reference :: string

definition decode_ack_context :: "raw_json \<Rightarrow> ack_context_data option" where
  "decode_ack_context = unmarshal (\<lambda>kvs.
     case (get_string ''alert_id'' kvs, get_string ''reason_code'' kvs, get_string ''note'' kvs,
           get_string ''reference_id'' kvs) of
       (Some a, Some c, Some n, Some r) \<Rightarrow>
         Some \<lparr>ak_alert = a, ak_reason_code = c, ak_note = n, ak_reference = r\<rparr>
     | _ \<Rightarrow> None)"

definition allowed_ack_reason_codes :: "string list" where
  "allowed_ack_reason_codes =
     [''investigating'', ''known_issue'', ''false_positive'', ''duplicate'', ''remediated'',
      ''deferred'', ''waiting_on_vendor'', ''in_maintenance'', ''other'']"

definition ack_with_context_handle :: reply_handler_fun where
  "ack_with_context_handle cfg w now ev entry sub =
     (case entry of
        None \<Rightarrow> (Some NilEntry, w)
      | Some en \<Rightarrow>
          (case decode_ack_context (ce_data ev) of
             None \<Rightarrow> reject w now ev en sub ''malformed_data''
           | Some d \<Rightarrow>
               let i = effective_alert_id (en_alert en) (ak_alert d) in
               guarded w now ev en sub
                 [(cross_alert en (ak_alert d), ''cross_alert''),
                  (not_alert_scoped en, ''alert_scope_required''),
                  (ak_reason_code d \<notin> set allowed_ack_reason_codes, ''invalid_reason_code''),
                  (\<not> within_runes (ak_note d) max_note_chars, ''field_too_long''),
                  (\<not> within_runes (ak_reference d) max_reference_id_chars, ''field_too_long''),
                  (i = [], ''missing_alert_id'')]
               (with_alert w now ev en sub i (\<lambda>before.
                 let acked_by = (if sub = [] then ''cloudevent:reply:'' @ ce_id ev else sub) in
                 case alerts_ack_with_context w now i (ak_reason_code d) (ak_note d) (ak_reference d) acked_by of
                   (Some _, w1) \<Rightarrow> handler_failed w1 now ev en sub ''ack'' (AuditAlert before)
                 | (None, w1) \<Rightarrow> accept w1 now ev en sub (AuditAlert before) (stored_alert w1 i)))))"

section \<open>The contract\<close>

lemma contract_write:
  assumes "under_way en w w0" and "\<And>r w2. f w0 = (r, w2) \<Longrightarrow> tables_ok w0 \<Longrightarrow> tables_ok w2"
    and "in_scope en w w0 \<Longrightarrow> in_scope en w (snd (f w0))"
    and "\<And>e w1. under_way en w w1 \<Longrightarrow> within_contract en w (failed w1)"
    and "\<And>w1. under_way en w w1 \<Longrightarrow> within_contract en w (written w1)"
  shows "within_contract en w (case f w0 of (Some e, w1) \<Rightarrow> failed w1 | (None, w1) \<Rightarrow> written w1)"
  using under_way_snd [of en w w0 f] assms by (intro contract_store_call) blast+

lemma under_way_uuid: "under_way en w w1 \<Longrightarrow> under_way en w (snd (new_uuid w1))"
  by (auto simp: under_way_def new_uuid_def tables_ok_def in_scope_uuid)

lemmas reply_contracts = contract_reject contract_guarded contract_with_alert contract_accept
  contract_failed under_way_event under_way_uuid

interpretation suppressed: alert_reply_handler suppressed_handle
proof
  show "within_contract en w (suppressed_handle cfg w now ev (Some en) sub)" for cfg w now ev en sub
    unfolding suppressed_handle_def option.case Let_def
    by (auto split: option.split intro!: reply_contracts
        contract_write [where f = "\<lambda>w. suppressions_create w now _"] intro: tables_keeps scope_intro
        simp: scoped_alert_id suppressed_row_def split: if_split_asm)
qed (simp add: suppressed_handle_def)

interpretation deduplicated: alert_reply_handler deduplicated_handle
proof
  show "within_contract en w (deduplicated_handle cfg w now ev (Some en) sub)" for cfg w now ev en sub
    unfolding deduplicated_handle_def option.case Let_def
    by (auto split: option.split intro!: reply_contracts
        contract_write [where f = "\<lambda>w. alerts_mark_duplicate w now (en_alert en) _ _"]
        intro: tables_keeps scope_intro simp: scoped_alert_id split: if_split_asm)
qed (simp add: deduplicated_handle_def)

interpretation escalated: alert_reply_handler escalated_handle
proof
  show "within_contract en w (escalated_handle cfg w now ev (Some en) sub)" for cfg w now ev en sub
    unfolding escalated_handle_def option.case Let_def
    by (auto split: option.split intro!: reply_contracts
        contract_write [where f = "\<lambda>w. alerts_update w _"]
        intro: tables_keeps scope_intro simp: scoped_alert_id split: if_split_asm)
qed (simp add: escalated_handle_def)

interpretation ownership: alert_reply_handler ownership_handle
proof
  show "within_contract en w (ownership_handle cfg w now ev (Some en) sub)" for cfg w now ev en sub
    unfolding ownership_handle_def option.case Let_def
    by (auto split: option.split intro!: reply_contracts
        contract_write [where f = "\<lambda>w. alerts_set_owner w now (en_alert en) _ _ _"]
        intro: tables_keeps scope_intro simp: scoped_alert_id split: if_split_asm)
qed (simp add: ownership_handle_def)

interpretation ack_with_context: alert_reply_handler ack_with_context_handle
proof
  show "within_contract en w (ack_with_context_handle cfg w now ev (Some en) sub)" for cfg w now ev en sub
    unfolding ack_with_context_handle_def option.case Let_def
    by (auto split: option.split intro!: reply_contracts
        contract_write [where f = "\<lambda>w. alerts_ack_with_context w now (en_alert en) _ _ _ _"]
        intro: tables_keeps scope_intro simp: scoped_alert_id split: if_split_asm)
qed (simp add: ack_with_context_handle_def)

end
