(* ===== verification/ReplyRemediation.thy ===== *)
theory ReplyRemediation imports ReplyMutations begin

text \<open>
  The remediation life cycle (\<open>reply/handlers/remediation\_started.go\<close>,
  \<open>remediation\_result.go\<close>). The result handler is split where another reply can run in
  between: the checks on the row it read, and the compare-and-set with what follows it.
\<close>

section \<open>reply.alert.remediation\_started.v1\<close>

record remediation_started_data =
  rs_alert :: string
  rs_remediation :: string
  rs_description :: string
  rs_expected :: int

definition decode_remediation_started :: "raw_json \<Rightarrow> remediation_started_data option" where
  "decode_remediation_started = unmarshal (\<lambda>kvs.
     case (get_string ''alert_id'' kvs, get_string ''remediation_id'' kvs,
           get_string ''description'' kvs, get_int ''expected_duration_seconds'' kvs) of
       (Some a, Some i, Some d, Some n) \<Rightarrow>
         Some \<lparr>rs_alert = a, rs_remediation = i, rs_description = d, rs_expected = n\<rparr>
     | _ \<Rightarrow> None)"

definition remediation_row ::
  "dispatcher_config \<Rightarrow> gotime \<Rightarrow> ce_event \<Rightarrow> string \<Rightarrow> remediation_started_data \<Rightarrow> alert_remediation" where
  "remediation_row cfg now ev i d =
     \<lparr>rem_id = rs_remediation d, rem_alert = i, rem_org = [], rem_status = RemediationInProgress,
      rem_started_at = now, rem_completed_at = None,
      rem_expires_at = now + duration_of_seconds (clamp_remediation_seconds cfg (rs_expected d)),
      rem_description = rs_description d, rem_message = [], rem_artifact = [],
      rem_source = ce_id ev\<rparr>"

definition remediation_started_handle :: reply_handler_fun where
  "remediation_started_handle cfg w now ev entry sub =
     (case entry of
        None \<Rightarrow> (Some NilEntry, w)
      | Some en \<Rightarrow>
          (case decode_remediation_started (ce_data ev) of
             None \<Rightarrow> reject w now ev en sub ''malformed_data''
           | Some d \<Rightarrow>
               let i = effective_alert_id (en_alert en) (rs_alert d) in
               guarded w now ev en sub
                 [(\<not> within_runes (rs_description d) max_description_chars, ''field_too_long''),
                  (cross_alert en (rs_alert d), ''cross_alert''),
                  (not_alert_scoped en, ''alert_scope_required''),
                  (rs_remediation d = [], ''missing_remediation_id''),
                  (i = [], ''missing_alert_id'')]
               (with_alert w now ev en sub i (\<lambda>a.
                 let row = remediation_row cfg now ev i d in
                 case remediations_create w row of
                   (Some _, w1) \<Rightarrow> handler_failed w1 now ev en sub ''create_remediation'' AuditEmpty
                 | (None, w1) \<Rightarrow>
                     let w2 = snd (insert_timeline_event w1 now i EventRemediationStarted
                            (JObj [(''description'', JStr (rs_description d)),
                                   (''expected_seconds'', JInt (clamp_remediation_seconds cfg (rs_expected d))),
                                   (''remediation_id'', JStr (rs_remediation d)), (''sub'', JStr sub)]))
                     in accept w2 now ev en sub AuditEmpty (AuditRemediation (row\<lparr>rem_org := al_org a\<rparr>))))))"

section \<open>reply.alert.remediation\_result.v1\<close>

record remediation_result_data =
  rr_alert_id :: string
  rr_remediation :: string
  rr_outcome :: string
  rr_message :: string
  rr_artifact :: string

definition decode_remediation_result :: "raw_json \<Rightarrow> remediation_result_data option" where
  "decode_remediation_result = unmarshal (\<lambda>kvs.
     case (get_string ''alert_id'' kvs, get_string ''remediation_id'' kvs, get_string ''outcome'' kvs,
           get_string ''message'' kvs, get_string ''artifact_url'' kvs) of
       (Some a, Some i, Some oc, Some m, Some u) \<Rightarrow>
         Some \<lparr>rr_alert_id = a, rr_remediation = i, rr_outcome = oc, rr_message = m, rr_artifact = u\<rparr>
     | _ \<Rightarrow> None)"

definition auto_resolve_window :: int where
  "auto_resolve_window = 60 * second"

definition remediation_outcome :: "string \<Rightarrow> remediation_status option" where
  "remediation_outcome s =
     map_of [(''success'', RemediationSuccess), (''failure'', RemediationFailure),
             (''partial'', RemediationPartial)] s"

text \<open>
  The alert is resolved when the outcome is success and the monitor's latest check is up and at
  most a minute old; a failing update is ignored.
\<close>

definition reply_auto_resolve :: "world \<Rightarrow> gotime \<Rightarrow> remediation_status \<Rightarrow> string \<Rightarrow> world" where
  "reply_auto_resolve w now outcome i =
     (case alerts_get w i of
        Inl _ \<Rightarrow> w
      | Inr a \<Rightarrow>
          if outcome = RemediationSuccess \<and> al_status a \<noteq> AlertResolved then
            (case checks_latest w (al_monitor a) of
               Inl _ \<Rightarrow> w
             | Inr c \<Rightarrow>
                 if chk_status c = StatusUp \<and> time_sub now (chk_checked_at c) \<le> auto_resolve_window
                 then snd (alerts_update w (a\<lparr>al_status := AlertResolved, al_resolved_at := Some now\<rparr>))
                 else w)
          else w)"

definition option_of_sum :: "'e + 'a \<Rightarrow> 'a option" where
  "option_of_sum r = (case r of Inl _ \<Rightarrow> None | Inr a \<Rightarrow> Some a)"

text \<open>From \<open>Complete\<close> on, for the row \<open>existing\<close> that the checks read.\<close>

definition remediation_result_commit ::
  "world \<Rightarrow> gotime \<Rightarrow> ce_event \<Rightarrow> entry \<Rightarrow> string \<Rightarrow> remediation_result_data \<Rightarrow> remediation_status \<Rightarrow>
   alert_remediation \<Rightarrow> reply_error option \<times> world" where
  "remediation_result_commit w now ev en sub d outcome existing =
     (case remediations_complete w now (rr_remediation d) outcome (rr_message d) (rr_artifact d) of
        (Some e, w1) \<Rightarrow>
          if e = ErrAlreadyComplete then reject w1 now ev en sub ''remediation_already_completed''
          else handler_failed w1 now ev en sub ''complete_remediation'' (AuditRemediation existing)
      | (None, w1) \<Rightarrow>
          let i = rem_alert existing;
              before = option_of_sum (alerts_get w1 i);
              w2 = reply_auto_resolve w1 now outcome i;
              after_alert = option_of_sum (alerts_get w2 i);
              after_row = option_of_sum (remediations_get w2 (rr_remediation d));
              w3 = snd (insert_timeline_event w2 now i EventRemediationResult
                     (JObj [(''artifact_url'', JStr (rr_artifact d)), (''message'', JStr (rr_message d)),
                            (''outcome'', JStr (rr_outcome d)),
                            (''remediation_id'', JStr (rr_remediation d)), (''sub'', JStr sub)]))
          in accept w3 now ev en sub (AuditResult (Some existing) before)
               (AuditResult after_row after_alert))"

definition remediation_result_handle :: "url_parser \<Rightarrow> reply_handler_fun" where
  "remediation_result_handle url_parse cfg w now ev entry sub =
     (case entry of
        None \<Rightarrow> (Some NilEntry, w)
      | Some en \<Rightarrow>
          (case decode_remediation_result (ce_data ev) of
             None \<Rightarrow> reject w now ev en sub ''malformed_data''
           | Some d \<Rightarrow>
               let outcome = remediation_outcome (rr_outcome d) in
               guarded w now ev en sub
                 [(cross_alert en (rr_alert_id d), ''cross_alert''),
                  (not_alert_scoped en, ''alert_scope_required''),
                  (rr_remediation d = [], ''missing_remediation_id''),
                  (outcome = None, ''invalid_outcome''),
                  (\<not> within_runes (rr_message d) max_message_chars, ''field_too_long''),
                  (\<not> reply_url_ok url_parse (rr_artifact d), ''url_scheme'')]
               (case remediations_get w (rr_remediation d) of
                  Inl _ \<Rightarrow> reject w now ev en sub ''unknown_remediation''
                | Inr existing \<Rightarrow>
                    guarded w now ev en sub
                      [(rem_status existing \<noteq> RemediationInProgress, ''remediation_already_completed''),
                       (rem_alert existing \<noteq> en_alert en, ''remediation_alert_mismatch'')]
                    (with_alert w now ev en sub (rem_alert existing)
                      (\<lambda>_. remediation_result_commit w now ev en sub d (the outcome) existing)))))"

section \<open>The contract\<close>

interpretation remediation_started: alert_reply_handler remediation_started_handle
proof
  show "within_contract en w (remediation_started_handle cfg w now ev (Some en) sub)"
    for cfg w now ev en sub
    unfolding remediation_started_handle_def option.case Let_def
    by (auto split: option.split intro!: reply_contracts
        contract_write [where f = "\<lambda>w. remediations_create w _"] intro: tables_keeps scope_intro
        simp: scoped_alert_id remediation_row_def split: if_split_asm)
qed (simp add: remediation_started_handle_def)

lemma under_way_reply_auto_resolve:
  assumes "under_way en w w1"
  shows "under_way en w (reply_auto_resolve w1 now outcome (en_alert en))"
proof -
  have "under_way en w (snd (alerts_update w1 (a\<lparr>al_status := s, al_resolved_at := t\<rparr>)))"
    if "alerts_get w1 (en_alert en) = Inr a" for a s t
    using alerts_get_SomeD [OF that] assms
    by (intro under_way_snd [where f = "\<lambda>w. alerts_update w _"]) (auto intro: tables_keeps scope_intro)
  with assms show ?thesis unfolding reply_auto_resolve_def by (auto split: sum.split)
qed

lemma complete_error_same:
  "remediations_complete w now i st msg art = (Some e, w1) \<Longrightarrow> w1 = w"
  by (auto simp: remediations_complete_def split: if_splits sum.splits)

lemma contract_commit:
  assumes "remediations_get w (rr_remediation d) = Inr existing" "rem_alert existing = en_alert en"
    and "under_way en w w"
  shows "within_contract en w (remediation_result_commit w now ev en sub d outcome existing)"
proof -
  let ?c = "remediations_complete w now (rr_remediation d) outcome (rr_message d) (rr_artifact d)"
  have ex: "existing \<in> set (w_remediations w)" "rem_id existing = rr_remediation d"
    using assms(1) by (auto simp: remediations_get_def split: if_splits option.splits dest!: find_SomeD)
  have own: "rem_alert r = en_alert en"
    if "tables_ok w" "r \<in> set (w_remediations w)" "rem_id r = rr_remediation d" for r
    using that ex assms(2) by (auto simp: tables_ok_def distinct_map inj_on_def)
  have u: "under_way en w (snd ?c)"
  proof (rule under_wayI)
    assume t: "tables_ok w"
    show "tables_ok (snd ?c)" using t by (intro tables_keeps [OF prod.collapse [symmetric]])
    show "in_scope en w (snd ?c)"
      using t assms(3) own by (intro in_scope_remediations_complete) (auto simp: under_way_def)
  qed
  show ?thesis
  proof (cases "fst ?c")
    case (Some e)
    then obtain w1 where c: "?c = (Some e, w1)" by (metis prod.collapse)
    with complete_error_same [OF c] u show ?thesis
      by (simp add: remediation_result_commit_def contract_reject contract_failed)
  next
    case None
    then obtain w1 where c: "?c = (None, w1)" by (metis prod.collapse)
    with u have "under_way en w w1" by simp
    then show ?thesis
      by (auto simp: remediation_result_commit_def c Let_def assms(2)
          intro!: contract_accept under_way_event under_way_reply_auto_resolve)
  qed
qed

interpretation remediation_result: alert_reply_handler "remediation_result_handle url_parse" for url_parse
proof
  show "within_contract en w (remediation_result_handle url_parse cfg w now ev (Some en) sub)"
    for cfg w now ev en sub
    unfolding remediation_result_handle_def option.case Let_def
    by (auto split: option.split sum.split intro!: contract_reject contract_guarded contract_with_alert
        contract_commit split: if_split_asm)
qed (simp add: remediation_result_handle_def)

end
