(* ===== verification/ReplyRouting.thy ===== *)
theory ReplyRouting imports ReplyMutations begin

text \<open>
  The handlers that write rows beside the alert (\<open>reply/handlers/route.go\<close>,
  \<open>status\_page.go\<close>) and the one that disables a monitor (\<open>monitor\_deregister.go\<close>).
\<close>

section \<open>reply.alert.route.v1\<close>

record route_data =
  ro_alert :: string
  ro_target :: string
  ro_filter :: "(string \<times> json) list"
  ro_expires_at :: zoned_time
  ro_reason :: string

definition decode_route :: "raw_json \<Rightarrow> route_data option" where
  "decode_route = unmarshal (\<lambda>kvs.
     case (get_string ''alert_id'' kvs, get_string ''target_channel_id'' kvs,
           get_filter ''match_filter'' kvs, get_time ''expires_at'' kvs, get_string ''reason'' kvs) of
       (Some a, Some t, Some f, Some e, Some r) \<Rightarrow>
         Some \<lparr>ro_alert = a, ro_target = t, ro_filter = f, ro_expires_at = e, ro_reason = r\<rparr>
     | _ \<Rightarrow> None)"

text \<open>
  The requested life time in whole seconds (exact below \<open>2^22\<close> seconds; for longer ones the
  \<open>float64\<close> of \<open>Seconds\<close> can round a fraction of a second up) and the clamped expiry.
\<close>

definition route_expiry :: "dispatcher_config \<Rightarrow> gotime \<Rightarrow> route_data \<Rightarrow> zoned_time" where
  "route_expiry cfg now d =
     (let requested = time_sub (fst (ro_expires_at d)) now div second;
          clamped = clamp_route_duration cfg requested
      in if clamped < requested then (now + duration_of_seconds clamped, 0) else ro_expires_at d)"

definition route_row ::
  "dispatcher_config \<Rightarrow> gotime \<Rightarrow> ce_event \<Rightarrow> entry \<Rightarrow> string \<Rightarrow> route_data \<Rightarrow> alert_routing_rule" where
  "route_row cfg now ev en u d =
     \<lparr>rr_id = u, rr_org = en_org en, rr_channel = ro_target d,
      rr_filter = Some (json_of_map (ro_filter d)), rr_expires_at = fst (route_expiry cfg now d),
      rr_priority = 0, rr_reason = ro_reason d, rr_source = ce_id ev, rr_created_at = now\<rparr>"

definition route_handle :: reply_handler_fun where
  "route_handle cfg w now ev entry sub =
     (case entry of
        None \<Rightarrow> (Some NilEntry, w)
      | Some en \<Rightarrow>
          guarded w now ev en sub [(\<not> cfg_trust_elevated cfg, ''trust_flag_required'')]
          (case decode_route (ce_data ev) of
             None \<Rightarrow> reject w now ev en sub ''malformed_data''
           | Some d \<Rightarrow>
               let ch = channels_get w (ro_target d);
                   i = effective_alert_id (en_alert en) (ro_alert d) in
               guarded w now ev en sub
                 [(cross_alert en (ro_alert d), ''cross_alert''),
                  (not_alert_scoped en, ''alert_scope_required''),
                  (ro_target d = [], ''missing_target''),
                  (\<not> within_runes (ro_reason d) max_reason_chars, ''field_too_long''),
                  (ro_filter d = [], ''empty_match_filter''),
                  (\<not> match_filter_ok (ro_filter d), ''filter_invalid''),
                  (isl ch, ''unknown_target_channel''),
                  (foreign en ch ch_org, ''cross_org_target''),
                  (case ch of Inr c \<Rightarrow> \<not> ch_enabled c | Inl _ \<Rightarrow> False, ''target_channel_disabled''),
                  (fst (ro_expires_at d) = zero_time \<or> \<not> now < fst (ro_expires_at d), ''expires_not_future'')]
               (with_alert w now ev en sub i (\<lambda>_.
                 let u = fst (new_uuid w); row = route_row cfg now ev en u d in
                 case routing_create (snd (new_uuid w)) now row of
                   (Some _, w1) \<Rightarrow> handler_failed w1 now ev en sub ''create_routing_rule'' AuditEmpty
                 | (None, w1) \<Rightarrow>
                     let w2 = (if i \<noteq> [] then snd (insert_timeline_event w1 now i EventRouted
                            (JObj [(''expires_at'', JStr (format_rfc3339_nano (route_expiry cfg now d))),
                                   (''reason'', JStr (ro_reason d)), (''routing_rule_id'', JStr u),
                                   (''sub'', JStr sub), (''target_channel_id'', JStr (ro_target d))]))
                           else w1)
                     in accept w2 now ev en sub AuditEmpty (AuditRouting row)))))"

section \<open>reply.alert.status\_page.v1\<close>

record status_page_data =
  pg_alert :: string
  pg_provider :: string
  pg_url :: string
  pg_message :: string
  pg_updated_at :: zoned_time

definition decode_status_page :: "raw_json \<Rightarrow> status_page_data option" where
  "decode_status_page = unmarshal (\<lambda>kvs.
     case (get_string ''alert_id'' kvs, get_string ''provider'' kvs, get_string ''url'' kvs,
           get_string ''public_message'' kvs, get_time ''updated_at'' kvs) of
       (Some a, Some p, Some u, Some m, Some t) \<Rightarrow>
         Some \<lparr>pg_alert = a, pg_provider = p, pg_url = u, pg_message = m, pg_updated_at = t\<rparr>
     | _ \<Rightarrow> None)"

definition allowed_status_page_providers :: "string list" where
  "allowed_status_page_providers =
     [''statuspage_io'', ''cachet'', ''instatus'', ''atlassian_sb'', ''incidentio'', ''statusgator'',
      ''better_uptime'', ''openstatus'', ''yipyap_internal'', ''other'']"

definition status_page_row :: "gotime \<Rightarrow> ce_event \<Rightarrow> string \<Rightarrow> string \<Rightarrow> status_page_data \<Rightarrow> alert_status_page_ref" where
  "status_page_row now ev u i d =
     \<lparr>sp_id = u, sp_alert = i, sp_provider = pg_provider d, sp_url = pg_url d,
      sp_message = truncate_utf8_runes (pg_message d) max_status_page_message_bytes,
      sp_updated_at = (if fst (pg_updated_at d) = zero_time then now else fst (pg_updated_at d)),
      sp_source = ce_id ev\<rparr>"

definition status_page_handle :: "url_parser \<Rightarrow> reply_handler_fun" where
  "status_page_handle url_parse cfg w now ev entry sub =
     (case entry of
        None \<Rightarrow> (Some NilEntry, w)
      | Some en \<Rightarrow>
          (case decode_status_page (ce_data ev) of
             None \<Rightarrow> reject w now ev en sub ''malformed_data''
           | Some d \<Rightarrow>
               let i = effective_alert_id (en_alert en) (pg_alert d) in
               guarded w now ev en sub
                 [(cross_alert en (pg_alert d), ''cross_alert''),
                  (not_alert_scoped en, ''alert_scope_required''),
                  (pg_provider d \<notin> set allowed_status_page_providers, ''invalid_provider''),
                  (\<not> reply_url_ok url_parse (pg_url d), ''url_scheme''),
                  (i = [], ''missing_alert_id'')]
               (with_alert w now ev en sub i (\<lambda>_.
                 let u = fst (new_uuid w); row = status_page_row now ev u i d in
                 case pages_create (snd (new_uuid w)) row of
                   (Some _, w1) \<Rightarrow> handler_failed w1 now ev en sub ''create_status_page_ref'' AuditEmpty
                 | (None, w1) \<Rightarrow>
                     let w2 = snd (insert_timeline_event w1 now i EventStatusPageSynced
                            (JObj [(''actor'', JStr (effective_actor ev sub)),
                                   (''provider'', JStr (pg_provider d)), (''ref_id'', JStr u),
                                   (''sub'', JStr sub), (''url'', JStr (pg_url d))]))
                     in accept w2 now ev en sub AuditEmpty (AuditPage row)))))"

section \<open>reply.monitor.deregister.v1\<close>

record deregister_data =
  dg_monitor :: string
  dg_reason :: string

text \<open>The data's \<open>alert\_id\<close> is decoded and not used.\<close>

definition decode_deregister :: "raw_json \<Rightarrow> deregister_data option" where
  "decode_deregister = unmarshal (\<lambda>kvs.
     case (get_string ''alert_id'' kvs, get_string ''monitor_id'' kvs, get_string ''reason'' kvs) of
       (Some _, Some m, Some r) \<Rightarrow> Some \<lparr>dg_monitor = m, dg_reason = r\<rparr>
     | _ \<Rightarrow> None)"

definition min_deregister_reason :: nat where
  "min_deregister_reason = 16"

definition deregister_handle :: reply_handler_fun where
  "deregister_handle cfg w now ev entry sub =
     (case entry of
        None \<Rightarrow> (Some NilEntry, w)
      | Some en \<Rightarrow>
          guarded w now ev en sub
            [(\<not> cfg_trust_elevated cfg \<or> \<not> cfg_allow_deregister cfg, ''trust_flag_required'')]
          (case decode_deregister (ce_data ev) of
             None \<Rightarrow> reject w now ev en sub ''malformed_data''
           | Some d \<Rightarrow>
               let m = monitors_get w (dg_monitor d) in
               guarded w now ev en sub
                 [(dg_monitor d = [], ''missing_monitor_id''),
                  (en_monitor en \<noteq> [] \<and> en_monitor en \<noteq> dg_monitor d, ''cross_monitor''),
                  (\<not> within_runes (dg_reason d) max_reason_chars, ''field_too_long''),
                  (length (trim_space (dg_reason d)) < min_deregister_reason, ''reason_too_short''),
                  (isl m, ''unknown_monitor''),
                  (foreign en m mon_org, ''cross_org_monitor'')]
               (case monitors_disable w now (dg_monitor d) of
                  (Some _, w1) \<Rightarrow> handler_failed w1 now ev en sub ''disable'' (AuditMonitor (projr m))
                | (None, w1) \<Rightarrow>
                    accept w1 now ev en sub (AuditMonitor (projr m))
                      (case monitors_get w1 (dg_monitor d) of
                         Inl _ \<Rightarrow> AuditEmpty | Inr m1 \<Rightarrow> AuditMonitor m1))))"

section \<open>The contract\<close>

interpretation route: alert_reply_handler route_handle
proof
  show "within_contract en w (route_handle cfg w now ev (Some en) sub)" for cfg w now ev en sub
    unfolding route_handle_def option.case Let_def
    by (auto split: option.split intro!: reply_contracts
        contract_write [where f = "\<lambda>w. routing_create w now _"] intro: tables_keeps scope_intro
        simp: scoped_alert_id route_row_def split: if_split_asm)
qed (simp add: route_handle_def)

interpretation status_page: alert_reply_handler "status_page_handle url_parse" for url_parse
proof
  show "within_contract en w (status_page_handle url_parse cfg w now ev (Some en) sub)"
    for cfg w now ev en sub
    unfolding status_page_handle_def option.case Let_def
    by (auto split: option.split intro!: reply_contracts
        contract_write [where f = "\<lambda>w. pages_create w _"] intro: tables_keeps scope_intro
        simp: scoped_alert_id status_page_row_def split: if_split_asm)
qed (simp add: status_page_handle_def)

end
