(* ===== verification/Glob.thy ===== *)
theory Glob imports Utf8 begin

text \<open>
  \<open>path.Match\<close> and the predicate built on it, \<open>MatchAnyGlob\<close>
  (\<open>internal/cloudevents/match.go\<close>), which decides which reply and event types a channel has
  opted in to. The matcher works chunk by chunk, as Go's does: a chunk is what stands between two
  stars, and the first place where it matches is taken.
\<close>

section \<open>Runes\<close>

definition rune_width :: "string \<Rightarrow> nat" where
  "rune_width s = (if s = [] then 0 else max 1 (rune_len s))"

text \<open>The code point of the first rune, \<open>U+FFFD\<close> for an invalid byte.\<close>

definition rune_code :: "string \<Rightarrow> int" where
  "rune_code s =
     (let b = byte_at s in
      if rune_len s = 1 then b 0
      else if rune_len s = 2 then 64 * (b 0 - 192) + (b 1 - 128)
      else if rune_len s = 3 then 4096 * (b 0 - 224) + 64 * (b 1 - 128) + (b 2 - 128)
      else if rune_len s = 4 then 262144 * (b 0 - 240) + 4096 * (b 1 - 128) + 64 * (b 2 - 128) + (b 3 - 128)
      else 65533)"

section \<open>Chunks\<close>

text \<open>
  The items of a chunk. A class is its negation flag and its ranges; \<open>None\<close> for a malformed
  pattern.
\<close>

datatype glob_item = GChar char | GAny | GClass bool "(int \<times> int) list"

definition get_esc :: "string \<Rightarrow> (int \<times> string) option" where
  "get_esc p =
     (case p of
        [] \<Rightarrow> None
      | c # cs \<Rightarrow>
          if c = CHR ''-'' \<or> c = CHR '']'' then None
          else
            let q = (if c = CHR 0x5C then cs else p);
                rest = drop (rune_width q) q
            in if q = [] \<or> rune_len q = 0 \<or> rest = [] then None else Some (rune_code q, rest))"

lemma get_esc_shorter: "get_esc p = Some (r, rest) \<Longrightarrow> length rest < length p"
  by (auto simp: get_esc_def rune_width_def Let_def split: list.splits if_splits)

text \<open>The ranges up to the closing bracket; at least one.\<close>

function class_ranges :: "string \<Rightarrow> nat \<Rightarrow> ((int \<times> int) list \<times> string) option" where
  "class_ranges p n =
     (if 0 < n \<and> p \<noteq> [] \<and> hd p = CHR '']'' then Some ([], tl p)
      else case get_esc p of
             None \<Rightarrow> None
           | Some (lo, p1) \<Rightarrow>
               if hd p1 = CHR ''-'' then
                 (case get_esc (tl p1) of
                    None \<Rightarrow> None
                  | Some (hi, p2) \<Rightarrow> map_option (\<lambda>x. ((lo, hi) # fst x, snd x)) (class_ranges p2 (Suc n)))
               else map_option (\<lambda>x. ((lo, lo) # fst x, snd x)) (class_ranges p1 (Suc n)))"
  by pat_completeness auto
termination
proof (relation "measure (\<lambda>(p, n). length p)", goal_cases)
  case (2 p n x lo p1 y hi p2)
  then have "length p1 < length p" "length p2 < length (tl p1)" by (auto dest: get_esc_shorter)
  then show ?case by simp
next
  case (3 p n x lo p1)
  then show ?case by (auto dest: get_esc_shorter)
qed simp

declare class_ranges.simps [simp del]

lemma class_ranges_shorter:
  "class_ranges p n = Some (rs, rest) \<Longrightarrow> length rest < length p"
proof (induction p n arbitrary: rs rest rule: class_ranges.induct)
  case (1 p n)
  show ?case
  proof (cases "0 < n \<and> p \<noteq> [] \<and> hd p = CHR '']''")
    case True
    with 1(3) show ?thesis by (auto simp: class_ranges.simps [of p n])
  next
    case False
    then obtain lo p1 where e: "get_esc p = Some (lo, p1)"
      using 1(3) by (cases "get_esc p") (auto simp: class_ranges.simps [of p n])
    note l1 = get_esc_shorter [OF e]
    show ?thesis
    proof (cases "hd p1 = CHR ''-''")
      case True
      then obtain hi p2 rs' where h: "get_esc (tl p1) = Some (hi, p2)"
          and c: "class_ranges p2 (Suc n) = Some (rs', rest)"
        using 1(3) False e by (cases "get_esc (tl p1)") (auto simp: class_ranges.simps [of p n])
      from get_esc_shorter [OF h] l1 have "length p2 < length p" by simp
      with 1(1) [OF False e refl True h refl c] show ?thesis by simp
    next
      case ne: False
      then obtain rs' where c: "class_ranges p1 (Suc n) = Some (rs', rest)"
        using 1(3) False e by (auto simp: class_ranges.simps [of p n])
      from 1(2) [OF False e refl ne c] l1 show ?thesis by simp
    qed
  qed
qed

text \<open>The items of a chunk: up to the next star outside a class, or the end.\<close>

function glob_items :: "string \<Rightarrow> (glob_item list \<times> string) option" where
  "glob_items p =
     (case p of
        [] \<Rightarrow> Some ([], [])
      | c # cs \<Rightarrow>
          if c = CHR ''*'' then Some ([], p)
          else if c = CHR ''['' then
            (let negated = (cs \<noteq> [] \<and> hd cs = CHR 0x5E);
                 q = (if negated then tl cs else cs)
             in case class_ranges q 0 of
                  None \<Rightarrow> None
                | Some (rs, rest) \<Rightarrow> map_option (\<lambda>x. (GClass negated rs # fst x, snd x)) (glob_items rest))
          else if c = CHR ''?'' then map_option (\<lambda>x. (GAny # fst x, snd x)) (glob_items cs)
          else if c = CHR 0x5C then
            (case cs of
               [] \<Rightarrow> None
             | d # ds \<Rightarrow> map_option (\<lambda>x. (GChar d # fst x, snd x)) (glob_items ds))
          else map_option (\<lambda>x. (GChar c # fst x, snd x)) (glob_items cs))"
  by pat_completeness auto
termination
proof (relation "measure length", goal_cases)
  case (2 p c cs x xa x2 rs rest)
  then have "length rest < length xa" using class_ranges_shorter by metis
  moreover have "length xa \<le> length cs" using 2 by simp
  ultimately show ?case using 2 by simp
qed auto

declare glob_items.simps [simp del]

lemma glob_items_shorter:
  "glob_items p = Some (items, rest) \<Longrightarrow>
   length rest \<le> length p \<and> (p \<noteq> [] \<and> hd p \<noteq> CHR ''*'' \<longrightarrow> length rest < length p)"
proof (induction p arbitrary: items rest rule: glob_items.induct)
  case (1 p)
  show ?case
  proof (cases p)
    case Nil
    with 1(5) show ?thesis by (simp add: glob_items.simps [of "[]"])
  next
    case (Cons c cs)
    consider "c = CHR ''*''" | "c = CHR ''[''" | "c = CHR ''?''" | "c = CHR 0x5C"
      | "c \<noteq> CHR ''*''" "c \<noteq> CHR ''[''" "c \<noteq> CHR ''?''" "c \<noteq> CHR 0x5C"
      by blast
    then show ?thesis
    proof cases
      case 1
      with \<open>glob_items p = Some (items, rest)\<close> Cons show ?thesis
        by (auto simp: glob_items.simps [of "_ # cs"])
    next
      case 2
      let ?neg = "cs \<noteq> [] \<and> hd cs = CHR 0x5E"
      let ?q = "if ?neg then tl cs else cs"
      obtain rs mid where r: "class_ranges ?q 0 = Some (rs, mid)"
        using 1(5) Cons 2 by (cases "class_ranges ?q 0") (auto simp: glob_items.simps [of "_ # cs"] Let_def)
      obtain items' where g: "glob_items mid = Some (items', rest)"
        using 1(5) Cons 2 r by (auto simp: glob_items.simps [of "_ # cs"] Let_def)
      have "length mid < length ?q" by (rule class_ranges_shorter [OF r])
      then have "length mid < length p" using Cons by (simp split: if_splits)
      then show ?thesis using 1(1) [OF Cons _ 2 refl refl r refl g] 2 by simp
    next
      case 3
      then obtain items' where g: "glob_items cs = Some (items', rest)"
        using 1(5) Cons by (auto simp: glob_items.simps [of "_ # cs"])
      then show ?thesis using 1(2) [OF Cons _ _ 3 g] 3 Cons by simp
    next
      case 4
      then obtain d ds items' where g: "cs = d # ds" "glob_items ds = Some (items', rest)"
        using 1(5) Cons by (cases cs) (auto simp: glob_items.simps [of "CHR 0x5C # _"])
      then show ?thesis using 1(3) [OF Cons _ _ _ 4 g] 4 Cons by simp
    next
      case 5
      then obtain items' where g: "glob_items cs = Some (items', rest)"
        using 1(5) Cons by (auto simp: glob_items.simps [of "_ # cs"])
      then show ?thesis using 1(4) [OF Cons 5 g] Cons by simp
    qed
  qed
qed

text \<open>The chunks of a pattern, each with whether a star stands before it.\<close>

type_synonym glob_chunk = "bool \<times> glob_item list"

function glob_chunks :: "string \<Rightarrow> glob_chunk list option" where
  "glob_chunks p =
     (if p = [] then Some []
      else case glob_items (dropWhile (\<lambda>c. c = CHR ''*'') p) of
             None \<Rightarrow> None
           | Some (items, rest) \<Rightarrow> map_option ((#) (hd p = CHR ''*'', items)) (glob_chunks rest))"
  by pat_completeness auto
termination
proof (relation "measure length", goal_cases)
  case (2 p x items rest)
  let ?q = "dropWhile (\<lambda>c. c = CHR ''*'') p"
  have l: "length rest \<le> length ?q" "?q \<noteq> [] \<and> hd ?q \<noteq> CHR ''*'' \<longrightarrow> length rest < length ?q"
    using glob_items_shorter 2 by metis+
  show ?case
  proof (cases "hd p = CHR ''*''")
    case True
    then have "length ?q < length p" using 2(1) by (cases p) (auto intro: le_imp_less_Suc length_dropWhile_le)
    with l show ?thesis by simp
  next
    case False
    then have "?q = p" using 2(1) by (cases p) auto
    with l False 2(1) show ?thesis by simp
  qed
qed simp

declare glob_chunks.simps [simp del]

section \<open>Matching\<close>

definition in_ranges :: "int \<Rightarrow> (int \<times> int) list \<Rightarrow> bool" where
  "in_ranges r rs \<longleftrightarrow> list_ex (\<lambda>x. fst x \<le> r \<and> r \<le> snd x) rs"

text \<open>\<open>matchChunk\<close>: the rest of the name when the chunk matches at its start.\<close>

fun match_chunk :: "glob_item list \<Rightarrow> string \<Rightarrow> string option" where
  "match_chunk [] s = Some s"
| "match_chunk (it # items) s =
     (if s = [] then None
      else case it of
             GChar c \<Rightarrow> if c = hd s then match_chunk items (tl s) else None
           | GAny \<Rightarrow> if hd s = CHR ''/'' then None else match_chunk items (drop (rune_width s) s)
           | GClass negated rs \<Rightarrow>
               if in_ranges (rune_code s) rs = negated then None
               else match_chunk items (drop (rune_width s) s))"

text \<open>The loop that lets a star take one more byte, never a slash.\<close>

fun glob_skip :: "glob_item list \<Rightarrow> bool \<Rightarrow> string \<Rightarrow> string option" where
  "glob_skip items is_last [] = None"
| "glob_skip items is_last (c # cs) =
     (if c = CHR ''/'' then None
      else case match_chunk items cs of
             None \<Rightarrow> glob_skip items is_last cs
           | Some t \<Rightarrow> if is_last \<and> t \<noteq> [] then glob_skip items is_last cs else Some t)"

fun glob_run :: "glob_chunk list \<Rightarrow> string \<Rightarrow> bool" where
  "glob_run [] name = (name = [])"
| "glob_run (chunk # chunks) name =
     (if fst chunk \<and> snd chunk = [] then CHR ''/'' \<notin> set name
      else
        let at_start = (case match_chunk (snd chunk) name of
                          Some t \<Rightarrow> if t = [] \<or> chunks \<noteq> [] then Some t else None
                        | None \<Rightarrow> None)
        in case at_start of
             Some t \<Rightarrow> glob_run chunks t
           | None \<Rightarrow>
               if fst chunk then
                 (case glob_skip (snd chunk) (chunks = []) name of
                    Some t \<Rightarrow> glob_run chunks t
                  | None \<Rightarrow> False)
               else False)"

definition path_match :: "string \<Rightarrow> string \<Rightarrow> bool option" where
  "path_match p name = map_option (\<lambda>chunks. glob_run chunks name) (glob_chunks p)"

definition match_any_glob :: "string \<Rightarrow> string list \<Rightarrow> bool" where
  "match_any_glob s patterns \<longleftrightarrow> list_ex (\<lambda>p. path_match p s = Some True) patterns"

section \<open>Plain patterns\<close>

definition plain :: "string \<Rightarrow> bool" where
  "plain p \<longleftrightarrow> (\<forall>c \<in> set p. c \<notin> {CHR ''*'', CHR ''?'', CHR ''['', CHR 0x5C})"

lemma glob_items_plain:
  "plain p \<Longrightarrow> rest = [] \<or> hd rest = CHR ''*'' \<Longrightarrow> glob_items (p @ rest) = Some (map GChar p, rest)"
proof (induction p)
  case Nil
  then show ?case by (cases rest) (auto simp: glob_items.simps)
next
  case (Cons c cs)
  then have "glob_items (cs @ rest) = Some (map GChar cs, rest)" by (simp add: plain_def)
  with Cons.prems(1) show ?case by (simp add: glob_items.simps [of "c # cs @ rest"] plain_def)
qed

lemma drop_stars_plain: "plain p \<Longrightarrow> p \<noteq> [] \<Longrightarrow> dropWhile (\<lambda>c. c = CHR ''*'') (p @ rest) = p @ rest"
  by (cases p) (auto simp: plain_def)

lemma glob_chunks_plain:
  assumes "plain p" "p \<noteq> []"
  shows "glob_chunks p = Some [(False, map GChar p)]"
    and "glob_chunks (p @ ''*'') = Some [(False, map GChar p), (True, [])]"
proof -
  have h: "hd (p @ r) \<noteq> CHR ''*''" for r using assms by (cases p) (auto simp: plain_def)
  have "glob_chunks [] = Some []" by (simp add: glob_chunks.simps)
  then show "glob_chunks p = Some [(False, map GChar p)]"
    using glob_items_plain [OF assms(1), of "[]"] drop_stars_plain [OF assms, of "[]"] assms(2) h [of "[]"]
    by (simp add: glob_chunks.simps [of p])
  have "glob_items [] = Some ([], [])" by (simp add: glob_items.simps)
  then have star: "glob_chunks ''*'' = Some [(True, [])]"
    using \<open>glob_chunks [] = Some []\<close> by (simp add: glob_chunks.simps [of "''*''"])
  show "glob_chunks (p @ ''*'') = Some [(False, map GChar p), (True, [])]"
    using glob_items_plain [OF assms(1), of "''*''"] drop_stars_plain [OF assms, of "''*''"] h [of "''*''"] star
    by (simp add: glob_chunks.simps [of "p @ ''*''"])
qed

lemma match_chunk_plain:
  "match_chunk (map GChar p) s = (if prefix p s then Some (drop (length p) s) else None)"
  by (induction p arbitrary: s) (auto simp: prefix_Cons neq_Nil_conv)

text \<open>
  MatchAnyGlob on the patterns operators write: a non-empty pattern without special characters
  matches exactly its own text, and one followed by a star matches exactly the strings that extend it
  without a slash; a channel whose list is empty matches nothing.
\<close>
theorem opt_in_patterns:
  assumes "plain p" "p \<noteq> []"
  shows "(match_any_glob s [p] \<longleftrightarrow> s = p)
     \<and> (match_any_glob s [p @ ''*''] \<longleftrightarrow> (\<exists>t. s = p @ t \<and> CHR ''/'' \<notin> set t))
     \<and> \<not> match_any_glob s []"
  using glob_chunks_plain [OF assms]
  by (auto simp: match_any_glob_def path_match_def match_chunk_plain prefix_def Let_def)

theorem opt_in_patterns_witness:
  "match_any_glob ''run.yipyap.reply.alert.claimed.v1'' [''run.yipyap.reply.'' @ ''*'']"
  using opt_in_patterns [of "''run.yipyap.reply.''" "''run.yipyap.reply.alert.claimed.v1''"]
  by (simp add: plain_def)

end
