(* ===== verification/ReplyDispatcher.thy ===== *)
theory ReplyDispatcher imports ReplyRemediation ReplyRouting RateLimiter Glob begin

text \<open>
  The reply dispatcher (\<open>internal/cloudevents/reply/dispatcher.go\<close>, wired as in
  \<open>cmd/yipyap/main.go\<close> and \<open>handlers/register.go\<close>): an inbound reply passes the gates
  in the code's order, and only then reaches the handler of its type.
\<close>

section \<open>State\<close>

record dispatcher =
  dsp_registry :: memory_registry
  dsp_handlers :: "string \<Rightarrow> reply_handler_fun option"
  dsp_limiter :: "bucket lru"
  dsp_alertref_ttl :: int
  dsp_reject_audit :: bool

datatype dispatch_error =
    ErrNoAlertref | ErrUnknownAlertref | ErrAlertrefExpired | ErrOrgMismatch | ErrChannelMismatch
  | ErrUnknownType | ErrTrustFlagRequired | ErrRateLimited | ErrHandler reply_error

definition new_dispatcher :: "memory_registry \<Rightarrow> bool \<Rightarrow> dispatcher" where
  "new_dispatcher reg audit =
     \<lparr>dsp_registry = reg, dsp_handlers = (\<lambda>_. None), dsp_limiter = lru_new,
      dsp_alertref_ttl = 24 * 3600 * second, dsp_reject_audit = audit\<rparr>"

definition dsp_register :: "dispatcher \<Rightarrow> string \<times> reply_handler_fun \<Rightarrow> dispatcher" where
  "dsp_register d th =
     (if fst th = [] then d else d\<lparr>dsp_handlers := (dsp_handlers d)(fst th := Some (snd th))\<rparr>)"

section \<open>Handlers and trust flags\<close>

definition all_handlers :: "url_parser \<Rightarrow> (string \<times> reply_handler_fun) list" where
  "all_handlers url_parse =
     [(''run.yipyap.reply.alert.claimed.v1'', claimed_handle),
      (''run.yipyap.reply.alert.enriched.v1'', enriched_handle url_parse),
      (''run.yipyap.reply.alert.linked.v1'', linked_handle url_parse),
      (''run.yipyap.reply.alert.suppressed.v1'', suppressed_handle),
      (''run.yipyap.reply.alert.deduplicated.v1'', deduplicated_handle),
      (''run.yipyap.reply.alert.escalated.v1'', escalated_handle),
      (''run.yipyap.reply.alert.remediation_started.v1'', remediation_started_handle),
      (''run.yipyap.reply.alert.remediation_result.v1'', remediation_result_handle url_parse),
      (''run.yipyap.reply.alert.ownership.v1'', ownership_handle),
      (''run.yipyap.reply.alert.ack_with_context.v1'', ack_with_context_handle),
      (''run.yipyap.reply.alert.route.v1'', route_handle),
      (''run.yipyap.reply.alert.status_page.v1'', status_page_handle url_parse),
      (''run.yipyap.reply.monitor.deregister.v1'', deregister_handle)]"

definition register_all :: "url_parser \<Rightarrow> dispatcher \<Rightarrow> dispatcher" where
  "register_all url_parse d = foldl dsp_register d (all_handlers url_parse)"

record trust_requirement =
  require_trust :: bool
  require_deregister :: bool

definition trust_required_reply_types :: "(string \<times> trust_requirement) list" where
  "trust_required_reply_types =
     [(''run.yipyap.reply.alert.ack_with_context.v1'', \<lparr>require_trust = True, require_deregister = False\<rparr>),
      (''run.yipyap.reply.alert.suppressed.v1'', \<lparr>require_trust = True, require_deregister = False\<rparr>),
      (''run.yipyap.reply.alert.ownership.v1'', \<lparr>require_trust = True, require_deregister = False\<rparr>),
      (''run.yipyap.reply.alert.remediation_started.v1'', \<lparr>require_trust = True, require_deregister = False\<rparr>),
      (''run.yipyap.reply.alert.remediation_result.v1'', \<lparr>require_trust = True, require_deregister = False\<rparr>),
      (''run.yipyap.reply.alert.status_page.v1'', \<lparr>require_trust = True, require_deregister = False\<rparr>),
      (''run.yipyap.reply.alert.escalated.v1'', \<lparr>require_trust = True, require_deregister = False\<rparr>),
      (''run.yipyap.reply.alert.route.v1'', \<lparr>require_trust = True, require_deregister = False\<rparr>),
      (''run.yipyap.reply.monitor.deregister.v1'', \<lparr>require_trust = True, require_deregister = True\<rparr>)]"

definition trust_missing :: "dispatcher_config \<Rightarrow> string \<Rightarrow> bool" where
  "trust_missing cfg ty =
     (case map_of trust_required_reply_types ty of
        None \<Rightarrow> False
      | Some req \<Rightarrow>
          require_trust req \<and> \<not> cfg_trust_elevated cfg
          \<or> require_deregister req \<and> \<not> cfg_allow_deregister cfg)"

section \<open>The alertref\<close>

definition string_ext :: "extension \<Rightarrow> string option" where
  "string_ext x =
     (case x of ExtString s \<Rightarrow> Some s | ExtStringer s \<Rightarrow> Some s | ExtNil \<Rightarrow> None | ExtOther s \<Rightarrow> Some s)"

fun first_ext :: "ce_event \<Rightarrow> string list \<Rightarrow> string" where
  "first_ext ev [] = []"
| "first_ext ev (k # ks) =
     (case ce_extensions ev k of
        None \<Rightarrow> first_ext ev ks
      | Some x \<Rightarrow> (case string_ext x of
                     None \<Rightarrow> first_ext ev ks
                   | Some s \<Rightarrow> if s \<noteq> [] then s else first_ext ev ks))"

definition extract_alertref :: "ce_event \<Rightarrow> string" where
  "extract_alertref ev = first_ext ev [''alertref'', ''ce_alertref'', ''cealertref'']"

section \<open>Rejections\<close>

text \<open>The callback \<open>main.go\<close> installs writes a row of the reply audit log.\<close>

definition write_reject_audit ::
  "world \<Rightarrow> gotime \<Rightarrow> ce_event \<Rightarrow> string \<Rightarrow> string \<Rightarrow> string \<Rightarrow> string \<Rightarrow> string \<Rightarrow> world" where
  "write_reject_audit w now ev org channel alert_id monitor outcome =
     snd (audit_write w now
       \<lparr>au_reply = ce_id ev, au_type = ce_type ev, au_source = ce_source ev, au_sub = [],
        au_alert = alert_id, au_monitor = monitor, au_org = org, au_channel = channel,
        au_outcome = outcome, au_before = AuditEmpty, au_after = AuditEmpty, au_received_at = now\<rparr>)"

definition audit_reject ::
  "dispatcher \<Rightarrow> world \<Rightarrow> gotime \<Rightarrow> ce_event \<Rightarrow> entry \<Rightarrow> string \<Rightarrow> string \<Rightarrow> string \<Rightarrow> world" where
  "audit_reject d w now ev en expected_org expected_channel outcome =
     (if \<not> dsp_reject_audit d then w
      else
        let org = (if outcome = ''rejected:org_mismatch'' \<and> expected_org \<noteq> [] then expected_org
                   else en_org en);
            channel = (if expected_channel \<noteq> [] \<and> en_channel en = [] then expected_channel
                       else en_channel en)
        in write_reject_audit w now ev org channel (en_alert en) (en_monitor en) outcome)"

section \<open>Dispatch\<close>

text \<open>
  The gates after the lookup, in order: the first that fails, with its error and audit outcome
  (opting out has neither).
\<close>

datatype gate_result = GatePass | GateOptOut | GateFail dispatch_error string

definition dispatch_gates ::
  "dispatcher \<Rightarrow> gotime \<Rightarrow> ce_event \<Rightarrow> dispatcher_config \<Rightarrow> entry \<Rightarrow> string \<Rightarrow> string \<Rightarrow> gate_result" where
  "dispatch_gates d now ev cfg en expected_org expected_channel =
     (if 0 < dsp_alertref_ttl d \<and> dsp_alertref_ttl d < time_sub now (en_emitted en)
      then GateFail ErrAlertrefExpired ''rejected:alertref_expired''
      else if expected_org \<noteq> [] \<and> en_org en \<noteq> expected_org
      then GateFail ErrOrgMismatch ''rejected:org_mismatch''
      else if expected_channel \<noteq> [] \<and> en_channel en \<noteq> expected_channel
      then GateFail ErrChannelMismatch ''rejected:channel_mismatch''
      else if dsp_handlers d (ce_type ev) = None
      then GateFail ErrUnknownType ''rejected:unknown_type''
      else if \<not> match_any_glob (ce_type ev) (cfg_accepted cfg) then GateOptOut
      else if trust_missing cfg (ce_type ev)
      then GateFail ErrTrustFlagRequired ''rejected:trust_required''
      else GatePass)"

definition dispatch_core ::
  "dispatcher \<Rightarrow> world \<Rightarrow> gotime \<Rightarrow> ce_event \<Rightarrow> dispatcher_config \<Rightarrow> string \<Rightarrow> string \<Rightarrow> string \<Rightarrow>
   (bool \<times> dispatch_error option) \<times> dispatcher \<times> world" where
  "dispatch_core d w now ev cfg sub expected_org expected_channel =
     (let ref = extract_alertref ev in
      if ref = [] then ((False, Some ErrNoAlertref), d, w)
      else case reg_lookup (dsp_registry d) now ref of
        (None, reg) \<Rightarrow>
          ((False, Some ErrUnknownAlertref), d\<lparr>dsp_registry := reg\<rparr>,
           if expected_org \<noteq> [] \<and> dsp_reject_audit d
           then write_reject_audit w now ev expected_org expected_channel [] [] ''rejected:unknown_alertref''
           else w)
      | (Some en, reg) \<Rightarrow>
          let d1 = d\<lparr>dsp_registry := reg\<rparr> in
          case dispatch_gates d1 now ev cfg en expected_org expected_channel of
            GateFail e outcome \<Rightarrow>
              ((False, Some e), d1, audit_reject d1 w now ev en expected_org expected_channel outcome)
          | GateOptOut \<Rightarrow> ((False, None), d1, w)
          | GatePass \<Rightarrow>
              (case rl_allow (dsp_limiter d1) now (en_org en) (ce_type ev) (cfg_rate_limit cfg) of
                 (False, lim) \<Rightarrow>
                   ((False, Some ErrRateLimited), d1\<lparr>dsp_limiter := lim\<rparr>,
                    audit_reject d1 w now ev en expected_org expected_channel ''rejected:rate_limited'')
               | (True, lim) \<Rightarrow>
                   (case the (dsp_handlers d1 (ce_type ev)) cfg w now ev (Some en) sub of
                      (Some e, w1) \<Rightarrow> ((False, Some (ErrHandler e)), d1\<lparr>dsp_limiter := lim\<rparr>, w1)
                    | (None, w1) \<Rightarrow> ((True, None), d1\<lparr>dsp_limiter := lim\<rparr>, w1))))"

definition dispatch ::
  "dispatcher \<Rightarrow> world \<Rightarrow> gotime \<Rightarrow> ce_event \<Rightarrow> dispatcher_config \<Rightarrow> string \<Rightarrow>
   (bool \<times> dispatch_error option) \<times> dispatcher \<times> world" where
  "dispatch d w now ev cfg sub = dispatch_core d w now ev cfg sub [] []"

definition dispatch_for_channel ::
  "dispatcher \<Rightarrow> world \<Rightarrow> gotime \<Rightarrow> ce_event \<Rightarrow> dispatcher_config \<Rightarrow> string \<Rightarrow> string \<Rightarrow> string \<Rightarrow>
   (bool \<times> dispatch_error option) \<times> dispatcher \<times> world" where
  "dispatch_for_channel d w now ev cfg expected_org expected_channel sub =
     dispatch_core d w now ev cfg sub expected_org expected_channel"

end
