(* ===== verification/ReplySafety.thy ===== *)
theory ReplySafety imports ReplyDispatcher begin

text \<open>
  What the reply layer promises as a whole: no handler runs unless every gate passed, a refusal
  changes nothing but the audit log, and a reply to an org's channel changes that org's rows only,
  whatever its data says.
\<close>

section \<open>The registered handlers\<close>

lemma register_all_handlers:
  "dsp_handlers (register_all url_parse d) ty =
     (case map_of (all_handlers url_parse) ty of Some h \<Rightarrow> Some h | None \<Rightarrow> dsp_handlers d ty)"
  by (simp add: register_all_def all_handlers_def dsp_register_def)

lemma registered_contract:
  assumes "map_of (all_handlers url_parse) ty = Some h"
  shows "alert_reply_handler h \<or> h = deregister_handle \<and> ty = ''run.yipyap.reply.monitor.deregister.v1''"
proof -
  have "(ty, h) \<in> set (all_handlers url_parse)" using assms by (rule map_of_SomeD)
  then show ?thesis
    using claimed.alert_reply_handler_axioms enriched.alert_reply_handler_axioms
      linked.alert_reply_handler_axioms suppressed.alert_reply_handler_axioms
      deduplicated.alert_reply_handler_axioms escalated.alert_reply_handler_axioms
      remediation_started.alert_reply_handler_axioms remediation_result.alert_reply_handler_axioms
      ownership.alert_reply_handler_axioms ack_with_context.alert_reply_handler_axioms
      route.alert_reply_handler_axioms status_page.alert_reply_handler_axioms
    unfolding all_handlers_def by (simp only: list.set insert_iff prod.inject empty_iff) blast
qed

section \<open>Deregistration\<close>

text \<open>Disabling one monitor and writing the audit log, nothing else.\<close>

definition disables_monitor :: "gotime \<Rightarrow> string \<Rightarrow> world \<Rightarrow> world \<Rightarrow> bool" where
  "disables_monitor now i w w' \<longleftrightarrow>
     w' = w\<lparr>w_monitors := update_where (\<lambda>m. mon_id m = i)
              (\<lambda>m. m\<lparr>mon_enabled := False, mon_updated_at := rfc3339 now\<rparr>) (w_monitors w),
            w_audit := w_audit w'\<rparr>"

lemma audit_only_reject: "audit_only w (snd (reject w now ev en sub reason))"
  by (simp add: reject_def)

lemma disables_monitor_then:
  assumes "disables_monitor now i w w1" and "audit_only w1 w2"
  shows "disables_monitor now i w w2"
proof -
  let ?ms = "update_where (\<lambda>m. mon_id m = i)
      (\<lambda>m. m\<lparr>mon_enabled := False, mon_updated_at := rfc3339 now\<rparr>) (w_monitors w)"
  have "w1 = w\<lparr>w_monitors := ?ms, w_audit := w_audit w1\<rparr>" using assms(1) by (simp add: disables_monitor_def)
  then obtain au where "w1 = w\<lparr>w_monitors := ?ms, w_audit := au\<rparr>" by blast
  then have "w1\<lparr>w_audit := w_audit w2\<rparr> = w\<lparr>w_monitors := ?ms, w_audit := w_audit w2\<rparr>" by simp
  moreover have "w2 = w1\<lparr>w_audit := w_audit w2\<rparr>" using assms(2) by (simp add: audit_only_def)
  ultimately show ?thesis unfolding disables_monitor_def by simp
qed

lemma disables_monitor_audit:
  "disables_monitor now i w w1 \<Longrightarrow> disables_monitor now i w (write_audit w1 now' ev en sub oc b a)"
  by (erule disables_monitor_then) simp

lemma monitors_disable_cases:
  "monitors_disable w now i = (r, w1) \<Longrightarrow> r \<noteq> None \<and> w1 = w \<or> r = None \<and> disables_monitor now i w w1"
  by (auto simp: monitors_disable_def disables_monitor_def split: if_splits)

lemma deregister_result:
  assumes "deregister_handle cfg w now ev (Some en) sub = (r, w')"
  shows "(r \<noteq> None \<and> audit_only w w')
     \<or> (r = None \<and> cfg_trust_elevated cfg \<and> cfg_allow_deregister cfg
        \<and> (\<exists>d m. decode_deregister (ce_data ev) = Some d \<and> monitors_get w (dg_monitor d) = Inr m
              \<and> (en_org en = [] \<or> mon_org m = en_org en)
              \<and> (en_monitor en = [] \<or> en_monitor en = dg_monitor d)
              \<and> min_deregister_reason \<le> length (trim_space (dg_reason d))
              \<and> disables_monitor now (dg_monitor d) w w'))"
proof (cases "cfg_trust_elevated cfg \<and> cfg_allow_deregister cfg")
  case False
  then have "r \<noteq> None \<and> audit_only w w'"
    using assms by (auto simp: deregister_handle_def guarded_def reject_def split: if_splits)
  then show ?thesis by blast
next
  case flags: True
  show ?thesis
  proof (cases "decode_deregister (ce_data ev)")
    case None
    then have "r \<noteq> None \<and> audit_only w w'"
      using assms flags by (auto simp: deregister_handle_def guarded_def reject_def)
    then show ?thesis by blast
  next
    case (Some d)
    let ?m = "monitors_get w (dg_monitor d)"
    let ?gs = "[(dg_monitor d = [], ''missing_monitor_id''),
                (en_monitor en \<noteq> [] \<and> en_monitor en \<noteq> dg_monitor d, ''cross_monitor''),
                (\<not> within_runes (dg_reason d) max_reason_chars, ''field_too_long''),
                (length (trim_space (dg_reason d)) < min_deregister_reason, ''reason_too_short''),
                (isl ?m, ''unknown_monitor''),
                (foreign en ?m mon_org, ''cross_org_monitor'')]"
    show ?thesis
    proof (cases "first_failure ?gs")
      case (Some reason)
      then have "(r, w') = reject w now ev en sub reason"
        using assms flags \<open>decode_deregister (ce_data ev) = Some d\<close>
        unfolding deregister_handle_def guarded_def by simp
      then have "r \<noteq> None \<and> audit_only w w'" by (auto simp: reject_def)
      then show ?thesis by blast
    next
      case None
      obtain r1 w1 where dis: "monitors_disable w now (dg_monitor d) = (r1, w1)" by fastforce
      have g: "en_monitor en = [] \<or> en_monitor en = dg_monitor d" "\<not> isl ?m"
          "\<not> foreign en ?m mon_org" "min_deregister_reason \<le> length (trim_space (dg_reason d))"
        using None by (simp_all split: if_splits)
      then obtain m where m: "?m = Inr m" by (cases ?m) auto
      have res: "(r, w') = (case (r1, w1) of
            (Some _, w1) \<Rightarrow> handler_failed w1 now ev en sub ''disable'' (AuditMonitor (projr ?m))
          | (None, w1) \<Rightarrow> accept w1 now ev en sub (AuditMonitor (projr ?m))
              (case monitors_get w1 (dg_monitor d) of Inl _ \<Rightarrow> AuditEmpty | Inr m1 \<Rightarrow> AuditMonitor m1))"
        using assms flags Some None dis unfolding deregister_handle_def guarded_def Let_def by simp
      show ?thesis
      proof (cases r1)
        case (Some e)
        then have "w1 = w" using monitors_disable_cases [OF dis] by simp
        then have "r \<noteq> None \<and> audit_only w w'" using res Some by (simp add: handler_failed_def)
        then show ?thesis by blast
      next
        case None
        then have "disables_monitor now (dg_monitor d) w w1" using monitors_disable_cases [OF dis] by simp
        then have "r = None \<and> disables_monitor now (dg_monitor d) w w'"
          using res None by (simp add: accept_def disables_monitor_audit)
        moreover have "en_org en = [] \<or> mon_org m = en_org en" using g(3) m by (simp add: foreign_def)
        ultimately show ?thesis using flags g(1,4) m \<open>decode_deregister (ce_data ev) = Some d\<close> by blast
      qed
    qed
  qed
qed

section \<open>What a dispatch can do\<close>

lemma audit_only_reject_audit [simp]: "audit_only w (write_reject_audit w now ev org ch a m oc)"
  by (auto simp: audit_only_def write_reject_audit_def audit_write_def)

lemma audit_only_audit_reject [simp]: "audit_only w (audit_reject d w now ev en eo ec oc)"
  by (simp add: audit_reject_def Let_def)

text \<open>Either a gate stopped the reply, or the handler of its type ran on the entry it names.\<close>

lemma dispatch_core_cases:
  assumes "dispatch_core d w now ev cfg sub eo ec = ((ok, err), d', w')"
  obtains
    (stopped) "\<not> ok" "\<forall>e. err \<noteq> Some (ErrHandler e)" "audit_only w w'"
      "err \<noteq> Some ErrRateLimited \<longrightarrow> dsp_limiter d' = dsp_limiter d" "err = None \<longrightarrow> w' = w"
      "dsp_handlers d' = dsp_handlers d"
  | (ran) en reg h res where
      "reg_lookup (dsp_registry d) now (extract_alertref ev) = (Some en, reg)"
      "dispatch_gates (d\<lparr>dsp_registry := reg\<rparr>) now ev cfg en eo ec = GatePass"
      "fst (rl_allow (dsp_limiter d) now (en_org en) (ce_type ev) (cfg_rate_limit cfg))"
      "dsp_handlers d (ce_type ev) = Some h"
      "h cfg w now ev (Some en) sub = (res, w')"
      "ok = (res = None)" "err = map_option ErrHandler res"
proof (cases "extract_alertref ev = []")
  case True
  then show thesis using assms by (intro stopped) (auto simp: dispatch_core_def)
next
  case ref: False
  show thesis
  proof (cases "reg_lookup (dsp_registry d) now (extract_alertref ev)")
    case lookup: (Pair found reg)
    show thesis
    proof (cases found)
      case None
      then show thesis
        using assms ref lookup by (intro stopped) (auto simp: dispatch_core_def Let_def)
    next
      case (Some en)
      let ?d1 = "d\<lparr>dsp_registry := reg\<rparr>"
      note core = assms [unfolded dispatch_core_def Let_def lookup Some]
      show thesis
      proof (cases "dispatch_gates ?d1 now ev cfg en eo ec")
        case (GateFail e oc)
        then have "e \<noteq> ErrHandler x" for x
          by (auto simp: dispatch_gates_def split: if_splits)
        then show thesis using core ref GateFail by (intro stopped) auto
      next
        case GateOptOut
        then show thesis using core ref by (intro stopped) auto
      next
        case GatePass
        obtain allowed lim where rl:
            "rl_allow (dsp_limiter d) now (en_org en) (ce_type ev) (cfg_rate_limit cfg) = (allowed, lim)"
          by fastforce
        show thesis
        proof (cases allowed)
          case False
          then show thesis using core ref GatePass rl by (intro stopped) auto
        next
          case True
          obtain h where h: "dsp_handlers d (ce_type ev) = Some h"
            using GatePass by (auto simp: dispatch_gates_def split: if_splits)
          obtain res w1 where run: "h cfg w now ev (Some en) sub = (res, w1)" by fastforce
          show thesis
            using core ref GatePass rl True h run lookup Some
            by (intro ran [of en reg h res]) (auto split: option.splits)
        qed
      qed
    qed
  qed
qed

section \<open>Isolation\<close>

text \<open>The rows of other orgs, and what the new rows refer to.\<close>

definition org_isolated :: "string \<Rightarrow> world \<Rightarrow> world \<Rightarrow> bool" where
  "org_isolated org w w' \<longleftrightarrow>
     (\<forall>r \<in> set (w_alerts w). al_org (row_alert r) \<noteq> org \<longrightarrow> r \<in> set (w_alerts w'))
   \<and> (\<forall>m \<in> set (w_monitors w). mon_org m \<noteq> org \<longrightarrow> m \<in> set (w_monitors w'))
   \<and> (\<forall>e \<in> set (w_events w'). e \<in> set (w_events w)
        \<or> (\<exists>r \<in> set (w_alerts w). al_id (row_alert r) = evt_alert e \<and> al_org (row_alert r) = org))
   \<and> (\<forall>x \<in> set (w_routing w'). x \<in> set (w_routing w) \<or> rr_org x = org)
   \<and> (\<forall>x \<in> set (w_suppressions w'). x \<in> set (w_suppressions w) \<or> sup_org x = org)
   \<and> w_channels w' = w_channels w \<and> w_users w' = w_users w \<and> w_esc w' = w_esc w"

lemma audit_only_isolated: "audit_only w w' \<Longrightarrow> org_isolated org w w'"
proof -
  assume "audit_only w w'"
  then obtain au where "w' = w\<lparr>w_audit := au\<rparr>" unfolding audit_only_def by blast
  then show ?thesis by (simp add: org_isolated_def)
qed

lemma in_scope_isolated:
  assumes "in_scope en w w'" and "en_org en = org" "org \<noteq> []"
  shows "org_isolated org w w'"
proof -
  have own: "owned en w" and same: "same_elsewhere w w'"
    and al: "filter (\<lambda>r. al_id (row_alert r) \<noteq> en_alert en) (w_alerts w') =
       filter (\<lambda>r. al_id (row_alert r) \<noteq> en_alert en) (w_alerts w)"
    using assms(1) by (simp_all add: in_scope_def)
  have alerts: "r \<in> set (w_alerts w')" if r: "r \<in> set (w_alerts w)" "al_org (row_alert r) \<noteq> org" for r
  proof -
    have "al_id (row_alert r) \<noteq> en_alert en" using own r assms(2,3) by (auto simp: owned_def)
    then have "r \<in> set (filter (\<lambda>r. al_id (row_alert r) \<noteq> en_alert en) (w_alerts w'))"
      unfolding al using r(1) by simp
    then show ?thesis by simp
  qed
  have target: "\<exists>r \<in> set (w_alerts w). al_id (row_alert r) = en_alert en \<and> al_org (row_alert r) = org"
    using own assms(2,3) unfolding owned_def has_alert_def by fastforce
  obtain es where es: "w_events w' = w_events w @ es" "\<forall>e \<in> set es. evt_alert e = en_alert en"
    using assms(1) by (auto simp: in_scope_def)
  have events: "e \<in> set (w_events w) \<or> (\<exists>r \<in> set (w_alerts w). al_id (row_alert r) = evt_alert e
      \<and> al_org (row_alert r) = org)" if "e \<in> set (w_events w')" for e
    using that es target by auto
  have "\<forall>x \<in> set (w_routing w'). x \<in> set (w_routing w) \<or> rr_org x = org"
    and "\<forall>x \<in> set (w_suppressions w'). x \<in> set (w_suppressions w) \<or> sup_org x = org"
    using assms by (auto simp: in_scope_def)
  with alerts events same show ?thesis by (simp add: org_isolated_def same_elsewhere_def)
qed

lemma disables_isolated:
  assumes "disables_monitor now i w w'" "monitors_get w i = Inr m" "mon_org m = org"
    and "distinct (map mon_id (w_monitors w))"
  shows "org_isolated org w w'"
proof -
  have m: "m \<in> set (w_monitors w)" "mon_id m = i"
    using assms(2) by (auto simp: monitors_get_def split: if_splits option.splits dest!: find_SomeD)
  have one: "x = m" if "x \<in> set (w_monitors w)" "mon_id x = i" for x
    using assms(4) m that by (auto simp: distinct_map inj_on_def)
  obtain au where w': "w' = w\<lparr>w_monitors := update_where (\<lambda>m. mon_id m = i)
       (\<lambda>m. m\<lparr>mon_enabled := False, mon_updated_at := rfc3339 now\<rparr>) (w_monitors w), w_audit := au\<rparr>"
    using assms(1) unfolding disables_monitor_def by blast
  have "x \<in> set (w_monitors w')" if "x \<in> set (w_monitors w)" "mon_org x \<noteq> org" for x
    using that one [of x] assms(3) by (auto simp: w' set_update_where)
  then show ?thesis by (simp add: org_isolated_def w')
qed

definition yipyap_dispatcher :: "url_parser \<Rightarrow> dispatcher \<Rightarrow> bool" where
  "yipyap_dispatcher url_parse d \<longleftrightarrow> dsp_handlers d = map_of (all_handlers url_parse)"

lemma yipyap_dispatcher_init: "yipyap_dispatcher url_parse (register_all url_parse (new_dispatcher reg audit))"
  by (auto simp: yipyap_dispatcher_def register_all_handlers new_dispatcher_def fun_eq_iff split: option.split)

lemma registered_result:
  assumes "yipyap_dispatcher url_parse d" "dsp_handlers d ty = Some h"
    and "h cfg w now ev (Some en) sub = (res, w')"
  shows "(\<forall>e. res = Some e \<and> refusal e \<longrightarrow> audit_only w w')
     \<and> (tables_ok w \<longrightarrow> audit_only w w' \<or> in_scope en w w'
          \<or> (\<exists>i m. disables_monitor now i w w' \<and> monitors_get w i = Inr m
                \<and> (en_org en = [] \<or> mon_org m = en_org en)))"
proof -
  have "alert_reply_handler h \<or> h = deregister_handle"
    using registered_contract [of url_parse ty h] assms(1,2) by (auto simp: yipyap_dispatcher_def)
  then show ?thesis
  proof
    assume "alert_reply_handler h"
    from alert_reply_handler.contract [OF this, of en w cfg now ev sub] show ?thesis
      by (auto simp: within_contract_def assms(3) split: option.splits)
  next
    assume "h = deregister_handle"
    with deregister_result [of cfg w now ev en sub res w'] assms(3) show ?thesis by blast
  qed
qed

lemma gate_pass_facts:
  assumes "dispatch_gates d now ev cfg en eo ec = GatePass"
  shows "dsp_alertref_ttl d \<le> 0 \<or> time_sub now (en_emitted en) \<le> dsp_alertref_ttl d"
    "eo = [] \<or> en_org en = eo" "ec = [] \<or> en_channel en = ec"
    "match_any_glob (ce_type ev) (cfg_accepted cfg)" "\<not> trust_missing cfg (ce_type ev)"
  using assms by (auto simp: dispatch_gates_def split: if_splits)


text \<open>
  C6: A handler runs only past every gate. If a dispatch is accepted, or a handler returned an error,
  then the alertref names the entry the registry last recorded under that id, the entry is within the
  TTL, it belongs to the expected org and channel (where these are given), the channel has opted in to
  the reply type, the trust flags the type requires are set (both for deregistration), and the rate
  limiter admitted the call.
\<close>
theorem handler_runs_only_past_every_gate:
  assumes "dispatch_core d w now ev cfg sub eo ec = ((ok, err), d', w')"
    and "ok \<or> (\<exists>e. err = Some (ErrHandler e))"
    and "dsp_registry d = foldl reg_step (new_memory_registry cap ttl) ops"
  shows "\<exists>en. last_recorded ops (extract_alertref ev) = Some en
     \<and> (ttl \<le> 0 \<or> time_sub now (en_emitted en) \<le> ttl)
     \<and> (dsp_alertref_ttl d \<le> 0 \<or> time_sub now (en_emitted en) \<le> dsp_alertref_ttl d)
     \<and> (eo = [] \<or> en_org en = eo) \<and> (ec = [] \<or> en_channel en = ec)
     \<and> match_any_glob (ce_type ev) (cfg_accepted cfg)
     \<and> \<not> trust_missing cfg (ce_type ev)
     \<and> fst (rl_allow (dsp_limiter d) now (en_org en) (ce_type ev) (cfg_rate_limit cfg))"
  using assms(1)
proof (cases rule: dispatch_core_cases)
  case stopped
  with assms(2) show ?thesis by blast
next
  case (ran en reg h r)
  let ?i = "extract_alertref ev"
  have l: "lru_ok en_event (reg_lru (dsp_registry d))"
    unfolding assms(3) using reg_run_ok [of cap ttl ops] by (simp add: reg_ok_def)
  have "last_recorded ops ?i = Some en"
    by (rule mem_run(2) [of cap ttl ops now]) (use ran(1) assms(3) in simp)
  moreover have "\<not> reg_expired (dsp_registry d) now en"
    using reg_lookup_abs [OF l, of now ?i] ran(1) by (auto split: option.splits if_splits)
  then have "ttl \<le> 0 \<or> time_sub now (en_emitted en) \<le> ttl"
    using reg_run_config [of cap ttl ops] by (auto simp: reg_expired_def assms(3))
  ultimately show ?thesis using ran(3) gate_pass_facts [OF ran(2)] by auto
qed

text \<open>
  C31: A refused reply changes nothing but the audit log. If a dispatch is not accepted, and not
  because a store call of the handler failed half way, then the database is unchanged except for
  audit rows; a reply stopped by a gate before the rate limiter (in particular for a missing trust
  flag) does not spend a slot of the org's budget, and an opted-out type leaves no trace at all.
\<close>
theorem refused_reply_changes_only_the_audit_log:
  assumes "yipyap_dispatcher url_parse d"
    and "dispatch_core d w now ev cfg sub eo ec = ((False, err), d', w')"
    and "\<forall>x. err \<noteq> Some (ErrHandler (HandlerFailed x))"
  shows "audit_only w w'
     \<and> (err \<noteq> Some ErrRateLimited \<and> (\<forall>e. err \<noteq> Some (ErrHandler e)) \<longrightarrow> dsp_limiter d' = dsp_limiter d)
     \<and> (err = None \<longrightarrow> w' = w)"
  using assms(2)
proof (cases rule: dispatch_core_cases)
  case stopped
  then show ?thesis by blast
next
  case (ran en reg h r)
  then obtain e where e: "r = Some e" "err = Some (ErrHandler e)" by auto
  with assms(3) have "refusal e" by (auto simp: refusal_def)
  with registered_result [OF assms(1) ran(4,5)] e show ?thesis by auto
qed

end
