(* ===== verification/Escalation.thy ===== *)
theory Escalation imports Maintenance begin

text \<open>
  The escalation engine (\<open>internal/escalation\<close>): the handlers of \<open>alert.trigger\<close>,
  \<open>alert.recover\<close> and \<open>alert.ack\<close>, the tick that walks firing alerts through their policy's steps,
  and the fan-out of a step to notification jobs. On-call schedules, quotas, the service catalogue
  and incidents are the no-op stubs of this build. A handler reads the clock once; the instants it
  reads again within one call are the same.
\<close>

section \<open>Helpers\<close>

datatype engine_error = EngineDecode | EngineStore db_error

text \<open>\<open>createEvent\<close> logs a failing insert and goes on.\<close>

definition create_event ::
  "world \<Rightarrow> gotime \<Rightarrow> string \<Rightarrow> alert_event_type \<Rightarrow> string \<Rightarrow> string \<Rightarrow> world" where
  "create_event w now i ty channel target_user =
     (case new_uuid w of (u, w1) \<Rightarrow>
        snd (events_create w1 \<lparr>evt_id = u, evt_alert = i, evt_type = ty, evt_channel = channel,
               evt_user = target_user, evt_detail = None, evt_created_at = now\<rparr>))"

definition get_loop_count :: "escalation_state \<Rightarrow> int" where
  "get_loop_count st =
     (case unmarshal (get_int ''loop_count'') (es_sent st) of None \<Rightarrow> 0 | Some n \<Rightarrow> n)"

definition set_loop_count :: "escalation_state \<Rightarrow> int \<Rightarrow> escalation_state" where
  "set_loop_count st n = st\<lparr>es_sent := Some (JObj [(''loop_count'', JInt n)])\<rparr>"

definition step_channel_hint :: "world \<Rightarrow> string \<Rightarrow> string" where
  "step_channel_hint w st =
     (case targets_list w st of
        Inl _ \<Rightarrow> []
      | Inr [] \<Rightarrow> []
      | Inr (t # ts) \<Rightarrow>
          (case channels_get w (tgt_channel t) of Inl _ \<Rightarrow> [] | Inr ch \<Rightarrow> ch_type ch))"

definition status_text :: "alert_status \<Rightarrow> string" where
  "status_text s =
     (case s of AlertFiring \<Rightarrow> ''firing'' | AlertAcknowledged \<Rightarrow> ''acknowledged''
              | AlertResolved \<Rightarrow> ''resolved'')"

text \<open>In this build every on-call target fails to resolve.\<close>

datatype resolve_error = OnCallUnavailable | UnknownTargetType string | ResolveStore db_error

definition oncall_resolve :: "string \<Rightarrow> int \<Rightarrow> resolve_error + string" where
  "oncall_resolve team layer = Inl OnCallUnavailable"

definition resolve_target :: "world \<Rightarrow> step_target \<Rightarrow> resolve_error + string list" where
  "resolve_target w t =
     (case tgt_type t of
        TargetOnCallPrimary \<Rightarrow>
          (case oncall_resolve (tgt_target t) 0 of Inl e \<Rightarrow> Inl e | Inr u \<Rightarrow> Inr [u])
      | TargetOnCallSecondary \<Rightarrow>
          (case oncall_resolve (tgt_target t) 1 of Inl e \<Rightarrow> Inl e | Inr u \<Rightarrow> Inr [u])
      | TargetUser \<Rightarrow> Inr [tgt_target t]
      | TargetTeam \<Rightarrow>
          (case members_list w (tgt_target t) of
             Inl e \<Rightarrow> Inl (ResolveStore e)
           | Inr ms \<Rightarrow> Inr (map tm_user ms))
      | TargetChannel \<Rightarrow> Inr [''_channel'']
      | TargetOther s \<Rightarrow> Inl (UnknownTargetType s))"

section \<open>Notifying a step\<close>

text \<open>
  The envelope's encryption is a parameter: \<open>None\<close> when no envelope is configured, otherwise a
  function that may fail. The version byte is 0 for plain text and 1 for a sealed configuration.
\<close>

type_synonym envelope = "(string \<Rightarrow> string option) option"

definition versioned_config :: "envelope \<Rightarrow> string \<Rightarrow> string option" where
  "versioned_config env config =
     (case env of
        None \<Rightarrow> Some (CHR 0x00 # config)
      | Some encrypt \<Rightarrow> map_option ((#) (CHR 0x01)) (encrypt config))"

definition job_for ::
  "string \<Rightarrow> alert \<Rightarrow> monitor \<Rightarrow> escalation_step \<Rightarrow> notification_channel \<Rightarrow> string \<Rightarrow> string
     \<Rightarrow> notification_job" where
  "job_for u a m st ch cfg target_user =
     \<lparr>job_id = u, job_alert = al_id a, job_org = al_org a, job_monitor_name = mon_name m,
      job_severity = al_severity a, job_channel = ch_type ch, job_target_config = cfg,
      job_message = ''Alert: '' @ mon_name m @ '' is '' @ status_text (al_status a),
      job_ack_url = [], job_dedupe_key = al_id a @ ''-'' @ step_id st @ ''-'' @ target_user,
      job_runbook = [], job_service_name = [], job_service_notes = [],
      job_context_links = None, job_dependency_status = None\<rparr>"

definition notify_user ::
  "gotime \<Rightarrow> alert \<Rightarrow> monitor \<Rightarrow> escalation_step \<Rightarrow> notification_channel \<Rightarrow> string
     \<Rightarrow> world \<Rightarrow> string \<Rightarrow> world" where
  "notify_user now a m st ch cfg w target_user =
     (case new_uuid w of (u, w1) \<Rightarrow>
        create_event (bus_publish w1 ''notify.request'' (PayloadJob (job_for u a m st ch cfg target_user)))
          now (al_id a) EventNotified (ch_type ch) target_user)"

definition notify_target ::
  "envelope \<Rightarrow> gotime \<Rightarrow> alert \<Rightarrow> monitor \<Rightarrow> escalation_step \<Rightarrow> world \<Rightarrow> step_target \<Rightarrow> world" where
  "notify_target env now a m st w t =
     (case resolve_target w t of
        Inl _ \<Rightarrow> w
      | Inr users \<Rightarrow>
          (case channels_get w (tgt_channel t) of
             Inl _ \<Rightarrow> w
           | Inr ch \<Rightarrow>
               if ch_org ch \<noteq> mon_org m then w
               else if \<not> ch_enabled ch then w
               else (case versioned_config env (ch_config ch) of
                       None \<Rightarrow> w
                     | Some cfg \<Rightarrow> foldl (notify_user now a m st ch cfg) w users)))"

definition suppressed :: "world \<Rightarrow> gotime \<Rightarrow> monitor \<Rightarrow> bool" where
  "suppressed w now m =
     (case windows_list_active w (mon_id m) now of
        Inl _ \<Rightarrow> False
      | Inr mws \<Rightarrow> list_ex mw_suppress mws)"

definition notify_step ::
  "envelope \<Rightarrow> world \<Rightarrow> gotime \<Rightarrow> alert \<Rightarrow> monitor \<Rightarrow> escalation_step \<Rightarrow> escalation_state \<Rightarrow> world" where
  "notify_step env w now a m st state =
     (if suppressed w now m then w
      else case targets_list w (step_id st) of
             Inl _ \<Rightarrow> w
           | Inr targets \<Rightarrow>
               foldl (notify_target env now a m st)
                 (snd (esc_upsert w (state\<lparr>es_last_notified := Some now\<rparr>))) targets)"

section \<open>Handlers\<close>

definition trigger_severity :: "monitor \<Rightarrow> check_status \<Rightarrow> severity" where
  "trigger_severity m status =
     (if status = StatusDegraded
      then (if mon_degraded_severity m = no_severity then SeverityWarning else mon_degraded_severity m)
      else (if mon_down_severity m = no_severity then SeverityCritical else mon_down_severity m))"

definition new_alert :: "string \<Rightarrow> monitor \<Rightarrow> trigger_event \<Rightarrow> gotime \<Rightarrow> alert" where
  "new_alert i m evt now =
     \<lparr>al_id = i, al_monitor = te_monitor evt, al_org = mon_org m, al_status = AlertFiring,
      al_severity = trigger_severity m (te_status evt), al_error = te_error evt,
      al_started_at = now, al_acked_at = None, al_acked_by = [], al_resolved_at = None,
      al_current_step = [], al_incident = []\<rparr>"

text \<open>The part of \<open>handleTrigger\<close> after the alert is recorded.\<close>

definition start_escalation ::
  "envelope \<Rightarrow> world \<Rightarrow> gotime \<Rightarrow> monitor \<Rightarrow> alert \<Rightarrow> engine_error option \<times> world" where
  "start_escalation env w now m a =
     (if mon_muted m then (None, w)
      else if mon_policy m = [] then (None, w)
      else case steps_list w (mon_policy m) of
             Inl _ \<Rightarrow> (None, w)
           | Inr [] \<Rightarrow> (None, w)
           | Inr (first # rest) \<Rightarrow>
               (let a1 = a\<lparr>al_current_step := step_id first\<rparr>;
                    w1 = snd (alerts_update w a1);
                    state = \<lparr>es_alert = al_id a, es_step = step_id first, es_entered_at = now,
                             es_retry = 0, es_last_notified = None, es_sent = None\<rparr>
                in case esc_upsert w1 state of
                     (Some e, w2) \<Rightarrow> (Some (EngineStore e), w2)
                   | (None, w2) \<Rightarrow> (None, notify_step env w2 now a1 m first state)))"

definition handle_trigger ::
  "envelope \<Rightarrow> world \<Rightarrow> gotime \<Rightarrow> trigger_event option \<Rightarrow> engine_error option \<times> world" where
  "handle_trigger env w now data =
     (case data of
        None \<Rightarrow> (Some EngineDecode, w)
      | Some evt \<Rightarrow>
          (case monitors_get w (te_monitor evt) of
             Inl e \<Rightarrow> (Some (EngineStore e), w)
           | Inr m \<Rightarrow>
               (case alerts_get_active w (te_monitor evt) of
                  Inr _ \<Rightarrow> (None, w)
                | Inl _ \<Rightarrow>
                    (case new_uuid w of (i, w1) \<Rightarrow>
                       (case alerts_create w1 (new_alert i m evt now) of
                          (Some _, w2) \<Rightarrow> (None, w2)
                        | (None, w2) \<Rightarrow>
                            (let a = new_alert i m evt now;
                                 w3 = add_active_alert w2 (al_org a) 1;
                                 w4 = create_event w3 now i EventTriggered [] [];
                                 w5 = emit w4 (CEAlertFired (al_org a) i (al_monitor a)
                                                 (al_severity a) (al_error a) (al_started_at a))
                             in start_escalation env w5 now m a))))))"

text \<open>One resolution, shared by \<open>handleRecover\<close> and \<open>autoResolveAlerts\<close>.\<close>

definition resolved_alert :: "alert \<Rightarrow> gotime \<Rightarrow> alert" where
  "resolved_alert a now = a\<lparr>al_status := AlertResolved, al_resolved_at := Some now\<rparr>"

definition after_resolve :: "world \<Rightarrow> gotime \<Rightarrow> alert \<Rightarrow> world" where
  "after_resolve w now a =
     (let w1 = add_active_alert w (al_org a) (-1);
          w2 = snd (esc_delete w1 (al_id a));
          w3 = create_event w2 now (al_id a) EventResolved [] []
      in emit w3 (CEAlertResolved (al_org a) (al_id a) (al_monitor a) now))"

definition active_count :: "world \<Rightarrow> nat" where
  "active_count w = length (filter (\<lambda>r. is_active (row_alert r)) (w_alerts w))"

lemma create_event_frame [simp]:
  "w_alerts (create_event w now i ty ch u) = w_alerts w"
  "w_monitors (create_event w now i ty ch u) = w_monitors w"
  "w_esc (create_event w now i ty ch u) = w_esc w"
  "w_bus (create_event w now i ty ch u) = w_bus w"
  "w_fails (create_event w now i ty ch u) = w_fails w"
  "w_gauge (create_event w now i ty ch u) = w_gauge w"
  "w_metrics (create_event w now i ty ch u) = w_metrics w"
  "w_windows (create_event w now i ty ch u) = w_windows w"
  "w_channels (create_event w now i ty ch u) = w_channels w"
  "w_targets (create_event w now i ty ch u) = w_targets w"
  "w_steps (create_event w now i ty ch u) = w_steps w"
  "w_policies (create_event w now i ty ch u) = w_policies w"
  "w_members (create_event w now i ty ch u) = w_members w"
  "w_emitted (create_event w now i ty ch u) = w_emitted w"
  "w_emitter (create_event w now i ty ch u) = w_emitter w"
  by (simp_all add: create_event_def new_uuid_def events_create_def)

lemma alerts_update_decreases:
  assumes "alerts_get_active w m = Inr a" "alerts_update w (resolved_alert a now) = (None, w1)"
  shows "active_count w1 < active_count w"
proof -
  let ?p = "\<lambda>r. al_id (row_alert r) = al_id a" and ?q = "\<lambda>r. is_active (row_alert r)"
  let ?f = "set_alert_columns (resolved_alert a now)"
  have w1: "w_alerts w1 = update_where ?p ?f (w_alerts w)"
    using assms(2) by (auto simp: alerts_update_def alerts_write_def Let_def resolved_alert_def split: if_splits)
  have off: "\<not> ?q (?f r)" for r by (simp add: set_alert_columns_def resolved_alert_def is_active_def)
  obtain r where r: "r \<in> set (w_alerts w)" "row_alert r = a" "is_active a"
    using alerts_get_active_SomeD [OF assms(1)] by auto
  have "length (filter ?q (update_where ?p ?f rows)) \<le> length (filter ?q rows)" for rows
    using off by (induction rows) auto
  moreover have "r \<in> set rows \<Longrightarrow> length (filter ?q (update_where ?p ?f rows)) < length (filter ?q rows)" for rows
    using off r(2,3) calculation by (induction rows) (auto simp: less_Suc_eq_le)
  ultimately show ?thesis using r(1) w1 by (simp add: active_count_def)
qed

lemma after_resolve_alerts [simp]: "w_alerts (after_resolve w now a) = w_alerts w"
proof -
  have "w_alerts (snd (esc_delete v i)) = w_alerts v" for v i by (simp add: esc_delete_def)
  moreover have "w_alerts (add_active_alert v org d) = w_alerts v" for v org d
    by (simp add: add_active_alert_def)
  moreover have "w_alerts (emit v ev) = w_alerts v" for v ev by (simp add: emit_def)
  ultimately show ?thesis by (simp add: after_resolve_def Let_def)
qed

lemma active_count_after [simp]: "active_count (after_resolve w now a) = active_count w"
  by (simp add: active_count_def)

text \<open>The loop of \<open>autoResolveAlerts\<close> ends because each round resolves an active row.\<close>

function auto_resolve :: "world \<Rightarrow> gotime \<Rightarrow> string \<Rightarrow> world" where
  "auto_resolve w now m =
     (case alerts_get_active w m of
        Inl _ \<Rightarrow> w
      | Inr a \<Rightarrow>
          (case alerts_update w (resolved_alert a now) of
             (Some _, w1) \<Rightarrow> w1
           | (None, w1) \<Rightarrow> auto_resolve (after_resolve w1 now a) now m))"
  by pat_completeness auto
termination
  by (relation "measure (\<lambda>(w, now, m). active_count w)")
    (auto dest: alerts_update_decreases [OF _ sym])

declare auto_resolve.simps [simp del]

definition handle_recover ::
  "world \<Rightarrow> gotime \<Rightarrow> trigger_event option \<Rightarrow> engine_error option \<times> world" where
  "handle_recover w now data =
     (case data of
        None \<Rightarrow> (Some EngineDecode, w)
      | Some evt \<Rightarrow>
          (case alerts_get_active w (te_monitor evt) of
             Inl _ \<Rightarrow> (None, w)
           | Inr a \<Rightarrow>
               (case alerts_update w (resolved_alert a now) of
                  (Some e, w1) \<Rightarrow> (Some (EngineStore e), w1)
                | (None, w1) \<Rightarrow>
                    (let w2 = after_resolve w1 now a in
                     case monitors_get w2 (te_monitor evt) of
                       Inl _ \<Rightarrow> (None, w2)
                     | Inr m \<Rightarrow>
                         (None, if mon_auto_resolve m then auto_resolve w2 now (mon_id m) else w2)))))"

definition acked_alert :: "alert \<Rightarrow> gotime \<Rightarrow> string \<Rightarrow> alert" where
  "acked_alert a now who =
     a\<lparr>al_status := AlertAcknowledged, al_acked_at := Some now, al_acked_by := who\<rparr>"

lemma acked_alert_simps [simp]:
  "al_id (acked_alert a now who) = al_id a" "al_status (acked_alert a now who) = AlertAcknowledged"
  by (simp_all add: acked_alert_def)

definition handle_ack ::
  "world \<Rightarrow> gotime \<Rightarrow> ack_event option \<Rightarrow> engine_error option \<times> world" where
  "handle_ack w now data =
     (case data of
        None \<Rightarrow> (Some EngineDecode, w)
      | Some evt \<Rightarrow>
          (case alerts_get w (ack_alert evt) of
             Inl e \<Rightarrow> (Some (EngineStore e), w)
           | Inr a \<Rightarrow>
               if al_status a = AlertResolved then (None, w)
               else (case alerts_update w (acked_alert a now (ack_user evt)) of
                       (Some e, w1) \<Rightarrow> (Some (EngineStore e), w1)
                     | (None, w1) \<Rightarrow>
                         (let w2 = create_event w1 now (al_id a) EventAck (ack_channel evt) (ack_user evt)
                          in (None, emit w2 (CEAlertAcknowledged (al_org a) (al_id a) (al_monitor a)
                                               (ack_user evt) now))))))"

section \<open>The tick\<close>

text \<open>\<open>time.Duration(WaitSeconds) * time.Second\<close> in 64-bit arithmetic.\<close>

definition wait_duration :: "escalation_step \<Rightarrow> int" where
  "wait_duration st = sint (word_of_int (step_wait st) * word_of_int second :: int64)"

text \<open>The common tail of advancing to the next step and of restarting the policy.\<close>

definition enter_step ::
  "envelope \<Rightarrow> world \<Rightarrow> gotime \<Rightarrow> alert \<Rightarrow> monitor \<Rightarrow> escalation_step \<Rightarrow> escalation_state \<Rightarrow> world" where
  "enter_step env w now a m st state =
     (let w1 = snd (esc_upsert w state);
          a1 = a\<lparr>al_current_step := step_id st\<rparr>;
          w2 = snd (alerts_update w1 a1);
          w3 = create_event w2 now (al_id a) EventEscalated [] [];
          w4 = emit w3 (CEAlertEscalated (al_org a) (al_id a) (al_monitor a) (step_position st)
                          (step_channel_hint w3 (step_id st)) now)
      in notify_step env w4 now a1 m st state)"

definition escalate ::
  "envelope \<Rightarrow> world \<Rightarrow> gotime \<Rightarrow> alert \<Rightarrow> monitor \<Rightarrow> escalation_step list \<Rightarrow> escalation_step
     \<Rightarrow> escalation_state \<Rightarrow> world" where
  "escalate env w now a m steps current state =
     (if es_retry state < step_repeat current
      then (let state1 = state\<lparr>es_retry := es_retry state + 1, es_entered_at := now\<rparr>
            in notify_step env (snd (esc_upsert w state1)) now a m current state1)
      else case steps_next w (mon_policy m) (step_position current) of
             Inl _ \<Rightarrow> w
           | Inr (Some next_step) \<Rightarrow>
               enter_step env (record_escalation_step w (al_org a) (step_position next_step)) now a m
                 next_step (state\<lparr>es_step := step_id next_step, es_entered_at := now, es_retry := 0\<rparr>)
           | Inr None \<Rightarrow>
               (case policies_get w (mon_policy m) of
                  Inl _ \<Rightarrow> w
                | Inr pol \<Rightarrow>
                    if \<not> pol_loop pol then w
                    else if (case pol_max_loops pol of None \<Rightarrow> False
                                                     | Some n \<Rightarrow> n \<le> get_loop_count state)
                    then w
                    else enter_step env w now a m (hd steps)
                           (set_loop_count
                              (state\<lparr>es_step := step_id (hd steps), es_entered_at := now, es_retry := 0\<rparr>)
                              (get_loop_count state + 1))))"

definition process_alert :: "envelope \<Rightarrow> gotime \<Rightarrow> world \<Rightarrow> alert \<Rightarrow> world" where
  "process_alert env now w a =
     (case esc_get w (al_id a) of
        Inl _ \<Rightarrow> w
      | Inr state \<Rightarrow>
          (case monitors_get w (al_monitor a) of
             Inl _ \<Rightarrow> w
           | Inr m \<Rightarrow>
               if mon_policy m = [] then w
               else case steps_list w (mon_policy m) of
                      Inl _ \<Rightarrow> w
                    | Inr steps \<Rightarrow>
                        (case List.find (\<lambda>st. step_id st = es_step state) steps of
                           None \<Rightarrow> w
                         | Some current \<Rightarrow>
                             if time_sub now (es_entered_at state) < wait_duration current then w
                             else escalate env w now a m steps current state)))"

definition process_firing_alerts :: "envelope \<Rightarrow> world \<Rightarrow> gotime \<Rightarrow> world" where
  "process_firing_alerts env w now =
     (case alerts_list_firing w of
        Inl _ \<Rightarrow> w
      | Inr as \<Rightarrow> foldl (process_alert env now) w as)"

section \<open>What the engine leaves alone\<close>

text \<open>Configuration tables, faults and wiring: no engine operation changes them.\<close>

definition same_config :: "world \<Rightarrow> world \<Rightarrow> bool" where
  "same_config w w' \<longleftrightarrow>
     w_monitors w' = w_monitors w \<and> w_policies w' = w_policies w \<and> w_steps w' = w_steps w
   \<and> w_targets w' = w_targets w \<and> w_channels w' = w_channels w \<and> w_windows w' = w_windows w
   \<and> w_members w' = w_members w \<and> w_fails w' = w_fails w \<and> w_emitter w' = w_emitter w
   \<and> w_metrics w' = w_metrics w \<and> w_uuid w' = w_uuid w"

lemma same_config_refl [simp]: "same_config w w"
  by (simp add: same_config_def)

lemma same_config_trans: "same_config u v \<Longrightarrow> same_config v w \<Longrightarrow> same_config u w"
  by (simp add: same_config_def)

lemma same_config_updates [simp]:
  "same_config w (w\<lparr>w_alerts := x1\<rparr>)" "same_config w (w\<lparr>w_events := x2\<rparr>)"
  "same_config w (w\<lparr>w_esc := x3\<rparr>)" "same_config w (w\<lparr>w_bus := x4\<rparr>)"
  "same_config w (w\<lparr>w_uuid_next := x5\<rparr>)" "same_config w (w\<lparr>w_emitted := x6\<rparr>)"
  "same_config w (w\<lparr>w_gauge := x7\<rparr>)" "same_config w (w\<lparr>w_step_metric := x8\<rparr>)"
  by (simp_all add: same_config_def)

lemma same_config_ops:
  "same_config w (snd (new_uuid w))" "same_config w (snd (alerts_create w a))"
  "same_config w (snd (alerts_update w a))" "same_config w (snd (events_create w e))"
  "same_config w (snd (esc_upsert w st))" "same_config w (snd (esc_delete w i))"
  "same_config w (emit w ev)" "same_config w (bus_publish w sb p)"
  "same_config w (add_active_alert w org d)" "same_config w (record_escalation_step w org pos)"
  by (simp_all add: new_uuid_def alerts_create_def alerts_update_def alerts_write_def events_create_def
      esc_upsert_def esc_delete_def emit_def bus_publish_def add_active_alert_def
      record_escalation_step_def Let_def)

lemma same_config_create_event: "same_config w (create_event w now i ty ch u)"
  unfolding create_event_def
  by (simp add: case_prod_unfold) (rule same_config_trans; rule same_config_ops)

lemma same_config_notify_user: "same_config w (notify_user now a m st ch cfg w u)"
  unfolding notify_user_def
  by (simp add: case_prod_unfold)
    (rule same_config_trans [OF same_config_ops(1)],
     rule same_config_trans [OF same_config_ops(8)], rule same_config_create_event)

lemma same_config_foldl:
  "(\<And>v x. same_config v (f v x)) \<Longrightarrow> same_config w (foldl f w xs)"
  by (rule foldl_keeps) (auto intro: same_config_trans)

lemma same_config_notify_target: "same_config w (notify_target env now a m st w t)"
  unfolding notify_target_def
  by (auto split: sum.split option.split intro!: same_config_foldl same_config_notify_user)

lemma same_config_notify_step: "same_config w (notify_step env w now a m st state)"
  unfolding notify_step_def
  by (auto split: sum.split
      intro: same_config_trans [OF same_config_ops(5) same_config_foldl] same_config_notify_target)

lemma same_config_enter_step: "same_config w (enter_step env w now a m st state)"
  unfolding enter_step_def Let_def
  by (rule same_config_trans [OF same_config_ops(5)], rule same_config_trans [OF same_config_ops(3)],
      rule same_config_trans [OF same_config_create_event], rule same_config_trans [OF same_config_ops(7)],
      rule same_config_notify_step)

lemma same_config_escalate: "same_config w (escalate env w now a m steps current state)"
  unfolding escalate_def Let_def
  by (auto split: sum.split option.split intro: same_config_enter_step
      same_config_trans [OF same_config_ops(5) same_config_notify_step]
      same_config_trans [OF same_config_ops(10) same_config_enter_step])

lemma same_config_process_alert: "same_config w (process_alert env now w a)"
  unfolding process_alert_def by (auto split: sum.split option.split intro: same_config_escalate)

lemma same_config_tick: "same_config w (process_firing_alerts env w now)"
  unfolding process_firing_alerts_def
  by (auto split: sum.split intro!: same_config_foldl same_config_process_alert)

section \<open>The schema invariant of the engine\<close>

lemma create_event_keeps [op_keeps]: "schema_ok w \<Longrightarrow> schema_ok (create_event w now i ty ch u)"
  unfolding create_event_def case_prod_unfold by (intro op_keeps)

lemma notify_user_keeps: "schema_ok w \<Longrightarrow> schema_ok (notify_user now a m st ch cfg w u)"
  unfolding notify_user_def case_prod_unfold by (intro op_keeps)

lemma notify_target_keeps: "schema_ok w \<Longrightarrow> schema_ok (notify_target env now a m st w t)"
  unfolding notify_target_def
  by (simp split: sum.split option.split) (blast intro: foldl_keeps notify_user_keeps)

lemma notify_step_keeps [op_keeps]: "schema_ok w \<Longrightarrow> schema_ok (notify_step env w now a m st state)"
  unfolding notify_step_def
  by (simp split: sum.split) (blast intro: foldl_keeps notify_target_keeps op_keeps)

lemma enter_step_keeps [op_keeps]: "schema_ok w \<Longrightarrow> schema_ok (enter_step env w now a m st state)"
  unfolding enter_step_def Let_def by (intro op_keeps)

lemma escalate_keeps: "schema_ok w \<Longrightarrow> schema_ok (escalate env w now a m steps current state)"
  unfolding escalate_def Let_def
  by (simp split: sum.split option.split) (intro conjI impI allI op_keeps; assumption)

lemma process_alert_keeps: "schema_ok w \<Longrightarrow> schema_ok (process_alert env now w a)"
  unfolding process_alert_def
  by (simp split: sum.split option.split add: escalate_keeps)

lemma process_firing_keeps: "schema_ok w \<Longrightarrow> schema_ok (process_firing_alerts env w now)"
  unfolding process_firing_alerts_def
  by (simp split: sum.split) (blast intro: foldl_keeps process_alert_keeps)

lemma start_escalation_keeps [op_keeps]: "schema_ok w \<Longrightarrow> schema_ok (snd (start_escalation env w now m a))"
  unfolding start_escalation_def Let_def case_prod_unfold
  by (simp split: sum.split option.split list.split) (intro conjI impI allI op_keeps; assumption)

lemma handle_trigger_keeps: "schema_ok w \<Longrightarrow> schema_ok (snd (handle_trigger env w now d))"
  unfolding handle_trigger_def Let_def case_prod_unfold
  by (simp split: sum.split option.split) (intro conjI impI allI op_keeps; assumption)

lemma after_resolve_keeps [op_keeps]: "schema_ok w \<Longrightarrow> schema_ok (after_resolve w now a)"
  unfolding after_resolve_def Let_def by (intro op_keeps)

lemma auto_resolve_keeps [op_keeps]: "schema_ok w \<Longrightarrow> schema_ok (auto_resolve w now m)"
proof (induction w now m rule: auto_resolve.induct)
  case (1 w now m)
  show ?case
  proof (cases "alerts_get_active w m")
    case (Inl e)
    with 1 show ?thesis by (subst auto_resolve.simps) simp
  next
    case (Inr a)
    obtain r w1 where u: "alerts_update w (resolved_alert a now) = (r, w1)" by fastforce
    with 1(2) have k: "schema_ok w1" by (rule alerts_update_keeps [rotated])
    show ?thesis
    proof (cases r)
      case None
      from 1(1) [OF Inr u [symmetric] None] k show ?thesis
        using Inr u None by (subst auto_resolve.simps) (simp add: after_resolve_keeps)
    next
      case (Some e)
      with Inr u k show ?thesis by (subst auto_resolve.simps) simp
    qed
  qed
qed

lemma handle_recover_keeps: "schema_ok w \<Longrightarrow> schema_ok (snd (handle_recover w now d))"
  unfolding handle_recover_def Let_def case_prod_unfold
  by (simp split: sum.split option.split) (intro conjI impI allI op_keeps; assumption)

lemma handle_ack_keeps: "schema_ok w \<Longrightarrow> schema_ok (snd (handle_ack w now d))"
  unfolding handle_ack_def Let_def case_prod_unfold
  by (simp split: sum.split option.split) (intro conjI impI allI op_keeps; assumption)

section \<open>What each operation changes\<close>

lemma notify_user_frame [simp]:
  "w_alerts (notify_user now a m st ch cfg w u) = w_alerts w"
  "w_esc (notify_user now a m st ch cfg w u) = w_esc w"
  "w_gauge (notify_user now a m st ch cfg w u) = w_gauge w"
  by (simp_all add: notify_user_def case_prod_unfold new_uuid_def bus_publish_def)

lemma notify_users_frame:
  "w_alerts (foldl (notify_user now a m st ch cfg) w us) = w_alerts w
   \<and> w_esc (foldl (notify_user now a m st ch cfg) w us) = w_esc w
   \<and> w_gauge (foldl (notify_user now a m st ch cfg) w us) = w_gauge w"
  by (induction us arbitrary: w) simp_all

lemma notify_target_frame [simp]:
  "w_alerts (notify_target env now a m st w t) = w_alerts w"
  "w_esc (notify_target env now a m st w t) = w_esc w"
  "w_gauge (notify_target env now a m st w t) = w_gauge w"
  by (simp_all add: notify_target_def notify_users_frame split: sum.split option.split)

lemma notify_targets_frame:
  "w_alerts (foldl (notify_target env now a m st) w ts) = w_alerts w
   \<and> w_esc (foldl (notify_target env now a m st) w ts) = w_esc w
   \<and> w_gauge (foldl (notify_target env now a m st) w ts) = w_gauge w"
  by (induction ts arbitrary: w) simp_all

lemma esc_upsert_frame [simp]:
  "w_alerts (snd (esc_upsert w st)) = w_alerts w" "w_gauge (snd (esc_upsert w st)) = w_gauge w"
  "w_bus (snd (esc_upsert w st)) = w_bus w" "w_events (snd (esc_upsert w st)) = w_events w"
  by (simp_all add: esc_upsert_def)

lemma notify_step_frame [simp]:
  "w_alerts (notify_step env w now a m st state) = w_alerts w"
  "w_gauge (notify_step env w now a m st state) = w_gauge w"
  by (simp_all add: notify_step_def notify_targets_frame split: sum.split)

lemma misc_frame [simp]:
  "w_alerts (emit w ev) = w_alerts w" "w_gauge (emit w ev) = w_gauge w" "w_esc (emit w ev) = w_esc w"
  "w_bus (emit w ev) = w_bus w"
  "w_alerts (add_active_alert w org d) = w_alerts w" "w_esc (add_active_alert w org d) = w_esc w"
  "w_bus (add_active_alert w org d) = w_bus w"
  "w_alerts (record_escalation_step w org p) = w_alerts w"
  "w_gauge (record_escalation_step w org p) = w_gauge w" "w_esc (record_escalation_step w org p) = w_esc w"
  "w_bus (record_escalation_step w org p) = w_bus w" "w_fails (record_escalation_step w org p) = w_fails w"
  "w_alerts (snd (esc_delete w i)) = w_alerts w" "w_gauge (snd (esc_delete w i)) = w_gauge w"
  "w_bus (snd (esc_delete w i)) = w_bus w"
  "w_gauge (snd (alerts_update w x)) = w_gauge w" "w_esc (snd (alerts_update w x)) = w_esc w"
  "w_bus (snd (alerts_update w x)) = w_bus w"
  by (simp_all add: emit_def add_active_alert_def record_escalation_step_def esc_delete_def
      alerts_update_def alerts_write_def Let_def)

lemma alerts_update_rows:
  "w_alerts (snd (alerts_update w a)) = w_alerts w
   \<or> w_alerts (snd (alerts_update w a)) =
       update_where (\<lambda>r. al_id (row_alert r) = al_id a) (set_alert_columns a) (w_alerts w)"
  by (simp add: alerts_update_def alerts_write_def Let_def)

lemma alerts_update_ok_rows:
  "alerts_update w a = (None, w') \<Longrightarrow>
     w' = w\<lparr>w_alerts := update_where (\<lambda>r. al_id (row_alert r) = al_id a) (set_alert_columns a) (w_alerts w)\<rparr>"
  by (auto simp: alerts_update_def alerts_write_def Let_def split: if_splits)

lemma alerts_update_err: "alerts_update w a = (Some e, w') \<Longrightarrow> w' = w"
  by (auto simp: alerts_update_def alerts_write_def Let_def split: if_splits)

lemma set_alert_columns_simps [simp]:
  "al_id (row_alert (set_alert_columns a r)) = al_id (row_alert r)"
  "al_org (row_alert (set_alert_columns a r)) = al_org (row_alert r)"
  "al_monitor (row_alert (set_alert_columns a r)) = al_monitor (row_alert r)"
  "al_status (row_alert (set_alert_columns a r)) = al_status a"
  "al_resolved_at (row_alert (set_alert_columns a r)) = map_option rfc3339 (al_resolved_at a)"
  by (simp_all add: set_alert_columns_def)

lemma enter_step_alerts:
  "w_alerts (enter_step env w now a m st state) = w_alerts w
   \<or> w_alerts (enter_step env w now a m st state) =
       update_where (\<lambda>r. al_id (row_alert r) = al_id a)
         (set_alert_columns (a\<lparr>al_current_step := step_id st\<rparr>)) (w_alerts w)"
  using alerts_update_rows [of "snd (esc_upsert w state)" "a\<lparr>al_current_step := step_id st\<rparr>"]
  by (simp add: enter_step_def Let_def)

lemma enter_step_gauge [simp]: "w_gauge (enter_step env w now a m st state) = w_gauge w"
  by (simp add: enter_step_def Let_def)

text \<open>A tick changes at most the columns of the alert it looks at, and writes the snapshot's status.\<close>

definition tick_effect :: "alert \<Rightarrow> world \<Rightarrow> world \<Rightarrow> bool" where
  "tick_effect a w w' \<longleftrightarrow> w_gauge w' = w_gauge w
     \<and> (w_alerts w' = w_alerts w
        \<or> (\<exists>i. w_alerts w' = update_where (\<lambda>r. al_id (row_alert r) = al_id a)
             (set_alert_columns (a\<lparr>al_current_step := i\<rparr>)) (w_alerts w)))"

lemma enter_step_effect: "tick_effect a w (enter_step env w now a m st state)"
  using enter_step_alerts [of env w now a m st state] by (auto simp: tick_effect_def)

lemma enter_step_effect_metric:
  "tick_effect a w (enter_step env (record_escalation_step w org p) now a m st state)"
  using enter_step_effect [of a "record_escalation_step w org p" env now m st state]
  by (simp add: tick_effect_def)

lemma tick_effect_refl [simp]: "w_gauge w' = w_gauge w \<Longrightarrow> w_alerts w' = w_alerts w \<Longrightarrow> tick_effect a w w'"
  by (simp add: tick_effect_def)

lemma escalate_effect: "tick_effect a w (escalate env w now a m steps c s)"
  unfolding escalate_def Let_def
  by (simp split: sum.split option.split add: enter_step_effect enter_step_effect_metric)

lemma process_alert_effect: "tick_effect a w (process_alert env now w a)"
  unfolding process_alert_def by (simp split: sum.split option.split add: escalate_effect)

section \<open>The number of active alerts\<close>

definition active_of :: "alert_row list \<Rightarrow> string \<Rightarrow> int" where
  "active_of rows org =
     int (length (filter (\<lambda>r. is_active (row_alert r) \<and> al_org (row_alert r) = org) rows))"

definition contribution :: "alert_row \<Rightarrow> string \<Rightarrow> int" where
  "contribution r org = (if is_active (row_alert r) \<and> al_org (row_alert r) = org then 1 else 0)"

lemma active_of_Nil [simp]: "active_of [] org = 0"
  by (simp add: active_of_def)

lemma active_of_Cons [simp]: "active_of (r # rows) org = contribution r org + active_of rows org"
  by (simp add: active_of_def contribution_def)

lemma active_of_append [simp]: "active_of (xs @ ys) org = active_of xs org + active_of ys org"
  by (induction xs) simp_all

lemma active_of_update_same:
  "(\<And>r. r \<in> set rows \<Longrightarrow> p r \<Longrightarrow> contribution (f r) org = contribution r org) \<Longrightarrow>
   active_of (update_where p f rows) org = active_of rows org"
  by (induction rows) simp_all

lemma active_of_update_one:
  assumes "distinct (map k rows)" "r \<in> set rows"
  shows "active_of (update_where (\<lambda>x. k x = k r) f rows) org =
    active_of rows org - contribution r org + contribution (f r) org"
  using assms
proof (induction rows)
  case (Cons x xs)
  show ?case
  proof (cases "x = r")
    case True
    with Cons.prems have "k r \<notin> k ` set xs" by simp
    then have "update_where (\<lambda>y. k y = k r) f xs = xs" by (intro update_where_none) (metis imageI)
    with True show ?thesis by simp
  next
    case False
    with Cons show ?thesis by (auto simp: image_iff)
  qed
qed simp

definition gauge_ok :: "(string \<Rightarrow> int) \<Rightarrow> world \<Rightarrow> bool" where
  "gauge_ok base w \<longleftrightarrow> schema_ok w
     \<and> (w_metrics w \<longrightarrow> (\<forall>org. w_gauge w org = base org + active_of (w_alerts w) org))"

lemma gauge_ok_frame:
  "gauge_ok base w \<Longrightarrow> schema_ok w' \<Longrightarrow> w_metrics w' = w_metrics w \<Longrightarrow> w_gauge w' = w_gauge w \<Longrightarrow>
   (\<And>org. active_of (w_alerts w') org = active_of (w_alerts w) org) \<Longrightarrow> gauge_ok base w'"
  by (simp add: gauge_ok_def)

lemma active_of_set_columns:
  "(\<And>r. r \<in> set rows \<Longrightarrow> al_id (row_alert r) = al_id a \<Longrightarrow>
      is_active (row_alert r) \<longleftrightarrow> al_status a \<noteq> AlertResolved) \<Longrightarrow>
   active_of (update_where (\<lambda>r. al_id (row_alert r) = al_id a) (set_alert_columns a) rows) org = active_of rows org"
  by (rule active_of_update_same) (simp add: contribution_def is_active_def)

lemma schema_ok_ids: "schema_ok w \<Longrightarrow> distinct (map (\<lambda>r. al_id (row_alert r)) (w_alerts w))"
  by (simp add: schema_ok_def alert_ids_def)

lemma same_config_metrics: "same_config w w' \<Longrightarrow> w_metrics w' = w_metrics w"
  by (simp add: same_config_def)

lemma resolve_active_of:
  assumes ok: "schema_ok w" and a: "alerts_get_active w m = Inr a"
    and u: "alerts_update w (resolved_alert a now) = (None, w1)"
  shows "active_of (w_alerts w1) org = active_of (w_alerts w) org - (if al_org a = org then 1 else 0)"
proof -
  obtain r where r: "r \<in> set (w_alerts w)" "row_alert r = a" "is_active a"
    using alerts_get_active_SomeD [OF a] by auto
  have "w_alerts w1 = update_where (\<lambda>x. al_id (row_alert x) = al_id (row_alert r))
      (set_alert_columns (resolved_alert a now)) (w_alerts w)"
    using alerts_update_ok_rows [OF u] r(2) by (simp add: resolved_alert_def)
  then show ?thesis
    using active_of_update_one [OF schema_ok_ids [OF ok] r(1)] r(2,3)
    by (simp add: contribution_def is_active_def) (simp add: resolved_alert_def)
qed

lemma after_resolve_gauge:
  "w_gauge (after_resolve w now a) org =
     w_gauge w org - (if w_metrics w \<and> al_org a = org then 1 else 0)"
proof -
  have "w_gauge (create_event v now i ty ch u) = w_gauge v" for v i ty ch u by simp
  then show ?thesis by (simp add: after_resolve_def Let_def add_active_alert_def)
qed

lemma after_resolve_metrics [simp]: "w_metrics (after_resolve w now a) = w_metrics w"
proof -
  have "same_config w (after_resolve w now a)"
    unfolding after_resolve_def Let_def
    by (rule same_config_trans [OF same_config_ops(9)], rule same_config_trans [OF same_config_ops(6)],
        rule same_config_trans [OF same_config_create_event], rule same_config_ops(7))
  then show ?thesis by (rule same_config_metrics)
qed

lemma resolve_gauge:
  assumes g: "gauge_ok base w" and a: "alerts_get_active w m = Inr a"
    and u: "alerts_update w (resolved_alert a now) = (None, w1)"
  shows "gauge_ok base (after_resolve w1 now a)"
proof -
  have ok: "schema_ok w" using g by (simp add: gauge_ok_def)
  have w1: "w_gauge w1 = w_gauge w" "w_metrics w1 = w_metrics w"
    using alerts_update_ok_rows [OF u] by simp_all
  have "schema_ok (after_resolve w1 now a)"
    using after_resolve_keeps alerts_update_keeps [OF u ok] by blast
  then show ?thesis
    using g resolve_active_of [OF ok a u] by (auto simp: gauge_ok_def after_resolve_gauge w1)
qed

lemma auto_resolve_gauge: "gauge_ok base w \<Longrightarrow> gauge_ok base (auto_resolve w now m)"
proof (induction w now m rule: auto_resolve.induct)
  case (1 w now m)
  show ?case
  proof (cases "alerts_get_active w m")
    case (Inl e)
    with 1 show ?thesis by (subst auto_resolve.simps) simp
  next
    case (Inr a)
    obtain r w1 where u: "alerts_update w (resolved_alert a now) = (r, w1)" by fastforce
    show ?thesis
    proof (cases r)
      case None
      with u have u': "alerts_update w (resolved_alert a now) = (None, w1)" by simp
      from 1(1) [OF Inr u [symmetric] None resolve_gauge [OF 1(2) Inr u']] show ?thesis
        using Inr u' by (subst auto_resolve.simps) simp
    next
      case (Some e)
      with u have "w1 = w" by (simp add: alerts_update_err)
      with Inr u Some 1(2) show ?thesis by (subst auto_resolve.simps) simp
    qed
  qed
qed

lemma handle_recover_gauge:
  assumes "gauge_ok base w"
  shows "gauge_ok base (snd (handle_recover w now d))"
proof (cases "\<exists>evt a w1. d = Some evt \<and> alerts_get_active w (te_monitor evt) = Inr a
    \<and> alerts_update w (resolved_alert a now) = (None, w1)")
  case True
  then obtain evt a w1 where d: "d = Some evt" and a: "alerts_get_active w (te_monitor evt) = Inr a"
    and u: "alerts_update w (resolved_alert a now) = (None, w1)" by blast
  from resolve_gauge [OF assms a u] show ?thesis
    by (simp add: handle_recover_def d a u Let_def auto_resolve_gauge split: sum.split)
next
  case False
  have "snd (handle_recover w now d) = w"
  proof (cases "\<exists>evt a. d = Some evt \<and> alerts_get_active w (te_monitor evt) = Inr a")
    case True
    then obtain evt a where d: "d = Some evt" "alerts_get_active w (te_monitor evt) = Inr a" by blast
    obtain r w1 where u: "alerts_update w (resolved_alert a now) = (r, w1)" by fastforce
    with False d obtain e where "r = Some e" by (cases r) auto
    with u d show ?thesis by (simp add: handle_recover_def alerts_update_err)
  next
    case False
    then show ?thesis by (auto simp: handle_recover_def split: option.split sum.split)
  qed
  with assms show ?thesis by simp
qed

lemma handle_ack_gauge:
  assumes g: "gauge_ok base w"
  shows "gauge_ok base (snd (handle_ack w now d))"
proof (cases "\<exists>evt a w1. d = Some evt \<and> alerts_get w (ack_alert evt) = Inr a \<and> al_status a \<noteq> AlertResolved
    \<and> alerts_update w (acked_alert a now (ack_user evt)) = (None, w1)")
  case True
  then obtain evt a w1 where d: "d = Some evt" and a: "alerts_get w (ack_alert evt) = Inr a"
    and act: "al_status a \<noteq> AlertResolved"
    and u: "alerts_update w (acked_alert a now (ack_user evt)) = (None, w1)"
    by blast
  have ok: "schema_ok w" using g by (simp add: gauge_ok_def)
  obtain r where r: "r \<in> set (w_alerts w)" "row_alert r = a" using alerts_get_SomeD [OF a] by blast
  have same: "x = r" if "x \<in> set (w_alerts w)" "al_id (row_alert x) = al_id a" for x
    using schema_ok_row_unique [OF ok that(1) r(1)] that(2) r(2) by simp
  have "active_of (w_alerts w1) org = active_of (w_alerts w) org" for org
    using alerts_update_ok_rows [OF u] same r act
      active_of_set_columns [of "w_alerts w" "acked_alert a now (ack_user evt)" org]
    by (fastforce simp: is_active_def)
  moreover have "w_gauge w1 = w_gauge w" "w_metrics w1 = w_metrics w"
    using alerts_update_ok_rows [OF u] by simp_all
  moreover have "schema_ok (snd (handle_ack w now d))" using handle_ack_keeps ok by blast
  ultimately show ?thesis
    using g d a act u same_config_metrics [OF same_config_ops(7)]
    by (simp add: handle_ack_def Let_def gauge_ok_def)
next
  case False
  have "snd (handle_ack w now d) = w"
  proof (cases "\<exists>evt a. d = Some evt \<and> alerts_get w (ack_alert evt) = Inr a \<and> al_status a \<noteq> AlertResolved")
    case True
    then obtain evt a where d: "d = Some evt" "alerts_get w (ack_alert evt) = Inr a" "al_status a \<noteq> AlertResolved"
      by blast
    obtain r w1 where u: "alerts_update w (acked_alert a now (ack_user evt)) = (r, w1)" by fastforce
    with False d obtain e where "r = Some e" by (cases r) auto
    with u d show ?thesis by (simp add: handle_ack_def alerts_update_err)
  next
    case False
    then show ?thesis by (auto simp: handle_ack_def split: option.split sum.split)
  qed
  with g show ?thesis by simp
qed

definition rows_active :: "alert \<Rightarrow> alert_row list \<Rightarrow> bool" where
  "rows_active a rows \<longleftrightarrow> (\<forall>r \<in> set rows. al_id (row_alert r) = al_id a \<longrightarrow> is_active (row_alert r))"

lemma tick_effect_gauge:
  assumes g: "gauge_ok base w" and e: "tick_effect a w w'" and "schema_ok w'" "w_metrics w' = w_metrics w"
    and a: "al_status a = AlertFiring" "rows_active a (w_alerts w)"
  shows "gauge_ok base w'"
proof -
  have "active_of (w_alerts w') org = active_of (w_alerts w) org" for org
    using e a active_of_set_columns [of "w_alerts w" "a\<lparr>al_current_step := i\<rparr>" org for i]
    by (auto simp: tick_effect_def rows_active_def)
  with g e assms(3,4) show ?thesis by (intro gauge_ok_frame [OF g]) (auto simp: tick_effect_def)
qed

lemma tick_effect_rows_active:
  "tick_effect a w w' \<Longrightarrow> al_status a = AlertFiring \<Longrightarrow> rows_active b (w_alerts w) \<Longrightarrow>
   rows_active b (w_alerts w')"
  by (auto simp: tick_effect_def rows_active_def set_update_where is_active_def)

lemma start_escalation_effect: "tick_effect a w (snd (start_escalation env w now m a))"
  using alerts_update_rows [of w "a\<lparr>al_current_step := i\<rparr>" for i]
  unfolding start_escalation_def Let_def case_prod_unfold
  by (auto split: sum.split option.split list.split simp: tick_effect_def)

lemma same_config_start: "same_config w (snd (start_escalation env w now m a))"
  unfolding start_escalation_def Let_def case_prod_unfold
  by (auto split: sum.split option.split list.split
      intro: same_config_trans [OF same_config_ops(3) same_config_ops(5)]
        same_config_trans [OF same_config_trans [OF same_config_ops(3) same_config_ops(5)] same_config_notify_step])

text \<open>The world after the alert is recorded, before the policy is looked at.\<close>

definition recorded :: "world \<Rightarrow> gotime \<Rightarrow> alert \<Rightarrow> world" where
  "recorded w now a =
     emit (create_event (add_active_alert (snd (alerts_create w a)) (al_org a) 1) now (al_id a) EventTriggered [] [])
       (CEAlertFired (al_org a) (al_id a) (al_monitor a) (al_severity a) (al_error a) (al_started_at a))"

lemma handle_trigger_cases:
  obtains (unchanged) "w_alerts (snd (handle_trigger env w now d)) = w_alerts w"
      "w_gauge (snd (handle_trigger env w now d)) = w_gauge w"
      "w_bus (snd (handle_trigger env w now d)) = w_bus w"
      "w_esc (snd (handle_trigger env w now d)) = w_esc w"
      "w_metrics (snd (handle_trigger env w now d)) = w_metrics w"
      "same_config w (snd (handle_trigger env w now d))"
  | (created) evt m w1 where "d = Some evt" "monitors_get w (te_monitor evt) = Inr m"
      "new_uuid w = (w_uuid w (w_uuid_next w), w1)"
      "alerts_create w1 (new_alert (w_uuid w (w_uuid_next w)) m evt now) =
         (None, w1\<lparr>w_alerts := w_alerts w1 @ [row_of_alert (new_alert (w_uuid w (w_uuid_next w)) m evt now)]\<rparr>)"
      "handle_trigger env w now d =
         start_escalation env (recorded w1 now (new_alert (w_uuid w (w_uuid_next w)) m evt now)) now m
           (new_alert (w_uuid w (w_uuid_next w)) m evt now)"
proof (cases "\<exists>evt m. d = Some evt \<and> monitors_get w (te_monitor evt) = Inr m
    \<and> (\<exists>e. alerts_get_active w (te_monitor evt) = Inl e)")
  case False
  then have "snd (handle_trigger env w now d) = w"
    by (auto simp: handle_trigger_def split: option.split sum.split)
  then show thesis using unchanged by simp
next
  case True
  then obtain evt m e where d: "d = Some evt" "monitors_get w (te_monitor evt) = Inr m"
    "alerts_get_active w (te_monitor evt) = Inl e" by blast
  obtain w1 where u: "new_uuid w = (w_uuid w (w_uuid_next w), w1)" by (simp add: new_uuid_def)
  let ?a = "new_alert (w_uuid w (w_uuid_next w)) m evt now"
  obtain r w2 where c: "alerts_create w1 ?a = (r, w2)" by fastforce
  then show thesis
  proof (cases rule: alerts_create_cases)
    case (err e')
    with c d u have "snd (handle_trigger env w now d) = w1" by (simp add: handle_trigger_def)
    with u show thesis by (intro unchanged) (auto simp: new_uuid_def)
  next
    case ok
    have "handle_trigger env w now d = start_escalation env (recorded w1 now ?a) now m ?a"
      using c d u ok(1) by (simp add: handle_trigger_def Let_def recorded_def) (simp add: new_alert_def)
    with c d u ok show thesis by (intro created) auto
  qed
qed

lemma recorded_frame [simp]:
  "w_metrics (recorded w now a) = w_metrics w" "w_bus (recorded w now a) = w_bus w"
  "w_esc (recorded w now a) = w_esc w" "w_fails (recorded w now a) = w_fails w"
  "w_alerts (recorded w now a) = w_alerts (snd (alerts_create w a))"
  by (simp_all add: recorded_def emit_def alerts_create_def add_active_alert_def Let_def)

lemma handle_trigger_gauge:
  assumes g: "gauge_ok base w"
  shows "gauge_ok base (snd (handle_trigger env w now d))"
proof -
  have ok: "schema_ok w" using g by (simp add: gauge_ok_def)
  have ok': "schema_ok (snd (handle_trigger env w now d))" using handle_trigger_keeps ok by blast
  show ?thesis
  proof (cases rule: handle_trigger_cases [of env w now d])
    case unchanged
    with g ok' show ?thesis by (simp add: gauge_ok_def)
  next
    case (created evt m w1)
    let ?a = "new_alert (w_uuid w (w_uuid_next w)) m evt now"
    let ?rec = "recorded w1 now ?a"
    have w1: "w_alerts w1 = w_alerts w" "w_gauge w1 = w_gauge w" "w_metrics w1 = w_metrics w" "schema_ok w1"
      using created(3) ok by (auto simp: new_uuid_def)
    have a: "al_status ?a = AlertFiring" "is_active ?a" by (simp_all add: new_alert_def is_active_def)
    have rec_ok: "schema_ok ?rec" unfolding recorded_def by (intro op_keeps w1(4))
    have rows: "w_alerts ?rec = w_alerts w @ [row_of_alert ?a]" using created(4) w1(1) by simp
    have "w_gauge ?rec org = w_gauge w org + (if w_metrics w \<and> al_org ?a = org then 1 else 0)" for org
      using created(4) w1 by (simp add: recorded_def add_active_alert_def)
    with g rec_ok have grec: "gauge_ok base ?rec"
      using a(2) by (simp add: gauge_ok_def rows contribution_def w1(3) del: recorded_frame(5))
    have "rows_active ?a (w_alerts ?rec)"
      unfolding rows_active_def
    proof (intro ballI impI)
      fix r assume r: "r \<in> set (w_alerts ?rec)" "al_id (row_alert r) = al_id ?a"
      have "row_of_alert ?a \<in> set (w_alerts ?rec)" unfolding rows by simp
      then have "r = row_of_alert ?a" using schema_ok_row_unique [OF rec_ok r(1)] r(2) by simp
      then show "is_active (row_alert r)" using a(2) by simp
    qed
    from tick_effect_gauge [OF grec start_escalation_effect _ _ a(1) this]
    show ?thesis
      using created(5) ok' same_config_metrics [OF same_config_start] by metis
  qed
qed

lemma firing_snapshot:
  assumes "schema_ok w" "alerts_list_firing w = Inr as" "a \<in> set as"
  shows "al_status a = AlertFiring" "rows_active a (w_alerts w)"
    "\<exists>r \<in> set (w_alerts w). row_alert r = a"
proof -
  from assms(2,3) obtain r where r: "r \<in> set (w_alerts w)" "row_alert r = a" "al_status a = AlertFiring"
    by (auto simp: alerts_list_firing_def split: if_splits)
  then show "al_status a = AlertFiring" "\<exists>r \<in> set (w_alerts w). row_alert r = a" by blast+
  show "rows_active a (w_alerts w)"
    unfolding rows_active_def
  proof (intro ballI impI)
    fix x assume x: "x \<in> set (w_alerts w)" "al_id (row_alert x) = al_id a"
    then have "x = r" using schema_ok_row_unique [OF assms(1) x(1) r(1)] r(2) by simp
    with r show "is_active (row_alert x)" by (simp add: is_active_def)
  qed
qed

lemma process_firing_gauge:
  assumes g: "gauge_ok base w"
  shows "gauge_ok base (process_firing_alerts env w now)"
proof (cases "alerts_list_firing w")
  case (Inl e)
  with g show ?thesis by (simp add: process_firing_alerts_def)
next
  case (Inr as)
  have ok: "schema_ok w" using g by (simp add: gauge_ok_def)
  have "gauge_ok base (foldl (process_alert env now) w as)
    \<and> (\<forall>b \<in> set as. rows_active b (w_alerts (foldl (process_alert env now) w as)))"
  proof (rule foldl_keeps)
    show "gauge_ok base w \<and> (\<forall>b \<in> set as. rows_active b (w_alerts w))"
      using g firing_snapshot(2) [OF ok Inr] by blast
  next
    fix v a assume a: "a \<in> set as" and v: "gauge_ok base v \<and> (\<forall>b \<in> set as. rows_active b (w_alerts v))"
    have f: "al_status a = AlertFiring" using firing_snapshot(1) [OF ok Inr a] .
    have "schema_ok (process_alert env now v a)" using process_alert_keeps v by (auto simp: gauge_ok_def)
    with v a f show "gauge_ok base (process_alert env now v a)
        \<and> (\<forall>b \<in> set as. rows_active b (w_alerts (process_alert env now v a)))"
      using tick_effect_gauge [OF _ process_alert_effect] tick_effect_rows_active [OF process_alert_effect f]
        same_config_metrics [OF same_config_process_alert] by metis
  qed
  with Inr show ?thesis by (simp add: process_firing_alerts_def)
qed

section \<open>The engine as a transition system\<close>

text \<open>
  One step is one handler call or one tick; between them the API may edit configuration (monitors
  are added but not deleted), faults may come and go, and messages may be published.
\<close>

inductive engine_step :: "envelope \<Rightarrow> world \<Rightarrow> world \<Rightarrow> bool" for env :: envelope where
  trigger: "engine_step env w (snd (handle_trigger env w now d))"
| recover: "engine_step env w (snd (handle_recover w now d))"
| ack: "engine_step env w (snd (handle_ack w now d'))"
| tick: "engine_step env w (process_firing_alerts env w now)"
| environment: "w_alerts w' = w_alerts w \<Longrightarrow> w_events w' = w_events w \<Longrightarrow> w_esc w' = w_esc w \<Longrightarrow>
    w_gauge w' = w_gauge w \<Longrightarrow> w_metrics w' = w_metrics w \<Longrightarrow>
    set (map mon_id (w_monitors w)) \<subseteq> set (map mon_id (w_monitors w')) \<Longrightarrow> engine_step env w w'"

inductive_cases engine_stepE: "engine_step env w w'"

lemma environment_keeps:
  assumes "schema_ok w" "w_alerts w' = w_alerts w" "w_events w' = w_events w" "w_esc w' = w_esc w"
    "set (map mon_id (w_monitors w)) \<subseteq> set (map mon_id (w_monitors w'))"
  shows "schema_ok w'"
  using assms unfolding schema_ok_def alert_ids_def has_alert_def has_monitor_def by auto

lemma environment_gauge:
  assumes "gauge_ok base w" "w_alerts w' = w_alerts w" "w_events w' = w_events w" "w_esc w' = w_esc w"
    "w_gauge w' = w_gauge w" "w_metrics w' = w_metrics w"
    "set (map mon_id (w_monitors w)) \<subseteq> set (map mon_id (w_monitors w'))"
  shows "gauge_ok base w'"
proof -
  have "schema_ok w'" using environment_keeps assms(1-4,7) unfolding gauge_ok_def by blast
  with assms(1-6) show ?thesis by (simp add: gauge_ok_def)
qed

lemma engine_step_gauge: "engine_step env w w' \<Longrightarrow> gauge_ok base w \<Longrightarrow> gauge_ok base w'"
proof (induction rule: engine_step.induct)
  case (environment w' w)
  then show ?case by (rule environment_gauge [rotated])
qed (rule handle_trigger_gauge handle_recover_gauge handle_ack_gauge process_firing_gauge; assumption)+

interpretation engine_gauge: invariant_system "engine_step env" "gauge_ok base" for env base
  by unfold_locales (rule engine_step_gauge)

end
