(* ===== verification/EscalationSpec.thy ===== *)
theory EscalationSpec imports Escalation begin

text \<open>
  What the escalation engine guarantees: the invariant of its runs, the effect of every handler, the
  jobs a step produces, and why escalation ends; and two behaviours that lose work.
\<close>

section \<open>Runs\<close>

lemma same_config_after_resolve: "same_config w (after_resolve w now a)"
  unfolding after_resolve_def Let_def
  by (rule same_config_trans [OF same_config_ops(9)], rule same_config_trans [OF same_config_ops(6)],
      rule same_config_trans [OF same_config_create_event], rule same_config_ops(7))

lemma same_config_alerts_update: "alerts_update w a = (r, w1) \<Longrightarrow> same_config w w1"
  using same_config_ops(3) [of w a] by simp

lemma same_config_auto_resolve: "same_config w (auto_resolve w now m)"
proof (induction w now m rule: auto_resolve.induct)
  case (1 w now m)
  show ?case
  proof (cases "alerts_get_active w m")
    case (Inl e)
    then show ?thesis by (subst auto_resolve.simps) simp
  next
    case (Inr a)
    obtain r w1 where u: "alerts_update w (resolved_alert a now) = (r, w1)" by fastforce
    note c = same_config_alerts_update [OF u]
    show ?thesis
    proof (cases r)
      case None
      from 1 [OF Inr u [symmetric] None] same_config_after_resolve c
      have "same_config w (auto_resolve (after_resolve w1 now a) now m)"
        by (blast intro: same_config_trans)
      with Inr u None show ?thesis by (subst auto_resolve.simps) simp
    next
      case (Some e)
      with Inr u c show ?thesis by (subst auto_resolve.simps) simp
    qed
  qed
qed

lemma same_config_handle_recover: "same_config w (snd (handle_recover w now d))"
  unfolding handle_recover_def Let_def case_prod_unfold
  by (simp split: sum.split option.split)
    (meson same_config_trans same_config_ops(3) same_config_after_resolve same_config_auto_resolve)

lemma same_config_handle_ack: "same_config w (snd (handle_ack w now d))"
  unfolding handle_ack_def Let_def case_prod_unfold
  by (simp split: sum.split option.split)
    (meson same_config_trans same_config_ops(3,7) same_config_create_event)

lemma handle_trigger_metrics: "w_metrics (snd (handle_trigger env w now d)) = w_metrics w"
proof (cases rule: handle_trigger_cases [of env w now d])
  case (created evt m w1)
  have "w_metrics (recorded w1 now (new_alert (w_uuid w (w_uuid_next w)) m evt now)) = w_metrics w"
    using created(3) by (auto simp: new_uuid_def)
  then show ?thesis
    using same_config_metrics [OF same_config_start] created(5) by metis
qed simp

lemma engine_step_metrics: "engine_step env w w' \<Longrightarrow> w_metrics w' = w_metrics w"
  by (induction rule: engine_step.induct)
    (simp_all add: handle_trigger_metrics same_config_metrics [OF same_config_handle_recover]
      same_config_metrics [OF same_config_handle_ack] same_config_metrics [OF same_config_tick])

interpretation engine_metrics: invariant_system "engine_step env" "\<lambda>w. w_metrics w = b" for env b
  by unfold_locales (simp add: engine_step_metrics)

lemma active_unique_count:
  "active_unique rows \<Longrightarrow>
   length (filter (\<lambda>r. al_monitor (row_alert r) = m \<and> is_active (row_alert r)) rows) \<le> 1"
proof (induction rows)
  case (Cons r rows)
  have "filter (\<lambda>x. al_monitor (row_alert x) = m \<and> is_active (row_alert x)) rows = []"
    if "al_monitor (row_alert r) = m" "is_active (row_alert r)"
    using Cons.prems that by (auto simp: active_unique_def filter_empty_conv image_iff)
  moreover have "active_unique rows" using Cons.prems by (simp add: active_unique_def split: if_split_asm)
  ultimately show ?case using Cons.IH by auto
qed simp


section \<open>A trigger\<close>

lemma get_active_none:
  "alerts_get_active w m = Inl ErrNotFound \<Longrightarrow> r \<in> set (w_alerts w) \<Longrightarrow>
   is_active (row_alert r) \<Longrightarrow> al_monitor (row_alert r) \<noteq> m"
  by (auto simp: alerts_get_active_def filter_empty_conv split: if_splits option.splits)

lemma monitors_get_SomeD: "monitors_get w i = Inr m \<Longrightarrow> mon_id m = i \<and> m \<in> set (w_monitors w)"
  by (auto simp: monitors_get_def split: if_splits option.splits dest!: find_SomeD)

lemma alerts_create_succeeds:
  assumes "schema_ok w" "alerts_get_active w (al_monitor a) = Inl ErrNotFound"
    "monitors_get w (al_monitor a) = Inr m" "\<not> w_fails w AlertsInsert (al_id a)"
    "al_id a \<notin> set (alert_ids w)"
  shows "alerts_create w a = (None, w\<lparr>w_alerts := w_alerts w @ [row_of_alert a]\<rparr>)"
proof -
  have "has_monitor w (al_monitor a)"
    using monitors_get_SomeD [OF assms(3)] by (metis has_monitor_def image_eqI list.set_map)
  moreover have "active_unique (w_alerts w @ [row_of_alert a])"
    using assms(1) get_active_none [OF assms(2), symmetric]
    by (auto simp: active_unique_def schema_ok_def)
  ultimately show ?thesis using assms(4,5) by (simp add: alerts_create_def Let_def has_alert_ids)
qed

lemma set_columns_row_of_alert:
  "set_alert_columns (a\<lparr>al_current_step := s\<rparr>) (row_of_alert a) = row_of_alert (a\<lparr>al_current_step := s\<rparr>)"
  by (cases a) (simp add: set_alert_columns_def row_of_alert_def)

lemma tick_effect_new_row:
  assumes "tick_effect a w w'" "w_alerts w = rows @ [row_of_alert a]"
    "al_id a \<notin> set (map (\<lambda>r. al_id (row_alert r)) rows)"
  shows "\<exists>s. w_alerts w' = rows @ [row_of_alert (a\<lparr>al_current_step := s\<rparr>)]"
proof (cases "w_alerts w' = w_alerts w")
  case True
  then show ?thesis using assms(2) by (intro exI [of _ "al_current_step a"]) simp
next
  case False
  then obtain s where s: "w_alerts w' = update_where (\<lambda>r. al_id (row_alert r) = al_id a)
      (set_alert_columns (a\<lparr>al_current_step := s\<rparr>)) (rows @ [row_of_alert a])"
    using assms(1,2) by (auto simp: tick_effect_def)
  moreover have "update_where (\<lambda>r. al_id (row_alert r) = al_id a) f rows = rows" for f
    using assms(3) by (intro update_where_none) (auto dest: notin_mapD)
  ultimately show ?thesis
    by (intro exI [of _ s]) (simp add: update_where_def set_columns_row_of_alert)
qed

lemma trigger_new_row:
  assumes "schema_ok w" and "monitors_get w (te_monitor evt) = Inr m"
    and "alerts_get_active w (te_monitor evt) = Inl ErrNotFound"
    and "i = w_uuid w (w_uuid_next w)" "i \<notin> set (alert_ids w)" "\<not> w_fails w AlertsInsert i"
  shows "(\<exists>s. w_alerts (snd (handle_trigger env w now (Some evt))) =
            w_alerts w @ [row_of_alert ((new_alert i m evt now)\<lparr>al_current_step := s\<rparr>)])
    \<and> (mon_muted m \<or> mon_policy m = [] \<longrightarrow>
         w_bus (snd (handle_trigger env w now (Some evt))) = w_bus w
         \<and> w_esc (snd (handle_trigger env w now (Some evt))) = w_esc w)"
proof -
  let ?a = "new_alert i m evt now"
  let ?w1 = "w\<lparr>w_uuid_next := Suc (w_uuid_next w)\<rparr>"
  have a: "al_monitor ?a = te_monitor evt" "al_id ?a = i" by (simp_all add: new_alert_def)
  have c: "alerts_create ?w1 ?a = (None, ?w1\<lparr>w_alerts := w_alerts w @ [row_of_alert ?a]\<rparr>)"
  proof -
    have "alerts_get_active ?w1 x = alerts_get_active w x" "monitors_get ?w1 x = monitors_get w x" for x
      by (simp_all add: alerts_get_active_def monitors_get_def)
    then show ?thesis
      using alerts_create_succeeds [of ?w1 ?a m] assms a by (simp add: alert_ids_def)
  qed
  have t: "handle_trigger env w now (Some evt) = start_escalation env (recorded ?w1 now ?a) now m ?a"
    using c assms(2-4) by (simp add: handle_trigger_def new_uuid_def Let_def recorded_def) (simp add: new_alert_def)
  have "\<exists>s. w_alerts (snd (start_escalation env (recorded ?w1 now ?a) now m ?a)) =
      w_alerts w @ [row_of_alert (?a\<lparr>al_current_step := s\<rparr>)]"
    using assms(5) a(2) c by (intro tick_effect_new_row [OF start_escalation_effect]) (auto simp: alert_ids_def)
  moreover have "w_bus (recorded ?w1 now ?a) = w_bus w" "w_esc (recorded ?w1 now ?a) = w_esc w" by simp_all
  ultimately show ?thesis unfolding t by (auto simp: start_escalation_def)
qed

text \<open>
  A trigger for a monitor without an active alert records exactly one new alert, firing, in the
  monitor's organisation and with the severity the monitor configures for the reported status
  (critical, or warning when degraded, when it configures none); every other alert row is left
  alone. A muted monitor, or one without a policy, gets its alert but no job and no escalation.
\<close>

theorem trigger_records_one_alert:
  assumes "schema_ok w" and "monitors_get w (te_monitor evt) = Inr m"
    and "alerts_get_active w (te_monitor evt) = Inl ErrNotFound"
    and "i = w_uuid w (w_uuid_next w)" "i \<notin> set (alert_ids w)" "\<not> w_fails w AlertsInsert i"
  shows "(\<exists>s. w_alerts (snd (handle_trigger env w now (Some evt))) =
            w_alerts w @ [row_of_alert ((new_alert i m evt now)\<lparr>al_current_step := s\<rparr>)])
    \<and> (mon_muted m \<or> mon_policy m = [] \<longrightarrow>
         w_bus (snd (handle_trigger env w now (Some evt))) = w_bus w
         \<and> w_esc (snd (handle_trigger env w now (Some evt))) = w_esc w)"
  using assms by (rule trigger_new_row)

lemma esc_upsert_err: "esc_upsert w st = (Some e, w') \<Longrightarrow> w' = w"
  by (auto simp: esc_upsert_def split: if_splits)

lemma start_escalation_err:
  "start_escalation env w now m a = (Some e, w') \<Longrightarrow> w_esc w' = w_esc w"
  unfolding start_escalation_def Let_def
  by (auto split: if_splits sum.splits list.splits prod.splits option.splits dest: esc_upsert_err)

lemma get_active_some:
  assumes "\<not> w_fails w AlertsGetActive m" "r \<in> set (w_alerts w)" "is_active (row_alert r)"
    "al_monitor (row_alert r) = m"
  shows "\<exists>a. alerts_get_active w m = Inr a"
proof -
  have "filter (\<lambda>a. al_monitor a = m \<and> is_active a) (map row_alert (w_alerts w)) \<noteq> []"
    using assms(2-4) by (auto simp: filter_empty_conv)
  then show ?thesis using assms(1) by (auto simp: alerts_get_active_def split: option.split)
qed

definition heal :: "world \<Rightarrow> world" where
  "heal w = w\<lparr>w_fails := (\<lambda>_ _. False)\<rparr>"

lemma heal_simps [simp]:
  "w_alerts (heal w) = w_alerts w" "w_monitors (heal w) = w_monitors w" "w_esc (heal w) = w_esc w"
  "w_fails (heal w) = (\<lambda>_ _. False)"
  by (simp_all add: heal_def)

text \<open>
  An escalation whose start fails is lost. When the escalation state of a new alert cannot be
  written, the handler returns the error and the bus delivers the trigger again; but the alert has
  been recorded, so the redelivery does nothing even after the fault is gone, and no tick ever
  escalates the alert: it stays firing without a notification.
\<close>

theorem failed_escalation_start_is_lost:
  assumes "schema_ok w" and "monitors_get w (te_monitor evt) = Inr m"
    and "handle_trigger env w now (Some evt) = (Some e, w')"
  shows "handle_trigger env (heal w') now' (Some evt) = (None, heal w')
    \<and> (\<exists>r \<in> set (w_alerts w'). al_status (row_alert r) = AlertFiring
          \<and> al_monitor (row_alert r) = te_monitor evt \<and> al_id (row_alert r) \<notin> set (alert_ids w)
          \<and> process_alert env now' (heal w') (row_alert r) = heal w')"
proof -
  let ?i = "w_uuid w (w_uuid_next w)"
  obtain w1 where u: "new_uuid w = (?i, w1)" by (simp add: new_uuid_def)
  let ?a = "new_alert ?i m evt now"
  obtain r w2 where c: "alerts_create w1 ?a = (r, w2)" by fastforce
  have r: "r = None"
    using assms(2,3) u c by (auto simp: handle_trigger_def split: sum.splits option.splits)
  have w1: "w_alerts w1 = w_alerts w" "w_esc w1 = w_esc w" "w_monitors w1 = w_monitors w"
    using u by (auto simp: new_uuid_def)
  from c r have cr: "al_id ?a \<notin> set (alert_ids w)" "w2 = w1\<lparr>w_alerts := w_alerts w @ [row_of_alert ?a]\<rparr>"
    by (auto elim!: alerts_create_cases simp: has_alert_ids w1 alert_ids_def)
  have st: "start_escalation env (recorded w1 now ?a) now m ?a = (Some e, w')"
    using assms(2,3) u c r
    by (auto simp: handle_trigger_def Let_def recorded_def new_alert_def split: sum.splits)
  have rec: "w_alerts (recorded w1 now ?a) = w_alerts w @ [row_of_alert ?a]" using c cr(2) by simp
  have esc: "w_esc w' = w_esc w" using start_escalation_err [OF st] w1(2) by simp
  have mons: "w_monitors w' = w_monitors w"
  proof -
    have "w_monitors (recorded w1 now ?a) = w_monitors w1"
      by (simp add: recorded_def emit_def alerts_create_def add_active_alert_def Let_def)
    then show ?thesis using same_config_start [of "recorded w1 now ?a" env now m ?a] st w1(3)
      by (simp add: same_config_def)
  qed
  obtain s where s: "w_alerts w' = w_alerts w @ [row_of_alert (?a\<lparr>al_current_step := s\<rparr>)]"
    using tick_effect_new_row [OF _ rec] start_escalation_effect [of ?a "recorded w1 now ?a" env now m] st cr(1)
    by (auto simp: alert_ids_def)
  let ?r = "row_of_alert (?a\<lparr>al_current_step := s\<rparr>)"
  have r_in: "?r \<in> set (w_alerts w')" using s by simp
  have rp: "al_status (row_alert ?r) = AlertFiring" "al_monitor (row_alert ?r) = te_monitor evt"
    "al_id (row_alert ?r) = ?i" by (simp_all add: new_alert_def)
  have "monitors_get (heal w') (te_monitor evt) = Inr m"
    using assms(2) mons by (auto simp: monitors_get_def split: if_splits)
  moreover obtain x where "alerts_get_active (heal w') (te_monitor evt) = Inr x"
    using get_active_some [of "heal w'" _ ?r] r_in rp by (auto simp: is_active_def)
  ultimately have 1: "handle_trigger env (heal w') now' (Some evt) = (None, heal w')"
    by (simp add: handle_trigger_def)
  have "?i \<notin> es_alert ` set (w_esc w)"
    using cr(1) assms(1) by (auto simp: schema_ok_def has_alert_ids new_alert_def)
  then have "esc_get (heal w') ?i = Inl ErrNotFound"
    using esc by (auto simp: esc_get_def find_None_iff split: option.split dest: notin_mapD)
  then have "process_alert env now' (heal w') (row_alert ?r) = heal w'"
    by (simp add: process_alert_def rp(3) [simplified])
  moreover have "?i \<notin> set (alert_ids w)" using cr(1) by (simp add: new_alert_def)
  ultimately show ?thesis using 1 r_in rp by metis
qed

section \<open>Recovery and acknowledgement\<close>

lemma active_unique_filter:
  assumes "active_unique rows"
    and "\<And>r. is_active (row_alert (f r)) \<Longrightarrow> is_active (row_alert r)"
    and "\<And>r. al_monitor (row_alert (f r)) = al_monitor (row_alert r)"
  shows "active_unique (map f rows)"
  using assms(1)
proof (induction rows)
  case (Cons r rows)
  have tl: "active_unique rows" using Cons.prems by (simp add: active_unique_def split: if_split_asm)
  show ?case
  proof (cases "is_active (row_alert (f r))")
    case True
    then have "\<And>x. x \<in> set rows \<Longrightarrow> is_active (row_alert x) \<Longrightarrow> al_monitor (row_alert r) \<noteq> al_monitor (row_alert x)"
      using Cons.prems assms(2) by (auto simp: active_unique_def dest: notin_mapD)
    then have "\<forall>x \<in> set rows. is_active (row_alert (f x)) \<longrightarrow>
        al_monitor (row_alert (f x)) \<noteq> al_monitor (row_alert (f r))"
      using assms(2,3) by metis
    then have "al_monitor (row_alert (f r)) \<notin>
        (\<lambda>x. al_monitor (row_alert x)) ` {x \<in> f ` set rows. is_active (row_alert x)}"
      by auto
    with True Cons.IH [OF tl] show ?thesis by (simp add: active_unique_def)
  next
    case False
    with Cons.IH [OF tl] show ?thesis by (simp add: active_unique_def)
  qed
qed (simp add: active_unique_def)

lemma alerts_update_succeeds:
  assumes "schema_ok w" "\<not> w_fails w AlertsUpdate (al_id a)" "al_id a \<in> set (alert_ids w)"
    and act: "\<And>r. r \<in> set (w_alerts w) \<Longrightarrow> al_id (row_alert r) = al_id a \<Longrightarrow>
      al_status a \<noteq> AlertResolved \<Longrightarrow> is_active (row_alert r)"
  shows "alerts_update w a = (None, w\<lparr>w_alerts := update_where (\<lambda>r. al_id (row_alert r) = al_id a)
           (set_alert_columns a) (w_alerts w)\<rparr>)"
proof -
  let ?f = "\<lambda>r. if al_id (row_alert r) = al_id a then (if r \<in> set (w_alerts w) then set_alert_columns a r else r) else r"
  have "active_unique (map ?f (w_alerts w))"
    using assms(1) act by (intro active_unique_filter) (auto simp: schema_ok_def is_active_def split: if_splits)
  moreover have "map ?f (w_alerts w) = update_where (\<lambda>r. al_id (row_alert r) = al_id a) (set_alert_columns a) (w_alerts w)"
    by (auto simp: update_where_def)
  ultimately show ?thesis
    using assms(2,3) by (simp add: alerts_update_def alerts_write_def Let_def has_alert_ids)
qed

lemma get_active_row:
  assumes "alerts_get_active w m = Inr a"
  shows "al_id a \<in> set (alert_ids w)" "\<exists>r \<in> set (w_alerts w). row_alert r = a" "al_monitor a = m" "is_active a"
  using alerts_get_active_SomeD [OF assms] by (auto simp: alert_ids_def)

lemma auto_resolve_idle:
  "(\<And>r. r \<in> set (w_alerts w) \<Longrightarrow> al_monitor (row_alert r) = m \<Longrightarrow> \<not> is_active (row_alert r)) \<Longrightarrow>
   auto_resolve w now m = w"
  using get_active_row [of w m] by (cases "alerts_get_active w m") (simp add: auto_resolve.simps, blast)

lemma recover_effect:
  fixes now :: gotime
  assumes ok: "schema_ok w" and a: "alerts_get_active w (te_monitor evt) = Inr a"
    and f: "\<not> w_fails w AlertsUpdate (al_id a)"
  shows "fst (handle_recover w now (Some evt)) = None
    \<and> w_alerts (snd (handle_recover w now (Some evt))) = update_where (\<lambda>r. al_id (row_alert r) = al_id a)
        (set_alert_columns (resolved_alert a now)) (w_alerts w)
    \<and> (\<forall>r \<in> set (w_alerts (snd (handle_recover w now (Some evt)))). al_monitor (row_alert r) = te_monitor evt \<longrightarrow> \<not> is_active (row_alert r))
    \<and> (\<not> w_fails w EscDelete (al_id a) \<longrightarrow> w_esc (snd (handle_recover w now (Some evt))) = delete_where (\<lambda>s. es_alert s = al_id a) (w_esc w))"
proof -
  note row = get_active_row [OF a]
  obtain r where r: "r \<in> set (w_alerts w)" "row_alert r = a" using row(2) by blast
  let ?rows = "update_where (\<lambda>r. al_id (row_alert r) = al_id a) (set_alert_columns (resolved_alert a now)) (w_alerts w)"
  let ?w1 = "w\<lparr>w_alerts := ?rows\<rparr>"
  have ra: "al_id (resolved_alert a now) = al_id a" "al_status (resolved_alert a now) = AlertResolved"
    by (simp_all add: resolved_alert_def)
  have u: "alerts_update w (resolved_alert a now) = (None, ?w1)"
    using alerts_update_succeeds [OF ok, of "resolved_alert a now"] f row(1) ra by simp
  have none: "\<not> is_active (row_alert x)" if x: "x \<in> set ?rows" "al_monitor (row_alert x) = te_monitor evt" for x
  proof (cases "x \<in> set (w_alerts w) \<and> al_id (row_alert x) \<noteq> al_id a")
    case True
    have "x \<noteq> r" using True r by auto
    then show ?thesis
      using active_unique_two [of "w_alerts w" x r] ok True r x(2) row(3,4) by (auto simp: schema_ok_def)
  next
    case False
    with x(1) obtain y where "x = set_alert_columns (resolved_alert a now) y"
      by (auto simp: set_update_where)
    then show ?thesis by (simp add: is_active_def ra)
  qed
  let ?w2 = "after_resolve ?w1 now a"
  have idle: "auto_resolve ?w2 now (te_monitor evt) = ?w2" using none by (intro auto_resolve_idle) simp
  have "handle_recover w now (Some evt) = (None, ?w2)"
    using u a idle by (auto simp: handle_recover_def Let_def split: sum.split dest!: monitors_get_SomeD)
  moreover have "\<not> w_fails w EscDelete (al_id a) \<longrightarrow> w_esc ?w2 = delete_where (\<lambda>s. es_alert s = al_id a) (w_esc w)"
    by (simp add: after_resolve_def Let_def esc_delete_def add_active_alert_def)
  ultimately show ?thesis using none by simp
qed

text \<open>
  C32: A recovery resolves the monitor's active alert, at the recovery's instant, and changes no other
  row; afterwards no alert of the monitor is active, so the auto-resolve loop finds nothing to do,
  and the alert's escalation state is gone unless its deletion failed.
\<close>

theorem recover_resolves_the_active_alert:
  fixes now :: gotime
  assumes ok: "schema_ok w" and a: "alerts_get_active w (te_monitor evt) = Inr a"
    and f: "\<not> w_fails w AlertsUpdate (al_id a)"
  defines "w' \<equiv> snd (handle_recover w now (Some evt))"
  shows "fst (handle_recover w now (Some evt)) = None
    \<and> w_alerts w' = update_where (\<lambda>r. al_id (row_alert r) = al_id a)
        (set_alert_columns (resolved_alert a now)) (w_alerts w)
    \<and> (\<forall>r \<in> set (w_alerts w'). al_monitor (row_alert r) = te_monitor evt \<longrightarrow> \<not> is_active (row_alert r))
    \<and> (\<not> w_fails w EscDelete (al_id a) \<longrightarrow> w_esc w' = delete_where (\<lambda>s. es_alert s = al_id a) (w_esc w))"
  unfolding w'_def using assms(1-3) by (rule recover_effect)

text \<open>
  An acknowledgement moves exactly the named alert to acknowledged, by the acking user and at the
  handler's instant, and touches neither other alerts nor any escalation state; for an alert that is
  already resolved it does nothing at all.
\<close>

theorem ack_acknowledges_only_that_alert:
  fixes now :: gotime
  assumes ok: "schema_ok w" and a: "alerts_get w (ack_alert evt) = Inr a"
    and f: "\<not> w_fails w AlertsUpdate (al_id a)"
  defines "w' \<equiv> snd (handle_ack w now (Some evt))"
  shows "if al_status a = AlertResolved then w' = w
    else w_alerts w' = update_where (\<lambda>r. al_id (row_alert r) = ack_alert evt)
           (set_alert_columns (acked_alert a now (ack_user evt))) (w_alerts w)
         \<and> w_esc w' = w_esc w \<and> w_bus w' = w_bus w"
proof (cases "al_status a = AlertResolved")
  case True
  then show ?thesis by (simp add: w'_def handle_ack_def a)
next
  case False
  obtain r where r: "al_id a = ack_alert evt" "r \<in> set (w_alerts w)" "row_alert r = a"
    using alerts_get_SomeD [OF a] by blast
  have "x = r" if "x \<in> set (w_alerts w)" "al_id (row_alert x) = al_id a" for x
    using schema_ok_row_unique [OF ok that(1) r(2)] that(2) r(3) by simp
  then have "is_active (row_alert x)" if "x \<in> set (w_alerts w)" "al_id (row_alert x) = al_id a" for x
    using that False r(3) by (auto simp: is_active_def)
  moreover have "al_id a \<in> set (alert_ids w)" using r(2,3) by (auto simp: alert_ids_def)
  ultimately have "alerts_update w (acked_alert a now (ack_user evt)) =
      (None, w\<lparr>w_alerts := update_where (\<lambda>r. al_id (row_alert r) = al_id a)
         (set_alert_columns (acked_alert a now (ack_user evt))) (w_alerts w)\<rparr>)"
    using alerts_update_succeeds [OF ok, of "acked_alert a now (ack_user evt)"] f by simp
  with False a r(1) show ?thesis by (simp add: w'_def handle_ack_def Let_def)
qed

section \<open>The jobs of a step\<close>

text \<open>Who is notified, through which channel and with which configuration.\<close>

definition target_deliveries ::
  "envelope \<Rightarrow> world \<Rightarrow> monitor \<Rightarrow> step_target \<Rightarrow> (notification_channel \<times> string \<times> string) list" where
  "target_deliveries env w m t =
     (case (resolve_target w t, channels_get w (tgt_channel t)) of
        (Inr users, Inr ch) \<Rightarrow>
          (if ch_org ch = mon_org m \<and> ch_enabled ch
           then (case versioned_config env (ch_config ch) of
                   None \<Rightarrow> []
                 | Some cfg \<Rightarrow> map (\<lambda>u. (ch, cfg, u)) users)
           else [])
      | _ \<Rightarrow> [])"

definition published ::
  "alert \<Rightarrow> monitor \<Rightarrow> escalation_step \<Rightarrow> string list \<Rightarrow> (notification_channel \<times> string \<times> string) list
     \<Rightarrow> (string \<times> bus_payload) list" where
  "published a m st ids ds =
     map2 (\<lambda>i d. (''notify.request'', PayloadJob (job_for i a m st (fst d) (fst (snd d)) (snd (snd d))))) ids ds"

lemma published_append:
  "length ids = length ds \<Longrightarrow> published a m st (ids @ ids') (ds @ ds') =
     published a m st ids ds @ published a m st ids' ds'"
  by (simp add: published_def)

lemma notify_user_bus:
  "w_bus (notify_user now a m st ch cfg w u) =
     w_bus w @ [(''notify.request'', PayloadJob (job_for (w_uuid w (w_uuid_next w)) a m st ch cfg u))]"
  by (simp add: notify_user_def new_uuid_def bus_publish_def)

lemma notify_users_bus:
  "\<exists>ids. length ids = length us \<and> w_bus (foldl (notify_user now a m st ch cfg) w us) =
     w_bus w @ published a m st ids (map (\<lambda>u. (ch, cfg, u)) us)"
proof (induction us arbitrary: w)
  case (Cons u us)
  obtain ids where "length ids = length us" "w_bus (foldl (notify_user now a m st ch cfg)
      (notify_user now a m st ch cfg w u) us) = w_bus (notify_user now a m st ch cfg w u) @
      published a m st ids (map (\<lambda>u. (ch, cfg, u)) us)"
    using Cons.IH by blast
  then show ?case
    by (intro exI [of _ "w_uuid w (w_uuid_next w) # ids"])
      (simp add: notify_user_bus published_def)
qed (simp add: published_def)

lemma notify_target_bus:
  "\<exists>ids. length ids = length (target_deliveries env w m t) \<and> w_bus (notify_target env now a m st w t) =
     w_bus w @ published a m st ids (target_deliveries env w m t)"
  using notify_users_bus [of _ now a m st _ _ w]
  by (auto simp: notify_target_def target_deliveries_def published_def split: sum.split option.split)

lemma deliveries_same_config:
  assumes "same_config w w'"
  shows "target_deliveries env w' m = target_deliveries env w m"
proof -
  have "members_list w' = members_list w" "channels_get w' = channels_get w"
    using assms by (auto simp: members_list_def channels_get_def same_config_def)
  then have "resolve_target w' t = resolve_target w t" "channels_get w' i = channels_get w i" for t i
    unfolding resolve_target_def by (simp_all only:)
  then show ?thesis by (intro ext) (simp only: target_deliveries_def)
qed

lemma notify_targets_bus:
  "\<exists>ids. length ids = length (concat (map (target_deliveries env w m) ts)) \<and>
     w_bus (foldl (notify_target env now a m st) w ts) =
       w_bus w @ published a m st ids (concat (map (target_deliveries env w m) ts))"
proof (induction ts arbitrary: w)
  case (Cons t ts)
  let ?w1 = "notify_target env now a m st w t"
  obtain ids where ids: "length ids = length (target_deliveries env w m t)"
    "w_bus ?w1 = w_bus w @ published a m st ids (target_deliveries env w m t)"
    using notify_target_bus by blast
  have "target_deliveries env ?w1 m = target_deliveries env w m"
    using deliveries_same_config [OF same_config_notify_target] by blast
  with Cons.IH [of ?w1] obtain ids' where ids': "length ids' = length (concat (map (target_deliveries env w m) ts))"
    "w_bus (foldl (notify_target env now a m st) ?w1 ts) =
       w_bus ?w1 @ published a m st ids' (concat (map (target_deliveries env w m) ts))" by auto
  then show ?case
    using ids by (intro exI [of _ "ids @ ids'"]) (simp add: published_append)
qed (simp add: published_def)

lemma notify_step_bus:
  assumes "targets_list w (step_id st) = Inr ts" "\<not> suppressed w now m"
  shows "\<exists>ids. length ids = length (concat (map (target_deliveries env w m) ts))
    \<and> w_bus (notify_step env w now a m st state) =
        w_bus w @ published a m st ids (concat (map (target_deliveries env w m) ts))"
proof -
  let ?w1 = "snd (esc_upsert w (state\<lparr>es_last_notified := Some now\<rparr>))"
  have "target_deliveries env ?w1 m = target_deliveries env w m"
    using deliveries_same_config [OF same_config_ops(5)] by blast
  then show ?thesis
    using assms notify_targets_bus [of env ?w1 m ts now a st] by (simp add: notify_step_def)
qed

text \<open>
  C26: Unless a suppressing window mutes the monitor, in which case nothing changes, notifying a step
  publishes exactly one \<open>notify.request\<close> job for every user of every target of the step whose
  channel exists, is enabled and belongs to the monitor's organisation, in target order, and nothing
  else; the job carries that channel's type and its configuration behind the right version byte.
\<close>

theorem notify_step_publishes_exactly_the_deliveries:
  assumes "targets_list w (step_id st) = Inr ts"
  shows "if suppressed w now m then notify_step env w now a m st state = w
    else \<exists>ids. length ids = length (concat (map (target_deliveries env w m) ts))
      \<and> w_bus (notify_step env w now a m st state) =
          w_bus w @ published a m st ids (concat (map (target_deliveries env w m) ts))"
  using notify_step_bus [OF assms] by (simp add: notify_step_def)

section \<open>A tick that works on a stale alert\<close>

text \<open>
  A tick writes back the alert it listed, not the alert as it is. When an acknowledgement arrives
  between the listing and the tick's update, entering a step puts the alert back to firing and drops
  who acknowledged it and when.
\<close>

theorem tick_overwrites_concurrent_ack:
  assumes ok: "schema_ok w" and "al_status a = AlertFiring" and "\<not> w_fails w AlertsUpdate (al_id a)"
    and r: "r \<in> set (w_alerts w)" "al_id (row_alert r) = al_id a" "al_status (row_alert r) = AlertAcknowledged"
  shows "\<exists>r' \<in> set (w_alerts (enter_step env w now a m st state)). al_id (row_alert r') = al_id a
    \<and> al_status (row_alert r') = AlertFiring
    \<and> al_acked_by (row_alert r') = al_acked_by a
    \<and> al_acked_at (row_alert r') = map_option rfc3339 (al_acked_at a)"
proof -
  let ?a = "a\<lparr>al_current_step := step_id st\<rparr>" and ?w1 = "snd (esc_upsert w state)"
  have f: "w_fails ?w1 = w_fails w" using same_config_ops(5) [of w state] by (simp add: same_config_def)
  have "is_active (row_alert x)" if "x \<in> set (w_alerts w)" "al_id (row_alert x) = al_id a" for x
    using schema_ok_row_unique [OF ok that(1) r(1)] that(2) r(2,3) by (simp add: is_active_def)
  moreover have "al_id a \<in> set (alert_ids w)" using r(1,2) by (force simp: alert_ids_def)
  ultimately have "w_alerts (snd (alerts_update ?w1 ?a)) =
      update_where (\<lambda>r. al_id (row_alert r) = al_id a) (set_alert_columns ?a) (w_alerts w)"
    using alerts_update_succeeds [of ?w1 ?a] snd_keeps(5) [OF ok] assms(3) by (simp add: f alert_ids_def)
  then have "w_alerts (enter_step env w now a m st state) =
      update_where (\<lambda>r. al_id (row_alert r) = al_id a) (set_alert_columns ?a) (w_alerts w)"
    by (simp add: enter_step_def Let_def)
  moreover have "set_alert_columns ?a r \<in>
      set (update_where (\<lambda>r. al_id (row_alert r) = al_id a) (set_alert_columns ?a) (w_alerts w))"
    using r(1,2) by (auto simp: set_update_where)
  moreover have "al_acked_by (row_alert (set_alert_columns ?a r)) = al_acked_by a"
    "al_acked_at (row_alert (set_alert_columns ?a r)) = map_option rfc3339 (al_acked_at a)"
    by (simp_all add: set_alert_columns_def)
  ultimately show ?thesis using assms(2) r(2) by (intro bexI [of _ "set_alert_columns ?a r"]) auto
qed

end
