(* ===== verification/EscalationEnds.thy ===== *)
theory EscalationEnds imports EscalationSpec begin

text \<open>
  Escalation of an alert ends: every tick that does anything uses up a retry, moves to a later step,
  or spends one of the loops the policy allows.
\<close>

section \<open>The stored state after a write\<close>

text \<open>The parts of an escalation state that decide how far the escalation is.\<close>

definition same_progress :: "escalation_state \<Rightarrow> escalation_state \<Rightarrow> bool" where
  "same_progress s s' \<longleftrightarrow>
     es_alert s' = es_alert s \<and> es_step s' = es_step s \<and> es_retry s' = es_retry s
   \<and> get_loop_count s' = get_loop_count s"

lemma stored_esc_progress: "same_progress s (stored_esc s)"
  by (simp add: same_progress_def stored_esc_def get_loop_count_def unmarshal_def)

lemma notified_progress: "same_progress s (s\<lparr>es_last_notified := t\<rparr>)"
  by (simp add: same_progress_def get_loop_count_def)

lemma same_progress_trans: "same_progress r s \<Longrightarrow> same_progress s t \<Longrightarrow> same_progress r t"
  by (simp add: same_progress_def)

lemma find_update_all:
  "List.find (\<lambda>s. k s = i) rows \<noteq> None \<Longrightarrow> k x = i \<Longrightarrow>
   List.find (\<lambda>s. k s = i) (update_where (\<lambda>s. k s = i) (\<lambda>_. x) rows) = Some x"
  by (induction rows) (auto split: if_splits)

lemma esc_get_upsert:
  assumes "\<not> w_fails w EscUpsert (es_alert s)" "\<not> w_fails w EscGet (es_alert s)" "has_alert w (es_alert s)"
  shows "esc_get (snd (esc_upsert w s)) (es_alert s) = Inr (stored_esc s)"
proof (cases "es_alert s \<in> es_alert ` set (w_esc w)")
  case True
  then have "List.find (\<lambda>t. es_alert t = es_alert s) (w_esc w) \<noteq> None"
    by (auto simp: find_None_iff)
  then have "List.find (\<lambda>t. es_alert t = es_alert s)
      (update_where (\<lambda>t. es_alert t = es_alert s) (\<lambda>_. stored_esc s) (w_esc w)) = Some (stored_esc s)"
    by (rule find_update_all) (simp add: stored_esc_def)
  with True assms show ?thesis by (simp add: esc_upsert_def esc_get_def)
next
  case False
  then have "List.find (\<lambda>t. es_alert t = es_alert s) (w_esc w) = None"
    by (auto simp: find_None_iff dest: notin_mapD)
  moreover have "es_alert (stored_esc s) = es_alert s" by (simp add: stored_esc_def)
  ultimately show ?thesis using False assms by (simp add: esc_upsert_def esc_get_def find_append)
qed

lemma same_config_fails: "same_config w w' \<Longrightarrow> w_fails w' = w_fails w"
  by (simp add: same_config_def)

lemma esc_get_cong: "w_esc w' = w_esc w \<Longrightarrow> w_fails w' = w_fails w \<Longrightarrow> esc_get w' i = esc_get w i"
  by (simp add: esc_get_def)

lemma notify_step_esc:
  assumes w: "\<not> w_fails w EscUpsert (es_alert s)" "\<not> w_fails w EscGet (es_alert s)" "has_alert w (es_alert s)"
    and g: "esc_get w (es_alert s) = Inr s0" "same_progress s s0"
  shows "\<exists>s'. esc_get (notify_step env w now a m st s) (es_alert s) = Inr s' \<and> same_progress s s'"
proof (cases "notify_step env w now a m st s = w")
  case True
  with g show ?thesis by simp
next
  case False
  let ?s = "s\<lparr>es_last_notified := Some now\<rparr>"
  let ?w1 = "snd (esc_upsert w ?s)"
  from False obtain ts where "notify_step env w now a m st s = foldl (notify_target env now a m st) ?w1 ts"
    by (auto simp: notify_step_def split: if_splits sum.splits)
  moreover have "w_esc (foldl (notify_target env now a m st) ?w1 ts) = w_esc ?w1"
    by (simp add: notify_targets_frame)
  moreover have "w_fails (foldl (notify_target env now a m st) ?w1 ts) = w_fails ?w1"
    by (rule same_config_fails, rule same_config_foldl, rule same_config_notify_target)
  ultimately have "esc_get (notify_step env w now a m st s) (es_alert s) = esc_get ?w1 (es_alert s)"
    by (metis esc_get_cong)
  also have "\<dots> = Inr (stored_esc ?s)" using esc_get_upsert [of w ?s] w by simp
  finally show ?thesis
    using same_progress_trans [OF notified_progress stored_esc_progress] by blast
qed

lemma has_alert_cong: "w_alerts w' = w_alerts w \<Longrightarrow> has_alert w' i = has_alert w i"
  by (simp add: has_alert_def)

lemma has_alert_update:
  "has_alert (snd (alerts_update w a)) i = has_alert w i"
proof -
  have "map (\<lambda>r. al_id (row_alert r)) (update_where p (set_alert_columns a) rows) =
        map (\<lambda>r. al_id (row_alert r)) rows" for p rows
    by (rule map_update_where) simp
  then show ?thesis using alerts_update_rows [of w a] by (auto simp: has_alert_def simp del: set_map)
qed

lemma upsert_notify_esc:
  assumes w: "\<not> w_fails w EscUpsert (es_alert s)" "\<not> w_fails w EscGet (es_alert s)" "has_alert w (es_alert s)"
  shows "\<exists>s'. esc_get (notify_step env (snd (esc_upsert w s)) now a m st s) (es_alert s) = Inr s' \<and> same_progress s s'"
proof -
  let ?w1 = "snd (esc_upsert w s)"
  have f: "w_fails ?w1 = w_fails w" by (rule same_config_fails [OF same_config_ops(5)])
  have "esc_get ?w1 (es_alert s) = Inr (stored_esc s)" using esc_get_upsert w by blast
  then show ?thesis
    using notify_step_esc [of ?w1 s] w stored_esc_progress has_alert_cong [of ?w1 w] by (simp add: f)
qed

lemma enter_step_esc:
  assumes w: "\<not> w_fails w EscUpsert (es_alert s)" "\<not> w_fails w EscGet (es_alert s)" "has_alert w (es_alert s)"
  shows "\<exists>s'. esc_get (enter_step env w now a m st s) (es_alert s) = Inr s' \<and> same_progress s s'"
proof -
  let ?w1 = "snd (esc_upsert w s)"
  let ?a = "a\<lparr>al_current_step := step_id st\<rparr>"
  define w4 where "w4 = emit (create_event (snd (alerts_update ?w1 ?a)) now (al_id a) EventEscalated [] [])
     (CEAlertEscalated (al_org a) (al_id a) (al_monitor a) (step_position st)
        (step_channel_hint (create_event (snd (alerts_update ?w1 ?a)) now (al_id a) EventEscalated [] []) (step_id st)) now)"
  have "same_config ?w1 w4" unfolding w4_def
    by (rule same_config_trans [OF same_config_ops(3)], rule same_config_trans [OF same_config_create_event],
        rule same_config_ops(7))
  then have f: "w_fails w4 = w_fails w"
    using same_config_fails [OF same_config_ops(5)] same_config_fails by metis
  have e: "w_esc w4 = w_esc ?w1" by (simp add: w4_def)
  have "has_alert w4 i = has_alert w i" for i
    using has_alert_update [of ?w1 ?a i] has_alert_cong [of w4 "snd (alerts_update ?w1 ?a)" i]
      has_alert_cong [of ?w1 w i] by (simp add: w4_def)
  moreover have "esc_get w4 (es_alert s) = Inr (stored_esc s)"
    using esc_get_upsert [OF w] esc_get_cong [of w4 ?w1] e f same_config_fails [OF same_config_ops(5), of w s] by simp
  ultimately have "\<exists>s'. esc_get (notify_step env w4 now ?a m st s) (es_alert s) = Inr s' \<and> same_progress s s'"
    using notify_step_esc [of w4 s] w stored_esc_progress by (simp add: f)
  then show ?thesis by (simp add: enter_step_def Let_def w4_def)
qed

section \<open>The rank of an escalation\<close>

definition loops_left :: "escalation_policy \<Rightarrow> escalation_state \<Rightarrow> nat" where
  "loops_left pol s =
     (if pol_loop pol then (case pol_max_loops pol of None \<Rightarrow> 0 | Some n \<Rightarrow> nat (n - get_loop_count s)) else 0)"

definition policy_steps :: "world \<Rightarrow> string \<Rightarrow> escalation_step list" where
  "policy_steps w pol = sort_key step_position (filter (\<lambda>s. step_policy s = pol) (w_steps w))"

definition steps_after :: "world \<Rightarrow> string \<Rightarrow> int \<Rightarrow> nat" where
  "steps_after w pol pos = length (filter (\<lambda>s. step_policy s = pol \<and> pos < step_position s) (w_steps w))"

definition esc_rank :: "world \<Rightarrow> string \<Rightarrow> escalation_policy \<Rightarrow> escalation_state \<Rightarrow> nat \<times> nat \<times> nat" where
  "esc_rank w i pol s =
     (case List.find (\<lambda>st. step_id st = es_step s) (policy_steps w i) of
        None \<Rightarrow> (0, 0, 0)
      | Some cur \<Rightarrow> (loops_left pol s, steps_after w i (step_position cur), nat (step_repeat cur - es_retry s)))"

definition rank_order :: "((nat \<times> nat \<times> nat) \<times> nat \<times> nat \<times> nat) set" where
  "rank_order = less_than <*lex*> less_than <*lex*> less_than"

lemma wf_rank_order: "wf rank_order"
  by (simp add: rank_order_def wf_lex_prod)

lemma esc_rank_progress: "same_progress s s' \<Longrightarrow> esc_rank w i pol s' = esc_rank w i pol s"
  by (simp add: esc_rank_def same_progress_def loops_left_def split: option.split)

lemma find_policy_step:
  assumes "distinct (map step_id (w_steps w))" "st \<in> set (w_steps w)" "step_policy st = i"
  shows "List.find (\<lambda>x. step_id x = step_id st) (policy_steps w i) = Some st"
proof (rule find_distinct_key)
  show "distinct (map step_id (policy_steps w i))"
    using assms(1) by (auto simp: policy_steps_def distinct_map inj_on_def)
  show "st \<in> set (policy_steps w i)" using assms(2,3) by (simp add: policy_steps_def)
qed

lemma steps_after_less:
  assumes "st \<in> set (w_steps w)" "step_policy st = i" "pos < step_position st"
  shows "steps_after w i (step_position st) < steps_after w i pos"
proof -
  have split: "filter (\<lambda>s. step_policy s = i \<and> step_position st < step_position s) rows =
        filter (\<lambda>s. step_position st < step_position s) (filter (\<lambda>s. step_policy s = i \<and> pos < step_position s) rows)"
    for rows using assms(3) by (induction rows) auto
  have "length (filter (\<lambda>s. step_position st < step_position s)
      (filter (\<lambda>s. step_policy s = i \<and> pos < step_position s) (w_steps w))) <
    length (filter (\<lambda>s. step_policy s = i \<and> pos < step_position s) (w_steps w))"
    by (rule length_filter_less [of st]) (use assms in auto)
  then show ?thesis by (simp only: steps_after_def split)
qed

lemma get_set_loop_count:
  "- (2 ^ 63) \<le> n \<Longrightarrow> n < 2 ^ 63 \<Longrightarrow> get_loop_count (set_loop_count s n) = n"
  by (simp add: get_loop_count_def set_loop_count_def unmarshal_def get_int_def json_int64_def)

lemma get_loop_count_range: "- (2 ^ 63) \<le> get_loop_count s" 
proof -
  have "json_field json_int64 k kvs x = Some y \<Longrightarrow> - (2 ^ 63) \<le> x \<Longrightarrow> - (2 ^ 63) \<le> y" for k kvs x y
    by (induction kvs arbitrary: x)
      (auto simp: json_int64_def split: if_splits option.splits json.splits)
  then have "get_int k kvs = Some n \<Longrightarrow> - (2 ^ 63) \<le> n" for k kvs n by (auto simp: get_int_def)
  then show ?thesis
    by (auto simp: get_loop_count_def unmarshal_def split: option.split json.split)
qed

section \<open>Every working tick descends\<close>

definition bounded_policy :: "escalation_policy \<Rightarrow> bool" where
  "bounded_policy pol \<longleftrightarrow>
     (pol_loop pol \<longrightarrow> (case pol_max_loops pol of None \<Rightarrow> False | Some n \<Rightarrow> n < 2 ^ 63))"

lemma escalate_rank:
  fixes env :: envelope and now :: gotime and a :: alert
  assumes w: "\<not> w_fails w EscUpsert (es_alert s)" "\<not> w_fails w EscGet (es_alert s)" "has_alert w (es_alert s)"
    and ids: "distinct (map step_id (w_steps w))"
    and pol: "policies_get w (mon_policy m) = Inr pol" "bounded_policy pol"
    and cur: "List.find (\<lambda>st. step_id st = es_step s) (policy_steps w (mon_policy m)) = Some cur"
  defines "w' \<equiv> escalate env w now a m (policy_steps w (mon_policy m)) cur s"
  shows "w' = w \<or> (\<exists>s'. esc_get w' (es_alert s) = Inr s'
    \<and> (esc_rank w (mon_policy m) pol s', esc_rank w (mon_policy m) pol s) \<in> rank_order)"
proof -
  let ?i = "mon_policy m"
  have rank: "esc_rank w ?i pol s = (loops_left pol s, steps_after w ?i (step_position cur), nat (step_repeat cur - es_retry s))"
    using cur by (simp add: esc_rank_def)
  have at: "esc_rank w ?i pol t = (loops_left pol t, steps_after w ?i (step_position st), nat (step_repeat st - es_retry t))"
    if "st \<in> set (w_steps w)" "step_policy st = ?i" "es_step t = step_id st" for st t
    using find_policy_step [OF ids that(1,2)] that(3) by (simp add: esc_rank_def)
  have fin: ?thesis if "\<exists>s'. esc_get w' (es_alert s) = Inr s' \<and> same_progress t s'"
    "(esc_rank w ?i pol t, esc_rank w ?i pol s) \<in> rank_order" for t
    using that esc_rank_progress by (metis (no_types))
  consider (retry) "es_retry s < step_repeat cur"
    | (next_step) nxt where "\<not> es_retry s < step_repeat cur"
        "steps_next w ?i (step_position cur) = Inr (Some nxt)"
    | (last) "\<not> es_retry s < step_repeat cur" "\<And>nxt. steps_next w ?i (step_position cur) \<noteq> Inr (Some nxt)"
    by blast
  then show ?thesis
  proof cases
    case retry
    let ?t = "s\<lparr>es_retry := es_retry s + 1, es_entered_at := now\<rparr>"
    have "w' = notify_step env (snd (esc_upsert w ?t)) now a m cur ?t"
      using retry by (simp add: w'_def escalate_def Let_def)
    moreover have "loops_left pol ?t = loops_left pol s"
      by (simp add: loops_left_def get_loop_count_def split: option.split)
    then have "(esc_rank w ?i pol ?t, esc_rank w ?i pol s) \<in> rank_order"
      using retry cur unfolding rank by (simp add: esc_rank_def rank_order_def)
    ultimately show ?thesis using fin [of ?t] upsert_notify_esc [of w ?t] w by simp
  next
    case (next_step nxt)
    let ?t = "s\<lparr>es_step := step_id nxt, es_entered_at := now, es_retry := 0\<rparr>"
    let ?w0 = "record_escalation_step w (al_org a) (step_position nxt)"
    have n: "nxt \<in> set (w_steps w)" "step_policy nxt = ?i" "step_position cur < step_position nxt"
      using next_step(2) min_by_in by (fastforce simp: steps_next_def split: if_splits)+
    have "w' = enter_step env ?w0 now a m nxt ?t"
      using next_step by (simp add: w'_def escalate_def Let_def)
    moreover have "loops_left pol ?t = loops_left pol s"
      by (simp add: loops_left_def get_loop_count_def split: option.split)
    then have "(esc_rank w ?i pol ?t, esc_rank w ?i pol s) \<in> rank_order"
      using steps_after_less [OF n] at [OF n(1,2), of ?t] unfolding rank by (simp add: rank_order_def)
    ultimately show ?thesis
      using fin [of ?t] enter_step_esc [of ?w0 ?t] w by (simp add: has_alert_def)
  next
    case last
    show ?thesis
    proof (cases "steps_next w ?i (step_position cur) = Inr None \<and> pol_loop pol
        \<and> \<not> (case pol_max_loops pol of None \<Rightarrow> False | Some n \<Rightarrow> n \<le> get_loop_count s)")
      case False
      then have "w' = w" using last pol(1)
        by (auto simp: w'_def escalate_def Let_def split: sum.split option.split)
      then show ?thesis ..
    next
      case True
      then obtain n where n: "pol_max_loops pol = Some n" "get_loop_count s < n" "n < 2 ^ 63"
        using pol(2) by (auto simp: bounded_policy_def split: option.splits)
      let ?first = "hd (policy_steps w ?i)"
      let ?u = "s\<lparr>es_step := step_id ?first, es_entered_at := now, es_retry := 0\<rparr>"
      let ?t = "set_loop_count ?u (get_loop_count s + 1)"
      have "cur \<in> set (policy_steps w ?i)" using find_SomeD [OF cur] by blast
      then have "?first \<in> set (policy_steps w ?i)" by (cases "policy_steps w ?i") auto
      then have f: "?first \<in> set (w_steps w)" "step_policy ?first = ?i" by (auto simp: policy_steps_def)
      have "w' = enter_step env w now a m ?first ?t"
        using True last pol(1) by (simp add: w'_def escalate_def Let_def)
      moreover have "get_loop_count ?t = get_loop_count s + 1"
        using n(2,3) get_loop_count_range [of s] by (intro get_set_loop_count) linarith+
      then have "loops_left pol ?t < loops_left pol s" using True n by (simp add: loops_left_def)
      then have "(esc_rank w ?i pol ?t, esc_rank w ?i pol s) \<in> rank_order"
        using at [OF f, of ?t] unfolding rank by (simp add: rank_order_def set_loop_count_def)
      moreover have "es_alert ?t = es_alert s" by (simp add: set_loop_count_def)
      ultimately show ?thesis using fin [of ?t] enter_step_esc [of w ?t env now a m ?first] w by simp
    qed
  qed
qed

text \<open>The rank of an alert's escalation in a world; alerts without one have the least rank.\<close>

definition alert_rank :: "world \<Rightarrow> string \<Rightarrow> escalation_policy \<Rightarrow> string \<Rightarrow> nat \<times> nat \<times> nat" where
  "alert_rank w i pol j = (case esc_get w j of Inl _ \<Rightarrow> (0, 0, 0) | Inr s \<Rightarrow> esc_rank w i pol s)"

definition escalation_config_ok :: "world \<Rightarrow> alert \<Rightarrow> monitor \<Rightarrow> escalation_policy \<Rightarrow> bool" where
  "escalation_config_ok w a m pol \<longleftrightarrow>
     schema_ok w \<and> \<not> w_fails w EscUpsert (al_id a) \<and> distinct (map step_id (w_steps w))
   \<and> monitors_get w (al_monitor a) = Inr m \<and> policies_get w (mon_policy m) = Inr pol \<and> bounded_policy pol"

lemma config_ok_kept:
  assumes "escalation_config_ok w a m pol"
  shows "escalation_config_ok (process_alert env now w a) a m pol"
proof -
  have c: "same_config w (process_alert env now w a)" by (rule same_config_process_alert)
  have "monitors_get (process_alert env now w a) i = monitors_get w i"
    "policies_get (process_alert env now w a) i = policies_get w i" for i
    using c by (simp_all add: monitors_get_def policies_get_def same_config_def)
  with assms c process_alert_keeps show ?thesis by (simp add: escalation_config_ok_def same_config_def)
qed

lemma steps_list_Inr: "steps_list w i = Inr steps \<Longrightarrow> steps = policy_steps w i"
  by (simp add: steps_list_def policy_steps_def split: if_splits)

lemma process_alert_cases:
  obtains (idle) "process_alert env now w a = w"
  | (works) s m cur where "esc_get w (al_id a) = Inr s" "monitors_get w (al_monitor a) = Inr m"
      "List.find (\<lambda>st. step_id st = es_step s) (policy_steps w (mon_policy m)) = Some cur"
      "process_alert env now w a = escalate env w now a m (policy_steps w (mon_policy m)) cur s"
proof (cases "esc_get w (al_id a)")
  case (Inr s)
  note s = Inr
  show thesis
  proof (cases "monitors_get w (al_monitor a)")
    case (Inr m)
    note m = Inr
    show thesis
    proof (cases "steps_list w (mon_policy m)")
      case (Inr steps)
      show thesis
      proof (cases "List.find (\<lambda>st. step_id st = es_step s) steps")
        case (Some cur)
        then show thesis
          using s m Inr steps_list_Inr [OF Inr]
          by (cases "mon_policy m = [] \<or> time_sub now (es_entered_at s) < wait_duration cur")
            (auto intro: idle works simp: process_alert_def)
      qed (use s m Inr in \<open>simp add: idle process_alert_def\<close>)
    qed (use s m in \<open>simp add: idle process_alert_def\<close>)
  qed (use s in \<open>simp add: idle process_alert_def\<close>)
qed (simp add: idle process_alert_def)

lemma process_alert_rank:
  assumes ok: "escalation_config_ok w a m pol"
  shows "process_alert env now w a = w
    \<or> (alert_rank (process_alert env now w a) (mon_policy m) pol (al_id a),
        alert_rank w (mon_policy m) pol (al_id a)) \<in> rank_order"
proof (cases "process_alert env now w a = w")
  case False
  have m: "monitors_get w (al_monitor a) = Inr m" using ok by (simp add: escalation_config_ok_def)
  from False m obtain s cur where g: "esc_get w (al_id a) = Inr s"
    and cur: "List.find (\<lambda>st. step_id st = es_step s) (policy_steps w (mon_policy m)) = Some cur"
    and e: "process_alert env now w a = escalate env w now a m (policy_steps w (mon_policy m)) cur s"
    by (cases rule: process_alert_cases [of env now w a]) auto
  have s: "es_alert s = al_id a" "s \<in> set (w_esc w)" "\<not> w_fails w EscGet (al_id a)"
    using g find_SomeD by (fastforce simp: esc_get_def split: if_splits option.splits)+
  have "has_alert w (es_alert s)" using ok s(2) by (simp add: escalation_config_ok_def schema_ok_def)
  with escalate_rank [of w s m pol cur env now a] ok s cur e False
  obtain s' where s': "esc_get (process_alert env now w a) (al_id a) = Inr s'"
    "(esc_rank w (mon_policy m) pol s', esc_rank w (mon_policy m) pol s) \<in> rank_order"
    by (auto simp: escalation_config_ok_def)
  have "w_steps (process_alert env now w a) = w_steps w"
    using same_config_process_alert [of w env now a] by (simp add: same_config_def)
  then have "esc_rank (process_alert env now w a) i pol s' = esc_rank w i pol s'" for i
    by (simp add: esc_rank_def policy_steps_def steps_after_def split: option.split)
  with s' g show ?thesis by (simp add: alert_rank_def)
qed simp

text \<open>
  C4: Escalation ends. For an alert whose policy does not loop, or loops a bounded number of times,
  only finitely many ticks do anything to the alert, at whatever instants they come and even when no
  one acknowledges it.
\<close>

theorem escalation_ends:
  assumes "escalation_config_ok (f 0) a m pol"
    and "\<forall>n. f (Suc n) = process_alert env (t n) (f n) a"
  shows "finite {n. f (Suc n) \<noteq> f n}"
proof -
  have "escalation_config_ok (f n) a m pol" for n
    using assms config_ok_kept by (induction n) auto
  then have "f (Suc n) = f n \<or> (alert_rank (f (Suc n)) (mon_policy m) pol (al_id a),
      alert_rank (f n) (mon_policy m) pol (al_id a)) \<in> rank_order" for n
    using process_alert_rank assms(2) by metis
  then show ?thesis by (rule finite_changes [OF wf_rank_order])
qed

end
