(* ===== verification/EscalationExamples.thy ===== *)
theory EscalationExamples imports EscalationEnds begin

text \<open>Concrete worlds on which the hypotheses of the engine's properties hold.\<close>

definition sample_monitor :: monitor where
  "sample_monitor =
     \<lparr>mon_id = ''m'', mon_org = ''o'', mon_name = ''site'', mon_type = MonitorHTTP, mon_config = None,
      mon_interval = 60, mon_timeout = 10, mon_latency_warning = 0, mon_latency_critical = 0,
      mon_down_severity = no_severity, mon_degraded_severity = no_severity, mon_regions = [],
      mon_policy = ''p'', mon_heartbeat_token = [], mon_integration_key = [], mon_runbook = [],
      mon_service = [], mon_group = [], mon_description = [], mon_auto_resolve = True,
      mon_muted = False, mon_enabled = True, mon_labels = [], mon_created_at = 0, mon_updated_at = 0\<rparr>"

definition sample_step :: escalation_step where
  "sample_step = \<lparr>step_id = ''s'', step_policy = ''p'', step_position = 1, step_wait = 60,
     step_repeat = 1, step_repeat_interval = 0, step_terminal = False\<rparr>"

definition sample_policy :: escalation_policy where
  "sample_policy = \<lparr>pol_id = ''p'', pol_org = ''o'', pol_name = [], pol_loop = True, pol_max_loops = Some 2\<rparr>"

definition sample_target :: step_target where
  "sample_target = \<lparr>tgt_id = ''t'', tgt_step = ''s'', tgt_type = TargetUser, tgt_target = ''ann'',
     tgt_channel = ''c'', tgt_simultaneous = False\<rparr>"

definition sample_channel :: notification_channel where
  "sample_channel = \<lparr>ch_id = ''c'', ch_org = ''o'', ch_type = ''slack'', ch_name = [], ch_config = ''cfg'',
     ch_enabled = True\<rparr>"

definition sample_trigger :: trigger_event where
  "sample_trigger = \<lparr>te_org = ''o'', te_monitor = ''m'', te_monitor_name = ''site'', te_status = StatusDown,
     te_latency = 0, te_status_code = 500, te_error = ''boom'', te_checked_at = 0\<rparr>"

definition sample_world :: world where
  "sample_world = empty_world\<lparr>w_monitors := [sample_monitor], w_policies := [sample_policy],
     w_steps := [sample_step], w_targets := [sample_target], w_channels := [sample_channel]\<rparr>"

definition sample_alert :: "alert_status \<Rightarrow> alert" where
  "sample_alert s = \<lparr>al_id = ''a'', al_monitor = ''m'', al_org = ''o'', al_status = s,
     al_severity = SeverityCritical, al_error = [], al_started_at = 0, al_acked_at = None,
     al_acked_by = [], al_resolved_at = None, al_current_step = ''s'', al_incident = []\<rparr>"

definition sample_state :: escalation_state where
  "sample_state = \<lparr>es_alert = ''a'', es_step = ''s'', es_entered_at = 0, es_retry = 0,
     es_last_notified = None, es_sent = None\<rparr>"

definition alert_world :: "alert_status \<Rightarrow> world" where
  "alert_world s = sample_world\<lparr>w_alerts := [row_of_alert (sample_alert s)], w_esc := [sample_state]\<rparr>"

lemmas sample_defs = sample_world_def sample_monitor_def sample_step_def sample_policy_def
  sample_target_def sample_channel_def sample_trigger_def empty_world_def

lemma sample_world_ok [simp]: "schema_ok sample_world"
  by (simp add: sample_world_def schema_ok_def alert_ids_def active_unique_def)

lemma alert_world_ok [simp]: "schema_ok (alert_world s)"
  by (simp add: alert_world_def sample_world_def schema_ok_def alert_ids_def active_unique_def
      sample_monitor_def has_monitor_def sample_alert_def sample_state_def has_alert_def)

lemma sample_lookups [simp]:
  "monitors_get sample_world ''m'' = Inr sample_monitor" "te_monitor sample_trigger = ''m''"
  "alerts_get_active sample_world ''m'' = Inl ErrNotFound" "alert_ids sample_world = []"
  "w_fails sample_world p i = False" "w_metrics sample_world" "w_alerts sample_world = []"
  "w_uuid sample_world = (\<lambda>n. replicate n (CHR ''u''))" "w_uuid_next sample_world = 0"
  by (simp_all add: monitors_get_def alerts_get_active_def alert_ids_def sample_defs)


theorem trigger_records_one_alert_witness:
  "\<exists>s. w_alerts (snd (handle_trigger None sample_world 0 (Some sample_trigger))) =
     [row_of_alert ((new_alert [] sample_monitor sample_trigger 0)\<lparr>al_current_step := s\<rparr>)]"
  using trigger_records_one_alert [of sample_world sample_trigger sample_monitor "[]" None 0]
  by simp

definition failing_world :: world where
  "failing_world = sample_world\<lparr>w_fails := (\<lambda>op i. op = EscUpsert)\<rparr>"

lemma failing_trigger:
  "handle_trigger None failing_world 0 (Some sample_trigger) =
     (Some (EngineStore ErrSQL), snd (handle_trigger None failing_world 0 (Some sample_trigger)))"
proof -
  have "fst (handle_trigger None failing_world 0 (Some sample_trigger)) = Some (EngineStore ErrSQL)"
    by (simp add: failing_world_def handle_trigger_def sample_defs monitors_get_def alerts_get_active_def
        new_uuid_def alerts_create_def Let_def has_alert_def has_monitor_def new_alert_def row_of_alert_def
        active_unique_def is_active_def create_event_def events_create_def add_active_alert_def emit_def
        start_escalation_def steps_list_def alerts_update_def alerts_write_def esc_upsert_def)
  then show ?thesis by (metis prod.collapse)
qed

theorem failed_escalation_start_is_lost_witness:
  "fst (handle_trigger None (heal (snd (handle_trigger None failing_world 0 (Some sample_trigger)))) 1
      (Some sample_trigger)) = None"
  using failed_escalation_start_is_lost [OF _ _ failing_trigger, of sample_monitor 1]
  by (simp add: failing_world_def sample_world_def schema_ok_def alert_ids_def active_unique_def
      monitors_get_def sample_monitor_def sample_trigger_def)

lemma alert_world_lookups [simp]:
  "alerts_get_active (alert_world AlertFiring) ''m'' = Inr (sample_alert AlertFiring)"
  "alerts_get (alert_world s) ''a'' = Inr (sample_alert s)"
  "w_fails (alert_world s) p i = False"
  "w_alerts (alert_world s) = [row_of_alert (sample_alert s)]"
  by (simp_all add: alert_world_def alerts_get_active_def alerts_get_def sample_world_def
      empty_world_def row_of_alert_def sample_alert_def is_active_def rfc3339_def)

theorem recover_resolves_the_active_alert_witness:
  "\<not> is_active (row_alert (hd (w_alerts (snd (handle_recover (alert_world AlertFiring) 5 (Some sample_trigger))))))"
  using recover_resolves_the_active_alert [of "alert_world AlertFiring" sample_trigger "sample_alert AlertFiring" 5]
  by (simp add: sample_alert_def is_active_def resolved_alert_def set_alert_columns_def row_of_alert_def)

definition sample_ack :: ack_event where
  "sample_ack = \<lparr>ack_alert = ''a'', ack_user = ''ann'', ack_channel = ''slack''\<rparr>"

lemma sample_ack_simps:
  "ack_alert sample_ack = ''a''" "al_id (sample_alert s) = ''a''" "al_status (sample_alert s) = s"
  by (simp_all add: sample_ack_def sample_alert_def)

theorem ack_acknowledges_only_that_alert_witness:
  "al_status (row_alert (hd (w_alerts (snd (handle_ack (alert_world AlertFiring) 5 (Some sample_ack))))))
     = AlertAcknowledged"
  using ack_acknowledges_only_that_alert [of "alert_world AlertFiring" sample_ack "sample_alert AlertFiring" 5]
  by (simp add: sample_ack_simps)

theorem notify_step_publishes_exactly_the_deliveries_witness:
  "length (w_bus (notify_step None (alert_world AlertFiring) 0 (sample_alert AlertFiring) sample_monitor
      sample_step sample_state)) = 1"
  using notify_step_publishes_exactly_the_deliveries [of "alert_world AlertFiring" sample_step "[sample_target]"
      0 sample_monitor None "sample_alert AlertFiring" sample_state]
  by (simp add: targets_list_def alert_world_def sample_defs suppressed_def windows_list_active_def
      target_deliveries_def resolve_target_def channels_get_def versioned_config_def published_def) auto

theorem tick_overwrites_concurrent_ack_witness:
  "\<exists>r \<in> set (w_alerts (enter_step None (alert_world AlertAcknowledged) 9 (sample_alert AlertFiring)
      sample_monitor sample_step sample_state)). al_status (row_alert r) = AlertFiring"
  using tick_overwrites_concurrent_ack [of "alert_world AlertAcknowledged" "sample_alert AlertFiring"
      "row_of_alert (sample_alert AlertAcknowledged)" None 9 sample_monitor sample_step sample_state]
  by (auto simp: sample_alert_def)

definition sample_ticks :: "nat \<Rightarrow> world" where
  "sample_ticks n = ((\<lambda>w. process_alert None (61 * second) w (sample_alert AlertFiring)) ^^ n) (alert_world AlertFiring)"

theorem escalation_ends_witness: "finite {n. sample_ticks (Suc n) \<noteq> sample_ticks n}"
proof (rule escalation_ends)
  show "escalation_config_ok (sample_ticks 0) (sample_alert AlertFiring) sample_monitor sample_policy"
    by (simp add: sample_ticks_def escalation_config_ok_def)
      (simp add: alert_world_def sample_defs monitors_get_def policies_get_def bounded_policy_def sample_alert_def)
  show "\<forall>n. sample_ticks (Suc n) = process_alert None (61 * second) (sample_ticks n) (sample_alert AlertFiring)"
    by (simp add: sample_ticks_def)
qed

end
