(* ===== verification/ReplyEffects.thy ===== *)
theory ReplyEffects imports ReplySafety EscalationExamples begin

text \<open>
  What the handlers do to the alert, the monitor and their own tables when they accept, and concrete
  dispatches on which the hypotheses of the reply properties hold.
\<close>

section \<open>A sample dispatcher\<close>

definition open_config :: dispatcher_config where
  "open_config = \<lparr>cfg_accepted = [''run.yipyap.reply.*''], cfg_rate_limit = 60,
     cfg_trust_elevated = True, cfg_allow_deregister = True, cfg_max_suppress = 0,
     cfg_max_remediation = 0, cfg_max_route = 0\<rparr>"

definition fired_event :: ce_event where
  "fired_event = \<lparr>ce_id = ''e1'', ce_type = ''run.yipyap.alert.fired.v1'', ce_source = ''yipyap'',
     ce_data = Some (JObj [(''alert_id'', JStr ''a'')]), ce_extensions = (\<lambda>_. None)\<rparr>"

definition reply_event :: "string \<Rightarrow> (string \<times> json) list \<Rightarrow> ce_event" where
  "reply_event ty data = \<lparr>ce_id = ''r1'', ce_type = ty, ce_source = ''sink'',
     ce_data = Some (JObj data), ce_extensions = (\<lambda>k. if k = ''alertref'' then Some (ExtString ''e1'') else None)\<rparr>"

definition sample_dispatcher :: dispatcher where
  "sample_dispatcher = register_all (\<lambda>_. None)
     (new_dispatcher (foldl reg_step (new_memory_registry 10 0)
        [RegRecord 0 0 fired_event ''o'' ''c'']) True)"

text \<open>An acknowledgement with a reason code, replied to the event that fired alert \<open>a\<close>.\<close>

definition ack_event_sample :: ce_event where
  "ack_event_sample = reply_event ''run.yipyap.reply.alert.ack_with_context.v1'' [(''reason_code'', JStr ''other'')]"

lemma sample_dispatcher_ok: "yipyap_dispatcher (\<lambda>_. None) sample_dispatcher"
  unfolding sample_dispatcher_def by (rule yipyap_dispatcher_init)

lemma alert_world_tables: "tables_ok (alert_world s)" "distinct (map mon_id (w_monitors (alert_world s)))"
  by (simp_all add: tables_ok_def) (simp_all add: alert_world_def sample_world_def empty_world_def)

lemma sample_accepted:
  "fst (dispatch_core sample_dispatcher (alert_world AlertFiring) 5 ack_event_sample open_config [] ''o'' ''c'')
     = (True, None)"
  by code_simp

lemma sample_refused:
  "fst (dispatch_core sample_dispatcher (alert_world AlertFiring) 5
     (reply_event ''run.yipyap.reply.alert.ack_with_context.v1'' [(''reason_code'', JStr ''none'')])
     open_config [] ''o'' ''c'') = (False, Some (ErrHandler (Rejected ''invalid_reason_code'')))"
  by code_simp

lemma sample_registry:
  "dsp_registry sample_dispatcher =
     foldl reg_step (new_memory_registry 10 0) [RegRecord 0 0 fired_event ''o'' ''c'']"
  by (simp add: sample_dispatcher_def register_all_def all_handlers_def dsp_register_def new_dispatcher_def)

lemma sample_alertref: "extract_alertref ack_event_sample = ''e1''"
  by code_simp


theorem handler_runs_only_past_every_gate_witness:
  "\<exists>en. last_recorded [RegRecord 0 0 fired_event ''o'' ''c''] ''e1'' = Some en \<and> en_org en = ''o''"
proof -
  obtain ok err d' w' where r: "dispatch_core sample_dispatcher (alert_world AlertFiring) 5
      ack_event_sample open_config [] ''o'' ''c'' = ((ok, err), d', w')"
    by (metis prod.collapse)
  then have "ok" using sample_accepted by simp
  with handler_runs_only_past_every_gate [OF r _ sample_registry] show ?thesis
    unfolding sample_alertref by (auto simp: fired_event_def)
qed

theorem refused_reply_changes_only_the_audit_log_witness:
  "audit_only (alert_world AlertFiring) (snd (snd (dispatch_core sample_dispatcher (alert_world AlertFiring) 5
     (reply_event ''run.yipyap.reply.alert.ack_with_context.v1'' [(''reason_code'', JStr ''none'')])
     open_config [] ''o'' ''c'')))"
proof -
  let ?ev = "reply_event ''run.yipyap.reply.alert.ack_with_context.v1'' [(''reason_code'', JStr ''none'')]"
  obtain ok err d' w' where r: "dispatch_core sample_dispatcher (alert_world AlertFiring) 5
      ?ev open_config [] ''o'' ''c'' = ((ok, err), d', w')"
    by (metis prod.collapse)
  then have e: "ok = False" "err = Some (ErrHandler (Rejected ''invalid_reason_code''))"
    using sample_refused by simp_all
  have "audit_only (alert_world AlertFiring) w'"
    using refused_reply_changes_only_the_audit_log [OF sample_dispatcher_ok r [unfolded e]] by simp
  then show ?thesis by (simp add: r)
qed

section \<open>Deregistration needs both flags\<close>

text \<open>
  A dispatched reply changes the monitors table only by disabling one monitor, and only if it is
  a deregister reply, the channel has both TrustElevated and AllowDeregister, the entry it replies to
  names no other monitor, the monitor belongs to the entry's org (when it has one), and the reason
  has at least 16 bytes after trimming.
\<close>
theorem monitor_disabled_only_with_both_flags:
  assumes "yipyap_dispatcher url_parse d" and "tables_ok w"
    and "dispatch_core d w now ev cfg sub eo ec = ((ok, err), d', w')"
    and "w_monitors w' \<noteq> w_monitors w"
  shows "ok \<and> ce_type ev = ''run.yipyap.reply.monitor.deregister.v1''
     \<and> cfg_trust_elevated cfg \<and> cfg_allow_deregister cfg
     \<and> (\<exists>en reg data m. reg_lookup (dsp_registry d) now (extract_alertref ev) = (Some en, reg)
          \<and> decode_deregister (ce_data ev) = Some data \<and> monitors_get w (dg_monitor data) = Inr m
          \<and> (en_org en = [] \<or> mon_org m = en_org en)
          \<and> (en_monitor en = [] \<or> en_monitor en = dg_monitor data)
          \<and> min_deregister_reason \<le> length (trim_space (dg_reason data))
          \<and> disables_monitor now (dg_monitor data) w w')"
  using assms(3)
proof (cases rule: dispatch_core_cases)
  case stopped
  with assms(4) audit_only_same(2) show ?thesis by metis
next
  case (ran en reg h r)
  have "map_of (all_handlers url_parse) (ce_type ev) = Some h"
    using ran(4) assms(1) by (simp add: yipyap_dispatcher_def)
  then consider "alert_reply_handler h"
    | "h = deregister_handle" "ce_type ev = ''run.yipyap.reply.monitor.deregister.v1''"
    using registered_contract by blast
  then show ?thesis
  proof cases
    case 1
    from alert_reply_handler.contract [OF this, of en w cfg now ev sub]
    have "audit_only w w' \<or> in_scope en w w'"
      using assms(2) ran(5) by (simp add: within_contract_def)
    with assms(4) audit_only_same(2) [of w w'] show ?thesis
      by (auto simp: in_scope_def same_elsewhere_def)
  next
    case 2
    have "\<not> audit_only w w'" using assms(4) audit_only_same(2) [of w w'] by blast
    with deregister_result [of cfg w now ev en sub r w'] ran 2 show ?thesis by auto
  qed
qed

definition deregister_event_sample :: ce_event where
  "deregister_event_sample = reply_event ''run.yipyap.reply.monitor.deregister.v1''
     [(''monitor_id'', JStr ''m''), (''reason'', JStr '' decommissioned host '')]"

lemma sample_deregistered:
  "map mon_enabled (w_monitors (snd (snd (dispatch_core sample_dispatcher (alert_world AlertFiring) 5
     deregister_event_sample open_config [] ''o'' ''c'')))) = [False]"
  by code_simp

theorem monitor_disabled_only_with_both_flags_witness:
  "cfg_trust_elevated open_config \<and> cfg_allow_deregister open_config
   \<and> fst (fst (dispatch_core sample_dispatcher (alert_world AlertFiring) 5 deregister_event_sample
        open_config [] ''o'' ''c''))"
proof -
  obtain ok err d' w' where r: "dispatch_core sample_dispatcher (alert_world AlertFiring) 5
      deregister_event_sample open_config [] ''o'' ''c'' = ((ok, err), d', w')"
    by (metis prod.collapse)
  have "map mon_enabled (w_monitors w') = [False]" using sample_deregistered by (simp add: r)
  moreover have "map mon_enabled (w_monitors (alert_world AlertFiring)) = [True]"
    by (simp add: alert_world_def sample_world_def sample_monitor_def)
  ultimately have "w_monitors w' \<noteq> w_monitors (alert_world AlertFiring)" by (intro notI) simp
  with monitor_disabled_only_with_both_flags [OF sample_dispatcher_ok alert_world_tables(1) r]
  show ?thesis by (simp add: r)
qed

section \<open>A remediation completes once\<close>

lemma reply_auto_resolve_remediations [simp]: "w_remediations (reply_auto_resolve w now oc i) = w_remediations w"
proof -
  have "w_remediations (snd (alerts_update w a)) = w_remediations w" for a
    using alerts_update_effect [OF prod.collapse [symmetric], of w a] by auto
  then show ?thesis by (simp add: reply_auto_resolve_def split: sum.split)
qed

lemma insert_event_remediations [simp]:
  "w_remediations (snd (insert_timeline_event w now i ty d)) = w_remediations w"
proof -
  have "w_remediations (snd (events_create w1 e)) = w_remediations w1" for w1 e
    using events_create_effect [OF prod.collapse [symmetric], of w1 e] by auto
  then show ?thesis by (simp add: insert_timeline_event_def new_uuid_def)
qed

lemma write_audit_remediations [simp]: "w_remediations (write_audit w now ev en sub oc b a) = w_remediations w"
  using audit_only_same(4) [OF audit_only_write_audit] .

lemma commit_accepted:
  assumes "remediation_result_commit w now ev en sub d oc ex = (None, w1)"
  shows "\<exists>r \<in> set (w_remediations w). rem_id r = rr_remediation d \<and> rem_status r = RemediationInProgress"
    and "oc \<noteq> RemediationInProgress \<Longrightarrow>
      \<forall>r \<in> set (w_remediations w1). rem_id r = rr_remediation d \<longrightarrow> rem_status r \<noteq> RemediationInProgress"
proof -
  obtain r w0 where c: "remediations_complete w now (rr_remediation d) oc (rr_message d) (rr_artifact d) = (r, w0)"
    by fastforce
  have r: "r = None"
    using assms by (cases r) (auto simp: remediation_result_commit_def c reject_def handler_failed_def split: if_splits)
  then have w0: "\<exists>x \<in> set (w_remediations w). rem_id x = rr_remediation d \<and> rem_status x = RemediationInProgress"
    "w_remediations w0 = update_where (\<lambda>x. rem_id x = rr_remediation d \<and> rem_status x = RemediationInProgress)
       (\<lambda>x. x\<lparr>rem_status := oc, rem_message := rr_message d, rem_artifact := rr_artifact d,
              rem_completed_at := Some (rfc3339_ms now)\<rparr>) (w_remediations w)"
    using c by (auto simp: remediations_complete_def split: if_splits sum.splits)
  then show "\<exists>r \<in> set (w_remediations w). rem_id r = rr_remediation d \<and> rem_status r = RemediationInProgress"
    by blast
  have "w_remediations w1 = w_remediations w0"
    using assms r by (auto simp: remediation_result_commit_def c accept_def Let_def)
  then show "\<forall>r \<in> set (w_remediations w1). rem_id r = rr_remediation d \<longrightarrow> rem_status r \<noteq> RemediationInProgress"
    if "oc \<noteq> RemediationInProgress"
    using w0(2) that by (auto simp: set_update_where)
qed

text \<open>
  C30: Two result replies that race on one remediation. Both have read the row in progress and passed
  every check; whichever commits first is accepted, and the second, whatever its outcome, message and
  alert, is refused and changes nothing but the audit log: the remediation is completed once and the
  alert is not resolved a second time.
\<close>
theorem remediation_completes_once:
  assumes "remediation_result_commit w now ev en sub d oc existing = (None, w1)"
    and "oc \<noteq> RemediationInProgress" and "rr_remediation d' = rr_remediation d"
    and "remediation_result_commit w1 now' ev' en' sub' d' oc' existing' = (r, w2)"
  shows "r \<noteq> None \<and> audit_only w1 w2 \<and> w_alerts w2 = w_alerts w1"
proof -
  have none: "\<not> (\<exists>x \<in> set (w_remediations w1). rem_id x = rr_remediation d' \<and> rem_status x = RemediationInProgress)"
    using commit_accepted(2) [OF assms(1,2)] assms(3) by auto
  have "r \<noteq> None" using commit_accepted(1) [of w1 now' ev' en' sub' d' oc' existing'] assms(4) none by auto
  moreover have "audit_only w1 w2"
  proof -
    obtain r0 w0 where c: "remediations_complete w1 now' (rr_remediation d') oc' (rr_message d') (rr_artifact d') = (r0, w0)"
      by fastforce
    then obtain e where e: "r0 = Some e" using none
      by (auto simp: remediations_complete_def split: if_splits sum.splits)
    then have "w0 = w1" using complete_error_same c by simp
    then show ?thesis
      using assms(4) e c
      by (auto simp: remediation_result_commit_def reject_def handler_failed_def split: if_splits)
  qed
  ultimately show ?thesis using audit_only_same(1) by blast
qed

definition sample_remediation :: alert_remediation where
  "sample_remediation = \<lparr>rem_id = ''x'', rem_alert = ''a'', rem_org = ''o'', rem_status = RemediationInProgress,
     rem_started_at = 0, rem_completed_at = None, rem_expires_at = 0, rem_description = [], rem_message = [],
     rem_artifact = [], rem_source = []\<rparr>"

definition sample_entry :: entry where
  "sample_entry = new_entry 0 fired_event ''o'' ''c''"

definition sample_result :: remediation_result_data where
  "sample_result = \<lparr>rr_alert_id = [], rr_remediation = ''x'', rr_outcome = ''success'', rr_message = [],
     rr_artifact = []\<rparr>"

definition remediation_world :: world where
  "remediation_world = (alert_world AlertFiring)\<lparr>w_remediations := [sample_remediation]\<rparr>"

theorem remediation_completes_once_witness:
  "fst (remediation_result_commit (snd (remediation_result_commit remediation_world 5 ack_event_sample
      sample_entry [] sample_result RemediationSuccess sample_remediation)) 6 ack_event_sample
      sample_entry [] sample_result RemediationFailure sample_remediation) \<noteq> None"
proof -
  let ?first = "remediation_result_commit remediation_world 5 ack_event_sample
      sample_entry [] sample_result RemediationSuccess sample_remediation"
  let ?second = "remediation_result_commit (snd ?first) 6 ack_event_sample
      sample_entry [] sample_result RemediationFailure sample_remediation"
  have "fst ?first = None" by code_simp
  then have f: "?first = (None, snd ?first)" by (metis prod.collapse)
  have s: "?second = (fst ?second, snd ?second)" by simp
  show ?thesis using remediation_completes_once [OF f _ refl s] by simp
qed

section \<open>What the handlers write\<close>

lemma guarded_accepted:
  "guarded w now ev en sub gs rest = (None, w') \<Longrightarrow> rest = (None, w')"
  by (auto simp: guarded_def reject_def split: option.splits)

lemma with_alert_accepted:
  "with_alert w now ev en sub i rest = (None, w') \<Longrightarrow> \<exists>a. alerts_get w i = Inr a \<and> rest a = (None, w')"
  by (auto simp: with_alert_def reject_def split: sum.splits if_splits)

lemma guarded_failure:
  "guarded w now ev en sub gs rest = (None, w') \<Longrightarrow> first_failure gs = None"
  by (auto simp: guarded_def reject_def split: option.splits)

text \<open>
  An accepted claim annotates the timeline and nothing else: exactly one row is added, on the
  alert of the entry, of type reply-claimed, whose actor is the verified subject or, without one, the
  id of the reply event (never the 'who' the sink sent); every alert row, its status and owner
  included, stays as it was.
\<close>
theorem claim_only_annotates:
  assumes "claimed_handle cfg w now ev (Some en) sub = (None, w')"
  shows "\<exists>d e. decode_claimed (ce_data ev) = Some d \<and> w_events w' = w_events w @ [e]
     \<and> evt_alert e = en_alert en \<and> evt_type e = EventReplyClaimed
     \<and> evt_detail e = Some (claimed_payload ev sub d)
     \<and> w_alerts w' = w_alerts w"
proof -
  obtain d where d: "decode_claimed (ce_data ev) = Some d"
    using assms by (auto simp: claimed_handle_def reject_def split: option.splits)
  let ?i = "effective_alert_id (en_alert en) (cl_alert d)"
  note g = assms [unfolded claimed_handle_def option.case d Let_def]
  have i: "?i = en_alert en"
    using guarded_failure [OF g] by (simp add: scoped_alert_id split: if_splits)
  have a: "annotate w now ev en sub ?i EventReplyClaimed (claimed_payload ev sub d) = (None, w')"
    using with_alert_accepted [OF guarded_accepted [OF g]] by blast
  obtain r w1 where t: "write_timeline_event w now ?i EventReplyClaimed (claimed_payload ev sub d) = (r, w1)"
    by fastforce
  then have r: "r = None" and w': "audit_only w1 w'"
    using a by (cases r; auto simp: annotate_def handler_failed_def accept_def)+
  have "\<exists>e. w_events w1 = w_events w @ [e] \<and> evt_alert e = en_alert en \<and> evt_type e = EventReplyClaimed
      \<and> evt_detail e = Some (claimed_payload ev sub d) \<and> w_alerts w1 = w_alerts w"
    using t r i by (auto simp: write_timeline_event_def insert_timeline_event_def new_uuid_def
        events_create_def split: if_splits)
  with d audit_only_same(1,5) [OF w'] show ?thesis by auto
qed

lemma sample_claim:
  "fst (claimed_handle open_config (alert_world AlertFiring) 5
     (reply_event ''run.yipyap.reply.alert.claimed.v1'' [(''who'', JStr ''ann'')]) (Some sample_entry) []) = None"
  by code_simp

theorem claim_only_annotates_witness:
  "length (w_events (snd (claimed_handle open_config (alert_world AlertFiring) 5
     (reply_event ''run.yipyap.reply.alert.claimed.v1'' [(''who'', JStr ''ann'')]) (Some sample_entry) []))) =
   Suc (length (w_events (alert_world AlertFiring)))"
proof -
  obtain r w' where h: "claimed_handle open_config (alert_world AlertFiring) 5
     (reply_event ''run.yipyap.reply.alert.claimed.v1'' [(''who'', JStr ''ann'')]) (Some sample_entry) [] = (r, w')"
    by fastforce
  then have "r = None" using sample_claim by simp
  with h have "claimed_handle open_config (alert_world AlertFiring) 5
     (reply_event ''run.yipyap.reply.alert.claimed.v1'' [(''who'', JStr ''ann'')]) (Some sample_entry) [] = (None, w')"
    by simp
  from claim_only_annotates [OF this] h show ?thesis by auto
qed

lemma duration_in_range: "0 < n \<Longrightarrow> n \<le> 9223372036 \<Longrightarrow> duration_of_seconds n = n * second"
  unfolding duration_of_seconds_def by (rule sint_of_int64) auto

lemma clamp_bounds:
  assumes "0 < d"
  shows "0 < clamp_seconds c d r" "clamp_seconds c d r \<le> (if c \<le> 0 then d else c)"
  using assms by (auto simp: clamp_seconds_def Let_def)

lemma insert_event_suppressions [simp]:
  "w_suppressions (snd (insert_timeline_event w now i ty d)) = w_suppressions w"
proof -
  have "w_suppressions (snd (events_create w1 e)) = w_suppressions w1" for w1 e
    using events_create_effect [OF prod.collapse [symmetric], of w1 e] by auto
  then show ?thesis by (simp add: insert_timeline_event_def new_uuid_def)
qed

lemma write_audit_suppressions [simp]:
  "w_suppressions (write_audit w now ev en sub oc b a) = w_suppressions w"
  by (simp add: write_audit_def audit_write_def)

text \<open>
  C34: An accepted suppression writes exactly one suppression row, for the entry's alert and org, that
  expires after the reply was handled (to the millisecond the column keeps) and no later than the
  channel's cap, 3600 seconds when none is set, however long the sink asked for. The cap must be below
  9223372037 seconds, where the duration leaves int64.
\<close>
theorem suppression_is_bounded:
  assumes "suppressed_handle cfg w now ev (Some en) sub = (None, w')"
    and "cfg_max_suppress cfg \<le> 9223372036"
  shows "\<exists>row. w_suppressions w' = w_suppressions w @ [row] \<and> sup_alert row = en_alert en
     \<and> sup_org row = en_org en \<and> now - 1000000 < sup_expires_at row
     \<and> sup_expires_at row \<le>
         now + (if cfg_max_suppress cfg \<le> 0 then default_max_suppress else cfg_max_suppress cfg) * second"
proof -
  obtain d where d: "decode_suppressed (ce_data ev) = Some d"
    using assms(1) by (auto simp: suppressed_handle_def reject_def split: option.splits)
  let ?i = "effective_alert_id (en_alert en) (su_alert d)"
  let ?c = "clamp_suppress_seconds cfg (su_duration d)"
  let ?cap = "if cfg_max_suppress cfg \<le> 0 then default_max_suppress else cfg_max_suppress cfg"
  note g = assms(1) [unfolded suppressed_handle_def option.case d Let_def]
  have i: "?i = en_alert en"
    using guarded_failure [OF g] by (simp add: scoped_alert_id split: if_splits)
  have c: "0 < ?c" "?c \<le> ?cap"
    unfolding clamp_suppress_seconds_def by (rule clamp_bounds; simp add: default_max_suppress_def)+
  then have "duration_of_seconds ?c = ?c * second"
    using assms(2) by (intro duration_in_range) (auto simp: default_max_suppress_def split: if_splits)
  moreover have "?c * second \<le> ?cap * second" using c(2) by (intro mult_right_mono) auto
  ultimately have t: "now < now + duration_of_seconds ?c" "now + duration_of_seconds ?c \<le> now + ?cap * second"
    using c(1) by simp_all
  have ms: "x - 1000000 < rfc3339_ms x" "rfc3339_ms x \<le> x" for x :: int
    by (simp_all add: rfc3339_ms_def)
  let ?row = "suppressed_row cfg now ev en (fst (new_uuid w)) ?i d"
  obtain r w1 where s: "suppressions_create (snd (new_uuid w)) now ?row = (r, w1)" by fastforce
  obtain a where "(case suppressions_create (snd (new_uuid w)) now ?row of
        (Some _, w1) \<Rightarrow> handler_failed w1 now ev en sub ''create_suppression'' AuditEmpty
      | (None, w1) \<Rightarrow> accept (if ?i \<noteq> [] then snd (insert_timeline_event w1 now ?i EventSuppressed
              (JObj [(''duration_seconds'', JInt ?c), (''reason'', JStr (su_reason d)), (''sub'', JStr sub),
                     (''suppression_id'', JStr (fst (new_uuid w)))])) else w1)
            now ev en sub AuditEmpty (AuditSuppression ?row)) = (None, w')"
    using with_alert_accepted [OF guarded_accepted [OF g]] by blast
  then have "r = None" "w_suppressions w' = w_suppressions w1"
    by (auto simp: s handler_failed_def accept_def split: option.splits if_splits)
  then have "w_suppressions w' = w_suppressions w @
      [?row\<lparr>sup_filter := (if sup_filter ?row = None then Some (JObj []) else sup_filter ?row),
            sup_expires_at := rfc3339_ms (sup_expires_at ?row),
            sup_created_at := rfc3339_ms (if sup_created_at ?row = zero_time then now else sup_created_at ?row)\<rparr>]"
    using s by (auto simp: suppressions_create_def new_uuid_def split: if_splits)
  then show ?thesis
    using i t ms [of "now + duration_of_seconds ?c"] by (auto simp: suppressed_row_def)
qed

lemma sample_suppression:
  "fst (suppressed_handle open_config (alert_world AlertFiring) 5
     (reply_event ''run.yipyap.reply.alert.suppressed.v1'' [(''duration_seconds'', JInt 999999)])
     (Some sample_entry) []) = None"
  by code_simp

theorem suppression_is_bounded_witness:
  "\<exists>row. w_suppressions (snd (suppressed_handle open_config (alert_world AlertFiring) 5
     (reply_event ''run.yipyap.reply.alert.suppressed.v1'' [(''duration_seconds'', JInt 999999)])
     (Some sample_entry) [])) = w_suppressions (alert_world AlertFiring) @ [row]
   \<and> sup_expires_at row \<le> 5 + 3600 * second"
proof -
  obtain r w' where h: "suppressed_handle open_config (alert_world AlertFiring) 5
     (reply_event ''run.yipyap.reply.alert.suppressed.v1'' [(''duration_seconds'', JInt 999999)])
     (Some sample_entry) [] = (r, w')"
    by fastforce
  then have r: "r = None" using sample_suppression by simp
  from suppression_is_bounded [OF h [unfolded r]] h show ?thesis
    by (auto simp: open_config_def default_max_suppress_def)
qed

text \<open>
  An accepted ack-with-context reply leaves the entry's alert acknowledged, by the verified
  subject or, without one, the synthetic id of the reply event, with a reason code from the allowed
  list. It does so whatever the alert's status was: a resolved alert becomes acknowledged again, and
  keeps the time it was resolved at.
\<close>
theorem ack_reply_acknowledges_even_resolved:
  assumes "ack_with_context_handle cfg w now ev (Some en) sub = (None, w')" and "tables_ok w"
  shows "\<exists>old new. old \<in> set (w_alerts w) \<and> new \<in> set (w_alerts w')
     \<and> al_id (row_alert old) = en_alert en \<and> al_id (row_alert new) = en_alert en
     \<and> al_status (row_alert new) = AlertAcknowledged
     \<and> al_acked_by (row_alert new) = effective_actor ev sub
     \<and> row_ack_reason new \<in> set allowed_ack_reason_codes
     \<and> al_resolved_at (row_alert new) = al_resolved_at (row_alert old)"
proof -
  obtain d where d: "decode_ack_context (ce_data ev) = Some d"
    using assms(1) by (auto simp: ack_with_context_handle_def reject_def split: option.splits)
  let ?i = "effective_alert_id (en_alert en) (ak_alert d)"
  let ?by = "if sub = [] then ''cloudevent:reply:'' @ ce_id ev else sub"
  note g = assms(1) [unfolded ack_with_context_handle_def option.case d Let_def]
  have i: "?i = en_alert en" and code: "ak_reason_code d \<in> set allowed_ack_reason_codes"
    using guarded_failure [OF g] by (simp_all add: scoped_alert_id split: if_splits)
  obtain a where get: "alerts_get w ?i = Inr a" and k: "(case alerts_ack_with_context w now ?i (ak_reason_code d) (ak_note d)
        (ak_reference d) ?by of
      (Some _, w1) \<Rightarrow> handler_failed w1 now ev en sub ''ack'' (AuditAlert a)
    | (None, w1) \<Rightarrow> accept w1 now ev en sub (AuditAlert a) (stored_alert w1 ?i)) = (None, w')"
    using with_alert_accepted [OF guarded_accepted [OF g]] by blast
  let ?f = "\<lambda>r. r\<lparr>row_alert := (row_alert r)\<lparr>al_status := AlertAcknowledged,
                 al_acked_at := Some (rfc3339 now), al_acked_by := ?by\<rparr>,
               row_ack_reason := ak_reason_code d, row_ack_reference := ak_reference d\<rparr>"
  obtain r w1 where t: "alerts_ack_with_context w now ?i (ak_reason_code d) (ak_note d) (ak_reference d) ?by = (r, w1)"
    by fastforce
  have r: "r = None" and w': "audit_only w1 w'"
    using k t by (cases r; auto simp: handler_failed_def accept_def)+
  obtain e0 w0 where wr: "alerts_write w AlertsAck ?i ?f = (e0, w0)" by fastforce
  have "e0 = None" and ev: "write_then_event (None, w0) now ?i EventAckWithContext
      (JObj [(''acked_by'', JStr ?by), (''note'', JStr (ak_note d)), (''reason_code'', JStr (ak_reason_code d)),
             (''reference_id'', JStr (ak_reference d))]) = (None, w1)"
    using t r wr by (cases e0; auto simp: alerts_ack_with_context_def write_then_event_def split: if_splits)+
  then have w0: "w_alerts w0 = update_where (\<lambda>r. al_id (row_alert r) = ?i) ?f (w_alerts w)"
    using wr by (auto simp: alerts_write_def Let_def split: if_splits)
  have w1: "w_alerts w1 = w_alerts w0"
    using ev by (auto simp: write_then_event_def new_uuid_def dest!: events_create_effect)
  obtain old where old: "old \<in> set (w_alerts w)" "al_id (row_alert old) = ?i"
    using alerts_get_SomeD [OF get] by blast
  have "?f old \<in> set (w_alerts w')"
    unfolding audit_only_same(1) [OF w'] w1 w0 set_update_where using old by blast
  then show ?thesis
    using old code i
    by (intro exI [of _ old] exI [of _ "?f old"]) (simp add: effective_actor_def)
qed

theorem ack_reply_acknowledges_even_resolved_witness:
  "\<exists>r \<in> set (w_alerts (snd (ack_with_context_handle open_config (alert_world AlertResolved) 5
     ack_event_sample (Some sample_entry) []))). al_status (row_alert r) = AlertAcknowledged"
proof -
  have "fst (ack_with_context_handle open_config (alert_world AlertResolved) 5
     ack_event_sample (Some sample_entry) []) = None" by code_simp
  then obtain w' where h: "ack_with_context_handle open_config (alert_world AlertResolved) 5
     ack_event_sample (Some sample_entry) [] = (None, w')" by (metis prod.collapse)
  from ack_reply_acknowledges_even_resolved [OF h alert_world_tables(1)] h show ?thesis by auto
qed

end
