(* ===== verification/Notify.thy ===== *)
theory Notify imports Store begin

text \<open>
  The delivery side of \<open>internal/notify\<close>: a bounded worker pool per provider with retries and a
  dead letter (\<open>worker.go\<close>), and the dispatcher that routes a job to the pool of its channel
  type after dropping duplicates (\<open>dispatcher.go\<close>).
\<close>

section \<open>Retries (internal/notify/worker.go)\<close>

text \<open>
  A \<open>Notifier\<close> is code of another package: \<open>Send\<close> is a function on its own state that
  returns the external message id or an error. Waiting for the backoff is the second operation on
  that state; it returns the context's error when the context ends first.
\<close>

type_synonym 's sender = "notification_job \<Rightarrow> 's \<Rightarrow> (string + string) \<times> 's"
type_synonym 's waiter = "int \<Rightarrow> 's \<Rightarrow> string option \<times> 's"

text \<open>\<open>backoff *= 2\<close> is an int64 product; then the cap.\<close>

definition next_backoff :: "int \<Rightarrow> int \<Rightarrow> int" where
  "next_backoff cap b =
     (let b2 = sint (word_of_int b * 2 :: int64) in if cap < b2 then cap else b2)"

fun send_attempts ::
  "'s sender \<Rightarrow> 's waiter \<Rightarrow> int \<Rightarrow> notification_job \<Rightarrow> nat \<Rightarrow> int \<Rightarrow> string option \<Rightarrow> 's \<Rightarrow> string option \<times> 's" where
  "send_attempts send wait cap job 0 backoff err s = (err, s)"
| "send_attempts send wait cap job (Suc left) backoff err s =
     (case send job s of
        (Inr _, s1) \<Rightarrow> (None, s1)
      | (Inl e, s1) \<Rightarrow>
          if left = 0 then (Some e, s1)
          else (case wait backoff s1 of
                  (Some ctx_err, s2) \<Rightarrow> (Some ctx_err, s2)
                | (None, s2) \<Rightarrow>
                    send_attempts send wait cap job left (next_backoff cap backoff) (Some e) s2))"

section \<open>Worker pools\<close>

text \<open>
  The pool's channel has a buffer and a queue of senders blocked on it (Go's \<open>sendq\<close>): a
  \<open>Submit\<close> that finds the buffer full waits there, and a receive moves the first of them into
  the buffer. \<open>wp_busy\<close> are the jobs the worker goroutines hold; their number is \<open>inflight\<close>.
\<close>

record worker_pool =
  wp_concurrency :: int
  wp_capacity :: nat
  wp_jobs :: "notification_job list"
  wp_waiting :: "notification_job list"
  wp_busy :: "notification_job list"
  wp_sent :: int
  wp_failed :: int
  wp_max_retries :: int
  wp_initial_backoff :: int
  wp_max_backoff :: int
  wp_stopped :: bool

definition default_retries :: int where
  "default_retries = 5"

definition default_initial_backoff :: int where
  "default_initial_backoff = second"

definition default_max_backoff :: int where
  "default_max_backoff = 60 * second"

definition new_worker_pool :: "int \<Rightarrow> nat \<Rightarrow> worker_pool" where
  "new_worker_pool concurrency queue_size =
     \<lparr>wp_concurrency = concurrency, wp_capacity = queue_size, wp_jobs = [], wp_waiting = [],
      wp_busy = [], wp_sent = 0, wp_failed = 0, wp_max_retries = default_retries,
      wp_initial_backoff = default_initial_backoff, wp_max_backoff = default_max_backoff,
      wp_stopped = False\<rparr>"

definition set_retry_params :: "int \<Rightarrow> int \<Rightarrow> int \<Rightarrow> worker_pool \<Rightarrow> worker_pool" where
  "set_retry_params retries initial max_b p =
     p\<lparr>wp_max_retries := retries, wp_initial_backoff := initial, wp_max_backoff := max_b\<rparr>"

definition send_with_retry ::
  "'s sender \<Rightarrow> 's waiter \<Rightarrow> worker_pool \<Rightarrow> notification_job \<Rightarrow> 's \<Rightarrow> string option \<times> 's" where
  "send_with_retry send wait p job s =
     send_attempts send wait (wp_max_backoff p) job (nat (wp_max_retries p)) (wp_initial_backoff p) None s"

definition pool_submit :: "worker_pool \<Rightarrow> notification_job \<Rightarrow> worker_pool" where
  "pool_submit p job =
     (if wp_stopped p then p
      else if length (wp_jobs p) < wp_capacity p then p\<lparr>wp_jobs := wp_jobs p @ [job]\<rparr>
      else p\<lparr>wp_waiting := wp_waiting p @ [job]\<rparr>)"

text \<open>A free worker receives from the channel; \<open>None\<close> when nothing can be received.\<close>

definition pool_take :: "worker_pool \<Rightarrow> worker_pool option" where
  "pool_take p =
     (if int (length (wp_busy p)) < wp_concurrency p
      then (case (wp_jobs p, wp_waiting p) of
              (j # js, []) \<Rightarrow> Some (p\<lparr>wp_jobs := js, wp_busy := wp_busy p @ [j]\<rparr>)
            | (j # js, v # vs) \<Rightarrow>
                Some (p\<lparr>wp_jobs := js @ [v], wp_waiting := vs, wp_busy := wp_busy p @ [j]\<rparr>)
            | ([], v # vs) \<Rightarrow> Some (p\<lparr>wp_waiting := vs, wp_busy := wp_busy p @ [v]\<rparr>)
            | ([], []) \<Rightarrow> None)
      else None)"

text \<open>The end of one round of \<open>worker\<close>, with the result of \<open>sendWithRetry\<close>.\<close>

definition pool_finish :: "worker_pool \<Rightarrow> notification_job \<Rightarrow> string option \<Rightarrow> worker_pool" where
  "pool_finish p job result =
     (case result of
        None \<Rightarrow> p\<lparr>wp_busy := remove1 job (wp_busy p), wp_sent := wp_sent p + 1\<rparr>
      | Some _ \<Rightarrow> p\<lparr>wp_busy := remove1 job (wp_busy p), wp_failed := wp_failed p + 1\<rparr>)"

text \<open>
  Closing the channel makes every blocked sender panic, which \<open>Submit\<close> recovers from; what is in
  the buffer is still drained.
\<close>

definition pool_stop :: "worker_pool \<Rightarrow> worker_pool" where
  "pool_stop p = (if wp_stopped p then p else p\<lparr>wp_stopped := True, wp_waiting := []\<rparr>)"

record pool_stats =
  ps_queue_depth :: int
  ps_inflight :: int
  ps_max_workers :: int
  ps_total_sent :: int
  ps_total_failed :: int

definition pool_stats_of :: "worker_pool \<Rightarrow> pool_stats" where
  "pool_stats_of p =
     \<lparr>ps_queue_depth = int (length (wp_jobs p)), ps_inflight = int (length (wp_busy p)),
      ps_max_workers = wp_concurrency p, ps_total_sent = wp_sent p, ps_total_failed = wp_failed p\<rparr>"

section \<open>The dispatcher (internal/notify/dispatcher.go)\<close>

text \<open>
  \<open>nd_submitted\<close> is a history of the jobs handed to a pool, with the time; the code does not keep
  it.
\<close>

record notify_dispatcher =
  nd_pools :: "string \<Rightarrow> worker_pool option"
  nd_seen :: "string \<Rightarrow> gotime option"
  nd_metrics :: bool
  nd_sent_metric :: "string list"
  nd_failed_metric :: "string list"
  nd_submitted :: "(gotime \<times> notification_job) list"

definition new_notify_dispatcher :: "bool \<Rightarrow> notify_dispatcher" where
  "new_notify_dispatcher metrics =
     \<lparr>nd_pools = (\<lambda>_. None), nd_seen = (\<lambda>_. None), nd_metrics = metrics, nd_sent_metric = [],
      nd_failed_metric = [], nd_submitted = []\<rparr>"

definition nd_register :: "notify_dispatcher \<Rightarrow> string \<Rightarrow> int \<Rightarrow> nat \<Rightarrow> notify_dispatcher" where
  "nd_register d channel concurrency queue_size =
     d\<lparr>nd_pools := (nd_pools d)(channel \<mapsto> new_worker_pool concurrency queue_size)\<rparr>"

definition dedupe_ttl :: int where
  "dedupe_ttl = 5 * minute"

text \<open>
  The answer of \<open>dedup.Claim\<close> is an argument: \<open>None\<close> without a dedup store, \<open>Some None\<close>
  when the call fails, otherwise its verdict. \<open>cmd/yipyap/notify.go\<close> passes no store.
\<close>

definition claim_in_memory :: "(string \<Rightarrow> gotime option) \<Rightarrow> gotime \<Rightarrow> string \<Rightarrow> bool \<times> (string \<Rightarrow> gotime option)" where
  "claim_in_memory seen now key =
     (case seen key of
        Some e \<Rightarrow> if now < e then (False, seen) else (True, seen(key \<mapsto> now + dedupe_ttl))
      | None \<Rightarrow> (True, seen(key \<mapsto> now + dedupe_ttl)))"

definition mark_seen ::
  "notify_dispatcher \<Rightarrow> gotime \<Rightarrow> bool option option \<Rightarrow> string \<Rightarrow> bool \<times> notify_dispatcher" where
  "mark_seen d now claim key =
     (case claim of
        Some (Some claimed) \<Rightarrow> (claimed, d)
      | _ \<Rightarrow> (case claim_in_memory (nd_seen d) now key of (fresh, seen) \<Rightarrow> (fresh, d\<lparr>nd_seen := seen\<rparr>)))"

datatype notify_error = ErrNoProvider string

definition submit_job :: "notify_dispatcher \<Rightarrow> gotime \<Rightarrow> notification_job \<Rightarrow> worker_pool \<Rightarrow> notify_dispatcher" where
  "submit_job d now job p =
     d\<lparr>nd_pools := (nd_pools d)(job_channel job \<mapsto> pool_submit p job),
       nd_sent_metric := nd_sent_metric d @ (if nd_metrics d then [job_org job] else []),
       nd_submitted := nd_submitted d @ [(now, job)]\<rparr>"

definition notify_dispatch ::
  "notify_dispatcher \<Rightarrow> gotime \<Rightarrow> bool option option \<Rightarrow> notification_job \<Rightarrow> notify_error option \<times> notify_dispatcher" where
  "notify_dispatch d now claim job =
     (let (fresh, d1) = (if job_dedupe_key job = [] then (True, d)
                         else mark_seen d now claim (job_dedupe_key job))
      in if \<not> fresh then (None, d1)
         else case nd_pools d1 (job_channel job) of
                None \<Rightarrow> (Some (ErrNoProvider (job_channel job)), d1)
              | Some p \<Rightarrow> (None, submit_job d1 now job p))"

text \<open>The handler \<open>Start\<close> installs on \<open>notify.request\<close>; a payload that is no job is acked.\<close>

definition on_notify_request ::
  "notify_dispatcher \<Rightarrow> gotime \<Rightarrow> bool option option \<Rightarrow> notification_job option \<Rightarrow>
   notify_error option \<times> notify_dispatcher" where
  "on_notify_request d now claim data =
     (case data of None \<Rightarrow> (None, d) | Some job \<Rightarrow> notify_dispatch d now claim job)"

text \<open>\<open>TestSend\<close> goes straight to the provider.\<close>

definition test_send ::
  "notify_dispatcher \<Rightarrow> (string \<Rightarrow> 's sender) \<Rightarrow> notification_job \<Rightarrow> 's \<Rightarrow>
   (notify_error + string + string) \<times> 's" where
  "test_send d providers job s =
     (case nd_pools d (job_channel job) of
        None \<Rightarrow> (Inl (ErrNoProvider (job_channel job)), s)
      | Some _ \<Rightarrow> (case providers (job_channel job) job s of (r, s1) \<Rightarrow> (Inr r, s1)))"

definition sweep_in_memory :: "(string \<Rightarrow> gotime option) \<Rightarrow> gotime \<Rightarrow> (string \<Rightarrow> gotime option)" where
  "sweep_in_memory seen now =
     (\<lambda>k. case seen k of Some e \<Rightarrow> if e < now then None else Some e | None \<Rightarrow> None)"

definition cleanup_seen :: "notify_dispatcher \<Rightarrow> gotime \<Rightarrow> notify_dispatcher" where
  "cleanup_seen d now = d\<lparr>nd_seen := sweep_in_memory (nd_seen d) now\<rparr>"

text \<open>
  One round of the outbox poller over the rows \<open>Claim\<close> returned (a payload that is no job is
  \<open>None\<close>), with the calls it makes on the outbox store.
\<close>

datatype outbox_call = OutboxFail string int | OutboxComplete string

definition outbox_max_attempts :: int where
  "outbox_max_attempts = 5"

fun process_outbox ::
  "notify_dispatcher \<Rightarrow> gotime \<Rightarrow> (string \<times> notification_job option \<times> bool option option) list \<Rightarrow>
   outbox_call list \<times> notify_dispatcher" where
  "process_outbox d now [] = ([], d)"
| "process_outbox d now (row # rows) =
     (case row of
        (i, None, claim) \<Rightarrow>
          (case process_outbox d now rows of (calls, d1) \<Rightarrow> (OutboxFail i outbox_max_attempts # calls, d1))
      | (i, Some job, claim) \<Rightarrow>
          (case notify_dispatch d now claim job of
             (Some _, d1) \<Rightarrow>
               (case process_outbox d1 now rows of (calls, d2) \<Rightarrow> (OutboxFail i outbox_max_attempts # calls, d2))
           | (None, d1) \<Rightarrow>
               (case process_outbox d1 now rows of (calls, d2) \<Rightarrow> (OutboxComplete i # calls, d2))))"

definition handle_dead_letter :: "notify_dispatcher \<Rightarrow> world \<Rightarrow> notification_job \<Rightarrow> notify_dispatcher \<times> world" where
  "handle_dead_letter d w job =
     (d\<lparr>nd_failed_metric := nd_failed_metric d @ (if nd_metrics d then [job_org job] else [])\<rparr>,
      bus_publish w ''notify.dead'' (PayloadDead job))"

definition nd_stop :: "notify_dispatcher \<Rightarrow> notify_dispatcher" where
  "nd_stop d = d\<lparr>nd_pools := (\<lambda>c. map_option pool_stop (nd_pools d c))\<rparr>"

section \<open>What a claim promises\<close>

text \<open>
  The contract of a deduplication store, in terms of the instant until which a key is taken: a claim
  succeeds exactly when the key is free and then takes it for the time to live; a sweep only drops
  keys whose time is over.
\<close>

locale claim_window =
  fixes claim :: "'s \<Rightarrow> gotime \<Rightarrow> string \<Rightarrow> bool \<times> 's"
    and sweep :: "'s \<Rightarrow> gotime \<Rightarrow> 's"
    and taken_until :: "'s \<Rightarrow> string \<Rightarrow> gotime option"
    and ttl :: int
  assumes claim_free: "fst (claim s t k) \<longleftrightarrow> (\<forall>e. taken_until s k = Some e \<longrightarrow> e \<le> t)"
    and claim_takes: "taken_until (snd (claim s t k)) k' =
      (if k' = k \<and> fst (claim s t k) then Some (t + ttl) else taken_until s k')"
    and sweep_keeps: "taken_until s k = Some e \<Longrightarrow> t \<le> e \<Longrightarrow> taken_until (sweep s t) k = Some e"
begin

definition held :: "'s \<Rightarrow> string \<Rightarrow> gotime \<Rightarrow> bool" where
  "held s k t \<longleftrightarrow> (\<exists>e. taken_until s k = Some e \<and> t < e)"

lemma claim_iff: "fst (claim s t k) \<longleftrightarrow> \<not> held s k t"
  by (auto simp: claim_free held_def not_less)

lemma held_after_claim: "t < ttl + now \<Longrightarrow> now \<le> t \<Longrightarrow> fst (claim s now k) \<Longrightarrow> held (snd (claim s now k)) k t"
  by (simp add: held_def claim_takes add.commute)

lemma held_claim: "held s k t \<Longrightarrow> t0 \<le> t \<Longrightarrow> held (snd (claim s t0 k')) k t"
  by (cases "k' = k") (auto simp: held_def claim_takes claim_free)

lemma held_sweep: "held s k t \<Longrightarrow> t0 \<le> t \<Longrightarrow> held (sweep s t0) k t"
  using sweep_keeps by (fastforce simp: held_def)

end

interpretation mem_claim: claim_window claim_in_memory sweep_in_memory "\<lambda>s. s" dedupe_ttl
  by unfold_locales
    (auto simp: claim_in_memory_def sweep_in_memory_def split: option.splits if_splits)

end
