(* ===== verification/NotifyLaws.thy ===== *)
theory NotifyLaws imports Notify "HOL-Library.Multiset" begin

text \<open>
  What delivery guarantees: a pool neither loses nor duplicates a job and respects its bounds, a send
  is retried a bounded number of times, a key is sent at most once per window; and a job that cannot
  be routed yet is lost for the rest of the window.
\<close>

section \<open>A pool accounts for every job\<close>

text \<open>
  The pool with a history: the jobs \<open>Submit\<close> took, the jobs workers finished with their result,
  and the jobs whose blocked \<open>Submit\<close> was cut off by \<open>Stop\<close>.
\<close>

record pool_history =
  ph_pool :: worker_pool
  ph_accepted :: "notification_job list"
  ph_finished :: "(notification_job \<times> string option) list"
  ph_cut_off :: "notification_job list"

inductive pool_step :: "pool_history \<Rightarrow> pool_history \<Rightarrow> bool" where
  submit: "\<not> wp_stopped (ph_pool h) \<Longrightarrow>
    pool_step h (h\<lparr>ph_pool := pool_submit (ph_pool h) j, ph_accepted := ph_accepted h @ [j]\<rparr>)"
| submit_stopped: "wp_stopped (ph_pool h) \<Longrightarrow> pool_step h (h\<lparr>ph_pool := pool_submit (ph_pool h) j\<rparr>)"
| take: "pool_take (ph_pool h) = Some p \<Longrightarrow> pool_step h (h\<lparr>ph_pool := p\<rparr>)"
| finish: "j \<in> set (wp_busy (ph_pool h)) \<Longrightarrow>
    pool_step h (h\<lparr>ph_pool := pool_finish (ph_pool h) j r, ph_finished := ph_finished h @ [(j, r)]\<rparr>)"
| stop: "pool_step h (h\<lparr>ph_pool := pool_stop (ph_pool h), ph_cut_off := ph_cut_off h @ wp_waiting (ph_pool h)\<rparr>)"

inductive_cases pool_stepE: "pool_step h h'"

definition new_history :: "worker_pool \<Rightarrow> pool_history" where
  "new_history p = \<lparr>ph_pool = p, ph_accepted = [], ph_finished = [], ph_cut_off = []\<rparr>"

definition pool_ok :: "int \<Rightarrow> nat \<Rightarrow> pool_history \<Rightarrow> bool" where
  "pool_ok concurrency capacity h \<longleftrightarrow>
     (let p = ph_pool h in
      wp_concurrency p = concurrency \<and> wp_capacity p = capacity
      \<and> mset (ph_accepted h) = mset (wp_jobs p) + mset (wp_waiting p) + mset (wp_busy p)
          + mset (map fst (ph_finished h)) + mset (ph_cut_off h)
      \<and> length (wp_jobs p) \<le> capacity
      \<and> int (length (wp_busy p)) \<le> max 0 concurrency
      \<and> (wp_waiting p \<noteq> [] \<longrightarrow> length (wp_jobs p) = capacity)
      \<and> (wp_stopped p \<longrightarrow> wp_waiting p = [])
      \<and> wp_sent p = int (length (filter (\<lambda>f. snd f = None) (ph_finished h)))
      \<and> wp_failed p = int (length (filter (\<lambda>f. snd f \<noteq> None) (ph_finished h))))"

lemma pool_ok_submit:
  "pool_ok c n h \<Longrightarrow> \<not> wp_stopped (ph_pool h) \<Longrightarrow>
   pool_ok c n (h\<lparr>ph_pool := pool_submit (ph_pool h) j, ph_accepted := ph_accepted h @ [j]\<rparr>)"
  by (auto simp: pool_ok_def Let_def pool_submit_def)

lemma pool_ok_submit_stopped:
  "pool_ok c n h \<Longrightarrow> wp_stopped (ph_pool h) \<Longrightarrow> pool_ok c n (h\<lparr>ph_pool := pool_submit (ph_pool h) j\<rparr>)"
  by (simp add: pool_submit_def)

lemma pool_ok_take:
  "pool_ok c n h \<Longrightarrow> pool_take (ph_pool h) = Some p \<Longrightarrow> pool_ok c n (h\<lparr>ph_pool := p\<rparr>)"
  by (auto simp: pool_ok_def Let_def pool_take_def split: if_splits list.splits)

lemma pool_ok_finish:
  assumes "pool_ok c n h" "j \<in> set (wp_busy (ph_pool h))"
  shows "pool_ok c n (h\<lparr>ph_pool := pool_finish (ph_pool h) j r, ph_finished := ph_finished h @ [(j, r)]\<rparr>)"
proof -
  have "add_mset j (mset (remove1 j (wp_busy (ph_pool h)))) = mset (wp_busy (ph_pool h))"
    using assms(2) by simp
  moreover have "length (remove1 j (wp_busy (ph_pool h))) \<le> length (wp_busy (ph_pool h))"
    by (simp add: length_remove1)
  ultimately show ?thesis
    using assms(1) by (auto simp: pool_ok_def Let_def pool_finish_def split: option.splits)
qed

lemma pool_ok_stop:
  "pool_ok c n h \<Longrightarrow>
   pool_ok c n (h\<lparr>ph_pool := pool_stop (ph_pool h), ph_cut_off := ph_cut_off h @ wp_waiting (ph_pool h)\<rparr>)"
  by (auto simp: pool_ok_def Let_def pool_stop_def)

interpretation pool: invariant_system pool_step "pool_ok c n" for c n
proof
  fix h h' assume "pool_step h h'" "pool_ok c n h"
  then show "pool_ok c n h'"
    by (cases rule: pool_step.cases)
      (auto intro: pool_ok_submit pool_ok_submit_stopped pool_ok_take pool_ok_finish pool_ok_stop)
qed

lemma new_pool_ok: "pool_ok c n (new_history (new_worker_pool c n))"
  by (simp add: pool_ok_def new_history_def new_worker_pool_def)

text \<open>
  C28: However submits, receives, completions and a stop interleave, a worker pool accounts for every
  job it accepted exactly once: it is buffered, waiting at the full buffer, held by a worker, finished,
  or cut off by the stop. Never more jobs are buffered than the queue size nor held than the
  provider's concurrency, and the two counters count the finished jobs that succeeded and failed.
\<close>

theorem pool_accounts_for_every_job:
  assumes "pool_step\<^sup>*\<^sup>* (new_history (new_worker_pool concurrency queue_size)) h" and "p = ph_pool h"
  shows "mset (ph_accepted h) = mset (wp_jobs p) + mset (wp_waiting p) + mset (wp_busy p)
        + mset (map fst (ph_finished h)) + mset (ph_cut_off h)
    \<and> length (wp_jobs p) \<le> queue_size \<and> int (length (wp_busy p)) \<le> max 0 concurrency
    \<and> wp_sent p + wp_failed p = int (length (ph_finished h))
    \<and> wp_failed p = int (length (filter (\<lambda>f. snd f \<noteq> None) (ph_finished h)))"
proof -
  have "pool_ok concurrency queue_size h"
    by (rule pool.reachable_keeps [OF assms(1) new_pool_ok])
  moreover have "length (filter (\<lambda>f. snd f = None) (ph_finished h)) +
      length (filter (\<lambda>f. snd f \<noteq> None) (ph_finished h)) = length (ph_finished h)"
    by (rule sum_length_filter_compl)
  ultimately show ?thesis
    using assms(2) by (simp add: pool_ok_def Let_def flip: of_nat_add)
qed

section \<open>Retries are bounded\<close>

text \<open>
  A provider whose outcome of attempt \<open>i\<close> is \<open>f i\<close>, counting its attempts and logging the
  waits; the context never ends.
\<close>

definition scripted_send :: "(nat \<Rightarrow> string + string) \<Rightarrow> (nat \<times> int list) sender" where
  "scripted_send f job s = (f (fst s), (Suc (fst s), snd s))"

definition logged_wait :: "(nat \<times> int list) waiter" where
  "logged_wait b s = (None, (fst s, snd s @ [b]))"

definition backoffs :: "int list" where
  "backoffs = [second, 2 * second, 4 * second, 8 * second]"

lemma default_backoffs [simp]:
  "next_backoff 60000000000 1000000000 = 2000000000"
  "next_backoff 60000000000 2000000000 = 4000000000"
  "next_backoff 60000000000 4000000000 = 8000000000"
  by (simp_all add: next_backoff_def)

lemma attempts_fail:
  "isl (f k) \<Longrightarrow> send_attempts (scripted_send f) logged_wait cap job (Suc (Suc left)) b err (k, ws) =
     send_attempts (scripted_send f) logged_wait cap job (Suc left) (next_backoff cap b) (Some (projl (f k)))
       (Suc k, ws @ [b])"
  by (cases "f k") (simp_all add: scripted_send_def logged_wait_def send_attempts.simps(2) [of _ _ _ _ "Suc left"]
    del: send_attempts.simps(2))

lemma last_attempt_fails:
  "isl (f k) \<Longrightarrow> send_attempts (scripted_send f) logged_wait cap job (Suc 0) b err (k, ws) =
     (Some (projl (f k)), (Suc k, ws))"
  by (cases "f k") (simp_all add: scripted_send_def)

lemma attempt_succeeds:
  "\<not> isl (f k) \<Longrightarrow> send_attempts (scripted_send f) logged_wait cap job (Suc left) b err (k, ws) =
     (None, (Suc k, ws))"
  by (cases "f k") (simp_all add: scripted_send_def)

text \<open>
  A job is sent until the first success and at most five times, with waits of 1, 2, 4 and 8 seconds
  between the attempts; it fails exactly when all five attempts failed, with the last error.
\<close>

theorem send_is_retried_up_to_five_times:
  shows "(\<forall>n < 5. (\<forall>i < n. isl (f i)) \<and> \<not> isl (f n) \<longrightarrow>
      send_with_retry (scripted_send f) logged_wait (new_worker_pool c q) job (0, []) =
        (None, (Suc n, take n backoffs)))
    \<and> ((\<forall>i < 5. isl (f i)) \<longrightarrow>
      send_with_retry (scripted_send f) logged_wait (new_worker_pool c q) job (0, []) =
        (Some (projl (f 4)), (5, backoffs)))"
proof -
  have five: "nat default_retries = Suc (Suc (Suc (Suc (Suc 0))))" by (simp add: default_retries_def)
  note run = send_with_retry_def new_worker_pool_def five default_initial_backoff_def
    default_max_backoff_def backoffs_def attempts_fail last_attempt_fails attempt_succeeds
  have less5: "(\<forall>n < (5::nat). P n) \<longleftrightarrow> P 0 \<and> P (Suc 0) \<and> P (Suc (Suc 0)) \<and>
      P (Suc (Suc (Suc 0))) \<and> P (Suc (Suc (Suc (Suc 0))))" for P
    by (auto simp: eval_nat_numeral All_less_Suc)
  have four: "f 4 = f (Suc (Suc (Suc (Suc 0))))" by (simp add: eval_nat_numeral)
  show ?thesis
    unfolding less5 four by (simp add: run All_less_Suc del: send_attempts.simps)
qed

section \<open>At most one job per key and window\<close>

text \<open>A run of the dispatcher without a dedup store: jobs dispatched and cleanups, each at an instant.\<close>

datatype notify_op = DispatchJob gotime notification_job | CleanupSeen gotime

fun notify_op_time :: "notify_op \<Rightarrow> gotime" where
  "notify_op_time (DispatchJob t j) = t"
| "notify_op_time (CleanupSeen t) = t"

fun notify_step_op :: "notify_dispatcher \<Rightarrow> notify_op \<Rightarrow> notify_dispatcher" where
  "notify_step_op d (DispatchJob t j) = snd (notify_dispatch d t None j)"
| "notify_step_op d (CleanupSeen t) = cleanup_seen d t"

definition notify_run :: "notify_dispatcher \<Rightarrow> notify_op list \<Rightarrow> notify_dispatcher" where
  "notify_run = foldl notify_step_op"

definition same_key :: "notification_job \<Rightarrow> notification_job \<Rightarrow> bool" where
  "same_key j k \<longleftrightarrow> job_dedupe_key j \<noteq> [] \<and> job_dedupe_key j = job_dedupe_key k"

text \<open>The outcome of one dispatch, by the three ways it can go.\<close>

lemma notify_dispatch_cases [consumes 0, case_names duplicate unrouted submitted]:
  obtains
    "job_dedupe_key j \<noteq> []" "\<not> fst (claim_in_memory (nd_seen d) t (job_dedupe_key j))"
      "notify_dispatch d t None j = (None, d)"
  | seen where "nd_pools d (job_channel j) = None"
      "job_dedupe_key j = [] \<and> seen = nd_seen d \<or>
       job_dedupe_key j \<noteq> [] \<and> claim_in_memory (nd_seen d) t (job_dedupe_key j) = (True, seen)"
      "notify_dispatch d t None j = (Some (ErrNoProvider (job_channel j)), d\<lparr>nd_seen := seen\<rparr>)"
  | seen p where "nd_pools d (job_channel j) = Some p"
      "job_dedupe_key j = [] \<and> seen = nd_seen d \<or>
       job_dedupe_key j \<noteq> [] \<and> claim_in_memory (nd_seen d) t (job_dedupe_key j) = (True, seen)"
      "notify_dispatch d t None j = (None, submit_job (d\<lparr>nd_seen := seen\<rparr>) t j p)"
proof (cases "job_dedupe_key j = []")
  case True
  then show ?thesis
    using that(2) [of "nd_seen d"] that(3) [of _ "nd_seen d"]
    by (cases "nd_pools d (job_channel j)") (auto simp: notify_dispatch_def)
next
  case False
  obtain fresh seen where c: "claim_in_memory (nd_seen d) t (job_dedupe_key j) = (fresh, seen)"
    by (cases "claim_in_memory (nd_seen d) t (job_dedupe_key j)")
  moreover have "seen = nd_seen d" if "\<not> fresh"
    using c that by (auto simp: claim_in_memory_def split: option.splits if_splits)
  ultimately show ?thesis
    using False that(1) that(2) [of seen] that(3) [of _ seen]
    by (cases fresh; cases "nd_pools d (job_channel j)") (auto simp: notify_dispatch_def mark_seen_def)
qed

definition key_windows :: "gotime \<Rightarrow> notify_dispatcher \<Rightarrow> bool" where
  "key_windows now d \<longleftrightarrow>
     sorted_wrt (\<lambda>(t, j) (u, k). same_key j k \<longrightarrow> t + dedupe_ttl \<le> u) (nd_submitted d)
     \<and> (\<forall>(t, j) \<in> set (nd_submitted d). job_dedupe_key j \<noteq> [] \<longrightarrow>
          (\<forall>u \<ge> now. u < t + dedupe_ttl \<longrightarrow> mem_claim.held (nd_seen d) (job_dedupe_key j) u))"

lemma key_windows_later: "key_windows now d \<Longrightarrow> now \<le> u \<Longrightarrow> key_windows u d"
  by (auto simp: key_windows_def)

lemma key_windows_claimed:
  assumes "key_windows t d" "claim_in_memory (nd_seen d) t key = (True, seen)"
  shows "key_windows t (d\<lparr>nd_seen := seen\<rparr>)"
  using assms(1) mem_claim.held_claim [of "nd_seen d" _ _ t key] assms(2)
  by (fastforce simp: key_windows_def)

lemma key_windows_submit:
  assumes ok: "key_windows t (d\<lparr>nd_seen := seen\<rparr>)"
    and c: "job_dedupe_key j = [] \<and> seen = nd_seen d \<or>
       job_dedupe_key j \<noteq> [] \<and> claim_in_memory (nd_seen d) t (job_dedupe_key j) = (True, seen)"
    and ok0: "key_windows t d"
  shows "key_windows t (submit_job (d\<lparr>nd_seen := seen\<rparr>) t j p)"
proof -
  have "t0 + dedupe_ttl \<le> t" if "(t0, k) \<in> set (nd_submitted d)" "same_key k j" for t0 k
  proof (rule ccontr)
    assume "\<not> t0 + dedupe_ttl \<le> t"
    then have "mem_claim.held (nd_seen d) (job_dedupe_key j) t"
      using ok0 that by (fastforce simp: key_windows_def same_key_def)
    then show False
      using c that(2) mem_claim.claim_iff [of "nd_seen d" t "job_dedupe_key j"] by (auto simp: same_key_def)
  qed
  moreover have "mem_claim.held seen (job_dedupe_key j) u"
    if "job_dedupe_key j \<noteq> []" "t \<le> u" "u < t + dedupe_ttl" for u
    using mem_claim.held_after_claim [of u t "nd_seen d" "job_dedupe_key j"] c that by (simp add: add.commute)
  ultimately show ?thesis
    using ok by (auto simp: key_windows_def submit_job_def sorted_wrt_append)
qed

lemma key_windows_step:
  assumes "key_windows (notify_op_time x) d"
  shows "key_windows (notify_op_time x) (notify_step_op d x)"
proof (cases x)
  case (DispatchJob t j)
  with assms have ok: "key_windows t d" by simp
  show ?thesis
  proof (cases rule: notify_dispatch_cases [of j d t])
    case duplicate
    then show ?thesis using ok DispatchJob by simp
  next
    case (unrouted seen)
    then have "key_windows t (d\<lparr>nd_seen := seen\<rparr>)" using ok key_windows_claimed by (auto simp del: surjective)
    then show ?thesis using unrouted(3) DispatchJob by simp
  next
    case (submitted seen p)
    then have "key_windows t (d\<lparr>nd_seen := seen\<rparr>)" using ok key_windows_claimed by auto
    from key_windows_submit [OF this submitted(2) ok] show ?thesis
      using submitted(3) DispatchJob by simp
  qed
next
  case (CleanupSeen t)
  then show ?thesis
    using assms mem_claim.held_sweep [of "nd_seen d" _ _ t]
    by (fastforce simp: key_windows_def cleanup_seen_def)
qed

lemma key_windows_run:
  "sorted (map notify_op_time ops) \<Longrightarrow> key_windows now d \<Longrightarrow> \<forall>x \<in> set ops. now \<le> notify_op_time x \<Longrightarrow>
   \<exists>u. key_windows u (notify_run d ops)"
proof (induction ops arbitrary: now d)
  case (Cons x ops)
  have "key_windows (notify_op_time x) (notify_step_op d x)"
    using Cons.prems(3) by (intro key_windows_step key_windows_later [OF Cons.prems(2)]) simp
  then show ?case
    using Cons.IH [of "notify_op_time x" "notify_step_op d x"] Cons.prems by (simp add: notify_run_def)
qed (auto simp: notify_run_def)

text \<open>
  C27: Without a shared dedup store, in any run of dispatches and cleanups whose clock does not go back,
  two jobs with the same deduplication key are handed to a provider at least five minutes apart.
\<close>

theorem a_key_is_sent_once_per_window:
  assumes "sorted (map notify_op_time ops)" and "nd_submitted d = []"
    and "i < k" "k < length (nd_submitted (notify_run d ops))"
    and "same_key (snd (nd_submitted (notify_run d ops) ! i)) (snd (nd_submitted (notify_run d ops) ! k))"
  shows "fst (nd_submitted (notify_run d ops) ! i) + 5 * minute \<le> fst (nd_submitted (notify_run d ops) ! k)"
proof -
  have "ops \<noteq> []" using assms(2,4) by (auto simp: notify_run_def)
  then have "\<forall>x \<in> set ops. notify_op_time (hd ops) \<le> notify_op_time x"
    using assms(1) by (cases ops) auto
  moreover have "key_windows (notify_op_time (hd ops)) d" using assms(2) by (simp add: key_windows_def)
  ultimately obtain u where "key_windows u (notify_run d ops)" using key_windows_run assms(1) by blast
  then show ?thesis
    using assms(3-5) by (auto simp: key_windows_def sorted_wrt_iff_nth_less dedupe_ttl_def split_beta)
qed

section \<open>A job that cannot be routed yet\<close>

text \<open>
  A job whose channel type has no provider takes its key before the provider is looked up. The
  dispatch fails, but within the next five minutes the same job is taken for a duplicate: it is
  reported delivered although no provider ever gets it, even once the provider is registered.
\<close>

theorem unrouted_job_is_lost:
  assumes "nd_pools d (job_channel j) = None" and "job_dedupe_key j \<noteq> []"
    and "nd_seen d (job_dedupe_key j) = None"
    and "(r, d1) = notify_dispatch d t None j" and "t \<le> u" "u < t + 5 * minute"
  shows "r = Some (ErrNoProvider (job_channel j))
    \<and> notify_dispatch (nd_register d1 (job_channel j) c q) u None j = (None, nd_register d1 (job_channel j) c q)
    \<and> nd_submitted (nd_register d1 (job_channel j) c q) = nd_submitted d"
proof -
  have "(r, d1) = (Some (ErrNoProvider (job_channel j)),
      d\<lparr>nd_seen := (nd_seen d)(job_dedupe_key j \<mapsto> t + dedupe_ttl)\<rparr>)"
    using assms(1-4) by (simp add: notify_dispatch_def mark_seen_def claim_in_memory_def)
  then show ?thesis
    using assms(2,5,6)
    by (simp add: notify_dispatch_def mark_seen_def claim_in_memory_def nd_register_def dedupe_ttl_def)
qed

end
