(* ===== verification/Bus.thy ===== *)
theory Bus imports Prelude begin

text \<open>
  The in-process message bus (\<open>internal/bus/channel.go\<close>): subscriptions by subject pattern,
  NATS-style matching, and delivery to every broadcast subscriber and to one member of each queue
  group. A handler is an abstract value: what a handler does with a message is the business of the
  component that subscribed it.
\<close>

section \<open>Subscriptions\<close>

record 'h subscription =
  sub_handler :: 'h
  sub_queue :: string

text \<open>The map from patterns to subscriptions, as an association list with one entry per pattern.\<close>

record 'h channel_bus =
  cb_subs :: "(string \<times> 'h subscription list) list"

definition new_channel_bus :: "'h channel_bus" where
  "new_channel_bus = \<lparr>cb_subs = []\<rparr>"

fun append_sub ::
  "string \<Rightarrow> 'h subscription \<Rightarrow> (string \<times> 'h subscription list) list \<Rightarrow> (string \<times> 'h subscription list) list" where
  "append_sub p s [] = [(p, [s])]"
| "append_sub p s (e # es) = (if fst e = p then (p, snd e @ [s]) # es else e # append_sub p s es)"

definition subscribe :: "'h channel_bus \<Rightarrow> string \<Rightarrow> 'h \<Rightarrow> 'h channel_bus" where
  "subscribe b subject h = b\<lparr>cb_subs := append_sub subject \<lparr>sub_handler = h, sub_queue = []\<rparr> (cb_subs b)\<rparr>"

definition queue_subscribe :: "'h channel_bus \<Rightarrow> string \<Rightarrow> string \<Rightarrow> 'h \<Rightarrow> 'h channel_bus" where
  "queue_subscribe b subject queue h =
     b\<lparr>cb_subs := append_sub subject \<lparr>sub_handler = h, sub_queue = queue\<rparr> (cb_subs b)\<rparr>"

text \<open>\<open>PullSubscribe\<close> wraps the handler with an auto-acked message and joins the consumer's queue group.\<close>

definition pull_subscribe :: "'h channel_bus \<Rightarrow> string \<Rightarrow> string \<Rightarrow> 'h \<Rightarrow> 'h channel_bus" where
  "pull_subscribe b subject consumer h = queue_subscribe b subject consumer h"

fun drop_queue ::
  "string \<Rightarrow> string \<Rightarrow> (string \<times> 'h subscription list) list \<Rightarrow> (string \<times> 'h subscription list) list" where
  "drop_queue p q [] = []"
| "drop_queue p q (e # es) =
     (if fst e = p
      then (let kept = filter (\<lambda>s. sub_queue s \<noteq> q) (snd e) in if kept = [] then es else (p, kept) # es)
      else e # drop_queue p q es)"

definition unsubscribe :: "'h channel_bus \<Rightarrow> string \<Rightarrow> string \<Rightarrow> 'h channel_bus" where
  "unsubscribe b subject queue = b\<lparr>cb_subs := drop_queue subject queue (cb_subs b)\<rparr>"

definition bus_close :: "'h channel_bus \<Rightarrow> 'h channel_bus" where
  "bus_close b = b\<lparr>cb_subs := []\<rparr>"

section \<open>Matching\<close>

text \<open>The loop over the pattern's tokens, with the position of the token as in the code.\<close>

fun match_tokens :: "nat \<Rightarrow> string list \<Rightarrow> string list \<Rightarrow> nat \<Rightarrow> bool" where
  "match_tokens i [] st plen = (plen = length st)"
| "match_tokens i (tok # pt) st plen =
     (if tok = ''>'' then int i \<le> int (length st) - 1
      else if length st \<le> i then False
      else if tok = ''*'' then match_tokens (Suc i) pt st plen
      else if tok \<noteq> st ! i then False
      else match_tokens (Suc i) pt st plen)"

definition subject_matches :: "string \<Rightarrow> string \<Rightarrow> bool" where
  "subject_matches pattern subject =
     (if pattern = subject then True
      else if CHR ''*'' \<notin> set pattern \<and> CHR ''>'' \<notin> set pattern then False
      else (let pt = str_split CHR ''.'' pattern
            in match_tokens 0 pt (str_split CHR ''.'' subject) (length pt)))"

section \<open>Publishing\<close>

text \<open>
  The subscriptions whose pattern matches; then the deliveries, one goroutine each, so that their order
  means nothing. The member of a queue group is drawn with \<open>rand.IntN\<close>: \<open>pick q n\<close> is the
  number drawn for group \<open>q\<close> among its \<open>n\<close> members.
\<close>

definition matching :: "'h channel_bus \<Rightarrow> string \<Rightarrow> 'h subscription list" where
  "matching b subject =
     concat (map snd (filter (\<lambda>e. subject_matches (fst e) subject) (cb_subs b)))"

definition queue_names :: "'h subscription list \<Rightarrow> string list" where
  "queue_names subs = remdups (map sub_queue (filter (\<lambda>s. sub_queue s \<noteq> []) subs))"

definition queue_members :: "string \<Rightarrow> 'h subscription list \<Rightarrow> 'h subscription list" where
  "queue_members q subs = filter (\<lambda>s. sub_queue s = q) subs"

definition deliveries :: "(string \<Rightarrow> nat \<Rightarrow> nat) \<Rightarrow> 'h channel_bus \<Rightarrow> string \<Rightarrow> 'h subscription list" where
  "deliveries pick b subject =
     (let subs = matching b subject
      in filter (\<lambda>s. sub_queue s = []) subs @
         map (\<lambda>q. queue_members q subs ! pick q (length (queue_members q subs))) (queue_names subs))"

text \<open>\<open>PublishDurable\<close> falls back to \<open>Publish\<close>.\<close>

definition deliveries_durable :: "(string \<Rightarrow> nat \<Rightarrow> nat) \<Rightarrow> 'h channel_bus \<Rightarrow> string \<Rightarrow> 'h subscription list" where
  "deliveries_durable = deliveries"

section \<open>Matching is NATS matching\<close>

text \<open>
  What the comment promises, on tokens: an asterisk stands for one token, a greater sign for one or
  more remaining tokens, any other token for itself.
\<close>

fun nats_match :: "string list \<Rightarrow> string list \<Rightarrow> bool" where
  "nats_match [] st = (st = [])"
| "nats_match (tok # pt) st =
     (if tok = ''>'' then st \<noteq> []
      else (case st of [] \<Rightarrow> False | t # ts \<Rightarrow> (tok = ''*'' \<or> tok = t) \<and> nats_match pt ts))"

lemma match_tokens_nats:
  "i + length pt = plen \<Longrightarrow> i \<le> length st \<Longrightarrow> match_tokens i pt st plen = nats_match pt (drop i st)"
proof (induction pt arbitrary: i)
  case Nil
  then show ?case by auto
next
  case (Cons tok pt)
  show ?case
  proof (cases "i < length st")
    case True
    then have "drop i st = st ! i # drop (Suc i) st" by (simp add: Cons_nth_drop_Suc)
    with True Cons show ?thesis by auto
  next
    case False
    with Cons.prems show ?thesis by auto
  qed
qed

lemma nats_match_refl: "nats_match ts ts"
  by (induction ts) auto

lemma split_set: "t \<in> set (str_split sep s) \<Longrightarrow> set t \<subseteq> set s"
proof (induction s arbitrary: t)
  case (Cons c cs)
  then show ?case by (cases "str_split sep cs") (fastforce split: if_splits)+
qed simp

lemma nats_match_literal:
  "''>'' \<notin> set pt \<Longrightarrow> ''*'' \<notin> set pt \<Longrightarrow> nats_match pt st \<longleftrightarrow> pt = st"
  by (induction pt arbitrary: st) (auto split: list.splits)

text \<open>
  C33: The bus's matching, with its shortcuts for equal strings and patterns without wildcards and its
  index arithmetic, is token-wise NATS matching of the dot-separated pattern and subject.
\<close>

theorem subject_matches_nats:
  "subject_matches pattern subject = nats_match (str_split CHR ''.'' pattern) (str_split CHR ''.'' subject)"
proof (cases "CHR ''*'' \<notin> set pattern \<and> CHR ''>'' \<notin> set pattern")
  case True
  then have "''>'' \<notin> set (str_split CHR ''.'' pattern)" "''*'' \<notin> set (str_split CHR ''.'' pattern)"
    using split_set [of _ "CHR ''.''" pattern] by fastforce+
  then show ?thesis
    using True nats_match_literal [of "str_split CHR ''.'' pattern"] str_join_split [of "CHR ''.''"]
    by (metis subject_matches_def)
next
  case False
  then show ?thesis
    by (simp add: subject_matches_def Let_def match_tokens_nats nats_match_refl del: de_Morgan_conj)
qed

section \<open>Who gets a message\<close>

lemma queue_members_pick:
  assumes "q \<in> set (queue_names subs)" "\<And>n. 0 < n \<Longrightarrow> pick q n < n"
  shows "queue_members q subs ! pick q (length (queue_members q subs)) \<in> set (queue_members q subs)"
proof -
  have "queue_members q subs \<noteq> []"
    using assms(1) by (auto simp: queue_names_def queue_members_def filter_empty_conv)
  then show ?thesis using assms(2) by simp
qed

lemma length_filter_distinct:
  "distinct xs \<Longrightarrow> length (filter (\<lambda>x. x = q) xs) = (if q \<in> set xs then 1 else 0)"
  by (induction xs) (auto simp: filter_empty_conv)

lemma deliveries_of_queue:
  assumes "\<And>q n. 0 < n \<Longrightarrow> pick q n < n" "q \<noteq> []"
  shows "length (filter (\<lambda>s. sub_queue s = q) (deliveries pick b subject)) =
    (if q \<in> set (queue_names (matching b subject)) then 1 else 0)"
proof -
  define subs where "subs = matching b subject"
  let ?f = "\<lambda>q. queue_members q subs ! pick q (length (queue_members q subs))"
  have f: "sub_queue (?f q') = q'" if "q' \<in> set (queue_names subs)" for q'
    using queue_members_pick [of q' subs pick] that assms(1) by (auto simp: queue_members_def)
  have "filter (\<lambda>s. sub_queue s = q) (map ?f qs) = map ?f (filter (\<lambda>q'. q' = q) qs)"
    if "set qs \<subseteq> set (queue_names subs)" for qs
    using that f by (induction qs) auto
  then have "length (filter (\<lambda>s. sub_queue s = q) (map ?f (queue_names subs))) =
      length (filter (\<lambda>q'. q' = q) (queue_names subs))" by simp
  also have "\<dots> = (if q \<in> set (queue_names subs) then 1 else 0)"
    by (rule length_filter_distinct) (simp add: queue_names_def)
  moreover have "filter (\<lambda>s. sub_queue s = q) (filter (\<lambda>s. sub_queue s = []) subs) = []"
    using assms(2) by (auto simp: filter_empty_conv)
  ultimately show ?thesis by (simp add: deliveries_def Let_def subs_def)
qed

text \<open>
  A published message reaches every broadcast subscriber whose pattern matches the subject, exactly
  one member of every queue group that has a matching subscription, and nobody else.
\<close>

theorem publish_reaches_each_group_once:
  assumes "\<And>q n. 0 < n \<Longrightarrow> pick q n < n"
  shows "filter (\<lambda>s. sub_queue s = []) (deliveries pick b subject) =
      filter (\<lambda>s. sub_queue s = []) (matching b subject)
    \<and> (\<forall>q. q \<noteq> [] \<longrightarrow> length (filter (\<lambda>s. sub_queue s = q) (deliveries pick b subject)) =
        (if \<exists>s \<in> set (matching b subject). sub_queue s = q then 1 else 0))
    \<and> set (deliveries pick b subject) \<subseteq> set (matching b subject)"
proof (intro conjI allI impI)
  define subs where "subs = matching b subject"
  have m: "queue_members q subs ! pick q (length (queue_members q subs)) \<in> set (queue_members q subs)"
    if "q \<in> set (queue_names subs)" for q
    using queue_members_pick that assms by blast
  then show "set (deliveries pick b subject) \<subseteq> set (matching b subject)"
    by (fastforce simp: deliveries_def Let_def queue_members_def subs_def)
  have "sub_queue (queue_members q subs ! pick q (length (queue_members q subs))) \<noteq> []"
    if "q \<in> set (queue_names subs)" for q
    using m [OF that] that by (auto simp: queue_members_def queue_names_def)
  then show "filter (\<lambda>s. sub_queue s = []) (deliveries pick b subject) =
      filter (\<lambda>s. sub_queue s = []) (matching b subject)"
    by (auto simp: deliveries_def Let_def subs_def filter_empty_conv)
  fix q :: string assume "q \<noteq> []"
  then show "length (filter (\<lambda>s. sub_queue s = q) (deliveries pick b subject)) =
      (if \<exists>s \<in> set (matching b subject). sub_queue s = q then 1 else 0)"
    using deliveries_of_queue [of pick q b subject, OF assms] by (auto simp: queue_names_def)
qed

end
