(* ===== verification/Router.thy ===== *)
theory Router imports NotifyLaws Bus Escalation begin

text \<open>
  From the bus to the sinks (\<open>internal/cloudevents/publisher.go\<close>, \<open>router.go\<close>): the
  subject an event is published on, and the router that turns every event on the egress tree into
  one notification job per CloudEvents channel of the organisation.
\<close>

section \<open>Subjects\<close>

definition subject_prefix :: string where
  "subject_prefix = ''events.cloudevents.out.''"

definition subject_for :: "string \<Rightarrow> string \<Rightarrow> string" where
  "subject_for org ty = subject_prefix @ org @ ''.'' @ ty"

definition router_subject :: string where
  "router_subject = ''events.cloudevents.out.>''"

definition extract_org_id :: "string \<Rightarrow> string option" where
  "extract_org_id subject =
     (let parts = str_split CHR ''.'' subject in
      if length parts < 5 then None
      else if parts ! 0 \<noteq> ''events'' \<or> parts ! 1 \<noteq> ''cloudevents'' \<or> parts ! 2 \<noteq> ''out'' then None
      else if parts ! 3 = [] then None
      else Some (parts ! 3))"

section \<open>The router\<close>

text \<open>
  An event on the bus: its bytes and their parse tree. Any decoding error gives the empty type and id.
\<close>

definition extract_event_type_and_id :: "raw_json \<Rightarrow> string \<times> string" where
  "extract_event_type_and_id raw =
     (case unmarshal (\<lambda>kvs. case (get_string ''type'' kvs, get_string ''id'' kvs) of
             (Some ty, Some i) \<Rightarrow> Some (ty, i) | _ \<Rightarrow> None) raw of
        None \<Rightarrow> ([], []) | Some r \<Rightarrow> r)"

definition extract_event_id :: "raw_json \<Rightarrow> string" where
  "extract_event_id raw = snd (extract_event_type_and_id raw)"

definition router_encode_config :: "envelope \<Rightarrow> string \<Rightarrow> string option" where
  "router_encode_config env config =
     (case env of
        Some encrypt \<Rightarrow> (case encrypt config of None \<Rightarrow> None | Some enc \<Rightarrow> Some (CHR 0x01 # enc))
      | None \<Rightarrow> Some (CHR 0x00 # config))"

definition router_job ::
  "string \<Rightarrow> string \<Rightarrow> string \<Rightarrow> string \<Rightarrow> raw_json \<Rightarrow> notification_job" where
  "router_job i org cfg text raw =
     \<lparr>job_id = i, job_alert = [], job_org = org, job_monitor_name = [], job_severity = no_severity,
      job_channel = ''cloudevent_http'', job_target_config = cfg, job_message = text, job_ack_url = [],
      job_dedupe_key = org @ ''-'' @ extract_event_id raw, job_runbook = [], job_service_name = [],
      job_service_notes = [], job_context_links = None, job_dependency_status = None\<rparr>"

text \<open>
  One round of the loop over the channels. The outbox of this build accepts everything and stores
  nothing; publishing on the in-process bus cannot fail.
\<close>

definition route_channel ::
  "envelope \<Rightarrow> string \<Rightarrow> string \<Rightarrow> raw_json \<Rightarrow> world \<Rightarrow> notification_channel \<Rightarrow> world" where
  "route_channel env org text raw w ch =
     (if ch_type ch \<noteq> ''cloudevent_http'' \<or> \<not> ch_enabled ch then w
      else case router_encode_config env (ch_config ch) of
             None \<Rightarrow> w
           | Some cfg \<Rightarrow>
               (case new_uuid w of (i, w1) \<Rightarrow>
                  bus_publish w1 ''notify.request'' (PayloadJob (router_job i org cfg text raw))))"

definition router_handle :: "envelope \<Rightarrow> world \<Rightarrow> string \<Rightarrow> string \<Rightarrow> raw_json \<Rightarrow> world" where
  "router_handle env w subject text raw =
     (case extract_org_id subject of
        None \<Rightarrow> w
      | Some org \<Rightarrow>
          (case channels_list w org 1000 of
             Inl _ \<Rightarrow> w
           | Inr chs \<Rightarrow> foldl (route_channel env org text raw) w chs))"

section \<open>Subjects round trip\<close>

lemma split_subject_for:
  assumes "CHR ''.'' \<notin> set org"
  shows "str_split CHR ''.'' (subject_for org ty) =
    ''events'' # ''cloudevents'' # ''out'' # org # str_split CHR ''.'' ty"
proof -
  have "subject_for org ty = ''events'' @ CHR ''.'' # ''cloudevents'' @ CHR ''.'' # ''out'' @ CHR ''.'' #
      org @ CHR ''.'' # ty"
    by (simp add: subject_for_def subject_prefix_def)
  with assms show ?thesis by (simp only: str_split_append_sep) (simp add: str_split_append_sep)
qed

text \<open>
  The subject an event is published on is one the router's subscription receives, and the router
  reads back the organisation it was published for (an organisation id has no dots).
\<close>

theorem subject_names_its_org:
  assumes "CHR ''.'' \<notin> set org" and "org \<noteq> []"
  shows "subject_matches router_subject (subject_for org ty) \<and> extract_org_id (subject_for org ty) = Some org"
proof -
  have "str_split CHR ''.'' router_subject = [''events'', ''cloudevents'', ''out'', ''>'']"
    by (simp add: router_subject_def)
  moreover obtain t ts where "str_split CHR ''.'' ty = t # ts" by (cases "str_split CHR ''.'' ty") auto
  ultimately show ?thesis
    using assms by (simp add: subject_matches_def router_subject_def extract_org_id_def split_subject_for Let_def)
qed

end
