(* ===== verification/Delivery.thy ===== *)
theory Delivery imports Router EscalationSpec begin

text \<open>
  The notification path end to end: the jobs the escalation engine and the CloudEvents router publish,
  handed to the dispatcher. The deduplication keys of both leave out the channel, so one key stands
  for every channel of a step, or of an organisation, and only the first job gets through.
\<close>

section \<open>Jobs that share a key\<close>

definition dispatch_jobs :: "notify_dispatcher \<Rightarrow> gotime list \<Rightarrow> notification_job list \<Rightarrow> notify_dispatcher" where
  "dispatch_jobs d ts js = notify_run d (map2 DispatchJob ts js)"

lemma dispatch_jobs_Cons:
  "dispatch_jobs d (t # ts) (j # js) = dispatch_jobs (snd (notify_dispatch d t None j)) ts js"
  by (simp add: dispatch_jobs_def notify_run_def)

lemma held_duplicate:
  assumes "job_dedupe_key j \<noteq> []" "mem_claim.held (nd_seen d) (job_dedupe_key j) t"
  shows "notify_dispatch d t None j = (None, d)"
proof (cases rule: notify_dispatch_cases [of j d t])
  case (unrouted seen)
  with assms mem_claim.claim_iff [of "nd_seen d" t "job_dedupe_key j"] show ?thesis by auto
next
  case (submitted seen p)
  with assms mem_claim.claim_iff [of "nd_seen d" t "job_dedupe_key j"] show ?thesis by auto
qed

lemma dispatch_jobs_held:
  "key \<noteq> [] \<Longrightarrow> \<forall>j \<in> set js. job_dedupe_key j = key \<Longrightarrow> \<forall>t \<in> set ts. mem_claim.held (nd_seen d) key t \<Longrightarrow>
   dispatch_jobs d ts js = d"
proof (induction js arbitrary: ts)
  case (Cons j js)
  then show ?case
    by (cases ts) (auto simp: dispatch_jobs_Cons held_duplicate dispatch_jobs_def notify_run_def)
qed (simp add: dispatch_jobs_def notify_run_def)

lemma dispatch_first_of_key:
  assumes "job_dedupe_key j \<noteq> []" "nd_seen d (job_dedupe_key j) = None"
  shows "nd_seen (snd (notify_dispatch d t None j)) (job_dedupe_key j) = Some (t + dedupe_ttl)"
    and "nd_submitted (snd (notify_dispatch d t None j)) =
      nd_submitted d @ (if nd_pools d (job_channel j) = None then [] else [(t, j)])"
  using assms
  by (simp_all add: notify_dispatch_def mark_seen_def claim_in_memory_def submit_job_def split: option.split)

lemma one_job_per_key:
  assumes "\<forall>j \<in> set (j # js). job_dedupe_key j = key" "key \<noteq> []" "nd_seen d key = None"
    and "\<forall>u \<in> set ts. t \<le> u \<and> u < t + dedupe_ttl"
  shows "nd_submitted (dispatch_jobs d (t # ts) (j # js)) =
    nd_submitted d @ (if nd_pools d (job_channel j) = None then [] else [(t, j)])"
proof -
  let ?d1 = "snd (notify_dispatch d t None j)"
  have key: "job_dedupe_key j = key" using assms(1) by simp
  have "mem_claim.held (nd_seen ?d1) key u" if "u \<in> set ts" for u
    using dispatch_first_of_key(1) [of j d t] that assms key by (simp add: mem_claim.held_def)
  then have "dispatch_jobs ?d1 ts js = ?d1"
    using assms by (intro dispatch_jobs_held) auto
  then show ?thesis
    using dispatch_first_of_key(2) [of j d t] assms key by (simp add: dispatch_jobs_Cons)
qed

lemma one_job_per_key_any_order:
  assumes "mset js = mset jobs" "js \<noteq> []" "\<forall>j \<in> set jobs. job_dedupe_key j = key" "key \<noteq> []"
    and "nd_seen d key = None" "\<forall>u \<in> set ts. t \<le> u \<and> u < t + dedupe_ttl"
  shows "nd_submitted (dispatch_jobs d (t # ts) js) =
    nd_submitted d @ (if nd_pools d (job_channel (hd js)) = None then [] else [(t, hd js)])"
proof -
  have "set js = set jobs" using assms(1) by (rule mset_eq_setD)
  then show ?thesis
    using one_job_per_key [of "hd js" "tl js" key d ts t] assms by (cases js) auto
qed

section \<open>The jobs of an event\<close>

definition ce_configs :: "envelope \<Rightarrow> notification_channel list \<Rightarrow> string list" where
  "ce_configs env chs =
     concat (map (\<lambda>ch. if ch_type ch = ''cloudevent_http'' \<and> ch_enabled ch
                       then (case router_encode_config env (ch_config ch) of None \<Rightarrow> [] | Some cfg \<Rightarrow> [cfg])
                       else []) chs)"

definition on_bus :: "notification_job list \<Rightarrow> (string \<times> bus_payload) list" where
  "on_bus js = map (\<lambda>j. (''notify.request'', PayloadJob j)) js"

lemma route_channels_bus:
  "\<exists>ids. length ids = length (ce_configs env chs) \<and>
     w_bus (foldl (route_channel env org text raw) w chs) =
       w_bus w @ on_bus (map2 (\<lambda>i cfg. router_job i org cfg text raw) ids (ce_configs env chs))"
proof (induction chs arbitrary: w)
  case (Cons ch chs)
  let ?w1 = "route_channel env org text raw w ch"
  obtain ids where ids: "length ids = length (ce_configs env chs)"
    "w_bus (foldl (route_channel env org text raw) ?w1 chs) =
       w_bus ?w1 @ on_bus (map2 (\<lambda>i cfg. router_job i org cfg text raw) ids (ce_configs env chs))"
    using Cons.IH by blast
  show ?case
  proof (cases "ch_type ch = ''cloudevent_http'' \<and> ch_enabled ch \<and> router_encode_config env (ch_config ch) \<noteq> None")
    case True
    then obtain cfg where cfg: "router_encode_config env (ch_config ch) = Some cfg" by auto
    with True have "w_bus ?w1 = w_bus w @ on_bus [router_job (w_uuid w (w_uuid_next w)) org cfg text raw]"
      by (simp add: route_channel_def new_uuid_def bus_publish_def on_bus_def)
    moreover have "ce_configs env (ch # chs) = cfg # ce_configs env chs"
      using True cfg by (simp add: ce_configs_def)
    ultimately show ?thesis
      using ids by (intro exI [of _ "w_uuid w (w_uuid_next w) # ids"]) (simp add: on_bus_def)
  next
    case False
    then have "?w1 = w" "ce_configs env (ch # chs) = ce_configs env chs"
      by (auto simp: ce_configs_def route_channel_def)
    then show ?thesis using ids by (intro exI [of _ ids]) simp
  qed
qed (simp add: ce_configs_def on_bus_def)

lemma router_job_key [simp]: "job_dedupe_key (router_job i org cfg text raw) = org @ ''-'' @ extract_event_id raw"
  by (simp add: router_job_def)

lemma router_job_channel [simp]: "job_channel (router_job i org cfg text raw) = ''cloudevent_http''"
  by (simp add: router_job_def)

text \<open>
  C7: The router publishes one job for every enabled CloudEvents channel of the organisation, with that
  channel's configuration; but the jobs share the key made of the organisation and the event id. When
  the dispatcher gets them within five minutes, in whatever order, exactly one of them, the first, is
  handed to the provider: an event reaches one of the organisation's sinks only.
\<close>

theorem event_reaches_one_sink:
  assumes "extract_org_id subject = Some org" and "channels_list w org 1000 = Inr chs"
    and "ce_configs env chs \<noteq> []"
    and "nd_seen d (org @ ''-'' @ extract_event_id raw) = None"
    and "nd_pools d ''cloudevent_http'' = Some p"
    and "\<forall>u \<in> set ts. t \<le> u \<and> u < t + 5 * minute"
  shows "\<exists>ids jobs. length ids = length (ce_configs env chs)
    \<and> jobs = map2 (\<lambda>i cfg. router_job i org cfg text raw) ids (ce_configs env chs)
    \<and> w_bus (router_handle env w subject text raw) = w_bus w @ on_bus jobs
    \<and> (\<forall>js. mset js = mset jobs \<longrightarrow>
          nd_submitted (dispatch_jobs d (t # ts) js) = nd_submitted d @ [(t, hd js)])"
proof -
  obtain ids where ids: "length ids = length (ce_configs env chs)"
    "w_bus (foldl (route_channel env org text raw) w chs) =
       w_bus w @ on_bus (map2 (\<lambda>i cfg. router_job i org cfg text raw) ids (ce_configs env chs))"
    using route_channels_bus by blast
  let ?jobs = "map2 (\<lambda>i cfg. router_job i org cfg text raw) ids (ce_configs env chs)"
  have jobs: "\<forall>j \<in> set ?jobs. job_dedupe_key j = org @ ''-'' @ extract_event_id raw \<and>
      job_channel j = ''cloudevent_http''" by auto
  have "nd_submitted (dispatch_jobs d (t # ts) js) = nd_submitted d @ [(t, hd js)]"
    if "mset js = mset ?jobs" for js
  proof -
    have "length js = length ?jobs" using that by (rule mset_eq_length)
    then have "js \<noteq> []" using ids(1) assms(3) by auto
    moreover from this have "hd js \<in> set ?jobs" using mset_eq_setD [OF that] by fastforce
    then have "job_channel (hd js) = ''cloudevent_http''" using jobs by blast
    ultimately show ?thesis
      using one_job_per_key_any_order [of js ?jobs "org @ ''-'' @ extract_event_id raw" d ts t]
        that assms(4-6) jobs by (simp add: dedupe_ttl_def)
  qed
  moreover have "w_bus (router_handle env w subject text raw) = w_bus w @ on_bus ?jobs"
    using assms(1,2) ids(2) by (simp add: router_handle_def)
  ultimately show ?thesis using ids(1) by blast
qed

section \<open>The jobs of a step\<close>

definition step_jobs ::
  "alert \<Rightarrow> monitor \<Rightarrow> escalation_step \<Rightarrow> string list \<Rightarrow> (notification_channel \<times> string \<times> string) list \<Rightarrow>
   notification_job list" where
  "step_jobs a m st ids ds = map2 (\<lambda>i d. job_for i a m st (fst d) (fst (snd d)) (snd (snd d))) ids ds"

lemma published_step_jobs: "published a m st ids ds = on_bus (step_jobs a m st ids ds)"
  by (simp add: published_def on_bus_def step_jobs_def split_def)

lemma target_deliveries_resolved:
  assumes "resolve_target w t = Inr us"
  shows "target_deliveries env w m t = [] \<or> (\<exists>ch cfg. target_deliveries env w m t = map (\<lambda>u. (ch, cfg, u)) us)"
proof (cases "channels_get w (tgt_channel t)")
  case (Inr ch)
  show ?thesis
  proof (cases "ch_org ch = mon_org m \<and> ch_enabled ch")
    case True
    then show ?thesis
      unfolding target_deliveries_def assms Inr prod.case sum.case
      by (cases "versioned_config env (ch_config ch)") auto
  qed (simp only: target_deliveries_def assms Inr prod.case sum.case if_False simp_thms)
qed (simp only: target_deliveries_def assms prod.case sum.case simp_thms)

lemma channel_target_deliveries:
  assumes "tgt_type t = TargetChannel" "d \<in> set (target_deliveries env w m t)"
  shows "snd (snd d) = ''_channel''"
proof -
  have "resolve_target w t = Inr [''_channel'']" using assms(1) by (simp add: resolve_target_def)
  from target_deliveries_resolved [OF this, of env m] show ?thesis using assms(2) by auto
qed

text \<open>
  When every target of a step is a channel, its jobs share one key as well. Notifying the step
  publishes a job for every enabled channel, but when the dispatcher gets them within five minutes, in
  whatever order, it hands at most one of them, the first, to a provider: the other channels of the
  step are never notified.
\<close>

theorem step_reaches_one_channel:
  assumes "targets_list w (step_id st) = Inr targets" and "\<forall>g \<in> set targets. tgt_type g = TargetChannel"
    and "\<not> suppressed w now m" and "concat (map (target_deliveries env w m) targets) \<noteq> []"
    and "nd_seen d (al_id a @ ''-'' @ step_id st @ ''-_channel'') = None"
    and "\<forall>u \<in> set ts. t \<le> u \<and> u < t + 5 * minute"
  shows "\<exists>ids jobs. length ids = length (concat (map (target_deliveries env w m) targets))
    \<and> jobs = step_jobs a m st ids (concat (map (target_deliveries env w m) targets))
    \<and> w_bus (notify_step env w now a m st state) = w_bus w @ on_bus jobs
    \<and> (\<forall>js. mset js = mset jobs \<longrightarrow> nd_submitted (dispatch_jobs d (t # ts) js) =
          nd_submitted d @ (if nd_pools d (job_channel (hd js)) = None then [] else [(t, hd js)]))"
proof -
  let ?ds = "concat (map (target_deliveries env w m) targets)"
  let ?key = "al_id a @ ''-'' @ step_id st @ ''-_channel''"
  obtain ids where ids: "length ids = length ?ds"
    "w_bus (notify_step env w now a m st state) = w_bus w @ on_bus (step_jobs a m st ids ?ds)"
    using notify_step_bus [OF assms(1,3)] published_step_jobs by metis
  have "\<forall>x \<in> set ?ds. snd (snd x) = ''_channel''"
    using assms(2) channel_target_deliveries by fastforce
  then have keys: "\<forall>j \<in> set (step_jobs a m st ids ?ds). job_dedupe_key j = ?key"
    by (fastforce simp: step_jobs_def job_for_def dest: set_zip_rightD)
  have "nd_submitted (dispatch_jobs d (t # ts) js) =
      nd_submitted d @ (if nd_pools d (job_channel (hd js)) = None then [] else [(t, hd js)])"
    if "mset js = mset (step_jobs a m st ids ?ds)" for js
  proof -
    have "length js = length ?ds" using mset_eq_length [OF that] ids(1) by (simp add: step_jobs_def)
    then have "js \<noteq> []" using assms(4) by auto
    then show ?thesis
      using one_job_per_key_any_order [OF that _ keys _ assms(5), of ts t] assms(6) by (simp add: dedupe_ttl_def)
  qed
  then show ?thesis using ids by blast
qed

end
