(* ===== verification/DeliveryExamples.thy ===== *)
theory DeliveryExamples imports Delivery EscalationExamples begin

text \<open>Concrete pools, buses and worlds on which the hypotheses of the delivery properties hold.\<close>

section \<open>Pools and the dispatcher\<close>

definition sample_job :: notification_job where
  "sample_job = \<lparr>job_id = ''j'', job_alert = ''a'', job_org = ''o'', job_monitor_name = [],
     job_severity = SeverityCritical, job_channel = ''slack'', job_target_config = [], job_message = [],
     job_ack_url = [], job_dedupe_key = ''k'', job_runbook = [], job_service_name = [],
     job_service_notes = [], job_context_links = None, job_dependency_status = None\<rparr>"

definition sample_history :: pool_history where
  "sample_history =
     \<lparr>ph_pool = (new_worker_pool 1 1)\<lparr>wp_failed := 1\<rparr>, ph_accepted = [sample_job],
      ph_finished = [(sample_job, Some ''timeout'')], ph_cut_off = []\<rparr>"

lemma sample_history_reachable: "pool_step\<^sup>*\<^sup>* (new_history (new_worker_pool 1 1)) sample_history"
proof -
  let ?p = "new_worker_pool 1 1"
  let ?h1 = "\<lparr>ph_pool = ?p\<lparr>wp_jobs := [sample_job]\<rparr>, ph_accepted = [sample_job], ph_finished = [], ph_cut_off = []\<rparr>"
  let ?h2 = "?h1\<lparr>ph_pool := ?p\<lparr>wp_busy := [sample_job]\<rparr>\<rparr>"
  have "pool_step (new_history ?p) ?h1"
    using pool_step.submit [of "new_history ?p" sample_job]
    by (simp add: new_history_def pool_submit_def new_worker_pool_def)
  moreover have "pool_step ?h1 ?h2"
    using pool_step.take [of ?h1 "?p\<lparr>wp_busy := [sample_job]\<rparr>"] by (simp add: pool_take_def new_worker_pool_def)
  moreover have "pool_step ?h2 sample_history"
    using pool_step.finish [of sample_job ?h2 "Some ''timeout''"]
    by (simp add: pool_finish_def new_worker_pool_def sample_history_def)
  ultimately show ?thesis by (meson rtranclp.rtrancl_into_rtrancl rtranclp.rtrancl_refl)
qed

theorem pool_accounts_for_every_job_witness:
  "wp_sent (ph_pool sample_history) + wp_failed (ph_pool sample_history) = int (length (ph_finished sample_history))"
  using pool_accounts_for_every_job [OF sample_history_reachable refl] by blast

theorem send_is_retried_up_to_five_times_witness:
  "send_with_retry (scripted_send (\<lambda>i. if i = 0 then Inl ''busy'' else Inr ''ok'')) logged_wait
     (new_worker_pool 1 1) sample_job (0, []) = (None, (2, [second]))"
proof -
  let ?f = "\<lambda>i::nat. if i = 0 then Inl ''busy'' else Inr ''ok'' :: string + string"
  have "\<forall>n < 5. (\<forall>i < n. isl (?f i)) \<and> \<not> isl (?f n) \<longrightarrow>
      send_with_retry (scripted_send ?f) logged_wait (new_worker_pool 1 1) sample_job (0, []) =
        (None, (Suc n, take n backoffs))"
    using send_is_retried_up_to_five_times [of ?f 1 1 sample_job] by (rule conjunct1)
  from this [rule_format, of 1] show ?thesis by (simp add: backoffs_def eval_nat_numeral)
qed

definition sample_notifier :: notify_dispatcher where
  "sample_notifier = nd_register (new_notify_dispatcher True) ''slack'' 1 1"

definition sample_ops :: "notify_op list" where
  "sample_ops = [DispatchJob 0 sample_job, DispatchJob minute sample_job, DispatchJob (5 * minute) sample_job]"

lemma sample_submitted: "nd_submitted (notify_run sample_notifier sample_ops) = [(0, sample_job), (5 * minute, sample_job)]"
  by code_simp

theorem a_key_is_sent_once_per_window_witness:
  "fst (nd_submitted (notify_run sample_notifier sample_ops) ! 0) + 5 * minute
   \<le> fst (nd_submitted (notify_run sample_notifier sample_ops) ! 1)"
proof (rule a_key_is_sent_once_per_window)
  show "sorted (map notify_op_time sample_ops)" by (simp add: sample_ops_def)
  show "nd_submitted sample_notifier = []"
    by (simp add: sample_notifier_def new_notify_dispatcher_def nd_register_def)
qed (simp_all add: sample_submitted same_key_def sample_job_def)

theorem unrouted_job_is_lost_witness:
  "nd_submitted (nd_register (snd (notify_dispatch (new_notify_dispatcher True) 0 None sample_job)) ''slack'' 1 1) = []"
  using unrouted_job_is_lost [of "new_notify_dispatcher True" sample_job _ _ 0 0 1 1, OF _ _ _ prod.collapse]
  by (simp add: new_notify_dispatcher_def sample_job_def)

section \<open>The bus and subjects\<close>

definition sample_bus :: "string channel_bus" where
  "sample_bus = queue_subscribe (queue_subscribe (subscribe new_channel_bus ''alert.>'' ''audit'')
     ''alert.trigger'' ''engine'' ''one'') ''alert.*'' ''engine'' ''two''"

theorem publish_reaches_each_group_once_witness:
  "length (filter (\<lambda>s. sub_queue s = ''engine'') (deliveries (\<lambda>_ _. 0) sample_bus ''alert.trigger'')) = 1"
proof -
  have "\<exists>s \<in> set (matching sample_bus ''alert.trigger''). sub_queue s = ''engine''" by code_simp
  then show ?thesis
    using publish_reaches_each_group_once [of "\<lambda>_ _. 0" sample_bus "''alert.trigger''"] by simp
qed

theorem subject_names_its_org_witness:
  "extract_org_id (subject_for ''acme'' ''monitor.down.v1'') = Some ''acme''"
  using subject_names_its_org [of "''acme''" "''monitor.down.v1''"] by simp

section \<open>Two channels, one key\<close>

definition sink :: "string \<Rightarrow> notification_channel" where
  "sink i = \<lparr>ch_id = i, ch_org = ''o'', ch_type = ''cloudevent_http'', ch_name = i, ch_config = i, ch_enabled = True\<rparr>"

definition sinks_world :: world where
  "sinks_world = sample_world\<lparr>w_channels := [sink ''c'', sink ''d'']\<rparr>"

definition sinks_dispatcher :: notify_dispatcher where
  "sinks_dispatcher = nd_register (new_notify_dispatcher True) ''cloudevent_http'' 10 256"

definition sample_event :: raw_json where
  "sample_event = Some (JObj [(''type'', JStr ''t''), (''id'', JStr ''e'')])"

lemma sinks_setup:
  "channels_list sinks_world ''o'' 1000 = Inr [sink ''c'', sink ''d'']"
  "ce_configs None [sink ''c'', sink ''d''] = [CHR 0x00 # ''c'', CHR 0x00 # ''d'']"
  "extract_org_id ''events.cloudevents.out.o.t'' = Some ''o''"
  by (simp_all add: channels_list_def sinks_world_def sample_world_def empty_world_def sink_def
      ce_configs_def router_encode_config_def extract_org_id_def Let_def)

theorem event_reaches_one_sink_witness:
  "length (w_bus (router_handle None sinks_world ''events.cloudevents.out.o.t'' [] sample_event)) =
   length (w_bus sinks_world) + 2"
  using event_reaches_one_sink [of "''events.cloudevents.out.o.t''" "''o''" sinks_world "[sink ''c'', sink ''d'']"
      None sinks_dispatcher sample_event _ "[0, 1]" 0 "[]", OF sinks_setup(3,1)]
  by (auto simp: sinks_setup sinks_dispatcher_def new_notify_dispatcher_def nd_register_def on_bus_def)

definition channel_target :: "string \<Rightarrow> step_target" where
  "channel_target c = \<lparr>tgt_id = c, tgt_step = ''s'', tgt_type = TargetChannel, tgt_target = [],
     tgt_channel = c, tgt_simultaneous = True\<rparr>"

definition targets_world :: world where
  "targets_world = sinks_world\<lparr>w_targets := [channel_target ''c'', channel_target ''d'']\<rparr>"

theorem step_reaches_one_channel_witness:
  "length (w_bus (notify_step None targets_world 0 (sample_alert AlertFiring) sample_monitor sample_step
      sample_state)) = length (w_bus targets_world) + 2"
proof -
  have "targets_list targets_world (step_id sample_step) = Inr [channel_target ''c'', channel_target ''d'']"
    by (simp add: targets_list_def targets_world_def sinks_world_def sample_defs channel_target_def)
  moreover have d: "target_deliveries None targets_world sample_monitor (channel_target i) =
      [(sink i, CHR 0x00 # i, ''_channel'')]" if "i = ''c'' \<or> i = ''d''" for i
    using that by (auto simp: target_deliveries_def resolve_target_def channels_get_def versioned_config_def
        targets_world_def sinks_world_def sample_defs channel_target_def sink_def)
  moreover have "\<not> suppressed targets_world 0 sample_monitor"
    by (simp add: suppressed_def windows_list_active_def targets_world_def sinks_world_def sample_defs)
  ultimately show ?thesis
    using step_reaches_one_channel [of targets_world sample_step "[channel_target ''c'', channel_target ''d'']" 0
        sample_monitor None "new_notify_dispatcher True" "sample_alert AlertFiring" "[]" 0 sample_state]
    by (auto simp: d channel_target_def new_notify_dispatcher_def on_bus_def step_jobs_def)
qed

end
