(* ===== verification/GoText.thy ===== *)
theory GoText imports GoTime begin

text \<open>
  Text the program prints: decimal integers (\<open>strconv.Itoa\<close>), durations
  (\<open>Duration.String\<close>), instants (\<open>time.RFC3339\<close>), and the canonical form of HTTP header
  names (\<open>textproto.CanonicalMIMEHeaderKey\<close>).
\<close>

section \<open>Numbers and durations\<close>

text \<open>Twenty digits hold every 64-bit integer.\<close>

definition nat_text :: "int \<Rightarrow> string" where
  "nat_text n =
     (let ds = dropWhile (\<lambda>c. c = CHR ''0'') (digits_of 20 n) in if ds = [] then ''0'' else ds)"

definition int_text :: "int \<Rightarrow> string" where
  "int_text i = (if i < 0 then CHR ''-'' # nat_text (- i) else nat_text i)"

text \<open>The fraction \<open>v / 10^n\<close>, without trailing zeros, behind the whole part.\<close>

definition with_fraction :: "nat \<Rightarrow> int \<Rightarrow> string" where
  "with_fraction n v =
     (let frac = rev (dropWhile (\<lambda>c. c = CHR ''0'') (rev (digits_of n (v mod 10 ^ n))))
      in int_text (v div 10 ^ n) @ (if frac = [] then [] else CHR ''.'' # frac))"

definition positive_duration_text :: "int \<Rightarrow> string" where
  "positive_duration_text u =
     (if u < 1000 then int_text u @ ''ns''
      else if u < 1000000 then with_fraction 3 u @ [CHR 0xC2, CHR 0xB5, CHR ''s'']
      else if u < second then with_fraction 6 u @ ''ms''
      else (let s = u div second; m = s div 60; h = m div 60
            in (if 0 < h then int_text h @ ''h'' else [])
               @ (if 0 < m then int_text (m mod 60) @ ''m'' else [])
               @ with_fraction 9 (s mod 60 * second + u mod second) @ ''s''))"

definition duration_text :: "int \<Rightarrow> string" where
  "duration_text d =
     (if d = 0 then ''0s'' else if d < 0 then CHR ''-'' # positive_duration_text (- d)
      else positive_duration_text d)"

definition rfc3339_text :: "gotime \<Rightarrow> string" where
  "rfc3339_text t = format_rfc3339_nano (rfc3339 t, 0)"

lemma text_samples:
  "int_text 0 = ''0''" "int_text (- 4096) = ''-4096''"
  "duration_text (5 * minute) = ''5m0s''"
  by code_simp+

section \<open>Header names\<close>

definition token_char :: "char \<Rightarrow> bool" where
  "token_char c =
     (let n = (of_char c :: nat) in
      48 \<le> n \<and> n \<le> 57 \<or> 65 \<le> n \<and> n \<le> 90 \<or> 97 \<le> n \<and> n \<le> 122 \<or> c \<in> set ''!#$%&*+-.^_`|~'' \<or> n = 39)"

fun canonical_chars :: "bool \<Rightarrow> string \<Rightarrow> string" where
  "canonical_chars upper [] = []"
| "canonical_chars upper (c # cs) =
     (let n = (of_char c :: nat);
          c2 = (if upper \<and> 97 \<le> n \<and> n \<le> 122 then char_of (n - 32)
                else if \<not> upper \<and> 65 \<le> n \<and> n \<le> 90 then char_of (n + 32) else c)
      in c2 # canonical_chars (c2 = CHR ''-'') cs)"

definition canonical_key :: "string \<Rightarrow> string" where
  "canonical_key s = (if list_all token_char s then canonical_chars True s else s)"

text \<open>\<open>http.Header\<close>: canonical names with their values in order; \<open>Get\<close> takes the first.\<close>

type_synonym headers = "(string \<times> string list) list"

definition header_get :: "headers \<Rightarrow> string \<Rightarrow> string" where
  "header_get h key =
     (case map_of h (canonical_key key) of Some (v # vs) \<Rightarrow> v | _ \<Rightarrow> [])"

lemma canonical_samples:
  "canonical_key ''x-request-ID'' = ''X-Request-Id''" "canonical_key ''not a key'' = ''not a key''"
  by code_simp+

end
