(* ===== verification/JsonText.thy ===== *)
theory JsonText imports Store GoText Utf8 begin

text \<open>
  \<open>json.Marshal\<close> of the values the handlers marshal: strings and maps with string keys, where
  a map may hold anything an earlier \<open>json.Unmarshal\<close> into an \<open>interface\<close> value gave, so
  that numbers are float64s. A \<open>JFloat\<close> carries the text its float64 is printed with.
\<close>

section \<open>Strings\<close>

definition json_hex :: "nat \<Rightarrow> char" where
  "json_hex n = char_of (if n < 10 then 48 + n else 87 + n)"

definition json_escape :: "char \<Rightarrow> string" where
  "json_escape c =
     (let n = (of_char c :: nat); b = CHR 0x5C in
      if n = 34 \<or> n = 92 then [b, c]
      else if n = 8 then [b, CHR ''b'']
      else if n = 9 then [b, CHR ''t'']
      else if n = 10 then [b, CHR ''n'']
      else if n = 12 then [b, CHR ''f'']
      else if n = 13 then [b, CHR ''r'']
      else if n < 32 \<or> c \<in> set ''<>&'' then b # ''u00'' @ [json_hex (n div 16), json_hex (n mod 16)]
      else [c])"

text \<open>A byte outside UTF-8, and the two line separators, are escaped as well.\<close>

definition json_segment :: "string \<Rightarrow> string" where
  "json_segment x =
     (if rune_len x = 0 then CHR 0x5C # ''ufffd''
      else if x = [CHR 0xE2, CHR 0x80, CHR 0xA8] then CHR 0x5C # ''u2028''
      else if x = [CHR 0xE2, CHR 0x80, CHR 0xA9] then CHR 0x5C # ''u2029''
      else concat (map json_escape x))"

definition json_quote :: "string \<Rightarrow> string" where
  "json_quote s = CHR 0x22 # concat (map json_segment (segs s)) @ [CHR 0x22]"

section \<open>Numbers\<close>

function bit_len :: "int \<Rightarrow> nat" where
  "bit_len n = (if n \<le> 0 then 0 else Suc (bit_len (n div 2)))"
  by pat_completeness auto
termination by (relation "measure nat") auto

declare bit_len.simps [simp del]

text \<open>The nearest float64 of a natural number, ties to the even mantissa.\<close>

definition float_round :: "int \<Rightarrow> int" where
  "float_round n =
     (let k = bit_len n - 53; u = 2 ^ k; q = n div u; r = n mod u; half = u div 2
      in if k = 0 then n
         else (if half < r \<or> r = half \<and> q mod 2 = 1 then q + 1 else q) * u)"

definition float_range :: "int \<Rightarrow> bool" where
  "float_range i \<longleftrightarrow> \<bar>i\<bar> < 2 ^ 1024 - 2 ^ 970"

text \<open>All the digits of a number, and the shortest number that reads back as the same float64.\<close>

function all_digits :: "int \<Rightarrow> string" where
  "all_digits n =
     (if n < 10 then [char_of (nat (48 + n))] else all_digits (n div 10) @ [char_of (nat (48 + n mod 10))])"
  by pat_completeness auto
termination by (relation "measure nat") auto

declare all_digits.simps [simp del]

definition to_digits :: "nat \<Rightarrow> int \<Rightarrow> int" where
  "to_digits k n = (let u = 10 ^ (length (all_digits n) - k) in (n + u div 2) div u * u)"

definition shortest :: "int \<Rightarrow> int" where
  "shortest n =
     (case List.find (\<lambda>k. float_round (to_digits k n) = n) [1..<18] of Some k \<Rightarrow> to_digits k n | None \<Rightarrow> n)"

definition exponent_text :: "string \<Rightarrow> string" where
  "exponent_text ds =
     (let m = rev (dropWhile (\<lambda>c. c = CHR ''0'') (rev ds)); frac = tl m; e = all_digits (int (length ds) - 1)
      in hd ds # (if frac = [] then [] else CHR ''.'' # frac) @ ''e+'' @ e)"

definition float_text :: "int \<Rightarrow> string" where
  "float_text i =
     (let n = float_round \<bar>i\<bar>; ds = all_digits (if n < 2 ^ 53 then n else shortest n)
      in (if i < 0 then [CHR ''-''] else []) @ (if n < 10 ^ 21 then ds else exponent_text ds))"

lemma float_text_samples:
  "float_text 0 = ''0''" "float_text (- 17) = ''-17''" "float_round (2 ^ 53 + 1) = 2 ^ 53"
  "exponent_text ''1500000000000000000000'' = ''1.5e+21''"
  by code_simp+

section \<open>Documents\<close>

function json_text :: "json \<Rightarrow> string" where
  "json_text JNull = ''null''"
| "json_text (JBool b) = (if b then ''true'' else ''false'')"
| "json_text (JInt i) = float_text i"
| "json_text (JFloat s) = s"
| "json_text (JStr s) = json_quote s"
| "json_text (JArr js) = CHR ''['' # str_join CHR '','' (map json_text js) @ [CHR '']'']"
| "json_text (JObj kvs) =
     CHR ''{'' # str_join CHR '',''
       (map (\<lambda>kt. json_quote (fst kt) @ CHR '':'' # snd kt)
         (sort_key fst (last_wins (map (\<lambda>kv. (fst kv, json_text (snd kv))) kvs)))) @ [CHR ''}'']"
  by pat_completeness auto
termination
  by (relation "measure size") (auto simp: less_Suc_eq_le intro!: size_list_estimation')

text \<open>\<open>json.Unmarshal\<close> into an \<open>interface\<close> value fails on a number no float64 holds.\<close>

function json_any :: "json \<Rightarrow> bool" where
  "json_any (JInt i) = float_range i"
| "json_any (JArr js) = (\<forall>j \<in> set js. json_any j)"
| "json_any (JObj kvs) = (\<forall>kv \<in> set kvs. json_any (snd kv))"
| "json_any JNull = True"
| "json_any (JBool b) = True"
| "json_any (JFloat s) = True"
| "json_any (JStr s) = True"
  by pat_completeness auto
termination
  by (relation "measure size") (auto simp: less_Suc_eq_le intro!: size_list_estimation')

end
