(* ===== verification/Inbound.thy ===== *)
theory Inbound imports JsonText begin

text \<open>
  The two unauthenticated endpoints through which other systems report on monitors: the pings of
  heartbeat monitors (\<open>MonitorHandler.Heartbeat\<close> of \<open>internal/api/handlers/monitors.go\<close>)
  and the events API (\<open>internal/api/handlers/events.go\<close>), which publishes to the escalation
  engine. A handler maps the world and the decoded request to the answer and the new world.
\<close>

section \<open>Answers (respond.go)\<close>

datatype http_answer = Answer int json | EmptyAnswer int

definition error_response :: "int \<Rightarrow> string \<Rightarrow> http_answer" where
  "error_response st msg = Answer st (JObj [(''error'', JStr msg)])"

definition answer_status :: "http_answer \<Rightarrow> int" where
  "answer_status a = (case a of Answer st j \<Rightarrow> st | EmptyAnswer st \<Rightarrow> st)"

lemma answer_status_simps [simp]:
  "answer_status (Answer st j) = st" "answer_status (EmptyAnswer st) = st"
  "answer_status (error_response st msg) = st"
  by (simp_all add: answer_status_def error_response_def)

section \<open>Heartbeat pings\<close>

text \<open>\<open>net.SplitHostPort\<close>, host part; \<open>None\<close> is the error.\<close>

definition split_at_last :: "char \<Rightarrow> string \<Rightarrow> (string \<times> string) option" where
  "split_at_last c s =
     (if c \<in> set s
      then Some (rev (tl (dropWhile (\<lambda>d. d \<noteq> c) (rev s))), rev (takeWhile (\<lambda>d. d \<noteq> c) (rev s)))
      else None)"

definition split_host_port :: "string \<Rightarrow> string option" where
  "split_host_port s =
     (case split_at_last CHR '':'' s of
        None \<Rightarrow> None
      | Some (front, port) \<Rightarrow>
          if take 1 s = ''[''
          then (if front = [] \<or> last front \<noteq> CHR '']'' then None
                else let host = butlast (tl front)
                     in if CHR '']'' \<in> set host \<or> CHR ''['' \<in> set host \<or> CHR ''['' \<in> set port \<or> CHR '']'' \<in> set port
                        then None else Some host)
          else if CHR '':'' \<in> set front \<or> CHR ''['' \<in> set s \<or> CHR '']'' \<in> set s then None
          else Some front)"

lemma split_host_port_samples:
  "split_host_port ''10.0.0.1:80'' = Some ''10.0.0.1''" "split_host_port ''[::1]:80'' = Some ''::1''"
  "split_host_port ''::1'' = None" "split_host_port ''[::1]'' = None" "split_host_port ''host'' = None"
  by code_simp+

definition ping_source :: "string \<Rightarrow> string" where
  "ping_source remote = (case split_host_port remote of Some host \<Rightarrow> host | None \<Rightarrow> remote)"

definition ping_metadata :: "string \<Rightarrow> string" where
  "ping_metadata remote = json_text (JObj [(''source_ip'', JStr (ping_source remote))])"

definition heartbeat_ping ::
  "world \<Rightarrow> gotime \<Rightarrow> string \<Rightarrow> string \<Rightarrow> string \<Rightarrow> http_answer \<times> world" where
  "heartbeat_ping w now i token remote =
     (case monitors_get w i of
        Inl _ \<Rightarrow> (error_response 404 ''monitor not found'', w)
      | Inr m \<Rightarrow>
          if mon_type m \<noteq> MonitorHeartbeat then (error_response 400 ''not a heartbeat monitor'', w)
          else if token \<noteq> mon_heartbeat_token m then (error_response 401 ''invalid heartbeat token'', w)
          else (case new_uuid w of (u, w1) \<Rightarrow>
                  (case checks_create w1 \<lparr>chk_id = u, chk_monitor = i, chk_status = StatusUp, chk_latency = 0,
                          chk_status_code = 0, chk_error = [], chk_metadata = ping_metadata remote,
                          chk_tls_expiry = None, chk_checked_at = now, chk_matched_state = []\<rparr> of
                     (Some _, w2) \<Rightarrow> (error_response 500 ''failed to record heartbeat'', w2)
                   | (None, w2) \<Rightarrow> (Answer 200 (JObj [(''status'', JStr ''ok'')]), w2))))"

section \<open>The events API\<close>

record event_payload =
  ep_summary :: string
  ep_severity :: string
  ep_source :: string
  ep_component :: string

record inbound_event =
  ie_routing_key :: string
  ie_action :: string
  ie_dedup :: string
  ie_payload :: "event_payload option"

text \<open>The raw member \<open>custom\_details\<close> takes any value and is never read.\<close>

definition decode_event_payload :: "(string \<times> json) list \<Rightarrow> event_payload option" where
  "decode_event_payload kvs =
     (case (get_string ''summary'' kvs, get_string ''severity'' kvs, get_string ''source'' kvs,
            get_string ''component'' kvs) of
        (Some s, Some v, Some src, Some c) \<Rightarrow>
          Some \<lparr>ep_summary = s, ep_severity = v, ep_source = src, ep_component = c\<rparr>
      | _ \<Rightarrow> None)"

definition decode_inbound_event :: "(string \<times> json) list \<Rightarrow> inbound_event option" where
  "decode_inbound_event kvs =
     (case (get_string ''routing_key'' kvs, get_string ''event_action'' kvs, get_string ''dedup_key'' kvs,
            pointer_field ''payload'' kvs None) of
        (Some k, Some a, Some d, Some p) \<Rightarrow>
          (case (case p of None \<Rightarrow> Some None | Some m \<Rightarrow> map_option Some (decode_event_payload m)) of
             None \<Rightarrow> None
           | Some pl \<Rightarrow> Some \<lparr>ie_routing_key = k, ie_action = a, ie_dedup = d, ie_payload = pl\<rparr>)
      | _ \<Rightarrow> None)"

definition event_response :: "string \<Rightarrow> http_answer" where
  "event_response key =
     Answer 202 (JObj [(''status'', JStr ''success''), (''message'', JStr ''Event processed successfully.''),
                       (''dedup_key'', JStr key)])"

text \<open>The message has no organisation field; the engine takes the organisation of the monitor.\<close>

definition api_trigger_event :: "monitor \<Rightarrow> check_status \<Rightarrow> string \<Rightarrow> gotime \<Rightarrow> trigger_event" where
  "api_trigger_event m st err now =
     \<lparr>te_org = [], te_monitor = mon_id m, te_monitor_name = mon_name m, te_status = st, te_latency = 0,
      te_status_code = 0, te_error = err, te_checked_at = now\<rparr>"

definition api_trigger :: "world \<Rightarrow> gotime \<Rightarrow> inbound_event \<Rightarrow> monitor \<Rightarrow> http_answer \<times> world" where
  "api_trigger w now req m =
     (case ie_payload req of
        None \<Rightarrow> (error_response 400 ''payload is required for trigger events'', w)
      | Some p \<Rightarrow>
          if ep_summary p = [] then (error_response 400 ''payload.summary is required'', w)
          else if ep_severity p \<notin> {''critical'', ''warning'', ''info''}
          then (error_response 400 ''payload.severity must be one of: critical, warning, info'', w)
          else (case (if ie_dedup req = [] then new_uuid w else (ie_dedup req, w)) of
                  (key, w1) \<Rightarrow>
                    (let st = (if ep_severity p \<in> {''info'', ''warning''} then StatusDegraded else StatusDown);
                         err = (if ep_source p = [] then ep_summary p
                                else ''['' @ ep_source p @ ''] '' @ ep_summary p)
                     in (event_response key,
                         bus_publish w1 ''alert.trigger'' (PayloadTrigger (api_trigger_event m st err now))))))"

text \<open>The key may be an alert of the monitor; anything else means the active alert of the monitor.\<close>

definition api_alert :: "world \<Rightarrow> monitor \<Rightarrow> string \<Rightarrow> alert option" where
  "api_alert w m key =
     (let fallback = (case alerts_get_active w (mon_id m) of Inr a \<Rightarrow> Some a | Inl _ \<Rightarrow> None)
      in case alerts_get w key of
           Inr a \<Rightarrow> if al_monitor a = mon_id m then Some a else fallback
         | Inl _ \<Rightarrow> fallback)"

definition api_acknowledge :: "world \<Rightarrow> inbound_event \<Rightarrow> monitor \<Rightarrow> http_answer \<times> world" where
  "api_acknowledge w req m =
     (if ie_dedup req = [] then (error_response 400 ''dedup_key is required for acknowledge events'', w)
      else case api_alert w m (ie_dedup req) of
             None \<Rightarrow> (error_response 404 ''no active alert found'', w)
           | Some a \<Rightarrow>
               if al_status a = AlertResolved then (error_response 409 ''alert is already resolved'', w)
               else (event_response (al_id a),
                     bus_publish w ''alert.ack''
                       (PayloadAck \<lparr>ack_alert = al_id a, ack_user = [], ack_channel = ''events_api''\<rparr>)))"

definition api_resolve :: "world \<Rightarrow> gotime \<Rightarrow> inbound_event \<Rightarrow> monitor \<Rightarrow> http_answer \<times> world" where
  "api_resolve w now req m =
     (if ie_dedup req = [] then (error_response 400 ''dedup_key is required for resolve events'', w)
      else case api_alert w m (ie_dedup req) of
             None \<Rightarrow> (error_response 404 ''no active alert found'', w)
           | Some a \<Rightarrow>
               if al_status a = AlertResolved then (error_response 409 ''alert is already resolved'', w)
               else (event_response (al_id a),
                     bus_publish w ''alert.recover'' (PayloadTrigger (api_trigger_event m StatusUp [] now))))"

definition events_ingest :: "world \<Rightarrow> gotime \<Rightarrow> raw_json \<Rightarrow> http_answer \<times> world" where
  "events_ingest w now body =
     (case unmarshal decode_inbound_event body of
        None \<Rightarrow> (error_response 400 ''invalid request body'', w)
      | Some req \<Rightarrow>
          if ie_routing_key req = [] then (error_response 400 ''routing_key is required'', w)
          else if ie_action req \<notin> {''trigger'', ''acknowledge'', ''resolve''}
          then (error_response 400 ''event_action must be one of: trigger, acknowledge, resolve'', w)
          else (case monitors_by_key w (ie_routing_key req) of
                  Inl _ \<Rightarrow> (error_response 401 ''invalid routing_key'', w)
                | Inr m \<Rightarrow>
                    if \<not> mon_enabled m then (error_response 422 ''monitor is disabled'', w)
                    else if ie_action req = ''trigger'' then api_trigger w now req m
                    else if ie_action req = ''acknowledge'' then api_acknowledge w req m
                    else api_resolve w now req m))"

end
