(* ===== verification/Rules.thy ===== *)
theory Rules imports GoText Domain begin

text \<open>
  Match rules (\<open>internal/checker/rules.go\<close>): the first rule whose conditions all hold decides the
  state of an HTTP check. The regular expression engine is a parameter: \<open>regex p s\<close> is
  \<open>None\<close> when \<open>p\<close> does not compile, otherwise whether it matches.
\<close>

type_synonym regex_engine = "string \<Rightarrow> string \<Rightarrow> bool option"

definition code_matches :: "match_rule \<Rightarrow> int \<Rightarrow> bool" where
  "code_matches r code \<longleftrightarrow>
     (case rule_status_code r of Some c \<Rightarrow> c = code | None \<Rightarrow> True)
     \<and> (case rule_status_code_min r of Some c \<Rightarrow> c \<le> code | None \<Rightarrow> True)
     \<and> (case rule_status_code_max r of Some c \<Rightarrow> code \<le> c | None \<Rightarrow> True)"

definition body_matches :: "regex_engine \<Rightarrow> match_rule \<Rightarrow> string \<Rightarrow> bool" where
  "body_matches regex r body =
     (if rule_body_match r = [] then True
      else if rule_body_match_mode r = ''not_contains'' then \<not> str_contains body (rule_body_match r)
      else if rule_body_match_mode r = ''regex'' then regex (rule_body_match r) body = Some True
      else str_contains body (rule_body_match r))"

definition header_matches :: "regex_engine \<Rightarrow> match_rule \<Rightarrow> headers \<Rightarrow> bool" where
  "header_matches regex r h =
     (if rule_header_match r = [] then True
      else (let v = header_get h (rule_header_match r) in
            if rule_header_value r = [] then v \<noteq> []
            else if rule_header_match_mode r = ''contains'' then str_contains v (rule_header_value r)
            else if rule_header_match_mode r = ''regex'' then regex (rule_header_value r) v = Some True
            else v = rule_header_value r))"

definition matches_rule :: "regex_engine \<Rightarrow> match_rule \<Rightarrow> int \<Rightarrow> string \<Rightarrow> headers \<Rightarrow> bool" where
  "matches_rule regex r code body h \<longleftrightarrow>
     code_matches r code \<and> body_matches regex r body \<and> header_matches regex r h"

fun evaluate_match_rules ::
  "regex_engine \<Rightarrow> match_rule list \<Rightarrow> int \<Rightarrow> string \<Rightarrow> headers \<Rightarrow> string \<times> string" where
  "evaluate_match_rules regex [] code body h = ([], [])"
| "evaluate_match_rules regex (r # rs) code body h =
     (if matches_rule regex r code body h then (rule_state_id r, rule_health_class r)
      else evaluate_match_rules regex rs code body h)"

definition health_class_to_status :: "string \<Rightarrow> check_status" where
  "health_class_to_status hc =
     (if hc = ''healthy'' then StatusUp else if hc = ''degraded'' then StatusDegraded else StatusDown)"

lemma evaluate_match_rules_find:
  "evaluate_match_rules regex rs code body h =
     (case List.find (\<lambda>r. matches_rule regex r code body h) rs of
        None \<Rightarrow> ([], []) | Some r \<Rightarrow> (rule_state_id r, rule_health_class r))"
  by (induction rs) auto

end
