(* ===== verification/Scheduler.thy ===== *)
theory Scheduler imports Rules Store begin

text \<open>
  The check scheduler (\<open>internal/checker/scheduler.go\<close>, \<open>batchwriter.go\<close>): which monitors
  are watched, how a probe's result becomes a status, the check row and the alert and CloudEvent
  messages at a change of status, and the grace period of heartbeat monitors. A probe is network
  input and output: its outcome is an argument of the check.
\<close>

section \<open>State\<close>

record check_result =
  res_status :: check_status
  res_latency :: int
  res_status_code :: int
  res_error :: string
  res_metadata :: string
  res_tls_expiry :: "gotime option"
  res_body :: string
  res_headers :: headers

definition down_result :: "string \<Rightarrow> check_result" where
  "down_result err =
     \<lparr>res_status = StatusDown, res_latency = 0, res_status_code = 0, res_error = err, res_metadata = [],
      res_tls_expiry = None, res_body = [], res_headers = []\<rparr>"

record checker_config =
  cc_workers :: int
  cc_channel_size :: int
  cc_priority_threshold :: int
  cc_batch_size :: int
  cc_batch_writers :: int
  cc_flush_concurrency :: int

definition or_default :: "int \<Rightarrow> int \<Rightarrow> int" where
  "or_default v def = (if 0 < v then v else def)"

definition cfg_workers :: "checker_config \<Rightarrow> int" where
  "cfg_workers c = or_default (cc_workers c) 512"

definition cfg_channel_size :: "checker_config \<Rightarrow> int" where
  "cfg_channel_size c = or_default (cc_channel_size c) 8192"

definition cfg_priority_threshold :: "checker_config \<Rightarrow> int" where
  "cfg_priority_threshold c = or_default (cc_priority_threshold c) 15"

definition cfg_batch_size :: "checker_config \<Rightarrow> int" where
  "cfg_batch_size c = or_default (cc_batch_size c) 256"

definition cfg_batch_writers :: "checker_config \<Rightarrow> int" where
  "cfg_batch_writers c = or_default (cc_batch_writers c) 4"

definition cfg_flush_concurrency :: "checker_config \<Rightarrow> int" where
  "cfg_flush_concurrency c = or_default (cc_flush_concurrency c) 32"

text \<open>
  A runner is its snapshot of the monitor (its ticker publishes \<open>check.due\<close>). The two job
  channels and the batch writer's channel are bounded queues; \<open>sch_last\<close> is \<open>lastStatus\<close>.
\<close>

record scheduler =
  sch_cfg :: checker_config
  sch_runners :: "string \<Rightarrow> monitor option"
  sch_last :: "string \<Rightarrow> check_status option"
  sch_priority :: "string list"
  sch_regular :: "string list"
  sch_buffer :: "monitor_check list"

definition new_scheduler :: "checker_config \<Rightarrow> scheduler" where
  "new_scheduler cfg =
     \<lparr>sch_cfg = cfg, sch_runners = (\<lambda>_. None), sch_last = (\<lambda>_. None), sch_priority = [],
      sch_regular = [], sch_buffer = []\<rparr>"

section \<open>Which monitors are watched\<close>

definition stop_runner :: "string \<Rightarrow> scheduler \<Rightarrow> scheduler" where
  "stop_runner i s = s\<lparr>sch_runners := (sch_runners s)(i := None)\<rparr>"

definition add_monitor :: "monitor \<Rightarrow> scheduler \<Rightarrow> scheduler" where
  "add_monitor m s =
     (let s1 = stop_runner (mon_id m) s
      in if \<not> mon_enabled m then s1 else s1\<lparr>sch_runners := (sch_runners s1)(mon_id m \<mapsto> m)\<rparr>)"

definition monitors_list_enabled :: "world \<Rightarrow> db_error + monitor list" where
  "monitors_list_enabled w =
     (if w_fails w MonitorsListEnabled [] then Inl ErrSQL
      else Inr (sort_key mon_name (filter mon_enabled (w_monitors w))))"

text \<open>\<open>ListByOrg\<close>: fifty rows when no limit is given; labels and status do not filter.\<close>

definition monitors_list ::
  "world \<Rightarrow> string \<Rightarrow> monitor_type option \<Rightarrow> bool option \<Rightarrow> int \<Rightarrow> nat \<Rightarrow> db_error + monitor list" where
  "monitors_list w org ty enabled limit offset =
     (if w_fails w MonitorsList org then Inl ErrSQL
      else Inr (take (nat (if limit \<le> 0 then 50 else limit)) (drop offset (sort_key mon_name
             (filter (\<lambda>m. mon_org m = org
                \<and> (case ty of None \<Rightarrow> True | Some t \<Rightarrow> mon_type m = t)
                \<and> (case enabled of None \<Rightarrow> True | Some e \<Rightarrow> mon_enabled m = e)) (w_monitors w))))))"

definition load_org_monitors :: "world \<Rightarrow> string \<Rightarrow> scheduler \<Rightarrow> db_error option \<times> scheduler" where
  "load_org_monitors w org s =
     (case monitors_list w org None (Some True) 10000 0 of
        Inl e \<Rightarrow> (Some e, s)
      | Inr ms \<Rightarrow> (None, foldl (\<lambda>s m. add_monitor m s) s ms))"

definition update_monitor :: "monitor \<Rightarrow> scheduler \<Rightarrow> scheduler" where
  "update_monitor = add_monitor"

definition remove_monitor :: "string \<Rightarrow> scheduler \<Rightarrow> scheduler" where
  "remove_monitor = stop_runner"

definition resync_one :: "scheduler \<Rightarrow> monitor \<Rightarrow> scheduler" where
  "resync_one s m =
     (case sch_runners s (mon_id m) of
        Some r \<Rightarrow>
          (if mon_interval r \<noteq> mon_interval m \<or> mon_timeout r \<noteq> mon_timeout m
           then add_monitor m (stop_runner (mon_id m) s) else s)
      | None \<Rightarrow> add_monitor m s)"

definition resync_from_db :: "world \<Rightarrow> scheduler \<Rightarrow> scheduler" where
  "resync_from_db w s =
     (case monitors_list_enabled w of
        Inl _ \<Rightarrow> s
      | Inr ms \<Rightarrow>
          (let s1 = foldl resync_one s ms
           in s1\<lparr>sch_runners := (\<lambda>i. if i \<in> set (map mon_id ms) then sch_runners s1 i else None)\<rparr>))"

text \<open>The interval of a runner's ticker, at least a second.\<close>

definition ticker_interval :: "monitor \<Rightarrow> int" where
  "ticker_interval m =
     (let d = sint (word_of_int (mon_interval m) * word_of_int second :: int64)
      in if d < second then second else d)"

text \<open>
  Loading the monitors at the start; the first tick waits for a random part of the interval, and
  \<open>rand.Int64N\<close> panics when the interval in nanoseconds is not positive.
\<close>

definition start_scheduler :: "world \<Rightarrow> scheduler \<Rightarrow> db_error option \<times> scheduler" where
  "start_scheduler w s =
     (case monitors_list_enabled w of
        Inl e \<Rightarrow> (Some e, s)
      | Inr ms \<Rightarrow> (None, foldl (\<lambda>s m. add_monitor m s) s ms))"

definition first_tick_ok :: "monitor \<Rightarrow> bool" where
  "first_tick_ok m \<longleftrightarrow> 0 < sint (word_of_int (mon_interval m) * word_of_int second :: int64)"

text \<open>What a runner publishes after the first wait and on every tick.\<close>

definition fire_ticker :: "world \<Rightarrow> monitor \<Rightarrow> world" where
  "fire_ticker w m = bus_publish w ''check.due'' (PayloadCheckDue (mon_id m))"

section \<open>Dispatching a due check\<close>

definition dispatch_check_due :: "scheduler \<Rightarrow> string option \<Rightarrow> bool \<times> scheduler" where
  "dispatch_check_due s data =
     (case data of
        None \<Rightarrow> (False, s)
      | Some i \<Rightarrow>
          (True,
           if (case sch_runners s i of Some r \<Rightarrow> mon_interval r \<le> cfg_priority_threshold (sch_cfg s) | None \<Rightarrow> False)
           then (if int (length (sch_priority s)) < cfg_channel_size (sch_cfg s) div 2
                 then s\<lparr>sch_priority := sch_priority s @ [i]\<rparr> else s)
           else (if int (length (sch_regular s)) < cfg_channel_size (sch_cfg s)
                 then s\<lparr>sch_regular := sch_regular s @ [i]\<rparr> else s)))"

text \<open>A worker takes from the priority channel first.\<close>

definition next_check :: "scheduler \<Rightarrow> (string \<times> scheduler) option" where
  "next_check s =
     (case sch_priority s of
        i # is \<Rightarrow> Some (i, s\<lparr>sch_priority := is\<rparr>)
      | [] \<Rightarrow> (case sch_regular s of
                 i # is \<Rightarrow> Some (i, s\<lparr>sch_regular := is\<rparr>)
               | [] \<Rightarrow> None))"

section \<open>The batch writer (internal/checker/batchwriter.go)\<close>

definition bw_enqueue :: "monitor_check \<Rightarrow> scheduler \<Rightarrow> scheduler" where
  "bw_enqueue c s =
     (if int (length (sch_buffer s)) < cfg_channel_size (sch_cfg s)
      then s\<lparr>sch_buffer := sch_buffer s @ [c]\<rparr> else s)"

text \<open>A flush stores the buffered rows; a row that fails is only logged.\<close>

definition bw_flush :: "world \<Rightarrow> scheduler \<Rightarrow> world \<times> scheduler" where
  "bw_flush w s = (foldl (\<lambda>w c. snd (checks_create w c)) w (sch_buffer s), s\<lparr>sch_buffer := []\<rparr>)"

text \<open>
  \<open>Stop\<close>: the context is cancelled and the runners are gone before the workers drain the two
  channels, so a drained check finds no runner, its lookup fails and it is dropped; the rows already
  buffered are stored.
\<close>

definition stop_scheduler :: "world \<Rightarrow> scheduler \<Rightarrow> world \<times> scheduler" where
  "stop_scheduler w s =
     bw_flush w (s\<lparr>sch_runners := (\<lambda>_. None), sch_priority := [], sch_regular := []\<rparr>)"

section \<open>From a probe to a status\<close>

definition has_checker :: "monitor_type \<Rightarrow> bool" where
  "has_checker t \<longleftrightarrow> t = MonitorHTTP \<or> t = MonitorTCP \<or> t = MonitorPing \<or> t = MonitorDNS"

definition check_timeout :: "monitor \<Rightarrow> int" where
  "check_timeout m =
     (let d = sint (word_of_int (mon_timeout m) * word_of_int second :: int64)
      in if d = 0 then 10 * second else d)"

definition probe_result :: "string + check_result \<Rightarrow> check_result" where
  "probe_result outcome = (case outcome of Inl err \<Rightarrow> down_result err | Inr r \<Rightarrow> r)"

definition apply_latency :: "monitor \<Rightarrow> check_result \<Rightarrow> check_result" where
  "apply_latency m r =
     (if res_status r \<noteq> StatusUp then r
      else if 0 < mon_latency_critical m \<and> mon_latency_critical m \<le> res_latency r
      then r\<lparr>res_status := StatusDegraded,
             res_error := ''latency '' @ int_text (res_latency r) @ ''ms exceeds critical threshold ''
               @ int_text (mon_latency_critical m) @ ''ms''\<rparr>
      else if 0 < mon_latency_warning m \<and> mon_latency_warning m \<le> res_latency r
      then r\<lparr>res_status := StatusDegraded,
             res_error := ''latency '' @ int_text (res_latency r) @ ''ms exceeds warning threshold ''
               @ int_text (mon_latency_warning m) @ ''ms''\<rparr>
      else r)"

definition apply_rules :: "regex_engine \<Rightarrow> world \<Rightarrow> monitor \<Rightarrow> check_result \<Rightarrow> check_result \<times> string" where
  "apply_rules regex w m r =
     (if res_status_code r \<le> 0 then (r, [])
      else case rules_list w (mon_id m) of
             Inl _ \<Rightarrow> (r, [])
           | Inr rules \<Rightarrow>
               (case evaluate_match_rules regex rules (res_status_code r) (res_body r) (res_headers r) of
                  (state, health) \<Rightarrow>
                    if state = [] then (r, [])
                    else (r\<lparr>res_status := health_class_to_status health\<rparr>, state)))"

text \<open>
  Stored metadata is text; \<open>parse\<close> is \<open>encoding/json\<close>'s parser. Record lists print as
  \<open>fmt\<close> prints a slice of strings.
\<close>

definition decode_dns_metadata :: "raw_json \<Rightarrow> string list option" where
  "decode_dns_metadata = unmarshal (\<lambda>kvs.
     case (get_string ''record_type'' kvs, get_strings ''records'' kvs) of
       (Some _, Some rs) \<Rightarrow> Some rs | _ \<Rightarrow> None)"

definition slice_text :: "string list \<Rightarrow> string" where
  "slice_text ss = ''['' @ concat (case ss of [] \<Rightarrow> [] | t # ts \<Rightarrow> t # map ((#) CHR '' '') ts) @ '']''"

definition detect_dns_change ::
  "(string \<Rightarrow> raw_json) \<Rightarrow> world \<Rightarrow> monitor \<Rightarrow> check_result \<Rightarrow> check_result" where
  "detect_dns_change parse w m r =
     (case decode_dns_config (mon_config m) of
        None \<Rightarrow> r
      | Some cfg \<Rightarrow>
          if dns_expected cfg \<noteq> [] then r
          else (case checks_latest w (mon_id m) of
                  Inl _ \<Rightarrow> r
                | Inr latest \<Rightarrow>
                    if chk_metadata latest = [] \<or> res_metadata r = chk_metadata latest then r
                    else (case (decode_dns_metadata (parse (chk_metadata latest)),
                                decode_dns_metadata (parse (res_metadata r))) of
                            (Some prev, Some cur) \<Rightarrow>
                              r\<lparr>res_status := StatusDown,
                                res_error := ''DNS records changed: '' @ slice_text prev @ '' ''
                                  @ [CHR 0xE2, CHR 0x86, CHR 0x92] @ '' '' @ slice_text cur\<rparr>
                          | _ \<Rightarrow> r)))"

definition final_result ::
  "regex_engine \<Rightarrow> (string \<Rightarrow> raw_json) \<Rightarrow> world \<Rightarrow> monitor \<Rightarrow> string + check_result \<Rightarrow> check_result \<times> string" where
  "final_result regex parse w m outcome =
     (case apply_rules regex w m (apply_latency m (probe_result outcome)) of
        (r, state) \<Rightarrow>
          (if mon_type m = MonitorDNS \<and> res_status r = StatusUp \<and> res_metadata r \<noteq> []
           then detect_dns_change parse w m r else r, state))"

end
