(* ===== verification/CheckRun.thy ===== *)
theory CheckRun imports Scheduler begin

text \<open>
  One execution of a check (\<open>executeCheck\<close>, \<open>executeHeartbeatCheck\<close> and what they
  publish, in \<open>internal/checker/scheduler.go\<close>). The batch writer runs concurrently: the flag
  \<open>flushed\<close> says whether it stored the new row before the execution went on to read the
  latest one.
\<close>

section \<open>Messages\<close>

definition check_alert_event :: "monitor \<Rightarrow> check_result \<Rightarrow> gotime \<Rightarrow> trigger_event" where
  "check_alert_event m r now =
     \<lparr>te_org = mon_org m, te_monitor = mon_id m, te_monitor_name = mon_name m, te_status = res_status r,
      te_latency = res_latency r, te_status_code = res_status_code r, te_error = res_error r,
      te_checked_at = now\<rparr>"

definition publish_alert_event ::
  "world \<Rightarrow> string \<Rightarrow> monitor \<Rightarrow> check_result \<Rightarrow> gotime \<Rightarrow> world" where
  "publish_alert_event w subject m r now = bus_publish w subject (PayloadTrigger (check_alert_event m r now))"

definition or_text :: "string \<Rightarrow> string \<Rightarrow> string" where
  "or_text s fallback = (if s = [] then fallback else s)"

definition emit_monitor_transition ::
  "world \<Rightarrow> monitor \<Rightarrow> check_result \<Rightarrow> check_status \<Rightarrow> string \<Rightarrow> gotime \<Rightarrow> world" where
  "emit_monitor_transition w m r prev check_id now =
     (case res_status r of
        StatusUp \<Rightarrow>
          (if prev = StatusDown \<or> prev = StatusDegraded
           then emit w (CEMonitorUp (mon_org m) (mon_id m) check_id (res_latency r) now) else w)
      | StatusDown \<Rightarrow>
          (if prev = StatusUp \<or> prev = StatusDegraded
           then emit w (CEMonitorDown (mon_org m) (mon_id m) check_id (or_text (res_error r) ''unknown'') now)
           else w)
      | StatusDegraded \<Rightarrow>
          (if prev \<noteq> StatusDegraded
           then emit w (CEMonitorDegraded (mon_org m) (mon_id m) check_id (or_text (res_error r) ''degraded'') now)
           else w)
      | StatusOther _ \<Rightarrow> w)"

section \<open>Active checks\<close>

definition publish_transition ::
  "world \<Rightarrow> monitor \<Rightarrow> check_result \<Rightarrow> check_status \<Rightarrow> gotime \<Rightarrow> world" where
  "publish_transition w m r prev now =
     (if (res_status r = StatusDown \<or> res_status r = StatusDegraded) \<and> prev = StatusUp
      then publish_alert_event w ''alert.trigger'' m r now
      else if res_status r = StatusDown \<and> prev = StatusDegraded
      then publish_alert_event w ''alert.trigger'' m r now
      else if res_status r = StatusUp \<and> (prev = StatusDown \<or> prev = StatusDegraded)
      then publish_alert_event w ''alert.recover'' m r now
      else w)"

definition new_check :: "string \<Rightarrow> monitor \<Rightarrow> check_result \<Rightarrow> string \<Rightarrow> gotime \<Rightarrow> monitor_check" where
  "new_check i m r state now =
     \<lparr>chk_id = i, chk_monitor = mon_id m, chk_status = res_status r, chk_latency = res_latency r,
      chk_status_code = res_status_code r, chk_error = res_error r, chk_metadata = res_metadata r,
      chk_tls_expiry = res_tls_expiry r, chk_checked_at = now, chk_matched_state = state\<rparr>"

text \<open>The status to compare with: the one remembered, else that of the latest row, else none.\<close>

definition previous_status :: "world \<Rightarrow> scheduler \<Rightarrow> string \<Rightarrow> check_status" where
  "previous_status w s i =
     (case sch_last s i of
        Some st \<Rightarrow> st
      | None \<Rightarrow> (case checks_latest w i of Inr c \<Rightarrow> chk_status c | Inl _ \<Rightarrow> no_status))"

definition set_last :: "string \<Rightarrow> check_status \<Rightarrow> scheduler \<Rightarrow> scheduler" where
  "set_last i st s = s\<lparr>sch_last := (sch_last s)(i \<mapsto> st)\<rparr>"

definition execute_active ::
  "regex_engine \<Rightarrow> (string \<Rightarrow> raw_json) \<Rightarrow> bool \<Rightarrow> world \<Rightarrow> scheduler \<Rightarrow> gotime \<Rightarrow> monitor \<Rightarrow>
   string + check_result \<Rightarrow> world \<times> scheduler" where
  "execute_active regex parse flushed w s now m outcome =
     (case final_result regex parse w m outcome of
        (r, state) \<Rightarrow>
          (case new_uuid w of
             (i, w1) \<Rightarrow>
               let s1 = bw_enqueue (new_check i m r state now) s;
                   (w2, s2) = (if flushed then bw_flush w1 s1 else (w1, s1));
                   prev = previous_status w2 s2 (mon_id m)
               in (emit_monitor_transition (publish_transition w2 m r prev now) m r prev i now,
                   set_last (mon_id m) (res_status r) s2)))"

section \<open>Heartbeats\<close>

definition grace_period :: "int \<Rightarrow> int" where
  "grace_period seconds =
     (let d = sint (word_of_int seconds * word_of_int second :: int64)
      in if d \<le> 0 then 5 * minute else d)"

definition up_result :: check_result where
  "up_result = (down_result [])\<lparr>res_status := StatusUp\<rparr>"

definition heartbeat_result :: "monitor_check option \<Rightarrow> int \<Rightarrow> gotime \<Rightarrow> check_result" where
  "heartbeat_result last_ping grace now =
     (case last_ping of
        None \<Rightarrow> down_result ''no heartbeat received''
      | Some p \<Rightarrow>
          if grace < time_sub now (chk_checked_at p)
          then down_result (''no heartbeat received in '' @ duration_text grace @ '' (last: ''
                 @ rfc3339_text (chk_checked_at p) @ '')'')
          else up_result)"

text \<open>On a cold start without any row the status counts as unchanged.\<close>

definition heartbeat_previous :: "world \<Rightarrow> scheduler \<Rightarrow> string \<Rightarrow> check_status \<Rightarrow> check_status" where
  "heartbeat_previous w s i st =
     (case sch_last s i of
        Some prev \<Rightarrow> prev
      | None \<Rightarrow> (case checks_latest w i of Inr c \<Rightarrow> chk_status c | Inl _ \<Rightarrow> st))"

definition heartbeat_emit ::
  "world \<Rightarrow> monitor \<Rightarrow> monitor_check option \<Rightarrow> int \<Rightarrow> check_status \<Rightarrow> check_status \<Rightarrow> string \<Rightarrow> gotime \<Rightarrow> world" where
  "heartbeat_emit w m last_ping grace st prev check_id now =
     (if st = StatusDown \<and> prev = StatusUp
      then emit w (CEHeartbeatMissed (mon_org m) (mon_id m)
             (case last_ping of Some p \<Rightarrow> chk_checked_at p + grace | None \<Rightarrow> now)
             (case last_ping of Some p \<Rightarrow> chk_checked_at p | None \<Rightarrow> zero_time))
      else if st = StatusUp \<and> prev = StatusDown
      then emit w (CEMonitorUp (mon_org m) (mon_id m) check_id 0 now)
      else w)"

definition execute_heartbeat :: "world \<Rightarrow> scheduler \<Rightarrow> gotime \<Rightarrow> monitor \<Rightarrow> world \<times> scheduler" where
  "execute_heartbeat w s now m =
     (case decode_heartbeat_config (mon_config m) of
        None \<Rightarrow> (w, s)
      | Some seconds \<Rightarrow>
          (case checks_latest_ping w (mon_id m) of
             Inl _ \<Rightarrow> (w, s)
           | Inr last_ping \<Rightarrow>
               let grace = grace_period seconds;
                   r = heartbeat_result last_ping grace now;
                   st = res_status r;
                   prev = heartbeat_previous w s (mon_id m) st;
                   s1 = set_last (mon_id m) st s
               in if prev = st then (w, s1)
                  else (case new_uuid w of
                          (i, w1) \<Rightarrow>
                            let s2 = bw_enqueue (new_check i m r [] now) s1;
                                w2 = (if st = StatusDown \<and> prev = StatusUp
                                      then publish_alert_event w1 ''alert.trigger'' m r now
                                      else if st = StatusUp \<and> prev = StatusDown
                                      then publish_alert_event w1 ''alert.recover'' m r now
                                      else w1)
                            in (heartbeat_emit w2 m last_ping grace st prev i now, s2))))"

section \<open>Dispatch\<close>

definition execute_check ::
  "regex_engine \<Rightarrow> (string \<Rightarrow> raw_json) \<Rightarrow> bool \<Rightarrow> world \<Rightarrow> scheduler \<Rightarrow> gotime \<Rightarrow> monitor \<Rightarrow>
   string + check_result \<Rightarrow> world \<times> scheduler" where
  "execute_check regex parse flushed w s now m outcome =
     (if mon_type m = MonitorHeartbeat then execute_heartbeat w s now m
      else if \<not> has_checker (mon_type m) then (w, s)
      else execute_active regex parse flushed w s now m outcome)"

text \<open>
  A worker runs the check of the runner's snapshot, or of the stored monitor when it has no runner
  and the stored one is enabled.
\<close>

definition run_check ::
  "regex_engine \<Rightarrow> (string \<Rightarrow> raw_json) \<Rightarrow> bool \<Rightarrow> world \<Rightarrow> scheduler \<Rightarrow> gotime \<Rightarrow> string \<Rightarrow>
   (monitor \<Rightarrow> string + check_result) \<Rightarrow> world \<times> scheduler" where
  "run_check regex parse flushed w s now i probe =
     (case sch_runners s i of
        Some m \<Rightarrow> execute_check regex parse flushed w s now m (probe m)
      | None \<Rightarrow>
          (case monitors_get w i of
             Inl _ \<Rightarrow> (w, s)
           | Inr m \<Rightarrow>
               if mon_enabled m then execute_check regex parse flushed w s now m (probe m) else (w, s)))"

end
