(* ===== verification/CheckLaws.thy ===== *)
theory CheckLaws imports CheckRun EscalationSpec begin

text \<open>
  The scheduler and the escalation engine together: while the status of a monitor is remembered, it has
  an active alert exactly when it is down or degraded; a monitor that was never up never alerts; a
  heartbeat monitor is up exactly while its last ping is within the grace period; and what the
  periodic resync notices.
\<close>

section \<open>What one execution publishes\<close>

definition unhealthy :: "check_status \<Rightarrow> bool" where
  "unhealthy st \<longleftrightarrow> st = StatusDown \<or> st = StatusDegraded"

definition known_status :: "check_status \<Rightarrow> bool" where
  "known_status st \<longleftrightarrow> st = StatusUp \<or> unhealthy st"

definition alert_subject :: "check_status \<Rightarrow> check_status \<Rightarrow> string option" where
  "alert_subject prev st =
     (if unhealthy st \<and> prev = StatusUp \<or> st = StatusDown \<and> prev = StatusDegraded then Some ''alert.trigger''
      else if st = StatusUp \<and> unhealthy prev then Some ''alert.recover'' else None)"

definition alert_message :: "check_status \<Rightarrow> check_status \<Rightarrow> trigger_event \<Rightarrow> (string \<times> bus_payload) list" where
  "alert_message prev st evt =
     (case alert_subject prev st of None \<Rightarrow> [] | Some subject \<Rightarrow> [(subject, PayloadTrigger evt)])"

text \<open>The tables of the engine, which a check does not touch.\<close>

definition same_engine :: "world \<Rightarrow> world \<Rightarrow> bool" where
  "same_engine w w' \<longleftrightarrow>
     w_alerts w' = w_alerts w \<and> w_events w' = w_events w \<and> w_esc w' = w_esc w
     \<and> w_monitors w' = w_monitors w \<and> w_fails w' = w_fails w"

lemma same_engine_refl [simp]: "same_engine w w"
  by (simp add: same_engine_def)

lemma same_engine_trans: "same_engine u v \<Longrightarrow> same_engine v w \<Longrightarrow> same_engine u w"
  by (simp add: same_engine_def)

lemma same_engine_updates [simp]:
  "same_engine w (w\<lparr>w_bus := b\<rparr>)" "same_engine w (w\<lparr>w_uuid_next := n\<rparr>)"
  "same_engine w (w\<lparr>w_emitted := es\<rparr>)" "same_engine w (w\<lparr>w_checks := cs\<rparr>)"
  by (simp_all add: same_engine_def)

lemma emit_same_engine [simp]: "same_engine w (emit w ev)"
  by (simp add: emit_def)

lemma transition_emit [simp]:
  "same_engine w (emit_monitor_transition w m r prev i now)"
  "w_bus (emit_monitor_transition w m r prev i now) = w_bus w"
  "w_checks (emit_monitor_transition w m r prev i now) = w_checks w"
  by (simp_all add: emit_monitor_transition_def emit_def split: check_status.split)

lemma transition_bus:
  "w_bus (publish_transition w m r prev now) = w_bus w @ alert_message prev (res_status r) (check_alert_event m r now)"
  "same_engine w (publish_transition w m r prev now)"
  "w_checks (publish_transition w m r prev now) = w_checks w"
  by (auto simp: publish_transition_def publish_alert_event_def bus_publish_def alert_message_def
      alert_subject_def unhealthy_def)

lemma checks_create_frame [simp]:
  "same_engine w (snd (checks_create w c))" "w_bus (snd (checks_create w c)) = w_bus w"
  by (simp_all add: checks_create_def)

lemma flush_rows_frame:
  "same_engine w (foldl (\<lambda>w c. snd (checks_create w c)) w cs)
   \<and> w_bus (foldl (\<lambda>w c. snd (checks_create w c)) w cs) = w_bus w"
proof (induction cs arbitrary: w)
  case (Cons c cs)
  then show ?case using same_engine_trans [OF checks_create_frame(1) [of w c]] by simp
qed simp

lemma bw_flush_frame [simp]:
  "same_engine w (fst (bw_flush w s))" "w_bus (fst (bw_flush w s)) = w_bus w"
  "sch_last (snd (bw_flush w s)) = sch_last s" "sch_runners (snd (bw_flush w s)) = sch_runners s"
  using flush_rows_frame by (simp_all add: bw_flush_def)

lemma bw_enqueue_frame [simp]:
  "sch_last (bw_enqueue c s) = sch_last s" "sch_runners (bw_enqueue c s) = sch_runners s"
  by (simp_all add: bw_enqueue_def)

lemma set_last_simps [simp]:
  "sch_last (set_last i st s) = (sch_last s)(i \<mapsto> st)" "sch_buffer (set_last i st s) = sch_buffer s"
  by (simp_all add: set_last_def)

lemma previous_remembered: "sch_last s i = Some prev \<Longrightarrow> previous_status w s i = prev"
  by (simp add: previous_status_def)

lemma alert_message_same [simp]: "alert_message st st evt = []"
  by (auto simp: alert_message_def alert_subject_def unhealthy_def)

lemma execute_active_messages:
  assumes "execute_active regex parse flushed w s now m outcome = (w1, s1)"
    and "sch_last s (mon_id m) = Some prev" "r = fst (final_result regex parse w m outcome)"
  shows "sch_last s1 = (sch_last s)(mon_id m \<mapsto> res_status r)
    \<and> w_bus w1 = w_bus w @ alert_message prev (res_status r) (check_alert_event m r now) \<and> same_engine w w1"
proof -
  obtain state where fr: "final_result regex parse w m outcome = (r, state)"
    using assms(3) by (metis prod.collapse)
  obtain i wu where u: "new_uuid w = (i, wu)" "w_bus wu = w_bus w" "same_engine w wu"
    by (auto simp: new_uuid_def)
  let ?s1 = "bw_enqueue (new_check i m r state now) s"
  obtain w2 s2 where b: "(if flushed then bw_flush wu ?s1 else (wu, ?s1)) = (w2, s2)" by fastforce
  have f: "same_engine wu w2" "w_bus w2 = w_bus wu" "sch_last s2 = sch_last s"
    using b bw_flush_frame [of wu ?s1] by (auto split: if_splits) (metis fst_conv snd_conv bw_flush_frame bw_enqueue_frame)+
  have "previous_status w2 s2 (mon_id m) = prev" using f(3) assms(2) by (simp add: previous_remembered)
  then have e: "w1 = emit_monitor_transition (publish_transition w2 m r prev now) m r prev i now"
    "s1 = set_last (mon_id m) (res_status r) s2"
    using assms(1) fr u(1) b by (simp_all add: execute_active_def Let_def)
  have "same_engine w w1"
    unfolding e by (blast intro: same_engine_trans u(3) f(1) transition_bus(2) transition_emit(1))
  then show ?thesis using e f u(2) transition_bus(1) [of w2 m r prev now] by simp
qed

lemma heartbeat_emit_frame [simp]:
  "same_engine w (heartbeat_emit w m p g st prev i now)" "w_bus (heartbeat_emit w m p g st prev i now) = w_bus w"
  by (simp_all add: heartbeat_emit_def emit_def)

lemma heartbeat_result_status: "res_status (heartbeat_result p g now) = StatusUp \<or> res_status (heartbeat_result p g now) = StatusDown"
  by (auto simp: heartbeat_result_def up_result_def down_result_def split: option.split)

text \<open>A heartbeat monitor whose configuration or ping cannot be read keeps its status.\<close>

lemma execute_heartbeat_messages:
  assumes "execute_heartbeat w s now m = (w1, s1)" "sch_last s (mon_id m) = Some prev"
    and "prev = StatusUp \<or> prev = StatusDown"
  shows "\<exists>st evt. (st = StatusUp \<or> st = StatusDown) \<and> sch_last s1 = (sch_last s)(mon_id m \<mapsto> st)
    \<and> w_bus w1 = w_bus w @ alert_message prev st evt \<and> te_monitor evt = mon_id m \<and> same_engine w w1"
proof (cases "\<exists>seconds p. decode_heartbeat_config (mon_config m) = Some seconds \<and> checks_latest_ping w (mon_id m) = Inr p")
  case False
  then have "(w1, s1) = (w, s)"
    using assms(1) by (auto simp: execute_heartbeat_def split: option.splits sum.splits)
  moreover have "(sch_last s)(mon_id m \<mapsto> prev) = sch_last s" using assms(2) by auto
  moreover have "te_monitor (check_alert_event m (down_result []) now) = mon_id m" by (simp add: check_alert_event_def)
  ultimately show ?thesis
    using assms(3) by (intro exI [of _ prev] exI [of _ "check_alert_event m (down_result []) now"]) simp
next
  case True
  then obtain seconds p where c: "decode_heartbeat_config (mon_config m) = Some seconds"
    "checks_latest_ping w (mon_id m) = Inr p" by blast
  define r where "r = heartbeat_result p (grace_period seconds) now"
  note st = heartbeat_result_status [of p "grace_period seconds" now, folded r_def]
  have prev: "heartbeat_previous w s (mon_id m) st' = prev" for st'
    using assms(2) by (simp add: heartbeat_previous_def)
  have te: "te_monitor (check_alert_event m r now) = mon_id m" by (simp add: check_alert_event_def)
  note run = assms(1) [unfolded execute_heartbeat_def c sum.case option.case Let_def prev, folded r_def]
  show ?thesis
  proof (cases "prev = res_status r")
    case True
    with run st te show ?thesis
      by (intro exI [of _ "res_status r"] exI [of _ "check_alert_event m r now"]) auto
  next
    case False
    obtain i wu where u: "new_uuid w = (i, wu)" "w_bus wu = w_bus w" "same_engine w wu"
      by (auto simp: new_uuid_def)
    let ?w2 = "if res_status r = StatusDown \<and> prev = StatusUp then publish_alert_event wu ''alert.trigger'' m r now
      else if res_status r = StatusUp \<and> prev = StatusDown then publish_alert_event wu ''alert.recover'' m r now else wu"
    have w1: "w1 = heartbeat_emit ?w2 m p (grace_period seconds) (res_status r) prev i now"
      "s1 = bw_enqueue (new_check i m r [] now) (set_last (mon_id m) (res_status r) s)"
      using run False u(1) by (simp_all split: if_splits)
    have "w_bus ?w2 = w_bus w @ alert_message prev (res_status r) (check_alert_event m r now)" "same_engine wu ?w2"
      using st assms(3) False u(2)
      by (auto simp: alert_message_def alert_subject_def unhealthy_def publish_alert_event_def bus_publish_def)
    then show ?thesis
      using w1 st te same_engine_trans [OF u(3)] same_engine_trans [OF _ heartbeat_emit_frame(1)]
      by (intro exI [of _ "res_status r"] exI [of _ "check_alert_event m r now"]) simp
  qed
qed

lemma apply_latency_known: "known_status (res_status r) \<Longrightarrow> known_status (res_status (apply_latency m r))"
  by (auto simp: apply_latency_def known_status_def unhealthy_def)

lemma apply_rules_known:
  "known_status (res_status r) \<Longrightarrow> known_status (res_status (fst (apply_rules regex w m r)))"
  by (auto simp: apply_rules_def health_class_to_status_def known_status_def unhealthy_def
      split: sum.split prod.split)

lemma detect_dns_known:
  "known_status (res_status r) \<Longrightarrow> known_status (res_status (detect_dns_change parse w m r))"
  by (auto simp: detect_dns_change_def known_status_def unhealthy_def split: option.split sum.split)

lemma final_result_known:
  assumes "\<And>r. outcome = Inr r \<Longrightarrow> known_status (res_status r)"
  shows "known_status (res_status (fst (final_result regex parse w m outcome)))"
proof -
  have "known_status (res_status (probe_result outcome))"
    using assms by (cases outcome) (simp_all add: probe_result_def down_result_def known_status_def unhealthy_def)
  then have "known_status (res_status (fst (apply_rules regex w m (apply_latency m (probe_result outcome)))))"
    by (intro apply_rules_known apply_latency_known)
  then show ?thesis
    using detect_dns_known by (auto simp: final_result_def case_prod_unfold)
qed

lemma execute_check_messages:
  assumes "execute_check regex parse flushed w s now m outcome = (w1, s1)"
    and "mon_type m = MonitorHeartbeat \<or> has_checker (mon_type m)"
    and "sch_last s (mon_id m) = Some prev" "known_status prev"
    and "mon_type m = MonitorHeartbeat \<Longrightarrow> prev \<noteq> StatusDegraded"
    and "\<And>r. outcome = Inr r \<Longrightarrow> known_status (res_status r)"
  shows "\<exists>st evt. known_status st \<and> (mon_type m = MonitorHeartbeat \<longrightarrow> st \<noteq> StatusDegraded)
    \<and> sch_last s1 = (sch_last s)(mon_id m \<mapsto> st)
    \<and> w_bus w1 = w_bus w @ alert_message prev st evt \<and> te_monitor evt = mon_id m \<and> same_engine w w1"
proof (cases "mon_type m = MonitorHeartbeat")
  case True
  with assms(1) have "execute_heartbeat w s now m = (w1, s1)" by (simp add: execute_check_def)
  moreover have "prev = StatusUp \<or> prev = StatusDown"
    using assms(4,5) True by (auto simp: known_status_def unhealthy_def)
  ultimately obtain st evt where "st = StatusUp \<or> st = StatusDown" "sch_last s1 = (sch_last s)(mon_id m \<mapsto> st)"
    "w_bus w1 = w_bus w @ alert_message prev st evt" "te_monitor evt = mon_id m" "same_engine w w1"
    using execute_heartbeat_messages [OF _ assms(3)] by metis
  then show ?thesis by (intro exI [of _ st] exI [of _ evt]) (auto simp: known_status_def unhealthy_def)
next
  case False
  define r where "r = fst (final_result regex parse w m outcome)"
  have "execute_active regex parse flushed w s now m outcome = (w1, s1)"
    using assms(1,2) False by (simp add: execute_check_def)
  from execute_active_messages [OF this assms(3) r_def]
  have e: "sch_last s1 = (sch_last s)(mon_id m \<mapsto> res_status r)"
    "w_bus w1 = w_bus w @ alert_message prev (res_status r) (check_alert_event m r now)" "same_engine w w1" by auto
  moreover have "known_status (res_status r)"
    using final_result_known [of outcome regex parse w m] assms(6) by (simp add: r_def)
  ultimately show ?thesis
    using False by (intro exI [of _ "res_status r"] exI [of _ "check_alert_event m r now"]) (simp add: check_alert_event_def)
qed

section \<open>Checks and the engine\<close>

text \<open>The engine's subscriptions, on the messages a check published.\<close>

definition deliver_alert :: "envelope \<Rightarrow> gotime \<Rightarrow> world \<Rightarrow> string \<times> bus_payload \<Rightarrow> world" where
  "deliver_alert env now w msg =
     (case snd msg of
        PayloadTrigger evt \<Rightarrow>
          (if fst msg = ''alert.trigger'' then snd (handle_trigger env w now (Some evt))
           else if fst msg = ''alert.recover'' then snd (handle_recover w now (Some evt))
           else w)
      | PayloadAck evt \<Rightarrow> if fst msg = ''alert.ack'' then snd (handle_ack w now (Some evt)) else w
      | _ \<Rightarrow> w)"

definition active_on :: "world \<Rightarrow> string \<Rightarrow> bool" where
  "active_on w i \<longleftrightarrow> (\<exists>r \<in> set (w_alerts w). al_monitor (row_alert r) = i \<and> is_active (row_alert r))"

lemma same_engine_active: "same_engine w w' \<Longrightarrow> active_on w' i = active_on w i"
  by (simp add: same_engine_def active_on_def)

lemma same_engine_schema: "same_engine w w' \<Longrightarrow> schema_ok w' = schema_ok w"
  by (intro schema_ok_cong) (simp_all add: same_engine_def)

definition no_faults :: "world \<Rightarrow> bool" where
  "no_faults w \<longleftrightarrow> w_fails w = (\<lambda>_ _. False)"

definition fresh_uuids :: "world \<Rightarrow> bool" where
  "fresh_uuids w \<longleftrightarrow> (\<forall>n \<ge> w_uuid_next w. w_uuid w n \<notin> set (alert_ids w))"

lemma active_on_get: "no_faults w \<Longrightarrow> active_on w i \<Longrightarrow> \<exists>a. alerts_get_active w i = Inr a"
  using get_active_some [of w i] by (auto simp: active_on_def no_faults_def)

lemma not_active_get: "no_faults w \<Longrightarrow> \<not> active_on w i \<Longrightarrow> alerts_get_active w i = Inl ErrNotFound"
proof -
  assume w: "no_faults w" "\<not> active_on w i"
  then have "filter (\<lambda>a. al_monitor a = i \<and> is_active a) (map row_alert (w_alerts w)) = []"
    by (auto simp: active_on_def filter_empty_conv)
  with w show ?thesis by (simp add: alerts_get_active_def no_faults_def)
qed

lemma same_config_recorded: "same_config w (recorded w now a)"
  unfolding recorded_def Let_def
  by (rule same_config_trans [OF same_config_ops(2)], rule same_config_trans [OF same_config_ops(9)],
      rule same_config_trans [OF same_config_create_event], rule same_config_ops(7))

lemma same_config_handle_trigger: "same_config w (snd (handle_trigger env w now d))"
proof (cases rule: handle_trigger_cases [of env w now d])
  case unchanged
  then show ?thesis by simp
next
  case (created evt m w1)
  then have "same_config w w1" by (auto simp: new_uuid_def)
  then show ?thesis
    unfolding created(5) by (blast intro: same_config_trans same_config_recorded same_config_start)
qed

lemma deliver_trigger:
  fixes env :: envelope and now :: gotime
  assumes ok: "schema_ok w" "no_faults w" "fresh_uuids w" and m: "monitors_get w (te_monitor evt) = Inr m"
  defines "w' \<equiv> deliver_alert env now w (''alert.trigger'', PayloadTrigger evt)"
  shows "active_on w' (te_monitor evt) \<and> schema_ok w' \<and> no_faults w' \<and> w_monitors w' = w_monitors w"
proof -
  have w': "w' = snd (handle_trigger env w now (Some evt))" by (simp add: w'_def deliver_alert_def)
  have keeps: "schema_ok w'" using w' handle_trigger_keeps ok(1) by blast
  show ?thesis
  proof (cases "active_on w (te_monitor evt)")
    case True
    then obtain a where "alerts_get_active w (te_monitor evt) = Inr a" using active_on_get ok(2) by blast
    then have "w' = w" using m by (simp add: w' handle_trigger_def)
    with True ok show ?thesis by simp
  next
    case False
    let ?i = "w_uuid w (w_uuid_next w)"
    have "?i \<notin> set (alert_ids w)" using ok(3) by (simp add: fresh_uuids_def)
    moreover have "\<not> w_fails w AlertsInsert ?i" using ok(2) by (simp add: no_faults_def)
    ultimately obtain s where "w_alerts w' = w_alerts w @ [row_of_alert ((new_alert ?i m evt now)\<lparr>al_current_step := s\<rparr>)]"
      using trigger_new_row [OF ok(1) m not_active_get [OF ok(2) False] refl, of env now] by (auto simp: w')
    then have "active_on w' (te_monitor evt)" by (simp add: active_on_def new_alert_def is_active_def)
    moreover have "no_faults w'" "w_monitors w' = w_monitors w"
      using same_config_handle_trigger [of w env now "Some evt"] ok(2) by (simp_all add: w' same_config_def no_faults_def)
    ultimately show ?thesis using keeps by simp
  qed
qed

lemma deliver_recover:
  fixes env :: envelope and now :: gotime and evt :: trigger_event
  assumes ok: "schema_ok w" "no_faults w"
  defines "w' \<equiv> deliver_alert env now w (''alert.recover'', PayloadTrigger evt)"
  shows "\<not> active_on w' (te_monitor evt) \<and> schema_ok w' \<and> no_faults w' \<and> w_monitors w' = w_monitors w"
proof -
  have w': "w' = snd (handle_recover w now (Some evt))" by (simp add: w'_def deliver_alert_def)
  have keeps: "schema_ok w'" "same_config w w'"
    using w' handle_recover_keeps ok(1) same_config_handle_recover by blast+
  show ?thesis
  proof (cases "active_on w (te_monitor evt)")
    case True
    then obtain a where a: "alerts_get_active w (te_monitor evt) = Inr a" using active_on_get ok(2) by blast
    have "\<not> w_fails w AlertsUpdate (al_id a)" using ok(2) by (simp add: no_faults_def)
    from recover_effect [OF ok(1) a this, of now] have "\<not> active_on w' (te_monitor evt)"
      by (simp add: active_on_def w')
    then show ?thesis using keeps ok(2) by (simp add: same_config_def no_faults_def)
  next
    case False
    then have "w' = w" using not_active_get [OF ok(2) False] by (simp add: w' handle_recover_def)
    with False ok show ?thesis by simp
  qed
qed

text \<open>
  One round for monitor \<open>m\<close>: a check, whose messages the engine then handles; or the batch writer
  stores rows; or other parts of the program change the world without resolving or reviving an alert
  of the monitor (acknowledgements, ticks, other monitors). Rounds start without database faults, and
  generated ids are fresh.
\<close>

inductive monitor_round ::
  "envelope \<Rightarrow> regex_engine \<Rightarrow> (string \<Rightarrow> raw_json) \<Rightarrow> monitor \<Rightarrow> world \<times> scheduler \<Rightarrow> world \<times> scheduler \<Rightarrow> bool"
  for env regex parse m where
  check: "execute_check regex parse flushed w s now m outcome = (w1, s1) \<Longrightarrow>
    (\<And>r. outcome = Inr r \<Longrightarrow> known_status (res_status r)) \<Longrightarrow> fresh_uuids w1 \<Longrightarrow>
    w2 = foldl (deliver_alert env now') w1 (drop (length (w_bus w)) (w_bus w1)) \<Longrightarrow>
    monitor_round env regex parse m (w, s) (w2, s1)"
| flush: "monitor_round env regex parse m (w, s) (bw_flush w s)"
| other: "schema_ok w' \<Longrightarrow> no_faults w' \<Longrightarrow> monitors_get w' (mon_id m) = monitors_get w (mon_id m) \<Longrightarrow>
    active_on w' (mon_id m) = active_on w (mon_id m) \<Longrightarrow>
    sch_last s' (mon_id m) = sch_last s (mon_id m) \<Longrightarrow> monitor_round env regex parse m (w, s) (w', s')"

definition tracks_alert :: "monitor \<Rightarrow> world \<times> scheduler \<Rightarrow> bool" where
  "tracks_alert m ws \<longleftrightarrow>
     (case ws of (w, s) \<Rightarrow>
        schema_ok w \<and> no_faults w \<and> (\<exists>m'. monitors_get w (mon_id m) = Inr m')
        \<and> (\<exists>st. sch_last s (mon_id m) = Some st \<and> known_status st
             \<and> (mon_type m = MonitorHeartbeat \<longrightarrow> st \<noteq> StatusDegraded)
             \<and> (active_on w (mon_id m) \<longleftrightarrow> unhealthy st)))"

lemma monitors_get_cong:
  "w_monitors w' = w_monitors w \<Longrightarrow> w_fails w' = w_fails w \<Longrightarrow> monitors_get w' i = monitors_get w i"
  by (simp add: monitors_get_def)

lemma deliver_message:
  fixes env :: envelope and now :: gotime and prev st :: check_status and evt :: trigger_event and w :: world
    and i :: string and m' :: monitor
  assumes "schema_ok w" "no_faults w" "fresh_uuids w" "monitors_get w i = Inr m'" "te_monitor evt = i"
    and "active_on w i \<longleftrightarrow> unhealthy prev" "known_status prev" "known_status st"
  defines "w' \<equiv> foldl (deliver_alert env now) w (alert_message prev st evt)"
  shows "schema_ok w' \<and> no_faults w' \<and> monitors_get w' i = Inr m' \<and> (active_on w' i \<longleftrightarrow> unhealthy st)"
proof (cases "alert_subject prev st")
  case None
  then have "unhealthy prev = unhealthy st"
    using assms(7,8) by (auto simp: alert_subject_def known_status_def unhealthy_def split: if_splits)
  with None assms(1-6) show ?thesis by (simp add: w'_def alert_message_def)
next
  case (Some subject)
  then have cases: "subject = ''alert.trigger'' \<and> unhealthy st \<or> subject = ''alert.recover'' \<and> \<not> unhealthy st"
    by (auto simp: alert_subject_def unhealthy_def split: if_splits)
  have w': "w' = deliver_alert env now w (subject, PayloadTrigger evt)" using Some by (simp add: w'_def alert_message_def)
  have "monitors_get w'' i = Inr m'" if "no_faults w''" "w_monitors w'' = w_monitors w" for w''
    using that assms(2,4) monitors_get_cong [of w'' w i] by (simp add: no_faults_def)
  with cases show ?thesis
    using deliver_trigger [OF assms(1-3), of evt m' env now] deliver_recover [OF assms(1,2), of env now evt] assms(4,5)
    by (auto simp: w')
qed

lemma round_tracks:
  assumes "monitor_round env regex parse m ws ws'" "tracks_alert m ws"
    and "mon_type m = MonitorHeartbeat \<or> has_checker (mon_type m)"
  shows "tracks_alert m ws'"
  using assms(1)
proof cases
  case (check flushed w s now outcome w1 s1 w2 now')
  from assms(2) check(1) obtain prev m' where
    p: "sch_last s (mon_id m) = Some prev" "known_status prev" "mon_type m = MonitorHeartbeat \<Longrightarrow> prev \<noteq> StatusDegraded"
    and w: "schema_ok w" "no_faults w" "monitors_get w (mon_id m) = Inr m'" "active_on w (mon_id m) \<longleftrightarrow> unhealthy prev"
    by (auto simp: tracks_alert_def)
  from execute_check_messages [OF check(3) assms(3) p check(4)] obtain st evt where
    st: "known_status st" "mon_type m = MonitorHeartbeat \<longrightarrow> st \<noteq> StatusDegraded"
      "sch_last s1 = (sch_last s)(mon_id m \<mapsto> st)"
    and b: "w_bus w1 = w_bus w @ alert_message prev st evt" "te_monitor evt = mon_id m" "same_engine w w1" by blast
  have w2: "w2 = foldl (deliver_alert env now') w1 (alert_message prev st evt)" using check(6) b(1) by simp
  have "schema_ok w1" "no_faults w1" "monitors_get w1 (mon_id m) = Inr m'" "active_on w1 (mon_id m) \<longleftrightarrow> unhealthy prev"
    using same_engine_schema [OF b(3)] same_engine_active [OF b(3)] w b(3) monitors_get_cong [of w1 w]
    by (simp_all add: same_engine_def no_faults_def)
  from deliver_message [OF this(1,2) check(5) this(3) b(2) this(4) p(2) st(1), of env now'] show ?thesis
    using check(2) st w2 by (auto simp: tracks_alert_def)
next
  case (flush w s)
  let ?w = "fst (bw_flush w s)" and ?s = "snd (bw_flush w s)"
  have e: "same_engine w ?w" "sch_last ?s = sch_last s" by (rule bw_flush_frame)+
  have "monitors_get ?w (mon_id m) = monitors_get w (mon_id m)" "no_faults ?w = no_faults w"
    using e(1) monitors_get_cong [of ?w w] by (simp_all add: same_engine_def no_faults_def del: bw_flush_frame)
  then have "tracks_alert m (?w, ?s) = tracks_alert m (w, s)"
    unfolding tracks_alert_def prod.case e(2) same_engine_schema [OF e(1)] same_engine_active [OF e(1)] by metis
  then show ?thesis using assms(2) flush by simp
next
  case (other w' w s' s)
  then show ?thesis using assms(2) by (simp add: tracks_alert_def)
qed

interpretation rounds: invariant_system "monitor_round env regex parse m"
    "\<lambda>ws. tracks_alert m ws \<and> (mon_type m = MonitorHeartbeat \<or> has_checker (mon_type m))" for env regex parse m
  by unfold_locales (blast intro: round_tracks)


end
