(* ===== verification/CheckEdges.thy ===== *)
theory CheckEdges imports CheckLaws begin

text \<open>
  Behaviour of the scheduler at its edges: which edits of a monitor the periodic resync notices,
  when a heartbeat monitor counts as up, and monitors that were never up.
\<close>

section \<open>The resync\<close>

lemma add_enabled [simp]:
  "mon_enabled m \<Longrightarrow> sch_runners (add_monitor m s) = (sch_runners s)(mon_id m \<mapsto> m)"
  by (simp add: add_monitor_def stop_runner_def)

definition same_timing :: "monitor \<Rightarrow> monitor \<Rightarrow> bool" where
  "same_timing r m \<longleftrightarrow> mon_interval r = mon_interval m \<and> mon_timeout r = mon_timeout m"

definition resynced :: "monitor option \<Rightarrow> monitor \<Rightarrow> monitor" where
  "resynced old m = (case old of Some r \<Rightarrow> if same_timing r m then r else m | None \<Rightarrow> m)"

lemma resync_one_runners:
  "mon_enabled m \<Longrightarrow>
   sch_runners (resync_one s m) = (sch_runners s)(mon_id m \<mapsto> resynced (sch_runners s (mon_id m)) m)"
  by (auto simp: resync_one_def resynced_def same_timing_def stop_runner_def split: option.split)

lemma resync_all_runners:
  assumes "\<forall>m \<in> set ms. mon_enabled m" "distinct (map mon_id ms)"
  shows "sch_runners (foldl resync_one s ms) i =
    (case find (\<lambda>m. mon_id m = i) ms of
       None \<Rightarrow> sch_runners s i | Some m \<Rightarrow> Some (resynced (sch_runners s i) m))"
  using assms
proof (induction ms arbitrary: s)
  case (Cons m ms)
  have "find (\<lambda>k. mon_id k = mon_id m) ms = None" using Cons.prems(2) by (simp add: find_None_iff) (metis image_eqI)
  with Cons show ?case by (auto simp: resync_one_runners split: option.split)
qed simp

definition stored_enabled :: "world \<Rightarrow> string \<Rightarrow> monitor option" where
  "stored_enabled w i = find (\<lambda>m. mon_id m = i \<and> mon_enabled m) (w_monitors w)"

lemma find_unique:
  assumes "distinct (map f xs)" "distinct (map f ys)" "set ys = {x \<in> set xs. P x}"
  shows "find (\<lambda>y. f y = i) ys = find (\<lambda>x. f x = i \<and> P x) xs"
proof (cases "find (\<lambda>x. f x = i \<and> P x) xs")
  case None
  then have "find (\<lambda>y. f y = i) ys = None" using assms(3) by (auto simp: find_None_iff)
  with None show ?thesis by simp
next
  case (Some x)
  then have x: "x \<in> set xs" "f x = i" "P x" by (auto simp: find_Some_iff)
  then have "find (\<lambda>y. f y = i) ys \<noteq> None" using assms(3) by (auto simp: find_None_iff)
  then obtain y where y: "find (\<lambda>y. f y = i) ys = Some y" by blast
  then have "y \<in> set ys" "f y = i" by (auto simp: find_Some_iff)
  then have "y \<in> set xs" "f y = i" using assms(3) by auto
  then have "y = x" using x assms(1) by (auto simp: distinct_map dest: inj_onD)
  with y Some show ?thesis by simp
qed

text \<open>
  After a resync the watched monitors are exactly the enabled ones of the database. A runner keeps its
  old snapshot of the monitor - address, configuration, thresholds, type - unless the interval or the
  timeout changed.
\<close>

theorem resync_replaces_only_on_new_timing:
  assumes "\<not> w_fails w MonitorsListEnabled []" "distinct (map mon_id (w_monitors w))"
  shows "sch_runners (resync_from_db w s) i =
    (case stored_enabled w i of
       None \<Rightarrow> None
     | Some m \<Rightarrow> Some (case sch_runners s i of
         Some r \<Rightarrow> if mon_interval r = mon_interval m \<and> mon_timeout r = mon_timeout m then r else m
       | None \<Rightarrow> m))"
proof -
  define ms where "ms = sort_key mon_name (filter mon_enabled (w_monitors w))"
  have ms: "monitors_list_enabled w = Inr ms" using assms(1) by (simp add: monitors_list_enabled_def ms_def)
  have "distinct (map mon_id (filter mon_enabled (w_monitors w)))" using assms(2) by (simp add: distinct_map_filter)
  then have d: "distinct (map mon_id ms)" by (simp add: ms_def distinct_map)
  have f: "find (\<lambda>m. mon_id m = i) ms = stored_enabled w i"
    unfolding stored_enabled_def by (rule find_unique [OF assms(2) d]) (auto simp: ms_def)
  have m: "i \<in> mon_id ` set ms \<longleftrightarrow> stored_enabled w i \<noteq> None"
    unfolding f [symmetric] by (auto simp: find_None_iff)
  have all: "\<forall>m \<in> set ms. mon_enabled m" by (simp add: ms_def)
  show ?thesis
    using resync_all_runners [OF all d, of s i] m
    by (auto simp: resync_from_db_def Let_def ms f resynced_def same_timing_def split: option.splits)
qed

section \<open>Heartbeats\<close>

definition is_ping :: "string \<Rightarrow> monitor_check \<Rightarrow> bool" where
  "is_ping i c \<longleftrightarrow> chk_monitor c = i \<and> chk_status c = StatusUp \<and> like_contains (chk_metadata c) ''source_ip''"

lemma time_sub_mono: "t \<le> u \<Longrightarrow> time_sub now u \<le> time_sub now t"
  by (simp add: time_sub_def)

lemma heartbeat_status:
  assumes "mon_type m = MonitorHeartbeat" "decode_heartbeat_config (mon_config m) = Some seconds"
    and "\<not> w_fails w ChecksPing (mon_id m)" and "- 9223372036 \<le> seconds" "seconds \<le> 9223372036"
  shows "sch_last (snd (execute_check regex parse flushed w s now m outcome)) (mon_id m) =
    Some (if \<exists>c \<in> set (w_checks w). is_ping (mon_id m) c \<and>
               time_sub now (chk_checked_at c) \<le> (if seconds \<le> 0 then 5 * minute else seconds * second)
          then StatusUp else StatusDown)"
proof -
  have "sint (word_of_int seconds * word_of_int second :: int64) = seconds * second"
    using sint_of_int64 [of "seconds * second"] assms(4,5) by (simp add: wi_hom_mult)
  then have grace: "(if seconds \<le> 0 then 5 * minute else seconds * second) = grace_period seconds"
    by (simp add: grace_period_def Let_def)
  define pings where "pings = filter (is_ping (mon_id m)) (w_checks w)"
  have p: "checks_latest_ping w (mon_id m) = Inr (max_by chk_checked_at pings)"
    using assms(3) by (simp add: checks_latest_ping_def pings_def is_ping_def cong: filter_cong)
  define r where "r = heartbeat_result (max_by chk_checked_at pings) (grace_period seconds) now"
  have "sch_last (snd (execute_check regex parse flushed w s now m outcome)) (mon_id m) = Some (res_status r)"
    using assms(1,2) p by (simp add: execute_check_def execute_heartbeat_def Let_def r_def new_uuid_def)
  moreover have "res_status r = (if \<exists>c \<in> set pings. time_sub now (chk_checked_at c) \<le> grace_period seconds
      then StatusUp else StatusDown)"
  proof (cases "max_by chk_checked_at pings")
    case None
    then have "pings = []" by (cases pings) (auto split: option.splits if_splits)
    then show ?thesis by (simp add: r_def heartbeat_result_def down_result_def)
  next
    case (Some p)
    have "p \<in> set pings" "\<And>c. c \<in> set pings \<Longrightarrow> time_sub now (chk_checked_at p) \<le> time_sub now (chk_checked_at c)"
      using Some max_by_greatest [OF Some] max_by_in [OF Some] by (auto intro: time_sub_mono)
    then have "(\<exists>c \<in> set pings. time_sub now (chk_checked_at c) \<le> grace_period seconds)
        \<longleftrightarrow> time_sub now (chk_checked_at p) \<le> grace_period seconds" by (meson order_trans)
    then show ?thesis by (simp add: r_def Some heartbeat_result_def down_result_def up_result_def)
  qed
  ultimately show ?thesis unfolding grace by (auto simp: pings_def)
qed

text \<open>
  A check of a heartbeat monitor remembers it as up exactly when some ping of it is no older than the
  grace period, five minutes when none is configured; otherwise it is down. (The bounds are those of a
  duration in nanoseconds.)
\<close>

theorem heartbeat_is_up_within_grace:
  assumes "mon_type m = MonitorHeartbeat" "decode_heartbeat_config (mon_config m) = Some seconds"
    and "\<not> w_fails w ChecksPing (mon_id m)" and "- 9223372036 \<le> seconds" "seconds \<le> 9223372036"
  shows "sch_last (snd (execute_check regex parse flushed w s now m outcome)) (mon_id m) =
    Some (if \<exists>c \<in> set (w_checks w). is_ping (mon_id m) c \<and>
               time_sub now (chk_checked_at c) \<le> (if seconds \<le> 0 then 5 * minute else seconds * second)
          then StatusUp else StatusDown)"
  using heartbeat_status [OF assms] .

section \<open>Monitors that were never up\<close>

text \<open>A sequence of checks whose probe fails, with the batch writer running between them.\<close>

fun failing_checks ::
  "regex_engine \<Rightarrow> (string \<Rightarrow> raw_json) \<Rightarrow> monitor \<Rightarrow> world \<times> scheduler \<Rightarrow> (bool \<times> gotime \<times> string) list \<Rightarrow>
   world \<times> scheduler" where
  "failing_checks regex parse m ws [] = ws"
| "failing_checks regex parse m (w, s) ((flushed, now, err) # rounds) =
     failing_checks regex parse m
       (let (w1, s1) = execute_check regex parse flushed w s now m (Inl err) in bw_flush w1 s1) rounds"

definition down_rows :: "string \<Rightarrow> monitor_check list \<Rightarrow> bool" where
  "down_rows i cs \<longleftrightarrow> (\<forall>c \<in> set cs. chk_monitor c = i \<longrightarrow> chk_status c = StatusDown)"

definition never_up :: "string \<Rightarrow> world \<times> scheduler \<Rightarrow> bool" where
  "never_up i ws \<longleftrightarrow>
     down_rows i (w_checks (fst ws)) \<and> down_rows i (sch_buffer (snd ws))
     \<and> (sch_last (snd ws) i = None \<or> sch_last (snd ws) i = Some StatusDown)"

lemma create_down_rows:
  "down_rows i (w_checks w) \<Longrightarrow> down_rows i [c] \<Longrightarrow> down_rows i (w_checks (snd (checks_create w c)))"
  by (auto simp: checks_create_def down_rows_def)

lemma flush_down_rows:
  "down_rows i (w_checks w) \<Longrightarrow> down_rows i cs \<Longrightarrow>
   down_rows i (w_checks (foldl (\<lambda>w c. snd (checks_create w c)) w cs))"
proof (induction cs arbitrary: w)
  case (Cons c cs)
  from Cons.prems have "down_rows i [c]" "down_rows i cs" by (simp_all add: down_rows_def)
  with Cons show ?case by (simp add: create_down_rows)
qed simp

lemma flush_never_up: "never_up i (w, s) \<Longrightarrow> never_up i (bw_flush w s)"
  using flush_down_rows [of i w "sch_buffer s"] by (simp add: never_up_def bw_flush_def) (simp add: down_rows_def)

lemma enqueue_never_up: "never_up i (w, s) \<Longrightarrow> chk_status c = StatusDown \<Longrightarrow> never_up i (w, bw_enqueue c s)"
  by (auto simp: never_up_def bw_enqueue_def down_rows_def)

lemma never_up_previous: "never_up i (w, s) \<Longrightarrow> previous_status w s i = no_status \<or> previous_status w s i = StatusDown"
  by (auto simp: never_up_def previous_status_def checks_latest_def down_rows_def dest: max_by_in
      split: option.split sum.split if_splits)

text \<open>A probe that fails makes the check down, whatever the thresholds and the match rules say.\<close>

lemma failed_probe_result: "final_result regex parse w m (Inl err) = (down_result err, [])"
  by (simp add: final_result_def apply_rules_def apply_latency_def probe_result_def down_result_def)

lemma no_transition:
  assumes "prev = no_status \<or> prev = StatusDown"
  shows "publish_transition w m (down_result err) prev now = w"
    and "emit_monitor_transition w m (down_result err) prev i now = w"
  using assms by (auto simp: publish_transition_def emit_monitor_transition_def down_result_def)

definition quiet :: "world \<Rightarrow> world \<Rightarrow> bool" where
  "quiet w w' \<longleftrightarrow> w_bus w' = w_bus w \<and> w_emitted w' = w_emitted w"

lemma flush_quiet: "quiet w (fst (bw_flush w s))"
proof -
  have "w_emitted (foldl (\<lambda>w c. snd (checks_create w c)) w cs) = w_emitted w" for cs
    by (induction cs arbitrary: w) (simp_all add: checks_create_def)
  then show ?thesis by (simp add: quiet_def) (simp add: bw_flush_def)
qed

lemma failing_check_step:
  assumes "has_checker (mon_type m)" "never_up (mon_id m) (w, s)"
  shows "never_up (mon_id m) (execute_check regex parse flushed w s now m (Inl err))
    \<and> quiet w (fst (execute_check regex parse flushed w s now m (Inl err)))"
proof -
  obtain i w1 where u: "new_uuid w = (i, w1)" "quiet w w1" "w_checks w1 = w_checks w"
    by (auto simp: new_uuid_def quiet_def)
  let ?s1 = "bw_enqueue (new_check i m (down_result err) [] now) s"
  obtain w2 s2 where f: "(if flushed then bw_flush w1 ?s1 else (w1, ?s1)) = (w2, s2)" by fastforce
  have "never_up (mon_id m) (w1, ?s1)"
    using assms(2) u(3) by (intro enqueue_never_up) (simp_all add: never_up_def new_check_def down_result_def)
  then have n: "never_up (mon_id m) (w2, s2)" using f flush_never_up by (metis (full_types))
  have q: "quiet w w2" using u(2) f flush_quiet [of w1 ?s1] by (cases flushed) (simp_all add: quiet_def)
  have "execute_check regex parse flushed w s now m (Inl err) = (w2, set_last (mon_id m) StatusDown s2)"
    using assms(1) u(1) f no_transition [OF never_up_previous [OF n]]
    by (simp add: execute_check_def execute_active_def failed_probe_result Let_def has_checker_def)
       (auto simp: down_result_def)
  with n q show ?thesis by (simp add: never_up_def)
qed

text \<open>
  A monitor whose probe has failed since it was created never alerts: as long as no check of it was up,
  any number of failing checks publishes no message and no CloudEvent.
\<close>

theorem never_up_monitor_never_alerts:
  assumes "has_checker (mon_type m)" "never_up (mon_id m) (w, s)"
  shows "w_bus (fst (failing_checks regex parse m (w, s) rounds)) = w_bus w
    \<and> w_emitted (fst (failing_checks regex parse m (w, s) rounds)) = w_emitted w"
proof -
  have "quiet w (fst (failing_checks regex parse m (w, s) rounds))"
    using assms(2)
  proof (induction rounds arbitrary: w s)
    case Nil
    then show ?case by (simp add: quiet_def)
  next
    case (Cons round rounds)
    obtain flushed now err where r: "round = (flushed, now, err)" by (cases round) auto
    obtain w1 s1 where c: "execute_check regex parse flushed w s now m (Inl err) = (w1, s1)" by fastforce
    obtain w2 s2 where f: "bw_flush w1 s1 = (w2, s2)" by fastforce
    have "never_up (mon_id m) (w1, s1)" "quiet w w1"
      using failing_check_step [OF assms(1) Cons.prems, of regex parse flushed now err] c by simp_all
    moreover have "never_up (mon_id m) (w2, s2)" "quiet w1 w2"
      using flush_never_up [OF calculation(1)] flush_quiet [of w1 s1] f by simp_all
    ultimately show ?case using Cons.IH [of w2 s2] c f by (auto simp: r quiet_def)
  qed
  then show ?thesis by (simp add: quiet_def)
qed

end
