(* ===== verification/CheckExamples.thy ===== *)
theory CheckExamples imports CheckEdges EscalationExamples begin

text \<open>Concrete worlds on which the hypotheses of the scheduler's properties hold.\<close>

definition sample_scheduler :: scheduler where
  "sample_scheduler =
     (new_scheduler \<lparr>cc_workers = 0, cc_channel_size = 0, cc_priority_threshold = 0, cc_batch_size = 0,
        cc_batch_writers = 0, cc_flush_concurrency = 0\<rparr>)\<lparr>sch_last := [''m'' \<mapsto> StatusUp]\<rparr>"

definition no_regex :: regex_engine where
  "no_regex = (\<lambda>_ _. None)"

text \<open>A check whose probe fails, and the delivery of its message to the engine.\<close>

definition sample_checked :: "world \<times> scheduler" where
  "sample_checked = execute_check no_regex (\<lambda>_. None) False sample_world sample_scheduler 5 sample_monitor
     (Inl ''refused'')"

definition sample_delivered :: "world \<times> scheduler" where
  "sample_delivered =
     (foldl (deliver_alert None 6) (fst sample_checked)
        (drop (length (w_bus sample_world)) (w_bus (fst sample_checked))), snd sample_checked)"

lemma sample_monitor_simps [simp]:
  "mon_id sample_monitor = ''m''" "mon_type sample_monitor = MonitorHTTP" "mon_enabled sample_monitor"
  by (simp_all add: sample_monitor_def)

lemma sample_no_faults [simp]: "no_faults sample_world"
  by (simp add: no_faults_def sample_world_def empty_world_def)

lemma sample_checked_frame: "same_engine sample_world (fst sample_checked)"
proof -
  obtain w1 s1 where c: "sample_checked = (w1, s1)" by fastforce
  then have "execute_active no_regex (\<lambda>_. None) False sample_world sample_scheduler 5 sample_monitor (Inl ''refused'') = (w1, s1)"
    by (simp add: sample_checked_def execute_check_def has_checker_def)
  from execute_active_messages [OF this _ refl, of StatusUp] show ?thesis by (simp add: sample_scheduler_def c)
qed

lemma sample_round: "monitor_round None no_regex (\<lambda>_. None) sample_monitor (sample_world, sample_scheduler) sample_delivered"
  unfolding sample_delivered_def
proof (rule monitor_round.check)
  show "execute_check no_regex (\<lambda>_. None) False sample_world sample_scheduler 5 sample_monitor (Inl ''refused'') =
      (fst sample_checked, snd sample_checked)" by (simp add: sample_checked_def)
  show "fresh_uuids (fst sample_checked)"
    using sample_checked_frame by (simp add: fresh_uuids_def same_engine_def alert_ids_def)
qed simp_all


text \<open>The stored monitor points elsewhere than the running one; only its interval would matter.\<close>

theorem resync_replaces_only_on_new_timing_witness:
  "sch_runners (resync_from_db sample_world (sample_scheduler\<lparr>sch_runners :=
     [''m'' \<mapsto> sample_monitor\<lparr>mon_name := ''old'', mon_config := Some JNull\<rparr>]\<rparr>)) ''m'' =
   Some (sample_monitor\<lparr>mon_name := ''old'', mon_config := Some JNull\<rparr>)"
  using resync_replaces_only_on_new_timing [of sample_world "sample_scheduler\<lparr>sch_runners :=
     [''m'' \<mapsto> sample_monitor\<lparr>mon_name := ''old'', mon_config := Some JNull\<rparr>]\<rparr>" "''m''"]
  by (simp add: stored_enabled_def sample_world_def)

definition heartbeat_monitor :: monitor where
  "heartbeat_monitor = sample_monitor\<lparr>mon_type := MonitorHeartbeat,
     mon_config := Some (JObj [(''grace_period_seconds'', JInt 30)])\<rparr>"

theorem heartbeat_is_up_within_grace_witness:
  "sch_last (snd (execute_check no_regex (\<lambda>_. None) False sample_world sample_scheduler 5 heartbeat_monitor
     (Inl []))) ''m'' = Some StatusDown"
proof -
  have "decode_heartbeat_config (mon_config heartbeat_monitor) = Some 30"
    by code_simp
  from heartbeat_is_up_within_grace [OF _ this, of sample_world no_regex "\<lambda>_. None" False sample_scheduler 5 "Inl []"]
  show ?thesis by (simp add: heartbeat_monitor_def) (simp add: sample_world_def empty_world_def)
qed

theorem never_up_monitor_never_alerts_witness:
  "w_bus (fst (failing_checks no_regex (\<lambda>_. None) sample_monitor
     (sample_world, sample_scheduler\<lparr>sch_last := Map.empty\<rparr>) [(True, 5, ''refused''), (False, 65, ''timeout'')])) =
   w_bus sample_world"
  by (rule conjunct1 [OF never_up_monitor_never_alerts])
    (simp_all add: has_checker_def never_up_def down_rows_def sample_scheduler_def new_scheduler_def
      sample_world_def empty_world_def)

end
