(* ===== verification/InboundLaws.thy ===== *)
theory InboundLaws imports Inbound CheckExamples begin

text \<open>
  What a ping means to the scheduler, and what an inbound event can do to the alerts: the handlers
  composed with the check of heartbeat monitors and with the engine behind the bus.
\<close>

section \<open>A ping keeps its monitor up\<close>

lemma like_prefix_append: "like_prefix pat s \<Longrightarrow> CHR ''_'' \<notin> set pat \<Longrightarrow> like_prefix pat (s @ t)"
  by (induction pat s rule: like_prefix.induct) auto

lemma ping_is_recognised: "like_contains (ping_metadata remote) ''source_ip''"
proof -
  have "json_quote ''source_ip'' = CHR 0x22 # ''source_ip'' @ [CHR 0x22]" by code_simp
  then have "\<exists>t. ping_metadata remote = CHR ''{'' # CHR 0x22 # ''source_ip'' @ t"
    by (simp add: ping_metadata_def)
  moreover have "like_prefix ''source_ip'' (''source_ip'' @ t)" for t by simp
  ultimately show ?thesis by (auto simp del: like_prefix.simps)
qed

lemma heartbeat_ping_accepted:
  assumes "heartbeat_ping w now i token remote = (ans, w1)" "answer_status ans = 200"
  obtains m c where "monitors_get w i = Inr m" "mon_type m = MonitorHeartbeat" "token = mon_heartbeat_token m"
    "w_checks w1 = w_checks w @ [c]" "is_ping i c" "chk_checked_at c = rfc3339 now"
  using assms ping_is_recognised [of remote]
  by (auto simp: heartbeat_ping_def is_ping_def checks_create_def new_uuid_def split: sum.splits if_splits prod.splits option.splits)

text \<open>
  C35: A ping that was answered with success keeps its monitor up: every later check of the monitor that
  still sees the stored rows, within the grace period of the ping (at the second the row keeps),
  remembers the monitor as up.
\<close>

theorem ping_keeps_its_monitor_up:
  assumes "heartbeat_ping w t (mon_id m) token remote = (ans, w1)" "answer_status ans = 200"
    and "set (w_checks w1) \<subseteq> set (w_checks w2)" "\<not> w_fails w2 ChecksPing (mon_id m)"
    and "mon_type m = MonitorHeartbeat" "decode_heartbeat_config (mon_config m) = Some seconds"
    and "- 9223372036 \<le> seconds" "seconds \<le> 9223372036"
    and "time_sub now (rfc3339 t) \<le> (if seconds \<le> 0 then 5 * minute else seconds * second)"
  shows "sch_last (snd (execute_check regex parse flushed w2 s now m outcome)) (mon_id m) = Some StatusUp"
proof -
  from heartbeat_ping_accepted [OF assms(1,2)] obtain c where
    "w_checks w1 = w_checks w @ [c]" "is_ping (mon_id m) c" "chk_checked_at c = rfc3339 t" by metis
  then have "\<exists>c \<in> set (w_checks w2). is_ping (mon_id m) c \<and>
      time_sub now (chk_checked_at c) \<le> (if seconds \<le> 0 then 5 * minute else seconds * second)"
    using assms(3,9) by (intro bexI [of _ c]) auto
  then show ?thesis
    using heartbeat_status [OF assms(5,6,4,7,8), of regex parse flushed s now outcome] by simp
qed

section \<open>Events act on the alerts of their monitor\<close>

definition others :: "world \<Rightarrow> string \<Rightarrow> alert_row list" where
  "others w i = filter (\<lambda>r. al_monitor (row_alert r) \<noteq> i) (w_alerts w)"

lemma others_cong: "w_alerts w' = w_alerts w \<Longrightarrow> others w' i = others w i"
  by (simp add: others_def)

lemma others_after: "others (after_resolve w now a) i = others w i"
  by (intro others_cong) simp

lemma filter_update_where_set:
  "(\<And>r. r \<in> set rows \<Longrightarrow> p r \<Longrightarrow> \<not> q r \<and> \<not> q (f r)) \<Longrightarrow> filter q (update_where p f rows) = filter q rows"
  by (induction rows) auto

lemma others_update:
  assumes "schema_ok w" "b \<in> set (map row_alert (w_alerts w))" "al_monitor b = i" "al_id a = al_id b"
  shows "others (snd (alerts_update w a)) i = others w i"
proof -
  have "al_monitor (row_alert r) = i" if "r \<in> set (w_alerts w)" "al_id (row_alert r) = al_id a" for r
    using schema_ok_row_unique [OF assms(1)] assms(2-4) that by auto
  then have "filter (\<lambda>r. al_monitor (row_alert r) \<noteq> i) (update_where (\<lambda>r. al_id (row_alert r) = al_id a)
      (set_alert_columns a) (w_alerts w)) = others w i"
    unfolding others_def by (intro filter_update_where_set) (simp add: set_alert_columns_def)
  then show ?thesis using alerts_update_rows [of w a] by (auto simp: others_def)
qed

lemma others_auto_resolve: "schema_ok w \<Longrightarrow> others (auto_resolve w now i) i = others w i"
proof (induction w now i rule: auto_resolve.induct)
  case (1 w now i)
  show ?case
  proof (cases "alerts_get_active w i")
    case (Inl e)
    then show ?thesis by (simp add: auto_resolve.simps)
  next
    case (Inr a)
    obtain r w1 where u: "alerts_update w (resolved_alert a now) = (r, w1)" by fastforce
    have o: "others w1 i = others w i"
      using others_update [OF 1(2), of a i "resolved_alert a now"] alerts_get_active_SomeD [OF Inr] u
      by (simp add: resolved_alert_def)
    have k: "schema_ok w1" using alerts_update_keeps [OF u 1(2)] .
    show ?thesis
    proof (cases r)
      case None
      from 1(1) [OF Inr u [symmetric] None] after_resolve_keeps [OF k]
      show ?thesis using Inr u None o by (subst auto_resolve.simps) (simp add: others_after)
    next
      case (Some e)
      then show ?thesis using Inr u o by (subst auto_resolve.simps) simp
    qed
  qed
qed

lemma others_recover:
  assumes "schema_ok w" shows "others (snd (handle_recover w now (Some evt))) (te_monitor evt) = others w (te_monitor evt)"
proof (cases "alerts_get_active w (te_monitor evt)")
  case (Inl e)
  then show ?thesis by (simp add: handle_recover_def)
next
  case (Inr a)
  obtain r w1 where u: "alerts_update w (resolved_alert a now) = (r, w1)" by fastforce
  have o: "others w1 (te_monitor evt) = others w (te_monitor evt)"
    using others_update [OF assms, of a "te_monitor evt" "resolved_alert a now"] alerts_get_active_SomeD [OF Inr] u
    by (simp add: resolved_alert_def)
  have k: "schema_ok (after_resolve w1 now a)" using after_resolve_keeps [OF alerts_update_keeps [OF u assms]] .
  show ?thesis
  proof (cases r)
    case None
    have "others (auto_resolve (after_resolve w1 now a) now (te_monitor evt)) (te_monitor evt) = others w (te_monitor evt)"
      using others_auto_resolve [OF k] o by (simp add: others_after)
    moreover have "snd (handle_recover w now (Some evt)) \<in>
        {after_resolve w1 now a, auto_resolve (after_resolve w1 now a) now (te_monitor evt)}"
    proof (cases "monitors_get (after_resolve w1 now a) (te_monitor evt)")
      case (Inr m)
      then have "mon_id m = te_monitor evt" using monitors_get_SomeD by blast
      with Inr \<open>alerts_get_active w (te_monitor evt) = Inr a\<close> u None show ?thesis by (simp add: handle_recover_def Let_def)
    qed (use Inr u None in \<open>simp add: handle_recover_def Let_def\<close>)
    ultimately show ?thesis using o by (auto simp: others_after)
  next
    case (Some e)
    then show ?thesis using Inr u o by (simp add: handle_recover_def)
  qed
qed

lemma others_ack:
  assumes "schema_ok w" "alerts_get w (ack_alert evt) = Inr a" "al_monitor a = i"
  shows "others (snd (handle_ack w now (Some evt))) i = others w i"
proof -
  obtain r w1 where u: "alerts_update w (acked_alert a now (ack_user evt)) = (r, w1)" by fastforce
  have "others w1 i = others w i"
    using others_update [OF assms(1), of a i "acked_alert a now (ack_user evt)"] alerts_get_SomeD [OF assms(2)] assms(3) u
    by force
  moreover have "others (emit (create_event w1 now j ty ch usr) ev) i = others w1 i" for j ty ch usr ev
    by (intro others_cong) (simp add: emit_def)
  ultimately show ?thesis using assms(2) u by (cases r) (simp_all add: handle_ack_def Let_def)
qed

lemma others_trigger: "others (snd (handle_trigger env w now (Some evt))) (te_monitor evt) = others w (te_monitor evt)"
proof (cases rule: handle_trigger_cases [of env w now "Some evt"])
  case unchanged
  then show ?thesis by (intro others_cong)
next
  case (created evt' m w1)
  let ?a = "new_alert (w_uuid w (w_uuid_next w)) m evt now"
  have e: "evt' = evt" "mon_id m = te_monitor evt" using created(1,2) monitors_get_SomeD [OF created(2)] by simp_all
  have w1: "w_alerts w1 = w_alerts w" using created(3) by (auto simp: new_uuid_def)
  have fresh: "al_id ?a \<notin> set (map (\<lambda>r. al_id (row_alert r)) (w_alerts w))"
    using created(4) w1 unfolding e by (auto simp: alerts_create_def has_alert_def Let_def split: if_splits)
  have "w_alerts (recorded w1 now ?a) = w_alerts w @ [row_of_alert ?a]" using created(4) w1 by (simp add: e)
  from tick_effect_new_row [OF start_escalation_effect this fresh] obtain s where
    "w_alerts (snd (handle_trigger env w now (Some evt))) = w_alerts w @ [row_of_alert (?a\<lparr>al_current_step := s\<rparr>)]"
    using created(5) unfolding e by metis
  then show ?thesis by (simp add: others_def row_of_alert_def new_alert_def e)
qed

text \<open>Every accepted request is one message, of one of three shapes.\<close>

definition api_message :: "world \<Rightarrow> monitor \<Rightarrow> string \<times> bus_payload \<Rightarrow> bool" where
  "api_message w m msg \<longleftrightarrow>
     (\<exists>evt. te_monitor evt = mon_id m
        \<and> msg \<in> {(''alert.trigger'', PayloadTrigger evt), (''alert.recover'', PayloadTrigger evt)})
   \<or> (\<exists>evt a. msg = (''alert.ack'', PayloadAck evt) \<and> ack_alert evt = al_id a
        \<and> a \<in> set (map row_alert (w_alerts w)) \<and> al_monitor a = mon_id m)"

lemma api_alert_row: "api_alert w m key = Some a \<Longrightarrow> a \<in> set (map row_alert (w_alerts w)) \<and> al_monitor a = mon_id m"
  by (auto simp: api_alert_def Let_def split: sum.splits if_splits dest!: alerts_get_SomeD alerts_get_active_SomeD)

lemma events_ingest_cases:
  assumes "events_ingest w now body = (ans, w1)"
  obtains (refused) "w1 = w" "answer_status ans \<in> {400, 401, 404, 409, 422}"
  | (accepted) req m msg w0 where "unmarshal decode_inbound_event body = Some req"
      "monitors_by_key w (ie_routing_key req) = Inr m" "mon_enabled m" "api_message w m msg"
      "w0 = w \<or> w0 = snd (new_uuid w)" "w1 = w0\<lparr>w_bus := w_bus w0 @ [msg]\<rparr>" "answer_status ans = 202"
proof -
  consider (bad) "w1 = w" "answer_status ans \<in> {400, 401, 404, 409, 422}"
    | (good) req m where "unmarshal decode_inbound_event body = Some req"
      "monitors_by_key w (ie_routing_key req) = Inr m" "mon_enabled m"
      "(ans, w1) \<in> {api_trigger w now req m, api_acknowledge w req m, api_resolve w now req m}"
    using assms by (auto simp: events_ingest_def split: option.splits sum.splits if_splits)
  then show thesis
  proof cases
    case bad
    then show thesis by (rule refused)
  next
    case (good req m)
    note acc = accepted [OF good(1-3)]
    consider (t) "api_trigger w now req m = (ans, w1)" | (a) "api_acknowledge w req m = (ans, w1)"
      | (r) "api_resolve w now req m = (ans, w1)" using good(4) by auto
    then show thesis
    proof cases
      case t
      show thesis
      proof (cases "answer_status ans = 202")
        case True
        with t obtain st err w0 where w0: "w0 = w \<or> w0 = snd (new_uuid w)"
          "w1 = bus_publish w0 ''alert.trigger'' (PayloadTrigger (api_trigger_event m st err now))"
          by (auto simp: api_trigger_def event_response_def Let_def split: option.splits if_splits prod.splits)
        have "api_message w m (''alert.trigger'', PayloadTrigger (api_trigger_event m st err now))"
          by (simp add: api_message_def api_trigger_event_def) 
        from acc [OF this w0(1) _ True] show thesis using w0(2) by (simp add: bus_publish_def)
      next
        case False
        then show thesis using t
          by (intro refused) (auto simp: api_trigger_def event_response_def Let_def split: option.splits if_splits prod.splits)
      qed
    next
      case a
      show thesis
      proof (cases "\<exists>b. ie_dedup req \<noteq> [] \<and> api_alert w m (ie_dedup req) = Some b \<and> al_status b \<noteq> AlertResolved")
        case True
        then obtain b where b: "ie_dedup req \<noteq> []" "api_alert w m (ie_dedup req) = Some b" "al_status b \<noteq> AlertResolved" by blast
        have "api_message w m (''alert.ack'', PayloadAck \<lparr>ack_alert = al_id b, ack_user = [], ack_channel = ''events_api''\<rparr>)"
          using api_alert_row [OF b(2)] by (auto simp: api_message_def)
        from acc [OF this disjI1 [OF refl]] show thesis
          using a b by (auto simp: api_acknowledge_def event_response_def bus_publish_def)
      next
        case False
        then show thesis using a by (intro refused) (auto simp: api_acknowledge_def split: option.splits if_splits)
      qed
    next
      case r
      show thesis
      proof (cases "\<exists>b. ie_dedup req \<noteq> [] \<and> api_alert w m (ie_dedup req) = Some b \<and> al_status b \<noteq> AlertResolved")
        case True
        then obtain b where b: "ie_dedup req \<noteq> []" "api_alert w m (ie_dedup req) = Some b" "al_status b \<noteq> AlertResolved" by blast
        have "api_message w m (''alert.recover'', PayloadTrigger (api_trigger_event m StatusUp [] now))"
          using api_alert_row [OF b(2)] by (auto simp: api_message_def api_trigger_event_def)
        from acc [OF this disjI1 [OF refl]] show thesis
          using r b by (auto simp: api_resolve_def event_response_def bus_publish_def)
      next
        case False
        then show thesis using r by (intro refused) (auto simp: api_resolve_def split: option.splits if_splits)
      qed
    qed
  qed
qed

lemma deliver_api_message:
  assumes "schema_ok w" "api_message w m msg"
  shows "others (deliver_alert env now w msg) (mon_id m) = others w (mon_id m)"
  using assms(2) unfolding api_message_def
proof (elim disjE exE conjE)
  fix evt assume e: "te_monitor evt = mon_id m"
    "msg \<in> {(''alert.trigger'', PayloadTrigger evt), (''alert.recover'', PayloadTrigger evt)}"
  then show ?thesis
    using others_trigger [of env w now evt] others_recover [OF assms(1), of now evt] by (auto simp: deliver_alert_def)
next
  fix evt a assume e: "msg = (''alert.ack'', PayloadAck evt)" "ack_alert evt = al_id a"
    "a \<in> set (map row_alert (w_alerts w))" "al_monitor a = mon_id m"
  show ?thesis
  proof (cases "alerts_get w (ack_alert evt)")
    case (Inl x)
    then show ?thesis using e by (simp add: deliver_alert_def handle_ack_def)
  next
    case (Inr b)
    then have "b = a" using alerts_get_SomeD [OF Inr] e schema_ok_row_unique [OF assms(1)] by auto
    then show ?thesis using others_ack [OF assms(1) Inr] e by (simp add: deliver_alert_def)
  qed
qed

text \<open>
  An inbound event either is refused and changes nothing, or publishes exactly one message, for the
  enabled monitor that holds the routing key; whatever the engine does with the message, no alert of
  any other monitor changes.
\<close>

theorem inbound_event_acts_on_its_monitor:
  fixes env :: envelope and now' :: gotime
  assumes "schema_ok w" "events_ingest w now body = (ans, w1)"
  shows "w1 = w \<and> answer_status ans \<in> {400, 401, 404, 409, 422}
    \<or> answer_status ans = 202 \<and> (\<exists>req m msg. unmarshal decode_inbound_event body = Some req
        \<and> m \<in> set (w_monitors w) \<and> mon_integration_key m = ie_routing_key req \<and> mon_enabled m
        \<and> w_bus w1 = w_bus w @ [msg] \<and> w_alerts w1 = w_alerts w
        \<and> others (deliver_alert env now' w1 msg) (mon_id m) = others w (mon_id m))"
using assms(2)
proof (cases rule: events_ingest_cases)
  case refused
  then show ?thesis by blast
next
  case (accepted req m msg w0)
  have a: "w_alerts w1 = w_alerts w" "w_bus w1 = w_bus w @ [msg]" "schema_ok w1 = schema_ok w"
    using accepted(5,6) by (auto simp: new_uuid_def intro!: schema_ok_cong)
  have "api_message w1 m msg" using accepted(4) a(1) by (simp add: api_message_def)
  then have "others (deliver_alert env now' w1 msg) (mon_id m) = others w (mon_id m)"
    using deliver_api_message [of w1 m msg env now'] assms(1) a others_cong [of w1 w] by simp
  moreover have "m \<in> set (w_monitors w) \<and> mon_integration_key m = ie_routing_key req"
    using accepted(2) by (auto simp: monitors_by_key_def split: if_splits option.splits dest!: find_SomeD)
  ultimately show ?thesis using accepted a by blast
qed

text \<open>A key that is no alert, such as the one a trigger answers with, stands for the active alert.\<close>

lemma unknown_keys_mean_the_active_alert:
  "alerts_get w k = Inl e \<Longrightarrow>
   api_alert w m k = (case alerts_get_active w (mon_id m) of Inr a \<Rightarrow> Some a | Inl _ \<Rightarrow> None)"
  by (simp add: api_alert_def)

section \<open>Concrete requests\<close>

definition inbound_world :: world where
  "inbound_world = sample_world\<lparr>w_monitors :=
     [heartbeat_monitor\<lparr>mon_integration_key := ''key'', mon_heartbeat_token := ''secret''\<rparr>]\<rparr>"

definition sample_ping :: "http_answer \<times> world" where
  "sample_ping = heartbeat_ping inbound_world second ''m'' ''secret'' ''10.0.0.1:80''"

lemma inbound_world_simps [simp]:
  "monitors_get inbound_world ''m'' = Inr (heartbeat_monitor\<lparr>mon_integration_key := ''key'', mon_heartbeat_token := ''secret''\<rparr>)"
  "monitors_by_key inbound_world ''key'' = Inr (heartbeat_monitor\<lparr>mon_integration_key := ''key'', mon_heartbeat_token := ''secret''\<rparr>)"
  "w_checks inbound_world = []" "w_fails inbound_world = (\<lambda>_ _. False)" "mon_id ` set (w_monitors inbound_world) = {''m''}"
  by (simp_all add: monitors_get_def monitors_by_key_def inbound_world_def heartbeat_monitor_def has_monitor_def
      sample_world_def empty_world_def)

lemma inbound_world_ok [simp]: "schema_ok inbound_world"
  by (simp add: inbound_world_def sample_world_def empty_world_def schema_ok_def alert_ids_def active_unique_def)

lemma heartbeat_config [simp]: "decode_heartbeat_config (mon_config heartbeat_monitor) = Some 30"
  by code_simp

theorem ping_keeps_its_monitor_up_witness:
  "sch_last (snd (execute_check no_regex (\<lambda>_. None) False (snd sample_ping) sample_scheduler (20 * second)
     heartbeat_monitor (Inl []))) ''m'' = Some StatusUp"
proof -
  have m: "mon_id heartbeat_monitor = ''m''" "mon_type heartbeat_monitor = MonitorHeartbeat"
    by (simp_all add: heartbeat_monitor_def)
  have p: "answer_status (fst sample_ping) = 200" "\<not> w_fails (snd sample_ping) ChecksPing ''m''"
    by (simp_all add: sample_ping_def heartbeat_ping_def new_uuid_def checks_create_def m has_monitor_def)
  have "heartbeat_ping inbound_world second (mon_id heartbeat_monitor) ''secret'' ''10.0.0.1:80'' =
      (fst sample_ping, snd sample_ping)" by (simp add: sample_ping_def m)
  from ping_keeps_its_monitor_up [OF this p(1) order_refl _ m(2) heartbeat_config, of "20 * second"] p(2)
  show ?thesis by (simp add: m rfc3339_def time_sub_def)
qed

definition sample_event :: json where
  "sample_event = JObj [(''routing_key'', JStr ''key''), (''event_action'', JStr ''trigger''),
     (''payload'', JObj [(''summary'', JStr ''down''), (''severity'', JStr ''critical'')])]"

theorem inbound_event_acts_on_its_monitor_witness:
  "\<exists>req m msg. unmarshal decode_inbound_event (Some sample_event) = Some req
     \<and> m \<in> set (w_monitors inbound_world) \<and> mon_integration_key m = ie_routing_key req \<and> mon_enabled m
     \<and> w_bus (snd (events_ingest inbound_world 0 (Some sample_event))) = w_bus inbound_world @ [msg]
     \<and> w_alerts (snd (events_ingest inbound_world 0 (Some sample_event))) = w_alerts inbound_world
     \<and> others (deliver_alert None 1 (snd (events_ingest inbound_world 0 (Some sample_event))) msg) (mon_id m) =
         others inbound_world (mon_id m)"
proof -
  have req: "unmarshal decode_inbound_event (Some sample_event) = Some \<lparr>ie_routing_key = ''key'',
      ie_action = ''trigger'', ie_dedup = [], ie_payload = Some \<lparr>ep_summary = ''down'',
      ep_severity = ''critical'', ep_source = [], ep_component = []\<rparr>\<rparr>" by code_simp
  have "answer_status (fst (events_ingest inbound_world 0 (Some sample_event))) = 202"
    unfolding events_ingest_def req
    by (simp add: api_trigger_def event_response_def new_uuid_def heartbeat_monitor_def)
  with inbound_event_acts_on_its_monitor [OF inbound_world_ok surjective_pairing, of 0 "Some sample_event" None 1]
  show ?thesis by force
qed

end
