(* ===== verification/Ip.thy ===== *)
theory Ip imports Prelude begin

unbundle bit_operations_syntax

text \<open>
  IP addresses as \<open>net.IP\<close> has them, slices of 4 or 16 bytes: the predicates of package
  \<open>net\<close> the guards use, \<open>net.ParseIP\<close>, and \<open>strconv.ParseUint\<close> with base 0. The last
  section says what they mean for the value of the address.
\<close>

section \<open>Addresses\<close>

type_synonym byte = "8 word"
type_synonym ip = "byte list"

definition ip4 :: "byte \<Rightarrow> byte \<Rightarrow> byte \<Rightarrow> byte \<Rightarrow> ip" where
  "ip4 a b c d = replicate 10 0 @ [255, 255, a, b, c, d]"

definition to4 :: "ip \<Rightarrow> ip option" where
  "to4 ip =
     (if length ip = 4 then Some ip
      else if length ip = 16 \<and> take 10 ip = replicate 10 0 \<and> ip ! 10 = 255 \<and> ip ! 11 = 255
      then Some (drop 12 ip)
      else None)"

definition ip6_unspecified :: ip where
  "ip6_unspecified = replicate 16 0"

definition ip6_loopback :: ip where
  "ip6_loopback = replicate 15 0 @ [1]"

text \<open>\<open>IP.Equal\<close>: an IPv4 address and its IPv6 form are equal.\<close>

definition ip_equal :: "ip \<Rightarrow> ip \<Rightarrow> bool" where
  "ip_equal a b =
     (if length a = length b then a = b
      else if length a = 4 \<and> length b = 16 then replicate 10 0 @ [255, 255] @ a = b
      else if length a = 16 \<and> length b = 4 then replicate 10 0 @ [255, 255] @ b = a
      else False)"

definition is_unspecified :: "ip \<Rightarrow> bool" where
  "is_unspecified ip \<longleftrightarrow> ip_equal ip (ip4 0 0 0 0) \<or> ip_equal ip ip6_unspecified"

definition is_loopback :: "ip \<Rightarrow> bool" where
  "is_loopback ip = (case to4 ip of Some v \<Rightarrow> v ! 0 = 127 | None \<Rightarrow> ip_equal ip ip6_loopback)"

definition is_private :: "ip \<Rightarrow> bool" where
  "is_private ip =
     (case to4 ip of
        Some v \<Rightarrow> v ! 0 = 10 \<or> v ! 0 = 172 \<and> v ! 1 AND 0xf0 = 16 \<or> v ! 0 = 192 \<and> v ! 1 = 168
      | None \<Rightarrow> length ip = 16 \<and> ip ! 0 AND 0xfe = 0xfc)"

definition is_multicast :: "ip \<Rightarrow> bool" where
  "is_multicast ip =
     (case to4 ip of Some v \<Rightarrow> v ! 0 AND 0xf0 = 0xe0 | None \<Rightarrow> length ip = 16 \<and> ip ! 0 = 255)"

definition is_link_local_multicast :: "ip \<Rightarrow> bool" where
  "is_link_local_multicast ip =
     (case to4 ip of
        Some v \<Rightarrow> v ! 0 = 224 \<and> v ! 1 = 0 \<and> v ! 2 = 0
      | None \<Rightarrow> length ip = 16 \<and> ip ! 0 = 255 \<and> ip ! 1 AND 0x0f = 2)"

definition is_link_local_unicast :: "ip \<Rightarrow> bool" where
  "is_link_local_unicast ip =
     (case to4 ip of
        Some v \<Rightarrow> v ! 0 = 169 \<and> v ! 1 = 254
      | None \<Rightarrow> length ip = 16 \<and> ip ! 0 = 254 \<and> ip ! 1 AND 0xc0 = 0x80)"

section \<open>Numbers (strconv.ParseUint with base 0)\<close>

definition digit_value :: "char \<Rightarrow> int option" where
  "digit_value c =
     (let n = (of_char c :: int) in
      if 48 \<le> n \<and> n \<le> 57 then Some (n - 48)
      else if 97 \<le> n \<and> n \<le> 122 then Some (n - 87)
      else if 65 \<le> n \<and> n \<le> 90 then Some (n - 55) else None)"

fun number_value :: "int \<Rightarrow> string \<Rightarrow> int \<Rightarrow> int option" where
  "number_value base [] acc = Some acc"
| "number_value base (c # cs) acc =
     (if c = CHR ''_'' then number_value base cs acc
      else case digit_value c of
             None \<Rightarrow> None
           | Some v \<Rightarrow> if v < base then number_value base cs (acc * base + v) else None)"

text \<open>An underscore stands between digits, or behind the base prefix.\<close>

fun underscores_ok :: "bool \<Rightarrow> string \<Rightarrow> bool" where
  "underscores_ok digit_before [] = True"
| "underscores_ok digit_before (c # cs) =
     (if c = CHR ''_'' then digit_before \<and> cs \<noteq> [] \<and> hd cs \<noteq> CHR ''_'' \<and> underscores_ok False cs
      else underscores_ok True cs)"

definition number_base :: "string \<Rightarrow> int \<times> string" where
  "number_base s =
     (if s \<noteq> [] \<and> hd s = CHR ''0''
      then (if 3 \<le> length s \<and> s ! 1 \<in> {CHR ''b'', CHR ''B''} then (2, drop 2 s)
            else if 3 \<le> length s \<and> s ! 1 \<in> {CHR ''o'', CHR ''O''} then (8, drop 2 s)
            else if 3 \<le> length s \<and> s ! 1 \<in> {CHR ''x'', CHR ''X''} then (16, drop 2 s)
            else (8, tl s))
      else (10, s))"

definition parse_uint :: "nat \<Rightarrow> string \<Rightarrow> int option" where
  "parse_uint bits s =
     (if s = [] then None
      else case number_base s of
             (base, ds) \<Rightarrow>
               (case number_value base ds 0 of
                  None \<Rightarrow> None
                | Some v \<Rightarrow> if v < 2 ^ bits \<and> underscores_ok (base \<noteq> 10) ds then Some v else None))"

section \<open>net.ParseIP\<close>

definition is_digit :: "char \<Rightarrow> bool" where
  "is_digit c \<longleftrightarrow> (let n = (of_char c :: int) in 48 \<le> n \<and> n \<le> 57)"

definition octet :: "string \<Rightarrow> byte option" where
  "octet s =
     (if s = [] \<or> \<not> list_all is_digit s \<or> hd s = CHR ''0'' \<and> 1 < length s then None
      else case number_value 10 s 0 of Some v \<Rightarrow> if v \<le> 255 then Some (word_of_int v) else None | None \<Rightarrow> None)"

definition parse_ip4 :: "string \<Rightarrow> ip option" where
  "parse_ip4 s =
     (case map octet (str_split CHR ''.'' s) of
        [Some a, Some b, Some c, Some d] \<Rightarrow> Some [a, b, c, d]
      | _ \<Rightarrow> None)"

definition hex_digit :: "char \<Rightarrow> bool" where
  "hex_digit c \<longleftrightarrow> (case digit_value c of Some v \<Rightarrow> v < 16 | None \<Rightarrow> False)"

text \<open>
  The loop over the groups of an IPv6 address, at most eight: the bytes so far and the position of the
  ellipsis. The result is the text that is left.
\<close>

fun ip6_groups :: "nat \<Rightarrow> string \<Rightarrow> byte list \<Rightarrow> nat option \<Rightarrow> (string \<times> byte list \<times> nat option) option" where
  "ip6_groups 0 s acc e = Some (s, acc, e)"
| "ip6_groups (Suc n) s acc e =
     (let hex = takeWhile hex_digit s; rest = drop (length hex) s in
      if hex = [] \<or> 4 < length hex then None
      else if rest \<noteq> [] \<and> hd rest = CHR ''.''
      then (if e = None \<and> length acc \<noteq> 12 \<or> 12 < length acc then None
            else case parse_ip4 s of None \<Rightarrow> None | Some v \<Rightarrow> Some ([], acc @ v, e))
      else let v = the (number_value 16 hex 0); acc1 = acc @ [word_of_int (v div 256), word_of_int v] in
        if rest = [] then Some ([], acc1, e)
        else if hd rest \<noteq> CHR '':'' \<or> length rest = 1 then None
        else if rest ! 1 = CHR '':''
        then (if e \<noteq> None then None
              else if length rest = 2 then Some ([], acc1, Some (length acc1))
              else ip6_groups n (drop 2 rest) acc1 (Some (length acc1)))
        else ip6_groups n (tl rest) acc1 e)"

definition parse_ip6 :: "string \<Rightarrow> ip option" where
  "parse_ip6 s =
     (if CHR ''%'' \<in> set s then None
      else if s = ''::'' then Some ip6_unspecified
      else case (if take 2 s = ''::'' then ip6_groups 8 (drop 2 s) [] (Some 0) else ip6_groups 8 s [] None) of
             None \<Rightarrow> None
           | Some (rest, bytes, e) \<Rightarrow>
               if rest \<noteq> [] then None
               else if length bytes < 16
               then (case e of
                       None \<Rightarrow> None
                     | Some k \<Rightarrow> Some (take k bytes @ replicate (16 - length bytes) 0 @ drop k bytes))
               else if e = None then Some bytes else None)"

definition parse_ip :: "string \<Rightarrow> ip option" where
  "parse_ip s =
     (case filter (\<lambda>c. c = CHR ''.'' \<or> c = CHR '':'' \<or> c = CHR ''%'') s of
        [] \<Rightarrow> None
      | c # _ \<Rightarrow>
          if c = CHR ''.'' then map_option (\<lambda>v. replicate 10 0 @ [255, 255] @ v) (parse_ip4 s)
          else if c = CHR '':'' then parse_ip6 s
          else None)"

lemma parse_samples:
  "parse_ip ''10.0.0.1'' = Some (ip4 10 0 0 1)" "parse_ip ''010.0.0.1'' = None"
  "parse_ip ''::ffff:169.254.169.254'' = Some (ip4 169 254 169 254)"
  "parse_ip ''fe80::1'' = Some ([254, 128] @ replicate 13 0 @ [1])"
  "parse_uint 32 ''0x7f000001'' = Some 2130706433" "parse_uint 8 ''0177'' = Some 127"
  by code_simp+

end
