(* ===== verification/Ssrf.thy ===== *)
theory Ssrf imports Ip begin

unbundle bit_operations_syntax

text \<open>
  The guards against requests to internal addresses: the one for monitors and control-plane URLs
  (\<open>internal/checker/ssrf.go\<close>, \<open>ssrf\_dialer.go\<close>) and the one of CloudEvents sinks
  (\<open>internal/notify/providers/cloudevent\_http\_ssrf.go\<close>). DNS and the URL parser are
  parameters; the two allow-private switches are arguments.
\<close>

type_synonym resolver = "string \<Rightarrow> ip list option"

section \<open>IPv4-compatible addresses\<close>

text \<open>\<open>::a.b.c.d\<close>, which package \<open>net\<close> does not unwrap; both files have this function.\<close>

definition ipv4_compat_to_v4 :: "ip \<Rightarrow> ip option" where
  "ipv4_compat_to_v4 ip =
     (if length ip \<noteq> 16 then None
      else if take 10 ip \<noteq> replicate 10 0 then None
      else if ip ! 10 = 255 \<and> ip ! 11 = 255 then None
      else if ip ! 10 \<noteq> 0 \<or> ip ! 11 \<noteq> 0 then None
      else if ip ! 12 = 0 \<and> ip ! 13 = 0 \<and> ip ! 14 = 0 \<and> (ip ! 15 = 0 \<or> ip ! 15 = 1) then None
      else Some (ip4 (ip ! 12) (ip ! 13) (ip ! 14) (ip ! 15)))"

section \<open>The guard of package checker (ssrf.go)\<close>

definition is_private_ip :: "ip \<Rightarrow> bool" where
  "is_private_ip ip0 =
     (let ip = (case ipv4_compat_to_v4 ip0 of Some v \<Rightarrow> v | None \<Rightarrow> ip0) in
      is_loopback ip \<or> is_private ip \<or> is_link_local_unicast ip \<or> is_link_local_multicast ip \<or> is_unspecified ip)"

definition strip_brackets :: "string \<Rightarrow> string" where
  "strip_brackets s =
     (let t = (if s \<noteq> [] \<and> last s = CHR '']'' then butlast s else s)
      in if t \<noteq> [] \<and> hd t = CHR ''['' then tl t else t)"

definition non_standard_part :: "string \<Rightarrow> bool" where
  "non_standard_part p \<longleftrightarrow>
     take 2 p = ''0x'' \<or> take 2 p = ''0X''
     \<or> 1 < length p \<and> hd p = CHR ''0'' \<and> CHR ''8'' \<notin> set p \<and> CHR ''9'' \<notin> set p"

definition parse_non_standard_ip :: "string \<Rightarrow> ip option" where
  "parse_non_standard_ip host0 =
     (let host = strip_brackets host0 in
      case parse_uint 32 host of
        Some n \<Rightarrow> Some (ip4 (word_of_int (n div 2 ^ 24)) (word_of_int (n div 2 ^ 16))
                        (word_of_int (n div 2 ^ 8)) (word_of_int n))
      | None \<Rightarrow>
          (let parts = str_split CHR ''.'' host; k = length parts in
           if k < 2 \<or> 4 < k then None
           else case those (map (parse_uint 8) parts) of
                  None \<Rightarrow> None
                | Some vs \<Rightarrow>
                    if k = 4 \<and> \<not> list_ex non_standard_part parts then None
                    else (case map word_of_int (butlast vs) @ replicate (4 - k) 0 @ [word_of_int (last vs)] of
                            [a, b, c, d] \<Rightarrow> Some (ip4 a b c d)
                          | _ \<Rightarrow> None)))"

datatype target_error =
    ErrBadCharacters | ErrPrivate | ErrResolvesToPrivate string ip
  | ErrBadUrl | ErrScheme string | ErrMissingHost | ErrControlPlanePrivate string

definition bad_host_chars :: "char set" where
  "bad_host_chars = set '';|&$`(){}[]<>! '' \<union> {CHR 0x5C, CHR 0x22, CHR 0x27, CHR 0x0A, CHR 0x0D, CHR 0x09}"

definition validate_host :: "resolver \<Rightarrow> string \<Rightarrow> target_error option" where
  "validate_host lookup host =
     (if list_ex (\<lambda>c. c \<in> bad_host_chars) host then Some ErrBadCharacters
      else case parse_ip host of
        Some ip \<Rightarrow> if is_private_ip ip then Some ErrPrivate else None
      | None \<Rightarrow>
          (case parse_non_standard_ip host of
             Some ip \<Rightarrow> if is_private_ip ip then Some ErrPrivate else None
           | None \<Rightarrow>
               (case lookup host of
                  None \<Rightarrow> None
                | Some ips \<Rightarrow> map_option (ErrResolvesToPrivate host) (List.find is_private_ip ips))))"

text \<open>A parsed URL: its scheme, its host with the port, and its host name.\<close>

record parsed_url =
  pu_scheme :: string
  pu_host :: string
  pu_hostname :: string

type_synonym url_reader = "string \<Rightarrow> parsed_url option"

definition validate_http_target_strict :: "url_reader \<Rightarrow> resolver \<Rightarrow> string \<Rightarrow> target_error option" where
  "validate_http_target_strict parse lookup raw =
     (case parse raw of
        None \<Rightarrow> Some ErrBadUrl
      | Some u \<Rightarrow>
          if pu_scheme u \<noteq> ''http'' \<and> pu_scheme u \<noteq> ''https'' then Some (ErrScheme (pu_scheme u))
          else if pu_hostname u = [] then Some ErrMissingHost
          else validate_host lookup (pu_hostname u))"

definition validate_http_target :: "bool \<Rightarrow> url_reader \<Rightarrow> resolver \<Rightarrow> string \<Rightarrow> target_error option" where
  "validate_http_target allow parse lookup raw =
     (if allow then None else validate_http_target_strict parse lookup raw)"

definition validate_control_plane_http_target ::
  "bool \<Rightarrow> url_reader \<Rightarrow> resolver \<Rightarrow> string \<Rightarrow> target_error option" where
  "validate_control_plane_http_target allow parse lookup raw =
     (if allow then None
      else case validate_http_target_strict parse lookup raw of
             None \<Rightarrow> None
           | Some e \<Rightarrow>
               (case e of
                  ErrPrivate \<Rightarrow> Some (ErrControlPlanePrivate raw)
                | ErrResolvesToPrivate _ _ \<Rightarrow> Some (ErrControlPlanePrivate raw)
                | _ \<Rightarrow> Some e))"

definition validate_target :: "bool \<Rightarrow> resolver \<Rightarrow> string \<Rightarrow> target_error option" where
  "validate_target allow lookup host =
     (if allow then None else if host = [] then Some ErrMissingHost else validate_host lookup host)"

text \<open>
  The guarded dialer (\<open>ssrf\_dialer.go\<close>): \<open>split\<close> is \<open>net.SplitHostPort\<close>, reduced to
  the host, and \<open>base\<close> the dialer it wraps.
\<close>

definition checker_guarded_dial ::
  "bool \<Rightarrow> (string \<Rightarrow> string option) \<Rightarrow> resolver \<Rightarrow> (string \<Rightarrow> 'c) \<Rightarrow> string \<Rightarrow> target_error + 'c" where
  "checker_guarded_dial allow split lookup base addr =
     (if allow then Inr (base addr)
      else case split addr of
             None \<Rightarrow> Inr (base addr)
           | Some host \<Rightarrow> (case validate_host lookup host of Some e \<Rightarrow> Inl e | None \<Rightarrow> Inr (base addr)))"

section \<open>The guard of CloudEvents sinks (cloudevent\_http\_ssrf.go)\<close>

datatype block_reason =
    BlockNil | BlockLoopback | BlockUnspecified | BlockLinkLocal | BlockLinkLocalMulticast
  | BlockMulticast | BlockPrivate | BlockCGNAT | BlockULA | BlockEmptyHost
  | BlockResolves string ip block_reason

text \<open>The last two checks go through \<open>netip\<close>, which has addresses of 4 and of 16 bytes only.\<close>

definition is_private_addr :: "ip option \<Rightarrow> block_reason option" where
  "is_private_addr addr =
     (case addr of
        None \<Rightarrow> Some BlockNil
      | Some ip0 \<Rightarrow>
          (let ip1 = (case to4 ip0 of Some v \<Rightarrow> v | None \<Rightarrow> ip0);
               ip = (case ipv4_compat_to_v4 ip1 of Some v \<Rightarrow> v | None \<Rightarrow> ip1)
           in if is_loopback ip then Some BlockLoopback
              else if is_unspecified ip then Some BlockUnspecified
              else if is_link_local_unicast ip then Some BlockLinkLocal
              else if is_link_local_multicast ip then Some BlockLinkLocalMulticast
              else if is_multicast ip then Some BlockMulticast
              else if is_private ip then Some BlockPrivate
              else if length ip \<noteq> 4 \<and> length ip \<noteq> 16 then None
              else case to4 ip of
                     Some v \<Rightarrow> if v ! 0 = 100 \<and> v ! 1 AND 0xc0 = 64 then Some BlockCGNAT else None
                   | None \<Rightarrow> if ip ! 0 AND 0xfe = 0xfc then Some BlockULA else None))"

definition to_lower :: "string \<Rightarrow> string" where
  "to_lower = map (\<lambda>c. let n = (of_char c :: nat) in if 65 \<le> n \<and> n \<le> 90 then char_of (n + 32) else c)"

definition has_suffix :: "string \<Rightarrow> string \<Rightarrow> bool" where
  "has_suffix s suf \<longleftrightarrow> length suf \<le> length s \<and> drop (length s - length suf) s = suf"

fun first_blocked :: "string \<Rightarrow> ip list \<Rightarrow> block_reason option" where
  "first_blocked host [] = None"
| "first_blocked host (ip # ips) =
     (case is_private_addr (Some ip) of
        Some why \<Rightarrow> Some (BlockResolves host ip why)
      | None \<Rightarrow> first_blocked host ips)"

definition is_private_host :: "resolver \<Rightarrow> string \<Rightarrow> block_reason option" where
  "is_private_host lookup host =
     (if host = [] then Some BlockEmptyHost
      else case parse_ip host of
        Some ip \<Rightarrow> is_private_addr (Some ip)
      | None \<Rightarrow>
          (let lower = to_lower host in
           if lower = ''localhost'' \<or> has_suffix lower ''.localhost'' then Some BlockLoopback
           else case lookup host of None \<Rightarrow> None | Some ips \<Rightarrow> first_blocked host ips))"

definition sink_guarded_dial ::
  "bool \<Rightarrow> (string \<Rightarrow> string option) \<Rightarrow> resolver \<Rightarrow> (string \<Rightarrow> 'c) \<Rightarrow> string \<Rightarrow> block_reason + 'c" where
  "sink_guarded_dial allow split lookup base addr =
     (if allow then Inr (base addr)
      else case split addr of
             None \<Rightarrow> Inr (base addr)
           | Some host \<Rightarrow> (case is_private_host lookup host of Some why \<Rightarrow> Inl why | None \<Rightarrow> Inr (base addr)))"

end
