(* ===== verification/Verifier.thy ===== *)
theory Verifier imports JsonText Ssrf begin

text \<open>
  Verification of inbound bearer tokens (\<open>internal/cloudevents/oidc/verifier.go\<close> and
  \<open>verifier\_cache.go\<close>). The go-oidc library is a parameter: discovery of an issuer, and the
  verification of a token by a verifier built at some instant. Verifiers are shared by pointer, so
  they live in a heap and a pointer is an index. Error texts that are only logged are left out.
\<close>

section \<open>The verifier\<close>

datatype verify_error =
    ErrTokenExpired | ErrWrongIssuer | ErrWrongAudience | ErrInvalidSignature | ErrJWKSUnavailable | ErrMalformedToken

record verifier_config =
  vc_issuer :: string
  vc_jwks_url :: string
  vc_audiences :: "string list"

record token_verifier =
  tv_issuer :: string
  tv_jwks_url :: string
  tv_built_at :: gotime

record id_token =
  it_issuer :: string
  it_subject :: string
  it_audience :: "string list"
  it_claims :: raw_json

text \<open>The library's error is the typed one for expired tokens, or a text.\<close>

datatype library_error = LibExpired | LibText string

record oidc_library =
  ol_discover :: "gotime \<Rightarrow> string \<Rightarrow> string option"
  ol_verify :: "token_verifier \<Rightarrow> gotime \<Rightarrow> string \<Rightarrow> library_error + id_token"

record verifier =
  vf_config :: verifier_config
  vf_token :: "token_verifier option"

type_synonym verifier_heap = "verifier list"

definition new_verifier :: "verifier_config \<Rightarrow> verifier" where
  "new_verifier cfg = \<lparr>vf_config = cfg, vf_token = None\<rparr>"

text \<open>A configured JWKS address skips the discovery; a failed discovery leaves the verifier as it was.\<close>

definition build_token_verifier :: "oidc_library \<Rightarrow> gotime \<Rightarrow> verifier_config \<Rightarrow> verify_error + token_verifier" where
  "build_token_verifier lib now cfg =
     (if vc_jwks_url cfg \<noteq> []
      then Inr \<lparr>tv_issuer = vc_issuer cfg, tv_jwks_url = vc_jwks_url cfg, tv_built_at = now\<rparr>
      else case ol_discover lib now (vc_issuer cfg) of
             None \<Rightarrow> Inl ErrJWKSUnavailable
           | Some url \<Rightarrow> Inr \<lparr>tv_issuer = vc_issuer cfg, tv_jwks_url = url, tv_built_at = now\<rparr>)"

definition verifier_init :: "oidc_library \<Rightarrow> gotime \<Rightarrow> verifier \<Rightarrow> (verify_error + token_verifier) \<times> verifier" where
  "verifier_init lib now v =
     (case vf_token v of
        Some tv \<Rightarrow> (Inr tv, v)
      | None \<Rightarrow>
          (case build_token_verifier lib now (vf_config v) of
             Inl e \<Rightarrow> (Inl e, v)
           | Inr tv \<Rightarrow> (Inr tv, v\<lparr>vf_token := Some tv\<rparr>)))"

definition looks_like_jwt :: "string \<Rightarrow> bool" where
  "looks_like_jwt s \<longleftrightarrow> (let parts = str_split CHR ''.'' s in length parts = 3 \<and> (\<forall>p \<in> set parts. p \<noteq> []))"

text \<open>No expected audience refuses every token.\<close>

definition audience_matches :: "string list \<Rightarrow> string list \<Rightarrow> bool" where
  "audience_matches token_auds expected \<longleftrightarrow> expected \<noteq> [] \<and> (\<exists>a \<in> set token_auds. a \<in> set expected)"

definition map_verify_error :: "library_error \<Rightarrow> verify_error" where
  "map_verify_error err =
     (case err of
        LibExpired \<Rightarrow> ErrTokenExpired
      | LibText msg \<Rightarrow>
          (let has = str_contains (to_lower msg) in
           if has ''id token issued by a different provider'' \<or> has ''issuer did not match''
              \<or> has (CHR 0x22 # ''iss'' @ [CHR 0x22]) \<and> has ''mismatch'' \<or> has ''wrong issuer''
           then ErrWrongIssuer
           else if has ''expired'' then ErrTokenExpired
           else if has ''failed to verify signature'' \<or> has ''failed to verify id token signature'' \<or> has ''signature''
           then ErrInvalidSignature
           else if has ''malformed jwt'' \<or> has ''oidc: malformed'' \<or> has ''failed to unmarshal''
              \<or> has ''illegal base64'' \<or> has ''invalid character''
           then ErrMalformedToken
           else if has ''fetch'' \<and> has ''keys'' \<or> has ''jwks'' \<or> has ''discovery'' \<or> has ''unable to fetch keys''
           then ErrJWKSUnavailable
           else ErrInvalidSignature))"

text \<open>The claims must decode into a map.\<close>

definition claims_decode :: "raw_json \<Rightarrow> bool" where
  "claims_decode raw = (case raw of Some JNull \<Rightarrow> True | Some (JObj kvs) \<Rightarrow> json_any (JObj kvs) | _ \<Rightarrow> False)"

definition verify_with :: "oidc_library \<Rightarrow> gotime \<Rightarrow> string \<Rightarrow> verifier_config \<Rightarrow> token_verifier \<Rightarrow> verify_error + id_token" where
  "verify_with lib now raw cfg tv =
     (case ol_verify lib tv now raw of
        Inl e \<Rightarrow> Inl (map_verify_error e)
      | Inr idt \<Rightarrow>
          if \<not> audience_matches (it_audience idt) (vc_audiences cfg) then Inl ErrWrongAudience
          else if \<not> claims_decode (it_claims idt) then Inl ErrMalformedToken
          else Inr idt)"

definition verify ::
  "oidc_library \<Rightarrow> verifier_heap \<Rightarrow> gotime \<Rightarrow> nat \<Rightarrow> string \<Rightarrow> (verify_error + id_token) \<times> verifier_heap" where
  "verify lib heap now h raw =
     (if \<not> looks_like_jwt raw then (Inl ErrMalformedToken, heap)
      else case verifier_init lib now (heap ! h) of
             (Inl e, v) \<Rightarrow> (Inl e, heap[h := v])
           | (Inr tv, v) \<Rightarrow> (verify_with lib now raw (vf_config v) tv, heap[h := v]))"

section \<open>The cache\<close>

record verifier_cache =
  vch_ttl :: int
  vch_items :: "string \<Rightarrow> (nat \<times> gotime) option"

definition default_verifier_cache_ttl :: int where
  "default_verifier_cache_ttl = 10 * minute"

definition new_verifier_cache :: "int \<Rightarrow> verifier_cache" where
  "new_verifier_cache ttl =
     \<lparr>vch_ttl = (if ttl \<le> 0 then default_verifier_cache_ttl else ttl), vch_items = (\<lambda>_. None)\<rparr>"

definition verifier_cache_key :: "verifier_config \<Rightarrow> string" where
  "verifier_cache_key cfg =
     vc_issuer cfg @ CHR ''|'' # vc_jwks_url cfg @ CHR ''|'' # str_join CHR '','' (sort (vc_audiences cfg))"

text \<open>The two sections of \<open>Get\<close> under the lock, at their own instants; the build runs between them.\<close>

definition vch_lookup :: "gotime \<Rightarrow> string \<Rightarrow> verifier_cache \<Rightarrow> nat option \<times> verifier_cache" where
  "vch_lookup now key c =
     (case vch_items c key of
        Some (v, expires) \<Rightarrow>
          if now < expires then (Some v, c) else (None, c\<lparr>vch_items := (vch_items c)(key := None)\<rparr>)
      | None \<Rightarrow> (None, c))"

definition vch_insert :: "gotime \<Rightarrow> string \<Rightarrow> nat \<Rightarrow> verifier_cache \<Rightarrow> nat \<times> verifier_cache" where
  "vch_insert now key v c =
     (let fresh = (v, c\<lparr>vch_items := (vch_items c)(key := Some (v, now + vch_ttl c))\<rparr>)
      in case vch_items c key of
           Some (v0, expires) \<Rightarrow> if now < expires then (v0, c) else fresh
         | None \<Rightarrow> fresh)"

definition vch_get ::
  "gotime \<Rightarrow> gotime \<Rightarrow> verifier_config \<Rightarrow> verifier_heap \<Rightarrow> verifier_cache \<Rightarrow> nat \<times> verifier_heap \<times> verifier_cache" where
  "vch_get t1 t2 cfg heap c =
     (case vch_lookup t1 (verifier_cache_key cfg) c of
        (Some v, c1) \<Rightarrow> (v, heap, c1)
      | (None, c1) \<Rightarrow>
          (case vch_insert t2 (verifier_cache_key cfg) (length heap) c1 of
             (v, c2) \<Rightarrow> (v, heap @ [new_verifier cfg], c2)))"

definition vch_invalidate :: "verifier_config \<Rightarrow> verifier_cache \<Rightarrow> verifier_cache" where
  "vch_invalidate cfg c = c\<lparr>vch_items := (vch_items c)(verifier_cache_key cfg := None)\<rparr>"

end
