(* ===== verification/CloudEventHttp.thy ===== *)
theory CloudEventHttp imports ReplyDispatcher Notify GoText Ssrf begin

text \<open>
  The CloudEvents HTTP sink (\<open>internal/notify/providers/cloudevent\_http.go\<close>, with
  \<open>resolveConfig\<close> of \<open>config.go\<close>): one send of a job to the sink of its channel, the
  record in the outbound registry, and the reply in the response. The CloudEvents SDK, the HTTP
  round trip, the OIDC token, DNS and the URL parser are parameters.
\<close>

section \<open>Configuration\<close>

record reply_config =
  rc_types :: "string list"
  rc_rate_limit :: int
  rc_trust_elevated :: bool
  rc_allow_deregister :: bool
  rc_max_suppress :: int
  rc_max_remediation :: int
  rc_max_route :: int

record http_oidc =
  ho_issuer :: string
  ho_token_url :: string
  ho_client_id :: string
  ho_client_secret :: string
  ho_audience :: string
  ho_scopes :: "string list"

record http_auth =
  ha_type :: string
  ha_oidc :: "http_oidc option"

record http_config =
  hc_sink_url :: string
  hc_mode :: string
  hc_event_types :: "string list"
  hc_overrides :: "(string \<times> string) list"
  hc_auth :: http_auth
  hc_replies :: "reply_config option"

definition empty_http_config :: http_config where
  "empty_http_config =
     \<lparr>hc_sink_url = [], hc_mode = [], hc_event_types = [], hc_overrides = [],
      hc_auth = \<lparr>ha_type = [], ha_oidc = None\<rparr>, hc_replies = None\<rparr>"

definition decode_reply_config :: "(string \<times> json) list \<Rightarrow> reply_config option" where
  "decode_reply_config kvs =
     (case (get_strings ''types'' kvs, get_int ''rate_limit'' kvs, get_bool ''trust_elevated'' kvs,
            get_bool ''allow_deregister'' kvs, get_int ''max_suppress_seconds'' kvs,
            get_int ''max_remediation_seconds'' kvs, get_int ''max_route_duration_seconds'' kvs) of
        (Some ts, Some l, Some t, Some d, Some s, Some r, Some m) \<Rightarrow>
          Some \<lparr>rc_types = ts, rc_rate_limit = l, rc_trust_elevated = t, rc_allow_deregister = d,
                rc_max_suppress = s, rc_max_remediation = r, rc_max_route = m\<rparr>
      | _ \<Rightarrow> None)"

definition decode_http_oidc :: "(string \<times> json) list \<Rightarrow> http_oidc option" where
  "decode_http_oidc kvs =
     (case (get_string ''issuer'' kvs, get_string ''token_url'' kvs, get_string ''client_id'' kvs,
            get_string ''client_secret'' kvs, get_string ''audience'' kvs, get_strings ''scopes'' kvs) of
        (Some i, Some u, Some c, Some s, Some a, Some sc) \<Rightarrow>
          Some \<lparr>ho_issuer = i, ho_token_url = u, ho_client_id = c, ho_client_secret = s, ho_audience = a,
                ho_scopes = sc\<rparr>
      | _ \<Rightarrow> None)"

text \<open>A nil pointer stays nil.\<close>

definition decode_pointer ::
  "((string \<times> json) list \<Rightarrow> 'a option) \<Rightarrow> string \<Rightarrow> (string \<times> json) list \<Rightarrow> 'a option option" where
  "decode_pointer dec k kvs =
     (case pointer_field k kvs None of
        None \<Rightarrow> None
      | Some None \<Rightarrow> Some None
      | Some (Some m) \<Rightarrow> map_option Some (dec m))"

definition decode_http_auth :: "(string \<times> json) list \<Rightarrow> http_auth option" where
  "decode_http_auth kvs =
     (case (get_string ''type'' kvs, decode_pointer decode_http_oidc ''oidc'' kvs) of
        (Some t, Some o1) \<Rightarrow> Some \<lparr>ha_type = t, ha_oidc = o1\<rparr>
      | _ \<Rightarrow> None)"

definition decode_http_config :: "raw_json \<Rightarrow> http_config option" where
  "decode_http_config = unmarshal (\<lambda>kvs.
     case (get_string ''sink_url'' kvs, get_string ''mode'' kvs, get_strings ''event_types'' kvs,
           string_map_field ''ce_overrides'' kvs [],
           Option.bind (struct_field ''auth'' kvs []) decode_http_auth,
           decode_pointer decode_reply_config ''accepted_replies'' kvs) of
       (Some u, Some m, Some ts, Some os, Some a, Some r) \<Rightarrow>
         Some \<lparr>hc_sink_url = u, hc_mode = m, hc_event_types = ts, hc_overrides = os, hc_auth = a,
               hc_replies = r\<rparr>
     | _ \<Rightarrow> None)"

text \<open>
  \<open>resolveConfig\<close> (\<open>config.go\<close>): the bytes behind the base64 text of a job, as the router and
  the engine wrote them.
\<close>

datatype send_error =
    SendNoDecrypt | SendDecrypt | SendConfigVersion | SendConfigDecode
  | SendNoSink | SendBadUrl | SendScheme string | SendPrivateHost string block_reason
  | SendBadMode string | SendOidcFields | SendBadAuth string
  | SendNoMessage | SendBadEvent | SendInvalidEvent | SendBuild
  | SendToken string | SendPost string
  | SendRetryable int | SendPermanent int | SendUnexpected int

definition resolve_config ::
  "(string \<Rightarrow> string option) option \<Rightarrow> (string \<Rightarrow> raw_json) \<Rightarrow> string \<Rightarrow> send_error + http_config" where
  "resolve_config decrypt parse target =
     (let decode = (\<lambda>bytes. case decode_http_config (parse bytes) of None \<Rightarrow> Inl SendConfigDecode | Some c \<Rightarrow> Inr c) in
      case target of
        [] \<Rightarrow> Inr empty_http_config
      | version # payload \<Rightarrow>
          if version = CHR 0x01
          then (case decrypt of
                  None \<Rightarrow> Inl SendNoDecrypt
                | Some f \<Rightarrow> (case f payload of None \<Rightarrow> Inl SendDecrypt | Some bytes \<Rightarrow> decode bytes))
          else if version = CHR 0x00 then decode payload
          else Inl SendConfigVersion)"

text \<open>The host with its port, as \<open>url.URL.Host\<close> has it.\<close>

fun last_colon :: "string \<Rightarrow> nat option" where
  "last_colon [] = None"
| "last_colon (c # cs) =
     (case last_colon cs of Some i \<Rightarrow> Some (Suc i) | None \<Rightarrow> if c = CHR '':'' then Some 0 else None)"

definition is_localhost :: "string \<Rightarrow> bool" where
  "is_localhost host =
     (let h1 = (case last_colon host of
                  Some i \<Rightarrow> if 0 < i \<and> CHR '']'' \<notin> set (drop i host) then take i host else host
                | None \<Rightarrow> host);
          h2 = (if h1 \<noteq> [] \<and> hd h1 = CHR ''['' then tl h1 else h1);
          h3 = (if h2 \<noteq> [] \<and> last h2 = CHR '']'' then butlast h2 else h2)
      in h3 = ''localhost'' \<or> h3 = ''127.0.0.1'' \<or> h3 = ''::1'')"

definition validate_auth :: "http_auth \<Rightarrow> send_error option" where
  "validate_auth a =
     (if ha_type a = [] \<or> ha_type a = ''none'' then None
      else if ha_type a = ''oidc''
      then (case ha_oidc a of
              None \<Rightarrow> Some SendOidcFields
            | Some c \<Rightarrow> if ho_token_url c = [] \<or> ho_client_id c = [] \<or> ho_client_secret c = []
                        then Some SendOidcFields else None)
      else Some (SendBadAuth (ha_type a)))"

definition validate_http_config ::
  "bool \<Rightarrow> url_reader \<Rightarrow> resolver \<Rightarrow> http_config \<Rightarrow> send_error + http_config" where
  "validate_http_config allow parse_url lookup cfg =
     (if hc_sink_url cfg = [] then Inl SendNoSink
      else case parse_url (hc_sink_url cfg) of
        None \<Rightarrow> Inl SendBadUrl
      | Some u \<Rightarrow>
          if pu_scheme u \<noteq> ''http'' \<and> pu_scheme u \<noteq> ''https'' then Inl (SendScheme (pu_scheme u))
          else case (if \<not> is_localhost (pu_host u) \<and> \<not> allow then is_private_host lookup (pu_hostname u) else None) of
            Some why \<Rightarrow> Inl (SendPrivateHost (pu_hostname u) why)
          | None \<Rightarrow>
              let cfg1 = (if hc_mode cfg = [] then cfg\<lparr>hc_mode := ''binary''\<rparr> else cfg) in
              if hc_mode cfg1 \<noteq> ''binary'' \<and> hc_mode cfg1 \<noteq> ''structured'' then Inl (SendBadMode (hc_mode cfg1))
              else case validate_auth (hc_auth cfg1) of Some e \<Rightarrow> Inl e | None \<Rightarrow> Inr cfg1)"

definition reply_dispatcher_config_from :: "http_config \<Rightarrow> dispatcher_config" where
  "reply_dispatcher_config_from cfg =
     (case hc_replies cfg of
        None \<Rightarrow> \<lparr>cfg_accepted = [], cfg_rate_limit = 0, cfg_trust_elevated = False, cfg_allow_deregister = False,
                 cfg_max_suppress = 0, cfg_max_remediation = 0, cfg_max_route = 0\<rparr>
      | Some r \<Rightarrow> \<lparr>cfg_accepted = rc_types r, cfg_rate_limit = word_of_int (rc_rate_limit r),
                   cfg_trust_elevated = rc_trust_elevated r, cfg_allow_deregister = rc_allow_deregister r,
                   cfg_max_suppress = rc_max_suppress r, cfg_max_remediation = rc_max_remediation r,
                   cfg_max_route = rc_max_route r\<rparr>)"

section \<open>Events and requests\<close>

text \<open>What the program reads of an event of the SDK, and the calls it makes on the SDK.\<close>

record sdk_event =
  se_id :: string
  se_type :: string
  se_source :: string
  se_subject :: string
  se_spec_version :: string
  se_content_type :: string
  se_time :: "zoned_time option"
  se_data :: string
  se_data_json :: raw_json
  se_exts :: "(string \<times> extension) list"

datatype sdk_attribute = AttrSpecVersion | AttrId | AttrType | AttrSource | AttrSubject | AttrExtension string

record sdk =
  sdk_unmarshal :: "string \<Rightarrow> sdk_event option"
  sdk_marshal :: "sdk_event \<Rightarrow> string option"
  sdk_valid :: "sdk_event \<Rightarrow> bool"
  sdk_new_event :: sdk_event
  sdk_set :: "sdk_attribute \<Rightarrow> string \<Rightarrow> sdk_event \<Rightarrow> sdk_event"
  sdk_set_data :: "string \<Rightarrow> string \<Rightarrow> sdk_event \<Rightarrow> sdk_event"

definition ce_of :: "sdk_event \<Rightarrow> ce_event" where
  "ce_of ev = \<lparr>ce_id = se_id ev, ce_type = se_type ev, ce_source = se_source ev, ce_data = se_data_json ev,
               ce_extensions = map_of (se_exts ev)\<rparr>"

record http_request =
  rq_url :: string
  rq_headers :: headers
  rq_body :: string

record http_response =
  rs_status :: int
  rs_headers :: headers
  rs_body :: string

definition header_set :: "string \<Rightarrow> string \<Rightarrow> headers \<Rightarrow> headers" where
  "header_set k v h = AList.update (canonical_key k) [v] h"

definition canonical_ext_header :: "string \<Rightarrow> string" where
  "canonical_ext_header name =
     (case name of
        [] \<Rightarrow> []
      | c # cs \<Rightarrow> (let n = (of_char c :: nat) in if 97 \<le> n \<and> n \<le> 122 then char_of (n - 32) else c) # cs)"

definition format_extension :: "extension \<Rightarrow> string" where
  "format_extension x = (case x of ExtString s \<Rightarrow> s | ExtStringer s \<Rightarrow> s | ExtNil \<Rightarrow> [] | ExtOther s \<Rightarrow> s)"

text \<open>The headers of the binary mode in the order they are set; the last one wins.\<close>

definition binary_headers :: "sdk_event \<Rightarrow> headers" where
  "binary_headers ev =
     fold (\<lambda>(k, v) h. header_set k v h)
       ([(''Content-Type'', if se_content_type ev = [] then ''application/json'' else se_content_type ev),
         (''Ce-Specversion'', se_spec_version ev), (''Ce-Id'', se_id ev), (''Ce-Source'', se_source ev),
         (''Ce-Type'', se_type ev)]
        @ (case se_time ev of None \<Rightarrow> [] | Some t \<Rightarrow> [(''Ce-Time'', format_rfc3339_nano (fst t, 0))])
        @ (if se_subject ev = [] then [] else [(''Ce-Subject'', se_subject ev)])
        @ map (\<lambda>(k, x). (''Ce-'' @ canonical_ext_header k, format_extension x)) (se_exts ev)) []"

text \<open>\<open>http.NewRequest\<close> parses the URL again.\<close>

definition build_request :: "sdk \<Rightarrow> url_reader \<Rightarrow> http_config \<Rightarrow> sdk_event \<Rightarrow> http_request option" where
  "build_request sdk parse_url cfg ev =
     (if hc_mode cfg = ''structured''
      then (case sdk_marshal sdk ev of
              None \<Rightarrow> None
            | Some body \<Rightarrow>
                if parse_url (hc_sink_url cfg) = None then None
                else Some \<lparr>rq_url = hc_sink_url cfg,
                           rq_headers = header_set ''Content-Type'' ''application/cloudevents+json'' [], rq_body = body\<rparr>)
      else if hc_mode cfg = ''binary''
      then (if parse_url (hc_sink_url cfg) = None then None
            else Some \<lparr>rq_url = hc_sink_url cfg, rq_headers = binary_headers ev, rq_body = se_data ev\<rparr>)
      else None)"

section \<open>Replies\<close>

definition structured_type :: "headers \<Rightarrow> bool" where
  "structured_type h \<longleftrightarrow> take 28 (header_get h ''Content-Type'') = ''application/cloudevents+json''"

definition alertref_ext :: "sdk_event \<Rightarrow> string" where
  "alertref_ext ev = (case map_of (se_exts ev) ''alertref'' of None \<Rightarrow> [] | Some x \<Rightarrow> format_extension x)"

definition inspect_reply :: "sdk \<Rightarrow> http_response \<Rightarrow> (string \<times> string) option" where
  "inspect_reply sdk resp =
     (let h = rs_headers resp;
          structured = structured_type h;
          binary = (header_get h ''Ce-Id'' \<noteq> [] \<and> header_get h ''Ce-Type'' \<noteq> [])
      in if \<not> structured \<and> \<not> binary then None
         else let (ty, ref) = (if structured \<and> rs_body resp \<noteq> []
                               then (case sdk_unmarshal sdk (rs_body resp) of
                                       Some ev \<Rightarrow> (se_type ev, alertref_ext ev) | None \<Rightarrow> ([], []))
                               else ([], []))
              in if binary
                 then Some (if ty = [] then header_get h ''Ce-Type'' else ty,
                            if ref = [] then header_get h ''Ce-Alertref'' else ref)
                 else Some (ty, ref))"

definition set_if :: "sdk \<Rightarrow> sdk_attribute \<Rightarrow> string \<Rightarrow> sdk_event \<Rightarrow> sdk_event" where
  "set_if sdk a v ev = (if v = [] then ev else sdk_set sdk a v ev)"

definition parse_reply_event :: "sdk \<Rightarrow> http_response \<Rightarrow> sdk_event option" where
  "parse_reply_event sdk resp =
     (let h = rs_headers resp; ct = header_get h ''Content-Type''; body = rs_body resp in
      if structured_type h \<and> body \<noteq> [] then sdk_unmarshal sdk body
      else if header_get h ''Ce-Id'' = [] \<or> header_get h ''Ce-Type'' = [] then None
      else
        let version = (if header_get h ''Ce-Specversion'' = [] then ''1.0'' else header_get h ''Ce-Specversion'');
            ev1 = sdk_set sdk AttrType (header_get h ''Ce-Type'')
                    (sdk_set sdk AttrId (header_get h ''Ce-Id'')
                       (sdk_set sdk AttrSpecVersion version (sdk_new_event sdk)));
            ev2 = set_if sdk (AttrExtension ''alertref'') (header_get h ''Ce-Alertref'')
                    (set_if sdk AttrSubject (header_get h ''Ce-Subject'')
                       (set_if sdk AttrSource (header_get h ''Ce-Source'') ev1))
        in Some (if ct \<noteq> [] \<and> body \<noteq> [] then sdk_set_data sdk ct body ev2 else ev2))"

definition known_reply_types :: "string list" where
  "known_reply_types =
     [''run.yipyap.reply.alert.ack_with_context.v1'', ''run.yipyap.reply.alert.claimed.v1'',
      ''run.yipyap.reply.alert.deduplicated.v1'', ''run.yipyap.reply.alert.enriched.v1'',
      ''run.yipyap.reply.alert.escalated.v1'', ''run.yipyap.reply.alert.linked.v1'',
      ''run.yipyap.reply.alert.ownership.v1'', ''run.yipyap.reply.alert.remediation_result.v1'',
      ''run.yipyap.reply.alert.remediation_started.v1'', ''run.yipyap.reply.alert.route.v1'',
      ''run.yipyap.reply.alert.status_page.v1'', ''run.yipyap.reply.alert.suppressed.v1'',
      ''run.yipyap.reply.monitor.deregister.v1'']"

definition bucket_reply_type_label :: "string \<Rightarrow> string" where
  "bucket_reply_type_label ty =
     (if ty = [] then ''_unknown'' else if ty \<in> set known_reply_types then ty else ''_unknown'')"

section \<open>The provider\<close>

text \<open>
  As \<open>main.go\<close> wires it, one registry serves the provider and the dispatcher: it is the
  dispatcher's. Without a dispatcher nothing is recorded. The two metrics are lists of labels.
\<close>

record ce_provider =
  cp_decrypt :: "(string \<Rightarrow> string option) option"
  cp_dispatcher :: "dispatcher option"
  cp_tier :: "(string \<Rightarrow> int) option"
  cp_metrics :: bool
  cp_emitted :: "(string \<times> bool) list"
  cp_replies :: "(string \<times> bool \<times> bool) list"

record sink_environment =
  sk_sdk :: sdk
  sk_parse_json :: "string \<Rightarrow> raw_json"
  sk_parse_url :: url_reader
  sk_lookup :: resolver
  sk_allow_private :: bool
  sk_token :: "http_oidc \<Rightarrow> string + string"
  sk_do :: "http_request \<Rightarrow> string + http_response"

definition ceh_record_emit :: "string \<Rightarrow> bool \<Rightarrow> ce_provider \<Rightarrow> ce_provider" where
  "ceh_record_emit ty success p =
     (if cp_metrics p then p\<lparr>cp_emitted := cp_emitted p @ [(ty, success)]\<rparr> else p)"

definition tiered_config :: "ce_provider \<Rightarrow> string \<Rightarrow> http_config \<Rightarrow> dispatcher_config" where
  "tiered_config p org cfg =
     (let c = reply_dispatcher_config_from cfg in
      case cp_tier p of
        None \<Rightarrow> c
      | Some f \<Rightarrow> if 0 < f org then c\<lparr>cfg_rate_limit := word_of_int (f org)\<rparr> else c)"

definition handle_reply ::
  "sdk \<Rightarrow> ce_provider \<Rightarrow> world \<Rightarrow> gotime \<Rightarrow> http_response \<Rightarrow> http_config \<Rightarrow> string \<Rightarrow> string \<Rightarrow>
   (bool \<times> dispatch_error option) \<times> ce_provider \<times> world" where
  "handle_reply sdk p w now resp cfg org channel =
     (case inspect_reply sdk resp of
        None \<Rightarrow> ((False, None), p, w)
      | Some (ty, ref) \<Rightarrow>
          (case (case (cp_dispatcher p, parse_reply_event sdk resp) of
                   (Some d, Some ev) \<Rightarrow>
                     (case dispatch_for_channel d w now (ce_of ev) (tiered_config p org cfg) org channel [] of
                        (r, d1, w1) \<Rightarrow> (r, p\<lparr>cp_dispatcher := Some d1\<rparr>, w1))
                 | _ \<Rightarrow> ((False, None), p, w)) of
             (r, p1, w1) \<Rightarrow>
               (r, if cp_metrics p1
                   then p1\<lparr>cp_replies := cp_replies p1 @ [(bucket_reply_type_label ty, ref \<noteq> [], fst r)]\<rparr> else p1, w1)))"

definition record_outbound :: "ce_provider \<Rightarrow> gotime \<Rightarrow> sdk_event \<Rightarrow> notification_job \<Rightarrow> ce_provider" where
  "record_outbound p now ev job =
     (case cp_dispatcher p of
        None \<Rightarrow> p
      | Some d \<Rightarrow>
          p\<lparr>cp_dispatcher := Some (d\<lparr>dsp_registry :=
              snd (reg_record (dsp_registry d) now now (ce_of ev) (job_org job) (job_channel job))\<rparr>)\<rparr>)"

definition status_result :: "int \<Rightarrow> string \<Rightarrow> send_error + string" where
  "status_result status i =
     (if 200 \<le> status \<and> status < 300 then Inr i
      else if status = 408 \<or> status = 429 \<or> 500 \<le> status then Inl (SendRetryable status)
      else if 400 \<le> status then Inl (SendPermanent status)
      else Inl (SendUnexpected status))"

text \<open>The part of \<open>Send\<close> behind the configuration: the round trip at \<open>t1\<close>, the response at \<open>t2\<close>.\<close>

definition send_event ::
  "sink_environment \<Rightarrow> ce_provider \<Rightarrow> world \<Rightarrow> gotime \<Rightarrow> gotime \<Rightarrow> http_config \<Rightarrow> notification_job \<Rightarrow> sdk_event \<Rightarrow>
   (send_error + string) \<times> ce_provider \<times> world" where
  "send_event env p w t1 t2 cfg job ev0 =
     (let ev = fold (\<lambda>(k, v) e. sdk_set (sk_sdk env) (AttrExtension k) v e) (hc_overrides cfg) ev0 in
      case build_request (sk_sdk env) (sk_parse_url env) cfg ev of
        None \<Rightarrow> (Inl SendBuild, ceh_record_emit (se_type ev) False p, w)
      | Some req0 \<Rightarrow>
          (case (if ha_type (hc_auth cfg) = ''oidc'' then sk_token env (the (ha_oidc (hc_auth cfg))) else Inr []) of
             Inl e \<Rightarrow> (Inl (SendToken e), ceh_record_emit (se_type ev) False p, w)
           | Inr token \<Rightarrow>
               let req = (if ha_type (hc_auth cfg) = ''oidc''
                          then req0\<lparr>rq_headers := header_set ''Authorization'' (''Bearer '' @ token) (rq_headers req0)\<rparr>
                          else req0);
                   p1 = record_outbound p t1 ev job
               in case sk_do env req of
                    Inl e \<Rightarrow> (Inl (SendPost e), ceh_record_emit (se_type ev) False p1, w)
                  | Inr resp0 \<Rightarrow>
                      let resp = resp0\<lparr>rs_body := take 1048576 (rs_body resp0)\<rparr> in
                      (case handle_reply (sk_sdk env) p1 w t2 resp cfg (job_org job) (job_channel job) of
                         (_, p2, w1) \<Rightarrow>
                           let r = status_result (rs_status resp) (se_id ev)
                           in (r, ceh_record_emit (se_type ev) (\<not> isl r) p2, w1))))"

definition ceh_send ::
  "sink_environment \<Rightarrow> ce_provider \<Rightarrow> world \<Rightarrow> gotime \<Rightarrow> gotime \<Rightarrow> notification_job \<Rightarrow>
   (send_error + string) \<times> ce_provider \<times> world" where
  "ceh_send env p w t1 t2 job =
     (case resolve_config (cp_decrypt p) (sk_parse_json env) (job_target_config job) of
        Inl e \<Rightarrow> (Inl e, p, w)
      | Inr cfg0 \<Rightarrow>
          (case validate_http_config (sk_allow_private env) (sk_parse_url env) (sk_lookup env) cfg0 of
             Inl e \<Rightarrow> (Inl e, p, w)
           | Inr cfg \<Rightarrow>
               if job_message job = [] then (Inl SendNoMessage, p, w)
               else case sdk_unmarshal (sk_sdk env) (job_message job) of
                 None \<Rightarrow> (Inl SendBadEvent, p, w)
               | Some ev \<Rightarrow>
                   if \<not> sdk_valid (sk_sdk env) ev then (Inl SendInvalidEvent, p, w)
                   else if hc_event_types cfg \<noteq> [] \<and> \<not> match_any_glob (se_type ev) (hc_event_types cfg)
                   then (Inr [], p, w)
                   else send_event env p w t1 t2 cfg job ev))"

end
