(* ===== verification/Ingest.thy ===== *)
theory Ingest imports Inbound Verifier CloudEventHttp begin

text \<open>
  Ingestion of CloudEvents for a monitor (\<open>internal/api/handlers/cloudevents.go\<close>): the bearer
  token the organisation may demand, the three content modes, the idempotency table
  (\<open>store/sqlite/cloudevent\_ingest.go\<close>) and the check row each event becomes. The CloudEvents
  SDK and the OIDC library are parameters.
\<close>

section \<open>Settings of the organisation\<close>

record ingest_oidc =
  io_issuer :: string
  io_jwks_url :: string
  io_audiences :: "string list"

record ingest_auth =
  ia_type :: string
  ia_oidc :: "ingest_oidc option"

definition decode_ingest_oidc :: "(string \<times> json) list \<Rightarrow> ingest_oidc option" where
  "decode_ingest_oidc kvs =
     (case (get_string ''issuer'' kvs, get_string ''jwks_url'' kvs, get_strings ''audiences'' kvs) of
        (Some i, Some u, Some a) \<Rightarrow> Some \<lparr>io_issuer = i, io_jwks_url = u, io_audiences = a\<rparr>
      | _ \<Rightarrow> None)"

definition decode_ingest_auth :: "(string \<times> json) list \<Rightarrow> ingest_auth option" where
  "decode_ingest_auth kvs =
     (case (get_string ''type'' kvs, pointer_field ''oidc'' kvs None) of
        (Some t, Some p) \<Rightarrow>
          (case p of
             None \<Rightarrow> Some \<lparr>ia_type = t, ia_oidc = None\<rparr>
           | Some ms \<Rightarrow> map_option (\<lambda>o'. \<lparr>ia_type = t, ia_oidc = Some o'\<rparr>) (decode_ingest_oidc ms))
      | _ \<Rightarrow> None)"

text \<open>The canonical JSON of a configuration. (An absent list of audiences counts as an empty one.)\<close>

definition auth_text :: "ingest_auth \<Rightarrow> string" where
  "auth_text cfg =
     CHR ''{'' # json_quote ''type'' @ CHR '':'' # json_quote (ia_type cfg) @
     (case ia_oidc cfg of
        None \<Rightarrow> []
      | Some c \<Rightarrow>
          CHR '','' # json_quote ''oidc'' @ '':{'' @ json_quote ''issuer'' @ CHR '':'' # json_quote (io_issuer c) @
          (if io_jwks_url c = [] then []
           else CHR '','' # json_quote ''jwks_url'' @ CHR '':'' # json_quote (io_jwks_url c)) @
          CHR '','' # json_quote ''audiences'' @ '':['' @ str_join CHR '','' (map json_quote (io_audiences c)) @ '']}'') @
     [CHR ''}'']"

definition config_of :: "ingest_oidc \<Rightarrow> verifier_config" where
  "config_of c = \<lparr>vc_issuer = io_issuer c, vc_jwks_url = io_jwks_url c, vc_audiences = io_audiences c\<rparr>"

section \<open>State\<close>

text \<open>
  Per organisation the handler keeps the canonical JSON of a configuration, here with the
  configuration it reads back as, and a verifier. The two counters are lists of their labels.
\<close>

record ingest_state =
  is_world :: world
  is_seen :: "(string \<times> string \<times> gotime) list"
  is_settings :: "((string \<times> string) \<times> string) list"
  is_org_cache :: "string \<Rightarrow> (ingest_auth \<times> nat) option"
  is_pool :: verifier_cache
  is_heap :: verifier_heap
  is_metrics :: bool
  is_ingested :: "(string \<times> string) list"
  is_duplicates :: "string list"

record ingest_env =
  ie_sdk :: sdk
  ie_batch :: "string \<Rightarrow> sdk_event list option"
  ie_binary :: "headers \<Rightarrow> string \<Rightarrow> sdk_event option"
  ie_parse :: "string \<Rightarrow> raw_json"
  ie_oidc :: oidc_library

text \<open>\<open>None\<close> as the body is a failing read; \<open>ir\_token\<close> is the last part of the path.\<close>

record ingest_request =
  ir_token :: string
  ir_headers :: headers
  ir_body :: "string option"

definition record_ingested :: "string \<Rightarrow> string \<Rightarrow> ingest_state \<Rightarrow> ingest_state" where
  "record_ingested ty result st =
     (if is_metrics st then st\<lparr>is_ingested := is_ingested st @ [(ty, result)]\<rparr> else st)"

definition record_duplicate :: "string \<Rightarrow> ingest_state \<Rightarrow> ingest_state" where
  "record_duplicate ty st = (if is_metrics st then st\<lparr>is_duplicates := is_duplicates st @ [ty]\<rparr> else st)"

section \<open>Authorisation\<close>

definition settings_get :: "ingest_state \<Rightarrow> string \<Rightarrow> string \<Rightarrow> db_error + string" where
  "settings_get st org key =
     (if w_fails (is_world st) SettingsGet org then Inl ErrSQL
      else case map_of (is_settings st) (org, key) of None \<Rightarrow> Inl ErrNotFound | Some v \<Rightarrow> Inr v)"

definition no_auth :: ingest_auth where
  "no_auth = \<lparr>ia_type = ''none'', ia_oidc = None\<rparr>"

text \<open>A missing row means no authorisation; any other failure, and malformed JSON, is an error.\<close>

definition load_ingest_config :: "ingest_env \<Rightarrow> ingest_state \<Rightarrow> string \<Rightarrow> ingest_auth option" where
  "load_ingest_config env st org =
     (if org = [] then Some no_auth
      else case settings_get st org ''cloudevents.ingest.auth'' of
             Inl e \<Rightarrow> if e = ErrNotFound then Some no_auth else None
           | Inr raw \<Rightarrow>
               let text = trim_space raw in
               if text = [] then Some no_auth
               else map_option (\<lambda>c. if ia_type c = [] then c\<lparr>ia_type := ''none''\<rparr> else c)
                      (unmarshal decode_ingest_auth (ie_parse env text)))"

definition bearer_from_request :: "headers \<Rightarrow> string option" where
  "bearer_from_request hs =
     (let h = header_get hs ''Authorization'' in
      if length h < 7 \<or> to_lower (take 7 h) \<noteq> ''bearer '' then None
      else let tok = trim_space (drop 7 h) in if tok = [] then None else Some tok)"

definition resolve_verifier ::
  "gotime \<Rightarrow> gotime \<Rightarrow> string \<Rightarrow> ingest_auth \<Rightarrow> ingest_state \<Rightarrow> nat option \<times> ingest_state" where
  "resolve_verifier t1 t2 org auth st =
     (case ia_oidc auth of
        None \<Rightarrow> (None, st)
      | Some c \<Rightarrow>
          let rebuild =
            (case vch_get t1 t2 (config_of c) (is_heap st) (is_pool st) of
               (v, heap, pool) \<Rightarrow>
                 let pool' = (case is_org_cache st org of
                                None \<Rightarrow> pool
                              | Some (prev, _) \<Rightarrow>
                                  (case ia_oidc prev of None \<Rightarrow> pool | Some p \<Rightarrow> vch_invalidate (config_of p) pool))
                 in (Some v, st\<lparr>is_heap := heap, is_pool := pool',
                                is_org_cache := (is_org_cache st)(org := Some (auth, v))\<rparr>))
          in case is_org_cache st org of
               Some (prev, v) \<Rightarrow> if auth_text prev = auth_text auth then (Some v, st) else rebuild
             | None \<Rightarrow> rebuild)"

definition status_for_verify_error :: "verify_error \<Rightarrow> int" where
  "status_for_verify_error e =
     (case e of ErrJWKSUnavailable \<Rightarrow> 503 | ErrWrongIssuer \<Rightarrow> 403 | ErrWrongAudience \<Rightarrow> 403 | _ \<Rightarrow> 401)"

text \<open>The subject of the verified token, empty without authorisation, or the refusal.\<close>

definition authorise ::
  "ingest_env \<Rightarrow> (nat \<Rightarrow> gotime) \<Rightarrow> headers \<Rightarrow> monitor \<Rightarrow> ingest_state \<Rightarrow> (http_answer + string) \<times> ingest_state" where
  "authorise env clock hs m st =
     (case load_ingest_config env st (mon_org m) of
        None \<Rightarrow> (Inl (error_response 500 ''ingest config error''), st)
      | Some auth \<Rightarrow>
          if ia_type auth \<noteq> ''oidc'' then (Inr [], st)
          else case bearer_from_request hs of
                 None \<Rightarrow> (Inl (error_response 401 ''bearer token required''), st)
               | Some bearer \<Rightarrow>
                   (case resolve_verifier (clock 0) (clock 1) (mon_org m) auth st of
                      (None, st1) \<Rightarrow> (Inl (error_response 500 ''oidc config error''), st1)
                    | (Some v, st1) \<Rightarrow>
                        (case verify (ie_oidc env) (is_heap st1) (clock 2) v bearer of
                           (Inl e, heap) \<Rightarrow>
                             (Inl (error_response (status_for_verify_error e) ''oidc verification failed''),
                              st1\<lparr>is_heap := heap\<rparr>)
                         | (Inr idt, heap) \<Rightarrow> (Inr (it_subject idt), st1\<lparr>is_heap := heap\<rparr>))))"

section \<open>Events\<close>

definition ingest_ttl :: int where
  "ingest_ttl = 24 * 60 * minute"

text \<open>\<open>INSERT ... ON CONFLICT DO UPDATE ... WHERE seen\_at < cutoff\<close>: one row changes, or none.\<close>

definition try_seen :: "ingest_state \<Rightarrow> gotime \<Rightarrow> string \<Rightarrow> string \<Rightarrow> int \<Rightarrow> (db_error + bool) \<times> ingest_state" where
  "try_seen st now m e ttl =
     (if w_fails (is_world st) SeenUpsert e then (Inl ErrSQL, st)
      else case List.find (\<lambda>r. (fst r, fst (snd r)) = (m, e)) (is_seen st) of
             None \<Rightarrow> (Inr True, st\<lparr>is_seen := is_seen st @ [(m, e, rfc3339_ms now)]\<rparr>)
           | Some r \<Rightarrow>
               if snd (snd r) < rfc3339_ms (now - ttl)
               then (Inr True, st\<lparr>is_seen := update_where (\<lambda>r. (fst r, fst (snd r)) = (m, e))
                                    (\<lambda>_. (m, e, rfc3339_ms now)) (is_seen st)\<rparr>)
               else (Inr False, st))"

definition prune_seen :: "ingest_state \<Rightarrow> gotime \<Rightarrow> int \<Rightarrow> ingest_state" where
  "prune_seen st now ttl =
     st\<lparr>is_seen := delete_where (\<lambda>r. snd (snd r) < rfc3339_ms (now - ttl)) (is_seen st)\<rparr>"

text \<open>
  Later members win in the text of a map: the members of the payload override the first two, and the
  verified subject overrides the payload.
\<close>

definition subject_member :: "string \<Rightarrow> (string \<times> json) list" where
  "subject_member sub = (if sub = [] then [] else [(''oidc_sub'', JStr sub)])"

definition heartbeat_metadata :: "sdk_event \<Rightarrow> string \<Rightarrow> string" where
  "heartbeat_metadata ev sub =
     json_text (JObj ([(''source'', JStr (se_source ev)), (''event_id'', JStr (se_id ev))] @
       (if se_data ev = [] then []
        else case se_data_json ev of
               Some (JObj kvs) \<Rightarrow> if json_any (JObj kvs) then kvs else []
             | _ \<Rightarrow> []) @
       subject_member sub))"

record status_data =
  sd_status :: string
  sd_message :: string

definition decode_status_data :: "(string \<times> json) list \<Rightarrow> status_data option" where
  "decode_status_data kvs =
     (case (get_string ''status'' kvs, get_string ''message'' kvs) of
        (Some s, Some msg) \<Rightarrow> Some \<lparr>sd_status = s, sd_message = msg\<rparr>
      | _ \<Rightarrow> None)"

definition status_metadata :: "sdk_event \<Rightarrow> status_data \<Rightarrow> string \<Rightarrow> string" where
  "status_metadata ev d sub =
     json_text (JObj ([(''source'', JStr (se_source ev)), (''event_id'', JStr (se_id ev)), (''status'', JStr (sd_status d))] @
       (if sd_message d = [] then [] else [(''message'', JStr (sd_message d))]) @ subject_member sub))"

definition parse_ingest_status :: "string \<Rightarrow> check_status option" where
  "parse_ingest_status s =
     (if s = ''up'' then Some StatusUp else if s = ''down'' then Some StatusDown
      else if s = ''degraded'' then Some StatusDegraded else None)"

definition is_ingestible_type :: "string \<Rightarrow> bool" where
  "is_ingestible_type t \<longleftrightarrow> t = ''run.yipyap.ingest.heartbeat.v1'' \<or> t = ''run.yipyap.ingest.status.v1''"

datatype apply_error = BadEventData | ApplyStorage

text \<open>Status, error text and metadata of the row an event becomes.\<close>

definition check_of_event :: "sdk_event \<Rightarrow> string \<Rightarrow> apply_error + check_status \<times> string \<times> string" where
  "check_of_event ev sub =
     (if se_type ev = ''run.yipyap.ingest.heartbeat.v1'' then Inr (StatusUp, [], heartbeat_metadata ev sub)
      else if se_type ev = ''run.yipyap.ingest.status.v1''
      then (case (if se_data ev = [] then decode_status_data [] else unmarshal decode_status_data (se_data_json ev)) of
              None \<Rightarrow> Inl BadEventData
            | Some d \<Rightarrow>
                (case parse_ingest_status (sd_status d) of
                   None \<Rightarrow> Inl BadEventData
                 | Some s \<Rightarrow> Inr (s, sd_message d, status_metadata ev d sub)))
      else Inl ApplyStorage)"

text \<open>The idempotency row is written at \<open>t1\<close>, the check row gets the instant \<open>t2\<close>.\<close>

definition apply_event ::
  "gotime \<Rightarrow> gotime \<Rightarrow> monitor \<Rightarrow> string \<Rightarrow> sdk_event \<Rightarrow> ingest_state \<Rightarrow> (apply_error + bool) \<times> ingest_state" where
  "apply_event t1 t2 m sub ev st =
     (case try_seen st t1 (mon_id m) (se_id ev) ingest_ttl of
        (Inl _, st1) \<Rightarrow> (Inl ApplyStorage, st1)
      | (Inr False, st1) \<Rightarrow> (Inr True, st1)
      | (Inr True, st1) \<Rightarrow>
          (case new_uuid (is_world st1) of
             (i, w1) \<Rightarrow>
               (case check_of_event ev sub of
                  Inl e \<Rightarrow> (Inl e, st1\<lparr>is_world := w1\<rparr>)
                | Inr (s, err, meta) \<Rightarrow>
                    (case checks_create w1 \<lparr>chk_id = i, chk_monitor = mon_id m, chk_status = s, chk_latency = 0,
                            chk_status_code = 0, chk_error = err, chk_metadata = meta, chk_tls_expiry = None,
                            chk_checked_at = t2, chk_matched_state = []\<rparr> of
                       (Some _, w2) \<Rightarrow> (Inl ApplyStorage, st1\<lparr>is_world := w2\<rparr>)
                     | (None, w2) \<Rightarrow> (Inr False, st1\<lparr>is_world := w2\<rparr>)))))"

section \<open>The request\<close>

definition decode_cloud_events :: "ingest_env \<Rightarrow> headers \<Rightarrow> string \<Rightarrow> sdk_event list option" where
  "decode_cloud_events env hs body =
     (let media = trim_space (takeWhile (\<lambda>c. c \<noteq> CHR '';'') (header_get hs ''Content-Type'')) in
      if media = ''application/cloudevents-batch+json'' then ie_batch env body
      else if media = ''application/cloudevents+json''
      then map_option (\<lambda>ev. [ev]) (sdk_unmarshal (ie_sdk env) body)
      else map_option (\<lambda>ev. [ev]) (ie_binary env hs body))"

text \<open>The first event that is refused, with the status of the answer. (The SDK's error text is left out.)\<close>

definition refused_event :: "sdk \<Rightarrow> sdk_event \<Rightarrow> (int \<times> string) option" where
  "refused_event sdk ev =
     (if se_spec_version ev \<noteq> ''1.0'' then Some (400, ''unsupported specversion: '' @ se_spec_version ev)
      else if \<not> sdk_valid sdk ev then Some (400, ''invalid cloudevent'')
      else if \<not> is_ingestible_type (se_type ev) then Some (422, ''type not allowed: '' @ se_type ev)
      else None)"

fun first_refused :: "sdk \<Rightarrow> sdk_event list \<Rightarrow> (sdk_event \<times> int \<times> string) option" where
  "first_refused sdk [] = None"
| "first_refused sdk (ev # evs) =
     (case refused_event sdk ev of Some r \<Rightarrow> Some (ev, r) | None \<Rightarrow> first_refused sdk evs)"

text \<open>Event \<open>k\<close> reads the clock twice; the first failing event ends the request.\<close>

fun apply_events ::
  "(nat \<Rightarrow> gotime) \<Rightarrow> nat \<Rightarrow> monitor \<Rightarrow> string \<Rightarrow> sdk_event list \<Rightarrow> ingest_state \<Rightarrow>
   (sdk_event \<times> apply_error) option \<times> ingest_state" where
  "apply_events clock k m sub [] st = (None, st)"
| "apply_events clock k m sub (ev # evs) st =
     (case apply_event (clock k) (clock (Suc k)) m sub ev st of
        (Inl e, st1) \<Rightarrow> (Some (ev, e), st1)
      | (Inr True, st1) \<Rightarrow>
          apply_events clock (k + 2) m sub evs
            (record_ingested (se_type ev) ''duplicate'' (record_duplicate (se_type ev) st1))
      | (Inr False, st1) \<Rightarrow>
          apply_events clock (k + 2) m sub evs (record_ingested (se_type ev) ''success'' st1))"

text \<open>\<open>finalize\<close> with the type the rejection is attributed to.\<close>

definition finalize :: "string \<Rightarrow> http_answer \<Rightarrow> ingest_state \<Rightarrow> http_answer \<times> ingest_state" where
  "finalize ty ans st =
     (let c = answer_status ans in
      (ans, if 400 \<le> c \<and> c < 500 then record_ingested ty ''rejected'' st
            else if 500 \<le> c then record_ingested ty ''error'' st else st))"

definition ingest_events ::
  "ingest_env \<Rightarrow> (nat \<Rightarrow> gotime) \<Rightarrow> monitor \<Rightarrow> string \<Rightarrow> sdk_event list \<Rightarrow> ingest_state \<Rightarrow> http_answer \<times> ingest_state" where
  "ingest_events env clock m sub evs st =
     (if evs = [] then finalize [] (error_response 400 ''no events in request'') st
      else if 256 < length evs
      then finalize [] (error_response 413 ''batch too large: max 256 events per request'') st
      else case first_refused (ie_sdk env) evs of
             Some (ev, code, msg) \<Rightarrow> finalize (se_type ev) (error_response code msg) st
           | None \<Rightarrow>
               (case apply_events clock 3 m sub evs st of
                  (None, st1) \<Rightarrow> finalize [] (EmptyAnswer 200) st1
                | (Some (ev, BadEventData), st1) \<Rightarrow>
                    finalize (se_type ev) (error_response 400 ''bad event data'') st1
                | (Some (ev, ApplyStorage), st1) \<Rightarrow>
                    finalize (se_type ev) (error_response 500 ''storage error'') st1))"

definition ingest :: "ingest_env \<Rightarrow> (nat \<Rightarrow> gotime) \<Rightarrow> ingest_request \<Rightarrow> ingest_state \<Rightarrow> http_answer \<times> ingest_state" where
  "ingest env clock req st =
     (if ir_token req = [] then finalize [] (error_response 401 ''invalid token'') st
      else case monitors_by_key (is_world st) (ir_token req) of
             Inl _ \<Rightarrow> finalize [] (error_response 401 ''invalid token'') st
           | Inr m \<Rightarrow>
               if mon_integration_key m \<noteq> ir_token req then finalize [] (error_response 401 ''invalid token'') st
               else case authorise env clock (ir_headers req) m st of
                      (Inl ans, st1) \<Rightarrow> finalize [] ans st1
                    | (Inr sub, st1) \<Rightarrow>
                        (case ir_body req of
                           None \<Rightarrow> finalize [] (error_response 400 ''failed to read body'') st1
                         | Some body \<Rightarrow>
                             if 4194304 < length body
                             then finalize [] (error_response 413 ''request body too large'') st1
                             else case decode_cloud_events env (ir_headers req) body of
                                    None \<Rightarrow> finalize [] (error_response 400 ''invalid cloudevent'') st1
                                  | Some evs \<Rightarrow> ingest_events env clock m sub evs st1))"

end
