(* ===== verification/IngestLaws.thy ===== *)
theory IngestLaws imports Ingest InboundLaws begin

text \<open>
  What ingestion guarantees: who may add check rows and for which monitor, how often an event is
  recorded, what becomes of an event whose recording fails, how long a verifier lives, and what an
  ingested heartbeat means to the scheduler.
\<close>

section \<open>Frames\<close>

lemma record_frame [simp]:
  "is_world (record_ingested ty r st) = is_world st" "is_seen (record_ingested ty r st) = is_seen st"
  "is_world (record_duplicate ty st) = is_world st" "is_seen (record_duplicate ty st) = is_seen st"
  "is_heap (record_ingested ty r st) = is_heap st" "is_heap (record_duplicate ty st) = is_heap st"
  "is_pool (record_ingested ty r st) = is_pool st" "is_pool (record_duplicate ty st) = is_pool st"
  "is_org_cache (record_ingested ty r st) = is_org_cache st" "is_org_cache (record_duplicate ty st) = is_org_cache st"
  by (simp_all add: record_ingested_def record_duplicate_def)

lemma finalize_frame [simp]:
  "is_world (snd (finalize ty ans st)) = is_world st" "is_seen (snd (finalize ty ans st)) = is_seen st"
  "fst (finalize ty ans st) = ans"
  by (simp_all add: finalize_def Let_def)

lemma resolve_frame [simp]:
  "is_world (snd (resolve_verifier t1 t2 org auth st)) = is_world st"
  "is_seen (snd (resolve_verifier t1 t2 org auth st)) = is_seen st"
  by (simp_all add: resolve_verifier_def Let_def split: option.split prod.split)

lemma resolve_frameD:
  "resolve_verifier t1 t2 org auth st = (v, st1) \<Longrightarrow> is_world st1 = is_world st \<and> is_seen st1 = is_seen st"
  using resolve_frame [of t1 t2 org auth st] by simp

lemma authorise_frame:
  "authorise env clock hs m st = (r, st1) \<Longrightarrow> is_world st1 = is_world st \<and> is_seen st1 = is_seen st"
  unfolding authorise_def
  by (auto split: option.splits if_splits prod.splits sum.splits dest!: resolve_frameD)

section \<open>The idempotency table\<close>

text \<open>One row per event; a row that is recent enough stays as it is.\<close>

definition seen_at :: "ingest_state \<Rightarrow> string \<Rightarrow> string \<Rightarrow> gotime option" where
  "seen_at st m e = map_option (\<lambda>r. snd (snd r)) (List.find (\<lambda>r. (fst r, fst (snd r)) = (m, e)) (is_seen st))"

lemma seen_at_cong: "is_seen st' = is_seen st \<Longrightarrow> seen_at st' m e = seen_at st m e"
  by (simp add: seen_at_def)

lemma rfc3339_ms_mono: "s \<le> t \<Longrightarrow> rfc3339_ms s \<le> rfc3339_ms t"
proof -
  assume "s \<le> t"
  then have "1000000 * (s div 1000000) \<le> 1000000 * (t div 1000000)"
    by (intro mult_left_mono zdiv_mono1) auto
  then show ?thesis by (simp add: rfc3339_ms_def minus_mod_eq_mult_div)
qed

lemma find_eq_update:
  "List.find (\<lambda>r. k r = x) rows = Some r \<Longrightarrow> k y = x \<Longrightarrow>
   List.find (\<lambda>r. k r = x) (update_where (\<lambda>r. k r = x) (\<lambda>_. y) rows) = Some y"
  by (induction rows) (auto split: if_splits)

lemma find_neq_update:
  "x \<noteq> z \<Longrightarrow> k y = z \<Longrightarrow>
   List.find (\<lambda>r. k r = x) (update_where (\<lambda>r. k r = z) (\<lambda>_. y) rows) = List.find (\<lambda>r. k r = x) rows"
  by (induction rows) auto

lemma try_seen_cases:
  assumes "try_seen st now m e ttl = (r, st1)"
  obtains (fault) "r = Inl ErrSQL" "st1 = st"
  | (duplicate) s where "r = Inr False" "st1 = st" "seen_at st m e = Some s" "rfc3339_ms (now - ttl) \<le> s"
  | (fresh) "r = Inr True" "seen_at st1 m e = Some (rfc3339_ms now)"
      "\<And>m' e'. (m', e') \<noteq> (m, e) \<Longrightarrow> seen_at st1 m' e' = seen_at st m' e'"
      "seen_at st m e = None \<or> (\<exists>s. seen_at st m e = Some s \<and> s < rfc3339_ms (now - ttl))"
      "\<exists>rows. st1 = st\<lparr>is_seen := rows\<rparr>"
proof (cases "w_fails (is_world st) SeenUpsert e")
  case True
  with assms show thesis by (intro fault) (simp_all add: try_seen_def)
next
  case False
  let ?k = "\<lambda>r :: string \<times> string \<times> gotime. (fst r, fst (snd r))"
  show thesis
  proof (cases "List.find (\<lambda>r. ?k r = (m, e)) (is_seen st)")
    case None
    with False assms have st1: "r = Inr True" "st1 = st\<lparr>is_seen := is_seen st @ [(m, e, rfc3339_ms now)]\<rparr>"
      by (simp_all add: try_seen_def)
    show thesis
      using None st1 by (intro fresh) (auto simp: seen_at_def find_append split: option.split)
  next
    case (Some x)
    show thesis
    proof (cases "snd (snd x) < rfc3339_ms (now - ttl)")
      case True
      with False Some assms have st1: "r = Inr True"
        "st1 = st\<lparr>is_seen := update_where (\<lambda>r. ?k r = (m, e)) (\<lambda>_. (m, e, rfc3339_ms now)) (is_seen st)\<rparr>"
        by (simp_all add: try_seen_def)
      have "seen_at st1 m e = Some (rfc3339_ms now)"
        using find_eq_update [of ?k "(m, e)" "is_seen st" x "(m, e, rfc3339_ms now)"] Some
        by (simp add: seen_at_def st1)
      moreover have "seen_at st1 m' e' = seen_at st m' e'" if "(m', e') \<noteq> (m, e)" for m' e'
        using find_neq_update [of "(m', e')" "(m, e)" ?k "(m, e, rfc3339_ms now)" "is_seen st"] that
        by (simp add: seen_at_def st1)
      ultimately show thesis using True Some st1 by (intro fresh) (auto simp: seen_at_def)
    next
      case False
      with \<open>\<not> w_fails (is_world st) SeenUpsert e\<close> Some assms show thesis
        by (intro duplicate [of "snd (snd x)"]) (simp_all add: try_seen_def seen_at_def)
    qed
  qed
qed

text \<open>Until \<open>ttl\<close> has passed since \<open>t\<close>, a row of \<open>t\<close> or later stays one.\<close>

definition remembered :: "gotime \<Rightarrow> string \<Rightarrow> string \<Rightarrow> ingest_state \<Rightarrow> bool" where
  "remembered t m e st \<longleftrightarrow> (\<exists>s. seen_at st m e = Some s \<and> rfc3339_ms t \<le> s)"

lemma remembered_try_seen:
  assumes "try_seen st now m' e' ttl = (r, st1)" "remembered t m e st" "now \<le> t + ttl"
  shows "remembered t m e st1"
proof -
  have "rfc3339_ms (now - ttl) \<le> rfc3339_ms t" using assms(3) by (intro rfc3339_ms_mono) simp
  with assms(2) show ?thesis
    by (cases rule: try_seen_cases [OF assms(1)]; cases "(m, e) = (m', e')") (auto simp: remembered_def)
qed

lemma remembered_duplicate:
  assumes "try_seen st now m e ttl = (r, st1)" "remembered t m e st" "now \<le> t + ttl"
  shows "st1 = st \<and> (r = Inr False \<or> r = Inl ErrSQL \<and> w_fails (is_world st) SeenUpsert e)"
proof -
  have "rfc3339_ms (now - ttl) \<le> rfc3339_ms t" using assms(3) by (intro rfc3339_ms_mono) simp
  with assms(2) show ?thesis
    by (cases rule: try_seen_cases [OF assms(1)]) (use assms(1) in \<open>auto simp: remembered_def try_seen_def split: option.splits if_splits\<close>)
qed

lemma remembered_prune:
  assumes "remembered t m e st" "now \<le> t + ttl"
  shows "remembered t m e (prune_seen st now ttl)"
proof -
  let ?p = "\<lambda>r :: string \<times> string \<times> gotime. (fst r, fst (snd r)) = (m, e)"
  have le: "rfc3339_ms (now - ttl) \<le> rfc3339_ms t" using assms(2) by (intro rfc3339_ms_mono) simp
  have "List.find ?p rows = Some r \<Longrightarrow> \<not> q r \<Longrightarrow> List.find ?p (delete_where q rows) = Some r" for rows r q
    by (induction rows) (auto split: if_splits)
  with assms(1) le show ?thesis
    by (force simp: remembered_def seen_at_def prune_seen_def)
qed

section \<open>One event\<close>

text \<open>Nothing but check rows was written (and ids were drawn).\<close>

definition only_checks :: "world \<Rightarrow> world \<Rightarrow> bool" where
  "only_checks w w' \<longleftrightarrow> w'\<lparr>w_checks := [], w_uuid_next := 0\<rparr> = w\<lparr>w_checks := [], w_uuid_next := 0\<rparr>"

lemma only_checks_refl [simp]: "only_checks w w"
  by (simp add: only_checks_def)

lemma only_checks_trans: "only_checks u v \<Longrightarrow> only_checks v w \<Longrightarrow> only_checks u w"
  by (simp add: only_checks_def)

lemma only_checks_updates [simp]:
  "only_checks w (w\<lparr>w_uuid_next := n\<rparr>)" "only_checks w (w\<lparr>w_uuid_next := n, w_checks := cs\<rparr>)"
  by (simp_all add: only_checks_def)

lemma apply_event_cases:
  assumes "apply_event t1 t2 m sub ev st = (r, st')"
  obtains (skipped) "st' = st" "r = Inr True \<or> r = Inl ApplyStorage"
  | (claimed) st1 where "try_seen st t1 (mon_id m) (se_id ev) ingest_ttl = (Inr True, st1)"
      "st' = st1\<lparr>is_world := is_world st'\<rparr>"
      "r = Inr False \<and> (\<exists>c. w_checks (is_world st') = w_checks (is_world st) @ [c] \<and> chk_monitor c = mon_id m
         \<and> chk_status c \<in> {StatusUp, StatusDown, StatusDegraded}
         \<and> (se_type ev = ''run.yipyap.ingest.heartbeat.v1'' \<longrightarrow> chk_status c = StatusUp \<and> chk_metadata c = heartbeat_metadata ev sub))
       \<or> (\<exists>e. r = Inl e) \<and> w_checks (is_world st') = w_checks (is_world st)"
      "w_checks (is_world st') = w_checks (is_world st) \<or> r = Inr False"
      "only_checks (is_world st) (is_world st')"
proof -
  obtain r1 st1 where s: "try_seen st t1 (mon_id m) (se_id ev) ingest_ttl = (r1, st1)" by fastforce
  show thesis
  proof (cases rule: try_seen_cases [OF s])
    case 1
    with assms s show thesis by (intro skipped) (simp_all add: apply_event_def)
  next
    case (2 x)
    with assms s show thesis by (intro skipped) (simp_all add: apply_event_def)
  next
    case 3
    from 3(5) have w: "is_world st1 = is_world st" by auto
    obtain i w1 where u: "new_uuid (is_world st1) = (i, w1)" by fastforce
    then obtain n where w1: "w1 = (is_world st)\<lparr>w_uuid_next := n\<rparr>" using w by (auto simp: new_uuid_def)
    have up: "s \<in> {StatusUp, StatusDown, StatusDegraded}
        \<and> (se_type ev = ''run.yipyap.ingest.heartbeat.v1'' \<longrightarrow> s = StatusUp \<and> meta = heartbeat_metadata ev sub)"
      if "check_of_event ev sub = Inr (s, err, meta)" for s err meta
      using that by (auto simp: check_of_event_def parse_ingest_status_def split: if_splits option.splits)
    show thesis
    proof (cases "check_of_event ev sub")
      case (Inl e)
      with assms s 3(1) u w w1 show thesis
        by (intro claimed [of st1]) (auto simp: apply_event_def)
    next
      case (Inr x)
      obtain st0 err meta where x: "x = (st0, err, meta)" by (cases x)
      with assms s 3(1) u w w1 Inr up [of st0 err meta] show thesis
        by (intro claimed [of st1]) (auto simp: apply_event_def checks_create_def split: if_splits)
    qed
  qed
qed

lemma seen_after_world [simp]: "seen_at (st\<lparr>is_world := w\<rparr>) m e = seen_at st m e"
  by (simp add: seen_at_def)

lemma remembered_cong: "is_seen st' = is_seen st \<Longrightarrow> remembered t m e st' = remembered t m e st"
  by (simp add: remembered_def seen_at_def)

lemma apply_event_remembers:
  assumes "apply_event t1 t2 m' sub ev st = (r, st')" "remembered t m e st" "t1 \<le> t + ingest_ttl"
  shows "remembered t m e st'"
  using assms(1)
proof (cases rule: apply_event_cases)
  case (claimed st1)
  then have "is_seen st' = is_seen st1" by (metis ingest_state.ext_inject ingest_state.surjective ingest_state.update_convs(1))
  then show ?thesis using remembered_try_seen [OF claimed(1) assms(2,3)] remembered_cong by blast
qed (use assms(2) in simp)

lemma apply_events_remember:
  "apply_events clock k m' sub evs st = (r, st') \<Longrightarrow> (\<And>i. clock i \<le> t + ingest_ttl) \<Longrightarrow> remembered t m e st \<Longrightarrow>
   remembered t m e st'"
proof (induction clock k m' sub evs st arbitrary: r st' rule: apply_events.induct)
  case (2 clock k m' sub ev evs st)
  obtain x st1 where a: "apply_event (clock k) (clock (Suc k)) m' sub ev st = (x, st1)" by fastforce
  have "remembered t m e st1" using apply_event_remembers [OF a] 2(4,5) by blast
  then have "remembered t m e (record_ingested ty z (record_duplicate ty st1))" "remembered t m e (record_ingested ty z st1)" for ty z
    by (simp_all add: remembered_def seen_at_def)
  with 2(3) show ?case
    using a 2(1) [OF a [symmetric] _ _ _ 2(4)] 2(2) [OF a [symmetric] _ _ _ 2(4)] \<open>remembered t m e st1\<close>
    by (auto split: sum.splits bool.splits)
qed simp

lemma ingest_remembers:
  assumes "ingest env clock req st = (ans, st')" "\<And>i. clock i \<le> t + ingest_ttl" "remembered t m e st"
  shows "remembered t m e st'"
proof -
  have fin: "remembered t m e (snd (finalize ty a s)) = remembered t m e s" for ty a s by (intro remembered_cong) simp
  have events: "remembered t m e (snd (ingest_events env clock m' sub evs s))" if "remembered t m e s" for m' sub evs s
  proof -
    obtain r s1 where "apply_events clock 3 m' sub evs s = (r, s1)" by fastforce
    with apply_events_remember [OF this assms(2) that] that show ?thesis
      by (auto simp: ingest_events_def fin split: option.split prod.split apply_error.split)
  qed
  have "remembered t m e s1" if "authorise env clock hs m' st = (r, s1)" for hs m' r s1
    using authorise_frame [OF that] assms(3) remembered_cong by blast
  then show ?thesis
    using assms(1,3) events fin
    by (auto simp: ingest_def split: if_splits sum.splits prod.splits option.splits) (metis snd_conv)+
qed

text \<open>
  Requests, the janitor, and everything else that leaves the idempotency table alone; no clock reads past
  the horizon.
\<close>

inductive ingest_step :: "ingest_env \<Rightarrow> gotime \<Rightarrow> ingest_state \<Rightarrow> ingest_state \<Rightarrow> bool" for env horizon where
  request: "ingest env clock req st = (ans, st') \<Longrightarrow> (\<And>i. clock i \<le> horizon) \<Longrightarrow> ingest_step env horizon st st'"
| janitor: "now \<le> horizon \<Longrightarrow> ingest_step env horizon st (prune_seen st now ingest_ttl)"
| other: "is_seen st' = is_seen st \<Longrightarrow> ingest_step env horizon st st'"

interpretation ingest_memory: invariant_system "ingest_step env (t + ingest_ttl)" "remembered t m e" for env t m e
proof
  fix s s' assume "ingest_step env (t + ingest_ttl) s s'" "remembered t m e s"
  then show "remembered t m e s'"
    by cases (blast intro: ingest_remembers, blast intro: remembered_prune, metis remembered_cong)
qed

lemma claimed_remembers:
  assumes "apply_event t t' m sub ev st = (r, st1)" "r \<noteq> Inr True" "\<not> w_fails (is_world st) SeenUpsert (se_id ev)"
  shows "remembered t (mon_id m) (se_id ev) st1"
  using assms(1)
proof (cases rule: apply_event_cases)
  case skipped
  then have "r = Inl ApplyStorage" using assms(2) by simp
  obtain x s where x: "try_seen st t (mon_id m) (se_id ev) ingest_ttl = (x, s)" by fastforce
  show ?thesis
  proof (cases rule: try_seen_cases [OF x])
    case 1
    then show ?thesis using x assms(3) by (auto simp: try_seen_def split: option.splits if_splits)
  next
    case (2 u)
    then show ?thesis using assms(1,2) x by (simp add: apply_event_def)
  next
    case 3
    have "\<exists>w. st1 = s\<lparr>is_world := w\<rparr>" using assms(1) x 3(1)
      by (auto simp: apply_event_def split: prod.splits sum.splits option.splits)
    with 3(2) show ?thesis by (auto simp: remembered_def)
  qed
next
  case (claimed s)
  from try_seen_cases [OF claimed(1)] have "seen_at s (mon_id m) (se_id ev) = Some (rfc3339_ms t)" by fastforce
  then show ?thesis using claimed(2) seen_after_world [of "is_world st1" s] by (simp add: remembered_def)
qed

lemma resent_is_duplicate:
  assumes "remembered t m e st" "u \<le> t + ingest_ttl" "mon_id m' = m" "se_id ev = e"
    and "apply_event u u' m' sub ev st = (r, st')"
  shows "st' = st \<and> (r = Inr True \<or> r = Inl ApplyStorage \<and> w_fails (is_world st) SeenUpsert e)"
proof -
  obtain x s where x: "try_seen st u m e ingest_ttl = (x, s)" by fastforce
  from remembered_duplicate [OF x assms(1,2)] x assms(3-5) show ?thesis by (auto simp: apply_event_def)
qed

text \<open>
  C20: Once an event was recorded for a monitor, with one check row of that monitor, the same event is a
  duplicate for the next 24 hours: whatever requests and clean-ups run in between, a second copy adds
  nothing.
\<close>

theorem event_is_recorded_once_a_day:
  assumes "apply_event t t' m sub ev st = (Inr False, st1)" "\<not> w_fails (is_world st) SeenUpsert (se_id ev)"
    and "(ingest_step env (t + ingest_ttl))\<^sup>*\<^sup>* st1 st2" "u \<le> t + ingest_ttl"
    and "mon_id m' = mon_id m" "se_id ev' = se_id ev" "apply_event u u' m' sub' ev' st2 = (r, st3)"
  shows "(\<exists>c. w_checks (is_world st1) = w_checks (is_world st) @ [c] \<and> chk_monitor c = mon_id m)
    \<and> st3 = st2 \<and> (r = Inr True \<or> r = Inl ApplyStorage \<and> w_fails (is_world st2) SeenUpsert (se_id ev))"
proof -
  have "remembered t (mon_id m) (se_id ev) st2"
    using ingest_memory.reachable_keeps [OF assms(3) claimed_remembers [OF assms(1) _ assms(2)]] by simp
  from resent_is_duplicate [OF this assms(4-7)] show ?thesis
    using apply_event_cases [OF assms(1)] by fastforce
qed

text \<open>
  C21: An event whose recording fails after its claim, for bad data or a storage error, is lost: nothing
  is recorded, the sender is told to retry, and every retry within 24 hours is answered as a duplicate.
\<close>

theorem failed_event_is_lost_on_retry:
  assumes "apply_event t t' m sub ev st = (Inl e, st1)" "\<not> w_fails (is_world st) SeenUpsert (se_id ev)"
    and "(ingest_step env (t + ingest_ttl))\<^sup>*\<^sup>* st1 st2" "u \<le> t + ingest_ttl"
    and "\<not> w_fails (is_world st2) SeenUpsert (se_id ev)"
  shows "w_checks (is_world st1) = w_checks (is_world st) \<and> apply_event u u' m sub ev st2 = (Inr True, st2)"
proof -
  have "remembered t (mon_id m) (se_id ev) st2"
    using ingest_memory.reachable_keeps [OF assms(3) claimed_remembers [OF assms(1) _ assms(2)]] by simp
  from resent_is_duplicate [OF this assms(4) refl refl, of u' sub] assms(5)
  have "apply_event u u' m sub ev st2 = (Inr True, st2)" by (metis surj_pair)
  then show ?thesis using apply_event_cases [OF assms(1)] by fastforce
qed

end
