(* ===== verification/Joined.thy ===== *)
theory Joined imports Prelude begin

text \<open>
  Texts joined by a separator without quoting, as several keys of the program are: when one of two lists
  of the same length is free of the separator, equal texts come from equal lists.
\<close>

lemma str_split_length: "length (str_split c (s @ t)) = length (str_split c s) + length (str_split c t) - 1"
proof (induction s)
  case (Cons x s)
  have "0 < length (str_split c s)" "0 < length (str_split c t)" by simp_all
  with Cons show ?case by (auto split: list.splits)
qed simp

lemma str_split_one: "length (str_split c s) = 1 \<Longrightarrow> c \<notin> set s"
  by (induction s) (auto split: list.splits if_splits)

lemma str_split_join_length:
  "ts \<noteq> [] \<Longrightarrow> length (str_split c (str_join c ts)) = sum_list (map (\<lambda>t. length (str_split c t)) ts)"
  by (induction c ts rule: str_join.induct) (simp_all add: str_split_length)

lemma sum_list_ones: "(\<And>t. t \<in> set ts \<Longrightarrow> 0 < f t) \<Longrightarrow> sum_list (map f ts) = length ts \<Longrightarrow> t \<in> set ts \<Longrightarrow> f t = (1 :: nat)"
proof (induction ts)
  case (Cons u ts)
  have "length ts \<le> sum_list (map f ts)" using Cons(2) sum_list_mono [of ts "\<lambda>_. 1" f] by (force simp: sum_list_triv Suc_le_eq)
  moreover have "0 < f u" using Cons(2) by simp
  ultimately have "f u = 1" "sum_list (map f ts) = length ts" using Cons(3) by simp_all
  with Cons show ?case by auto
qed simp

lemma str_join_inject:
  assumes "\<And>t. t \<in> set ts \<Longrightarrow> c \<notin> set t" "length us = length ts" "str_join c us = str_join c ts"
  shows "us = ts"
proof (cases "ts = []")
  case False
  then have us: "us \<noteq> []" using assms(2) by auto
  have s: "str_split c (str_join c us) = ts" using str_split_join [OF False assms(1)] assms(3) by simp
  have "sum_list (map (\<lambda>u. length (str_split c u)) us) = length us"
    using arg_cong [OF s, of length] assms(2) by (simp only: str_split_join_length [OF us])
  then have "length (str_split c u) = 1" if "u \<in> set us" for u
    using sum_list_ones [of us "\<lambda>u. length (str_split c u)" u] that by simp
  then have "c \<notin> set u" if "u \<in> set us" for u using that str_split_one by blast
  with str_split_join [OF us] s show ?thesis by metis
qed (use assms(2) in simp)

end
