(* ===== verification/AuthText.thy ===== *)
theory AuthText imports Ingest Joined begin

text \<open>
  The two texts the ingest handler compares configurations by. The canonical JSON of a configuration
  determines it, and the key of the verifier cache determines the issuer and the address of the keys,
  but of the audiences only their joined list.
\<close>

section \<open>Quoting\<close>

definition plain_char :: "char \<Rightarrow> bool" where
  "plain_char c \<longleftrightarrow> 32 \<le> byte c \<and> byte c < 127 \<and> byte c \<noteq> 34 \<and> byte c \<noteq> 92 \<and> c \<notin> set ''<>&''"

abbreviation plain :: "string \<Rightarrow> bool" where
  "plain s \<equiv> list_all plain_char s"

lemma nat_of_byte: "(of_char c :: nat) = nat (byte c)"
  by (metis byte_def nat_int of_nat_of_char)

lemma plain_char_ascii: "plain_char c \<Longrightarrow> 32 \<le> byte c \<and> byte c < 127"
  by (simp add: plain_char_def)

lemma not_plain [simp]: "\<not> plain_char (CHR 0x22)" "\<not> plain_char (CHR 0x5C)"
  by code_simp+

lemma segs_ascii: "(\<And>c. c \<in> set s \<Longrightarrow> byte c < 128) \<Longrightarrow> segs s = map (\<lambda>c. [c]) s"
proof (induction s)
  case (Cons c s)
  then have "is_rune [c]" by (simp add: is_rune_def rune_len_def seq_len_def byte_at_def)
  from segs_rune_append [OF this, of s] Cons show ?case by simp
qed simp

lemma json_escape_plain: "plain_char c \<Longrightarrow> json_escape c = [c]"
  by (auto simp: plain_char_def json_escape_def Let_def nat_of_byte)

lemma json_segment_plain: "plain_char c \<Longrightarrow> json_segment [c] = [c]"
  using plain_char_ascii [of c]
  by (auto simp: json_segment_def rune_len_def seq_len_def byte_at_def json_escape_plain)

lemma json_quote_plain: "plain s \<Longrightarrow> json_quote s = CHR 0x22 # s @ [CHR 0x22]"
proof -
  assume s: "plain s"
  then have "segs s = map (\<lambda>c. [c]) s"
    using plain_char_ascii by (intro segs_ascii) (force simp: list_all_iff)
  moreover have "concat (map (\<lambda>c. json_segment [c]) s) = s"
    using s by (induction s) (auto simp: json_segment_plain)
  ultimately show ?thesis by (simp add: json_quote_def comp_def)
qed

text \<open>Inside a quoted text every quotation mark follows a backslash.\<close>

fun escaped :: "bool \<Rightarrow> string \<Rightarrow> bool" where
  "escaped b [] = True"
| "escaped b (c # cs) = ((c = CHR 0x22 \<longrightarrow> b) \<and> escaped (c = CHR 0x5C) cs)"

lemma escaped_weaken: "escaped False q \<Longrightarrow> escaped b q"
  by (cases q) auto

lemma escaped_append: "escaped b p \<Longrightarrow> escaped False q \<Longrightarrow> escaped b (p @ q)"
  by (induction b p rule: escaped.induct) (auto intro: escaped_weaken)

lemma escaped_concat: "(\<And>q. q \<in> set qs \<Longrightarrow> escaped False q) \<Longrightarrow> escaped False (concat qs)"
  by (induction qs) (auto intro: escaped_append)

lemma escaped_no_quote: "CHR 0x22 \<notin> set q \<Longrightarrow> escaped b q"
  by (induction b q rule: escaped.induct) auto

lemma json_hex_no_quote: "json_hex n \<noteq> CHR 0x22" if "n < 16"
proof -
  have "\<forall>n \<in> set [0..<16]. json_hex n \<noteq> CHR 0x22" by code_simp
  with that show ?thesis by simp
qed

lemma json_escape_escaped: "escaped False (json_escape c)"
proof (cases "c = CHR 0x22")
  case True
  then show ?thesis by (simp add: json_escape_def)
next
  case False
  have "(of_char c :: nat) < 256" by (metis of_char_mod_256 mod_less_divisor zero_less_numeral)
  then have "json_hex (of_char c div 16) \<noteq> CHR 0x22" "json_hex (of_char c mod 16) \<noteq> CHR 0x22"
    by (simp_all add: json_hex_no_quote less_mult_imp_div_less)
  then have "CHR 0x22 \<notin> set (json_escape c)" using False by (auto simp: json_escape_def Let_def)
  then show ?thesis by (rule escaped_no_quote)
qed

lemma json_segment_escaped: "escaped False (json_segment x)"
  unfolding json_segment_def by (auto intro!: escaped_concat simp: json_escape_escaped)

lemma quoted_prefix:
  "plain s \<Longrightarrow> escaped False q \<Longrightarrow> s @ CHR 0x22 # t = q @ CHR 0x22 # t' \<Longrightarrow> q = s \<and> t = t'"
proof (induction s arbitrary: q)
  case Nil
  then show ?case by (cases q) auto
next
  case (Cons c s)
  then have "c \<noteq> CHR 0x22" "c \<noteq> CHR 0x5C" by auto
  with Cons show ?case by (cases q) auto
qed

text \<open>Without a backslash in the result nothing was escaped.\<close>

lemma json_escape_cases: "json_escape c = [c] \<or> CHR 0x5C \<in> set (json_escape c)"
  by (simp add: json_escape_def Let_def)

lemma json_segment_cases: "json_segment x = x \<or> CHR 0x5C \<in> set (json_segment x)"
proof -
  have "concat (map json_escape x) = x \<or> CHR 0x5C \<in> set (concat (map json_escape x))"
  proof (induction x)
    case (Cons c x)
    then show ?case using json_escape_cases [of c] by auto
  qed simp
  then show ?thesis by (auto simp: json_segment_def)
qed

lemma json_quote_inject:
  assumes "plain s" "json_quote s @ t = json_quote s' @ t'"
  shows "s = s' \<and> t = t'"
proof -
  let ?q = "concat (map json_segment (segs s'))"
  have "s @ CHR 0x22 # t = ?q @ CHR 0x22 # t'"
    using assms by (simp add: json_quote_plain) (simp add: json_quote_def)
  moreover have "escaped False ?q" by (intro escaped_concat) (auto simp: json_segment_escaped)
  ultimately have q: "?q = s" "t = t'" using quoted_prefix [OF assms(1)] by blast+
  have "CHR 0x5C \<notin> set s" using assms(1) not_plain by (auto simp: list_all_iff)
  moreover have "set (json_segment x) \<subseteq> set ?q" if "x \<in> set (segs s')" for x using that by auto
  ultimately have "CHR 0x5C \<notin> set (json_segment x)" if "x \<in> set (segs s')" for x using that q(1) by blast
  then have "map json_segment (segs s') = segs s'" using json_segment_cases by (metis map_idI)
  then have "?q = s'" by simp
  with q show ?thesis by simp
qed

section \<open>The canonical JSON\<close>

definition plain_auth :: "ingest_auth \<Rightarrow> bool" where
  "plain_auth a \<longleftrightarrow> plain (ia_type a)
     \<and> (\<forall>c \<in> set_option (ia_oidc a). plain (io_issuer c) \<and> plain (io_jwks_url c) \<and> (\<forall>x \<in> set (io_audiences c). plain x))"

lemma quoted_list_inject:
  "(\<And>x. x \<in> set xs \<Longrightarrow> plain x) \<Longrightarrow>
   str_join CHR '','' (map json_quote xs) @ CHR '']'' # t = str_join CHR '','' (map json_quote ys) @ CHR '']'' # t' \<Longrightarrow>
   xs = ys"
proof (induction xs arbitrary: ys)
  case Nil
  then show ?case by (cases ys; cases "tl ys") (auto simp: json_quote_def)
next
  case (Cons x xs)
  have px: "plain x" using Cons(2) by simp
  obtain r where r: "str_join CHR '','' (map json_quote (x # xs)) @ CHR '']'' # t = json_quote x @ r"
      "r = (if xs = [] then CHR '']'' # t else CHR '','' # str_join CHR '','' (map json_quote xs) @ CHR '']'' # t)"
    by (cases xs) auto
  have "ys \<noteq> []"
  proof
    assume "ys = []"
    with Cons(3) r(1) have "json_quote x @ r = CHR '']'' # t'" by simp
    then show False by (simp add: json_quote_def)
  qed
  then obtain y ys' where ys: "ys = y # ys'" by (cases ys) auto
  obtain r' where r': "str_join CHR '','' (map json_quote ys) @ CHR '']'' # t' = json_quote y @ r'"
      "r' = (if ys' = [] then CHR '']'' # t' else CHR '','' # str_join CHR '','' (map json_quote ys') @ CHR '']'' # t')"
    by (cases ys') (auto simp: ys)
  have "json_quote x @ r = json_quote y @ r'" unfolding r(1) [symmetric] r'(1) [symmetric] by (rule Cons(3))
  from json_quote_inject [OF px this] have e: "x = y" "r = r'" by simp_all
  show ?case
  proof (cases "xs = [] \<or> ys' = []")
    case True
    with e r(2) r'(2) show ?thesis by (auto simp: ys split: if_splits)
  next
    case False
    with e(2) r(2) r'(2) have "xs = ys'" by (intro Cons(1)) (use Cons(2) in auto)
    with e ys show ?thesis by simp
  qed
qed

text \<open>The text after the type, per alternative.\<close>

lemma quote_start: "json_quote s @ t = CHR 0x22 # u \<longleftrightarrow> concat (map json_segment (segs s)) @ CHR 0x22 # t = u"
  by (simp add: json_quote_def)

lemma constant_quotes:
  "json_quote ''type'' = CHR 0x22 # ''type'' @ [CHR 0x22]" "json_quote ''oidc'' = CHR 0x22 # ''oidc'' @ [CHR 0x22]"
  "json_quote ''issuer'' = CHR 0x22 # ''issuer'' @ [CHR 0x22]"
  "json_quote ''jwks_url'' = CHR 0x22 # ''jwks_url'' @ [CHR 0x22]"
  "json_quote ''audiences'' = CHR 0x22 # ''audiences'' @ [CHR 0x22]"
  by code_simp+

lemma auth_text_inject:
  assumes "plain_auth a" "auth_text a = auth_text b"
  shows "a = b"
proof -
  let ?rest = "\<lambda>a. (case ia_oidc a of
        None \<Rightarrow> []
      | Some c \<Rightarrow>
          CHR '','' # json_quote ''oidc'' @ '':{'' @ json_quote ''issuer'' @ CHR '':'' # json_quote (io_issuer c) @
          (if io_jwks_url c = [] then []
           else CHR '','' # json_quote ''jwks_url'' @ CHR '':'' # json_quote (io_jwks_url c)) @
          CHR '','' # json_quote ''audiences'' @ '':['' @ str_join CHR '','' (map json_quote (io_audiences c)) @ '']}'') @
     [CHR ''}'']"
  have "json_quote (ia_type a) @ ?rest a = json_quote (ia_type b) @ ?rest b"
    using assms(2) by (simp add: auth_text_def)
  then have t: "ia_type a = ia_type b" "?rest a = ?rest b"
    using json_quote_inject [of "ia_type a"] assms(1) unfolding plain_auth_def by blast+
  have "ia_oidc a = ia_oidc b"
  proof (cases "ia_oidc a")
    case None
    with t(2) show ?thesis by (cases "ia_oidc b") (simp_all add: constant_quotes)
  next
    case (Some c)
    with t(2) obtain d where d: "ia_oidc b = Some d" by (cases "ia_oidc b") (simp_all add: constant_quotes)
    let ?aud = "\<lambda>c. CHR '','' # json_quote ''audiences'' @ '':['' @ str_join CHR '','' (map json_quote (io_audiences c)) @ '']}}''"
    let ?jwks = "\<lambda>c. if io_jwks_url c = [] then [] else CHR '','' # json_quote ''jwks_url'' @ CHR '':'' # json_quote (io_jwks_url c)"
    have p: "plain (io_issuer c)" "plain (io_jwks_url c)" "\<And>x. x \<in> set (io_audiences c) \<Longrightarrow> plain x"
      using assms(1) Some by (auto simp: plain_auth_def)
    have "json_quote (io_issuer c) @ ?jwks c @ ?aud c = json_quote (io_issuer d) @ ?jwks d @ ?aud d"
      using t(2) by (simp add: Some d)
    with json_quote_inject [OF p(1)] have i: "io_issuer c = io_issuer d" "?jwks c @ ?aud c = ?jwks d @ ?aud d" by blast+
    have j: "io_jwks_url c = io_jwks_url d \<and> ?aud c = ?aud d"
    proof (cases "io_jwks_url c = []")
      case True
      with i(2) show ?thesis by (auto simp: constant_quotes split: if_splits)
    next
      case False
      then have "io_jwks_url d \<noteq> []" using i(2) by (auto simp: constant_quotes)
      with False i(2) have "json_quote (io_jwks_url c) @ ?aud c = json_quote (io_jwks_url d) @ ?aud d" by simp
      with json_quote_inject [OF p(2)] show ?thesis by blast
    qed
    then have "str_join CHR '','' (map json_quote (io_audiences c)) @ CHR '']'' # ''}}'' =
        str_join CHR '','' (map json_quote (io_audiences d)) @ CHR '']'' # ''}}''" by simp
    from quoted_list_inject [OF p(3) this] i(1) j show ?thesis by (simp add: Some d)
  qed
  with t(1) show ?thesis by simp
qed

section \<open>The key of the verifier cache\<close>

definition no_bar :: "verifier_config \<Rightarrow> bool" where
  "no_bar c \<longleftrightarrow> CHR ''|'' \<notin> set (vc_issuer c) \<and> CHR ''|'' \<notin> set (vc_jwks_url c)
     \<and> (\<forall>a \<in> set (vc_audiences c). CHR ''|'' \<notin> set a)"

lemma set_str_join: "x \<in> set (str_join c ts) \<Longrightarrow> x = c \<or> (\<exists>t \<in> set ts. x \<in> set t)"
  by (induction c ts rule: str_join.induct) auto

lemma cache_key_inject:
  assumes "no_bar c" "verifier_cache_key d = verifier_cache_key c"
  shows "vc_issuer d = vc_issuer c \<and> vc_jwks_url d = vc_jwks_url c
    \<and> str_join CHR '','' (sort (vc_audiences d)) = str_join CHR '','' (sort (vc_audiences c))"
proof -
  let ?parts = "\<lambda>c. [vc_issuer c, vc_jwks_url c, str_join CHR '','' (sort (vc_audiences c))]"
  have "CHR ''|'' \<notin> set t" if "t \<in> set (?parts c)" for t
    using that assms(1) set_str_join [of "CHR ''|''" "CHR '',''" "sort (vc_audiences c)"] by (auto simp: no_bar_def)
  moreover have "str_join CHR ''|'' (?parts d) = str_join CHR ''|'' (?parts c)"
    using assms(2) by (simp add: verifier_cache_key_def)
  ultimately have "?parts d = ?parts c" by (intro str_join_inject) auto
  then show ?thesis by simp
qed

end
