(* ===== verification/IngestSafety.thy ===== *)
theory IngestSafety imports IngestLaws AuthText begin

text \<open>
  Who may add check rows through ingestion, how long a verifier lives, and what an ingested heartbeat
  means to the scheduler. Concrete requests on which the properties of ingestion apply.
\<close>

section \<open>Verifiers are configured as the organisation asks\<close>

text \<open>A verifier uses the issuer, and the address if there is one, of its configuration.\<close>

definition uses :: "verifier_config \<Rightarrow> token_verifier \<Rightarrow> bool" where
  "uses cfg tv \<longleftrightarrow> tv_issuer tv = vc_issuer cfg \<and> (vc_jwks_url cfg \<noteq> [] \<longrightarrow> tv_jwks_url tv = vc_jwks_url cfg)"

definition fits :: "verifier \<Rightarrow> bool" where
  "fits v \<longleftrightarrow> (\<forall>tv. vf_token v = Some tv \<longrightarrow> uses (vf_config v) tv)"

definition made :: "verifier_heap \<Rightarrow> nat \<Rightarrow> string \<Rightarrow> bool" where
  "made heap v k \<longleftrightarrow> v < length heap \<and> fits (heap ! v) \<and> verifier_cache_key (vf_config (heap ! v)) = k"

lemma made_append: "made heap v k \<Longrightarrow> made (heap @ vs) v k"
  by (simp add: made_def nth_append)

lemma made_new: "made (heap @ [new_verifier cfg]) (length heap) (verifier_cache_key cfg)"
  by (simp add: made_def new_verifier_def fits_def)

lemma made_update: "made heap v k \<Longrightarrow> fits x \<Longrightarrow> vf_config x = vf_config (heap ! h) \<Longrightarrow> made (heap[h := x]) v k"
  by (cases "v = h") (auto simp: made_def)

lemma verifier_init_ok:
  "verifier_init lib now v = (r, x) \<Longrightarrow> fits v \<Longrightarrow>
   fits x \<and> vf_config x = vf_config v \<and> (\<forall>tv. r = Inr tv \<longrightarrow> uses (vf_config v) tv)"
  by (auto simp: verifier_init_def build_token_verifier_def fits_def uses_def split: option.splits sum.splits if_splits)

lemma verify_ok:
  assumes "verify lib heap now h raw = (r, heap')" "made heap h k"
  shows "(\<forall>v j. made heap v j \<longrightarrow> made heap' v j)
    \<and> (\<forall>idt. r = Inr idt \<longrightarrow> (\<exists>cfg tv. verifier_cache_key cfg = k \<and> uses cfg tv
          \<and> ol_verify lib tv now raw = Inr idt \<and> audience_matches (it_audience idt) (vc_audiences cfg)))"
proof (cases "looks_like_jwt raw")
  case True
  obtain o' x where i: "verifier_init lib now (heap ! h) = (o', x)" by fastforce
  have f: "fits x" "vf_config x = vf_config (heap ! h)" "\<And>tv. o' = Inr tv \<Longrightarrow> uses (vf_config (heap ! h)) tv"
    using verifier_init_ok [OF i] assms(2) by (auto simp: made_def)
  have h: "heap' = heap[h := x]" using assms(1) True i by (auto simp: verify_def split: sum.splits)
  have "\<exists>cfg tv. verifier_cache_key cfg = k \<and> uses cfg tv \<and> ol_verify lib tv now raw = Inr idt
      \<and> audience_matches (it_audience idt) (vc_audiences cfg)" if "r = Inr idt" for idt
    using that assms True i f(2,3)
    by (auto simp: verify_def verify_with_def made_def split: sum.splits if_splits)
  then show ?thesis using h f(1,2) made_update by auto
qed (use assms(1) in \<open>auto simp: verify_def\<close>)

definition pool_ok :: "verifier_heap \<Rightarrow> verifier_cache \<Rightarrow> bool" where
  "pool_ok heap c \<longleftrightarrow> (\<forall>k v x. vch_items c k = Some (v, x) \<longrightarrow> made heap v k)"

definition verifiers_ok :: "ingest_state \<Rightarrow> bool" where
  "verifiers_ok st \<longleftrightarrow> pool_ok (is_heap st) (is_pool st)
   \<and> (\<forall>org a v. is_org_cache st org = Some (a, v) \<longrightarrow>
        (\<exists>c. ia_oidc a = Some c \<and> made (is_heap st) v (verifier_cache_key (config_of c))))"

lemma verifiers_ok_frame:
  "is_pool st' = is_pool st \<Longrightarrow> is_org_cache st' = is_org_cache st \<Longrightarrow>
   (\<And>v k. made (is_heap st) v k \<Longrightarrow> made (is_heap st') v k) \<Longrightarrow> verifiers_ok st \<Longrightarrow> verifiers_ok st'"
  unfolding verifiers_ok_def pool_ok_def by metis

lemma pool_ok_append: "pool_ok heap c \<Longrightarrow> pool_ok (heap @ vs) c"
  by (auto simp: pool_ok_def intro: made_append)

lemma vch_get_ok:
  assumes g: "vch_get t1 t2 cfg heap c = (v, heap', c')" and ok: "pool_ok heap c"
  shows "made heap' v (verifier_cache_key cfg) \<and> (\<exists>vs. heap' = heap @ vs) \<and> pool_ok heap' c'"
proof -
  let ?k = "verifier_cache_key cfg"
  obtain o' c1 where l: "vch_lookup t1 ?k c = (o', c1)" by fastforce
  have c1: "pool_ok heap c1" "\<And>u. o' = Some u \<Longrightarrow> made heap u ?k"
    using l ok by (auto simp: vch_lookup_def pool_ok_def split: option.splits if_splits)
  show ?thesis
  proof (cases o')
    case (Some u)
    then show ?thesis using g l c1 by (auto simp: vch_get_def)
  next
    case None
    obtain u c2 where i: "vch_insert t2 ?k (length heap) c1 = (u, c2)" by fastforce
    have "made (heap @ [new_verifier cfg]) u ?k" "pool_ok (heap @ [new_verifier cfg]) c2"
      using i pool_ok_append [OF c1(1), of "[new_verifier cfg]"] made_new [of heap cfg]
      by (auto simp: vch_insert_def Let_def pool_ok_def split: option.splits if_splits)
    then show ?thesis using g l None i by (auto simp: vch_get_def)
  qed
qed

lemma resolve_verifier_cases:
  assumes "resolve_verifier t1 t2 org auth st = (Some v, st')"
  obtains (cached) prev where "is_org_cache st org = Some (prev, v)" "auth_text prev = auth_text auth" "st' = st"
  | (built) c pool where "ia_oidc auth = Some c"
      "vch_get t1 t2 (config_of c) (is_heap st) (is_pool st) = (v, is_heap st', pool)"
      "is_org_cache st' = (is_org_cache st)(org := Some (auth, v))"
      "is_pool st' = pool \<or> (\<exists>p. is_pool st' = vch_invalidate p pool)"
proof (cases "\<exists>prev. is_org_cache st org = Some (prev, v) \<and> auth_text prev = auth_text auth \<and> st' = st")
  case True
  then show thesis using cached by blast
next
  case False
  from assms obtain c where c: "ia_oidc auth = Some c" by (auto simp: resolve_verifier_def split: option.splits)
  obtain u heap pool where g: "vch_get t1 t2 (config_of c) (is_heap st) (is_pool st) = (u, heap, pool)"
    using prod_cases3 by blast
  show thesis
    using False assms c g
    by (intro built [of c pool]) (auto simp: resolve_verifier_def Let_def split: option.splits if_splits prod.splits)
qed

lemma resolve_verifier_ok:
  assumes "resolve_verifier t1 t2 org auth st = (Some v, st')" "verifiers_ok st"
  shows "verifiers_ok st' \<and> (\<exists>a c. auth_text a = auth_text auth \<and> ia_oidc a = Some c
    \<and> made (is_heap st') v (verifier_cache_key (config_of c)))"
  using assms(1)
proof (cases rule: resolve_verifier_cases)
  case (cached prev)
  with assms(2) show ?thesis unfolding verifiers_ok_def by blast
next
  case (built c pool)
  have p: "pool_ok (is_heap st) (is_pool st)" using assms(2) by (simp add: verifiers_ok_def)
  note g = vch_get_ok [OF built(2) p]
  have "pool_ok (is_heap st') (is_pool st')"
    using g built(4) by (auto simp: pool_ok_def vch_invalidate_def split: if_splits)
  moreover have "\<exists>c'. ia_oidc a = Some c' \<and> made (is_heap st') u (verifier_cache_key (config_of c'))"
    if "is_org_cache st' o' = Some (a, u)" for o' a u
    using that built(1,3) g assms(2) made_append unfolding verifiers_ok_def by (auto split: if_splits) metis
  ultimately show ?thesis using g built(1) unfolding verifiers_ok_def by blast
qed

section \<open>Who may add rows\<close>

text \<open>
  The bearer token was verified against the issuer, the key address and the audiences the organisation
  configured, up to the text of the joined audiences.
\<close>

definition token_checked :: "ingest_env \<Rightarrow> gotime \<Rightarrow> headers \<Rightarrow> ingest_oidc \<Rightarrow> string \<Rightarrow> bool" where
  "token_checked env now hs c sub \<longleftrightarrow>
     (\<exists>bearer idt cfg tv. bearer_from_request hs = Some bearer \<and> ol_verify (ie_oidc env) tv now bearer = Inr idt
        \<and> it_subject idt = sub \<and> uses cfg tv \<and> audience_matches (it_audience idt) (vc_audiences cfg)
        \<and> verifier_cache_key cfg = verifier_cache_key (config_of c))"

definition admitted :: "ingest_env \<Rightarrow> gotime \<Rightarrow> headers \<Rightarrow> string \<Rightarrow> ingest_state \<Rightarrow> string \<Rightarrow> bool" where
  "admitted env now hs org st sub \<longleftrightarrow>
     (\<exists>auth. load_ingest_config env st org = Some auth
        \<and> (ia_type auth = ''oidc'' \<longrightarrow>
             (\<exists>a c. auth_text a = auth_text auth \<and> ia_oidc a = Some c \<and> token_checked env now hs c sub)))"

lemma authorise_ok:
  assumes a: "authorise env clock hs m st = (r, st1)" and ok: "verifiers_ok st"
  shows "verifiers_ok st1 \<and> (\<forall>sub. r = Inr sub \<longrightarrow> admitted env (clock 2) hs (mon_org m) st sub)"
proof (cases "\<exists>auth bearer. load_ingest_config env st (mon_org m) = Some auth \<and> ia_type auth = ''oidc''
    \<and> bearer_from_request hs = Some bearer")
  case False
  then show ?thesis
    using a ok by (auto simp: authorise_def admitted_def split: option.splits if_splits)
next
  case True
  then obtain auth bearer where b: "load_ingest_config env st (mon_org m) = Some auth" "ia_type auth = ''oidc''"
    "bearer_from_request hs = Some bearer" by blast
  obtain o' st2 where v: "resolve_verifier (clock 0) (clock 1) (mon_org m) auth st = (o', st2)" by fastforce
  show ?thesis
  proof (cases o')
    case None
    with v have "st2 = st"
      by (auto simp: resolve_verifier_def Let_def split: option.splits if_splits prod.splits)
    with a b v None ok show ?thesis by (auto simp: authorise_def)
  next
    case (Some h)
    obtain c a' where c: "auth_text a' = auth_text auth" "ia_oidc a' = Some c"
      "made (is_heap st2) h (verifier_cache_key (config_of c))" and ok2: "verifiers_ok st2"
      using resolve_verifier_ok [OF v [unfolded Some] ok] by blast
    obtain x heap where x: "verify (ie_oidc env) (is_heap st2) (clock 2) h bearer = (x, heap)" by fastforce
    note k = verify_ok [OF x c(3)]
    have st1: "st1 = st2\<lparr>is_heap := heap\<rparr>" "\<And>sub. r = Inr sub \<Longrightarrow> \<exists>idt. x = Inr idt \<and> it_subject idt = sub"
      using a b v Some x by (auto simp: authorise_def split: sum.splits)
    have "verifiers_ok st1" using k ok2 by (intro verifiers_ok_frame [of st1 st2]) (auto simp: st1(1))
    moreover have "admitted env (clock 2) hs (mon_org m) st sub" if "r = Inr sub" for sub
      using st1(2) [OF that] k b c(1,2) unfolding admitted_def token_checked_def by blast
    ultimately show ?thesis by blast
  qed
qed

section \<open>What a request writes\<close>

text \<open>The verifiers, their caches and the settings stay as they are.\<close>

definition same_memory :: "ingest_state \<Rightarrow> ingest_state \<Rightarrow> bool" where
  "same_memory st st' \<longleftrightarrow> is_heap st' = is_heap st \<and> is_pool st' = is_pool st
     \<and> is_org_cache st' = is_org_cache st \<and> is_settings st' = is_settings st"

lemma same_memory_trans: "same_memory a b \<Longrightarrow> same_memory b c \<Longrightarrow> same_memory a c"
  by (simp add: same_memory_def)

lemma same_memory_records [simp]:
  "same_memory st st" "same_memory st (record_ingested ty r st)" "same_memory st (record_duplicate ty st)"
  "same_memory st (record_ingested ty r (record_duplicate ty st))" "same_memory st (snd (finalize ty a st))"
  by (simp_all add: same_memory_def record_ingested_def record_duplicate_def finalize_def Let_def)

lemma apply_event_memory: "apply_event t1 t2 m sub ev st = (r, st') \<Longrightarrow> same_memory st st'"
  by (auto simp: same_memory_def apply_event_def try_seen_def split: prod.splits sum.splits option.splits if_splits bool.splits)

text \<open>At most \<open>n\<close> check rows of monitor \<open>i\<close> are written, and nothing else.\<close>

definition rows_added :: "string \<Rightarrow> nat \<Rightarrow> world \<Rightarrow> world \<Rightarrow> bool" where
  "rows_added i n w w' \<longleftrightarrow> only_checks w w' \<and> (\<exists>rows. w_checks w' = w_checks w @ rows \<and> length rows \<le> n
     \<and> (\<forall>c \<in> set rows. chk_monitor c = i \<and> chk_status c \<in> {StatusUp, StatusDown, StatusDegraded}))"

lemma rows_added_refl [simp]: "rows_added i n w w"
  by (simp add: rows_added_def)

lemma rows_added_trans: "rows_added i n u v \<Longrightarrow> rows_added i k v w \<Longrightarrow> rows_added i (n + k) u w"
  unfolding rows_added_def using only_checks_trans by force

lemma rows_added_mono: "rows_added i n u v \<Longrightarrow> n \<le> k \<Longrightarrow> rows_added i k u v"
  unfolding rows_added_def by fastforce

lemma apply_event_rows:
  assumes "apply_event t1 t2 m sub ev st = (r, st')"
  shows "rows_added (mon_id m) 1 (is_world st) (is_world st')"
  using assms
proof (cases rule: apply_event_cases)
  case (claimed st1)
  then show ?thesis by (auto simp: rows_added_def)
qed simp

lemma apply_events_effect:
  "apply_events clock k m sub evs st = (r, st') \<Longrightarrow>
   rows_added (mon_id m) (length evs) (is_world st) (is_world st') \<and> same_memory st st'"
proof (induction clock k m sub evs st arbitrary: r st' rule: apply_events.induct)
  case (2 clock k m sub ev evs st)
  obtain x st1 where a: "apply_event (clock k) (clock (Suc k)) m sub ev st = (x, st1)" by fastforce
  note one = apply_event_rows [OF a] apply_event_memory [OF a]
  have rest: "rows_added (mon_id m) (length (ev # evs)) (is_world st) (is_world st') \<and> same_memory st st'"
    if "rows_added (mon_id m) (length evs) (is_world st1) (is_world st')" "same_memory st1 st'"
    using rows_added_trans [OF one(1) that(1)] same_memory_trans [OF one(2) that(2)] by simp
  show ?case
  proof (cases x)
    case (Inl e)
    with 2(3) a one rows_added_mono [OF one(1), of "length (ev # evs)"] show ?thesis by simp
  next
    case (Inr dup)
    show ?thesis
    proof (cases dup)
      case True
      with 2(1) [OF a [symmetric] Inr] 2(3) a Inr same_memory_trans [OF same_memory_records(4)]
      show ?thesis by (intro rest) auto
    next
      case False
      with 2(2) [OF a [symmetric] Inr] 2(3) a Inr same_memory_trans [OF same_memory_records(2)]
      show ?thesis by (intro rest) auto
    qed
  qed
qed simp

lemma ingest_events_effect:
  assumes "ingest_events env clock m sub evs st = (ans, st')"
  shows "rows_added (mon_id m) 256 (is_world st) (is_world st') \<and> same_memory st st'"
proof -
  obtain r s1 where a: "apply_events clock 3 m sub evs st = (r, s1)" by fastforce
  note e = apply_events_effect [OF a]
  have fin: "rows_added i n w (is_world (snd (finalize ty x s1))) \<and> same_memory st (snd (finalize ty x s1))"
    if "rows_added i n w (is_world s1)" "same_memory st s1" for i n w ty x
    using that same_memory_trans [OF that(2) same_memory_records(5)] by simp
  have "rows_added (mon_id m) 256 (is_world st) (is_world (snd (ingest_events env clock m sub evs st)))
      \<and> same_memory st (snd (ingest_events env clock m sub evs st))"
    using e fin rows_added_mono [of "mon_id m" "length evs" _ _ 256]
    by (auto simp: ingest_events_def a split: option.split apply_error.split)
  then show ?thesis by (simp add: assms)
qed

lemma ingest_cases:
  assumes "ingest env clock req st = (ans, st')"
  obtains (refused) "is_world st' = is_world st" "same_memory st st'"
  | (authorised) m r st1 where "monitors_by_key (is_world st) (ir_token req) = Inr m" "mon_integration_key m = ir_token req"
      "ir_token req \<noteq> []" "authorise env clock (ir_headers req) m st = (r, st1)" "same_memory st1 st'"
      "is_world st' = is_world st \<or> (\<exists>sub. r = Inr sub) \<and> rows_added (mon_id m) 256 (is_world st) (is_world st')"
proof (cases "\<exists>m. monitors_by_key (is_world st) (ir_token req) = Inr m \<and> mon_integration_key m = ir_token req \<and> ir_token req \<noteq> []")
  case False
  have "is_world (snd (ingest env clock req st)) = is_world st \<and> same_memory st (snd (ingest env clock req st))"
    using False by (auto simp: ingest_def split: sum.split)
  then show thesis using assms by (intro refused) simp_all
next
  case True
  then obtain m where m: "monitors_by_key (is_world st) (ir_token req) = Inr m" "mon_integration_key m = ir_token req"
    "ir_token req \<noteq> []" by blast
  obtain r st1 where a: "authorise env clock (ir_headers req) m st = (r, st1)" by fastforce
  have w: "is_world st1 = is_world st" using authorise_frame [OF a] by simp
  have "same_memory st1 (snd (ingest env clock req st))
    \<and> (is_world (snd (ingest env clock req st)) = is_world st
       \<or> (\<exists>sub. r = Inr sub) \<and> rows_added (mon_id m) 256 (is_world st) (is_world (snd (ingest env clock req st))))"
    using m a w ingest_events_effect [OF surjective_pairing, where st = st1 and m = m]
    by (auto simp: ingest_def split: sum.split option.split)
  then show thesis using m a assms by (intro authorised [of m r st1]) simp_all
qed

lemma made_same: "same_memory st st' \<Longrightarrow> verifiers_ok st \<Longrightarrow> verifiers_ok st'"
  by (intro verifiers_ok_frame [of st' st]) (simp_all add: same_memory_def)

lemma ingest_keeps_verifiers_ok:
  assumes "ingest env clock req st = (ans, st')" "verifiers_ok st"
  shows "verifiers_ok st'"
  using assms(1)
proof (cases rule: ingest_cases)
  case (authorised m r st1)
  then show ?thesis using authorise_ok [OF authorised(4) assms(2)] made_same by blast
qed (use made_same assms(2) in blast)

text \<open>
  The request carries a token of subject \<open>sub\<close> that the library verified for the issuer and the
  address of the configuration, and for one of its audiences as far as their joined text tells.
\<close>

definition verified_for :: "ingest_env \<Rightarrow> gotime \<Rightarrow> headers \<Rightarrow> ingest_oidc \<Rightarrow> string \<Rightarrow> bool" where
  "verified_for env now hs c sub \<longleftrightarrow>
     (\<exists>bearer idt tv auds. bearer_from_request hs = Some bearer \<and> ol_verify (ie_oidc env) tv now bearer = Inr idt
        \<and> it_subject idt = sub \<and> tv_issuer tv = io_issuer c
        \<and> (io_jwks_url c \<noteq> [] \<longrightarrow> tv_jwks_url tv = io_jwks_url c) \<and> audience_matches (it_audience idt) auds
        \<and> str_join CHR '','' (sort auds) = str_join CHR '','' (sort (io_audiences c)))"

text \<open>With plain strings, the configuration that was checked is the one the organisation stores.\<close>

definition plain_setting :: "ingest_auth \<Rightarrow> bool" where
  "plain_setting a \<longleftrightarrow> plain_auth a \<and> (\<forall>c \<in> set_option (ia_oidc a). no_bar (config_of c))"

lemma admitted_plain:
  assumes "admitted env now hs org st sub" "load_ingest_config env st org = Some auth" "ia_type auth = ''oidc''"
    and "plain_setting auth"
  shows "\<exists>c. ia_oidc auth = Some c \<and> verified_for env now hs c sub"
proof -
  obtain a c where a: "auth_text a = auth_text auth" "ia_oidc a = Some c" "token_checked env now hs c sub"
    using assms(1-3) by (auto simp: admitted_def)
  have "a = auth" using auth_text_inject [of auth a] a(1) assms(4) by (simp add: plain_setting_def)
  then have c: "ia_oidc auth = Some c" "no_bar (config_of c)" using a(2) assms(4) by (auto simp: plain_setting_def)
  from a(3) obtain bearer idt cfg tv where b: "bearer_from_request hs = Some bearer"
    "ol_verify (ie_oidc env) tv now bearer = Inr idt" "it_subject idt = sub" "uses cfg tv"
    "audience_matches (it_audience idt) (vc_audiences cfg)"
    "verifier_cache_key cfg = verifier_cache_key (config_of c)" by (auto simp: token_checked_def)
  from cache_key_inject [OF c(2) b(6)]
  have "vc_issuer cfg = io_issuer c" "vc_jwks_url cfg = io_jwks_url c"
    "str_join CHR '','' (sort (vc_audiences cfg)) = str_join CHR '','' (sort (io_audiences c))"
    by (simp_all add: config_of_def)
  with b have "verified_for env now hs c sub" unfolding verified_for_def uses_def by metis
  with c(1) show ?thesis by blast
qed


end
