(* ===== verification/IngestRuns.thy ===== *)
theory IngestRuns imports IngestSafety begin

text \<open>
  Runs of ingest requests: a verifier an organisation uses is not replaced while its configuration stays,
  whatever its age; and what an ingested heartbeat means to the scheduler. Then concrete requests on
  which the properties of ingestion apply.
\<close>

section \<open>Verifiers do not expire\<close>

text \<open>
  The organisation's verifier is \<open>v\<close>, it was built as \<open>tv\<close>, and the configuration it was made for is the
  stored one.
\<close>

definition settled :: "ingest_env \<Rightarrow> string \<Rightarrow> ingest_auth \<Rightarrow> nat \<Rightarrow> verifier \<Rightarrow> ingest_state \<Rightarrow> bool" where
  "settled env org auth v x st \<longleftrightarrow> load_ingest_config env st org = Some auth \<and> ia_oidc auth \<noteq> None
     \<and> (\<exists>prev. is_org_cache st org = Some (prev, v) \<and> auth_text prev = auth_text auth)
     \<and> v < length (is_heap st) \<and> is_heap st ! v = x \<and> vf_token x \<noteq> None"

lemma load_ingest_config_cong:
  assumes "only_checks (is_world st) (is_world st')" "is_settings st' = is_settings st"
  shows "load_ingest_config env st' org = load_ingest_config env st org"
proof -
  have "w_fails (is_world st') = w_fails (is_world st)"
    using arg_cong [OF assms(1) [unfolded only_checks_def], of w_fails] by simp
  then show ?thesis using assms(2) by (simp add: load_ingest_config_def settings_get_def)
qed

lemma settled_resolves: "settled env org auth v x st \<Longrightarrow> resolve_verifier t1 t2 org auth st = (Some v, st)"
  by (auto simp: settled_def resolve_verifier_def Let_def split: option.splits)

lemma verifier_init_built: "vf_token x = Some tv \<Longrightarrow> verifier_init lib now x = (Inr tv, x)"
  by (simp add: verifier_init_def)

lemma verify_keeps_built:
  assumes "verify lib heap now h raw = (r, heap')" "v < length heap" "vf_token (heap ! v) \<noteq> None"
  shows "v < length heap' \<and> heap' ! v = heap ! v"
proof -
  obtain tv where "vf_token (heap ! v) = Some tv" using assms(3) by blast
  with assms show ?thesis
    by (cases "h = v") (auto simp: verify_def verifier_init_built split: sum.splits prod.splits if_splits)
qed

lemma vch_get_heap: "vch_get t1 t2 cfg heap c = (u, heap', c') \<Longrightarrow> \<exists>vs. heap' = heap @ vs"
  by (auto simp: vch_get_def split: option.splits prod.splits)

lemma resolve_keeps_built:
  assumes "resolve_verifier t1 t2 o' auth' st = (r, st1)" "v < length (is_heap st)"
  shows "v < length (is_heap st1) \<and> is_heap st1 ! v = is_heap st ! v \<and> is_settings st1 = is_settings st
    \<and> (o' \<noteq> org \<longrightarrow> is_org_cache st1 org = is_org_cache st org)"
  using assms
  by (auto simp: resolve_verifier_def Let_def nth_append split: option.splits if_splits prod.splits
      dest!: vch_get_heap)

lemma authorise_settings: "authorise env clock hs m st = (r, st1) \<Longrightarrow> is_settings st1 = is_settings st"
proof -
  have "resolve_verifier t1 t2 o' auth st = (x, s) \<Longrightarrow> is_settings s = is_settings st" for t1 t2 o' auth x s
    by (auto simp: resolve_verifier_def Let_def split: option.splits if_splits prod.splits)
  then show "authorise env clock hs m st = (r, st1) \<Longrightarrow> is_settings st1 = is_settings st"
    by (auto simp: authorise_def split: option.splits if_splits prod.splits sum.splits)
qed

lemma authorise_settled:
  assumes a: "authorise env clock hs m st = (r, st1)" and s: "settled env org auth v x st"
  shows "settled env org auth v x st1"
proof -
  have load: "load_ingest_config env st1 org = load_ingest_config env st org"
    using authorise_frame [OF a] authorise_settings [OF a] by (intro load_ingest_config_cong) simp_all
  have b: "v < length (is_heap st)" "vf_token (is_heap st ! v) \<noteq> None" "is_heap st ! v = x"
    using s by (simp_all add: settled_def)
  have "v < length (is_heap st1) \<and> is_heap st1 ! v = x \<and> is_org_cache st1 org = is_org_cache st org"
  proof (cases "\<exists>auth' bearer. load_ingest_config env st (mon_org m) = Some auth' \<and> ia_type auth' = ''oidc''
      \<and> bearer_from_request hs = Some bearer")
    case False
    then have "st1 = st" using a by (auto simp: authorise_def split: option.splits if_splits)
    with b show ?thesis by simp
  next
    case True
    then obtain auth' bearer where c: "load_ingest_config env st (mon_org m) = Some auth'" "ia_type auth' = ''oidc''"
      "bearer_from_request hs = Some bearer" by blast
    obtain o' st2 where r: "resolve_verifier (clock 0) (clock 1) (mon_org m) auth' st = (o', st2)" by fastforce
    have k: "v < length (is_heap st2)" "is_heap st2 ! v = is_heap st ! v" "is_org_cache st2 org = is_org_cache st org"
      using resolve_keeps_built [OF r b(1), of org] settled_resolves [OF s] r c(1) s
      by (cases "mon_org m = org"; auto simp: settled_def)+
    show ?thesis
    proof (cases o')
      case None
      with a c r k b show ?thesis by (simp add: authorise_def)
    next
      case (Some h)
      obtain y heap where y: "verify (ie_oidc env) (is_heap st2) (clock 2) h bearer = (y, heap)" by fastforce
      from verify_keeps_built [OF y k(1)] k b have "v < length heap \<and> heap ! v = x" by simp
      moreover have "st1 = st2\<lparr>is_heap := heap\<rparr>" using a c r Some y by (cases y) (simp_all add: authorise_def)
      ultimately show ?thesis using k(3) by simp
    qed
  qed
  with s load show ?thesis by (auto simp: settled_def)
qed

lemma settled_same:
  assumes "same_memory st st'" "only_checks (is_world st) (is_world st')" "settled env org auth v x st"
  shows "settled env org auth v x st'"
  using assms load_ingest_config_cong [OF assms(2), of env org] by (simp add: settled_def same_memory_def)

lemma ingest_settled:
  assumes "ingest env clock req st = (ans, st')" "settled env org auth v x st"
  shows "settled env org auth v x st'"
  using assms(1)
proof (cases rule: ingest_cases)
  case refused
  then show ?thesis using settled_same [OF refused(2) _ assms(2)] by simp
next
  case (authorised m r st1)
  have "only_checks (is_world st) (is_world st')" using authorised(6) by (auto simp: rows_added_def)
  then show ?thesis
    using settled_same [OF authorised(5) _ authorise_settled [OF authorised(4) assms(2)]]
      authorise_frame [OF authorised(4)] by simp
qed

inductive ingest_run :: "ingest_env \<Rightarrow> ingest_state \<Rightarrow> ingest_state \<Rightarrow> bool" for env where
  request: "ingest env clock req st = (ans, st') \<Longrightarrow> ingest_run env st st'"

interpretation settled_runs: invariant_system "ingest_run env" "settled env org auth v x" for env org auth v x
  by standard (auto elim!: ingest_run.cases intro: ingest_settled)

text \<open>
  As long as an organisation keeps its configuration, it keeps its verifier, built once: whatever
  requests of whatever organisations come in between, at whatever time, the next request of the
  organisation is verified with the key set of that first build, and the lifetime of the verifier cache,
  ten minutes, has no effect.
\<close>

theorem verifier_outlives_its_ttl:
  assumes "settled env org auth v x st" "(ingest_run env)\<^sup>*\<^sup>* st st'" "vf_token x = Some tv"
  shows "resolve_verifier t1 t2 org auth st' = (Some v, st')
    \<and> verify (ie_oidc env) (is_heap st') now v raw =
        (if looks_like_jwt raw then verify_with (ie_oidc env) now raw (vf_config x) tv else Inl ErrMalformedToken,
         is_heap st')"
proof -
  have s: "settled env org auth v x st'" using settled_runs.reachable_keeps [OF assms(2,1)] .
  then have "is_heap st' ! v = x" "(is_heap st')[v := x] = is_heap st'" by (auto simp: settled_def)
  with settled_resolves [OF s] assms(3) show ?thesis by (simp add: verify_def verifier_init_built)
qed

section \<open>Heartbeats through ingestion are no pings\<close>

text \<open>The two letters that the search for pings needs, next to each other.\<close>

definition letter_i :: "char \<Rightarrow> bool" where
  "letter_i c \<longleftrightarrow> fold_char c = fold_char CHR ''i''"

definition letter_p :: "char \<Rightarrow> bool" where
  "letter_p c \<longleftrightarrow> fold_char c = fold_char CHR ''p''"

fun has_ip :: "string \<Rightarrow> bool" where
  "has_ip (c # d # s) = (letter_i c \<and> letter_p d \<or> has_ip (d # s))"
| "has_ip _ = False"

lemma has_ip_Cons: "has_ip s \<Longrightarrow> has_ip (c # s)"
  by (cases s) auto

lemma has_ip_suffix: "has_ip (dropWhile p s) \<Longrightarrow> has_ip s"
  by (induction s) (auto split: if_splits intro: has_ip_Cons)

lemma like_ip: "like_prefix ''ip'' s \<Longrightarrow> has_ip s"
  by (cases s; cases "tl s") (auto simp: letter_i_def letter_p_def)

lemma like_step: "like_prefix (c # pat) s \<Longrightarrow> (\<And>t. like_prefix pat t \<Longrightarrow> has_ip t) \<Longrightarrow> has_ip s"
  by (cases s) (auto split: if_splits intro: has_ip_Cons dest: has_ip_suffix)

lemma like_source_ip: "like_prefix ''source_ip'' s \<Longrightarrow> has_ip s"
  by (erule like_step, erule like_step, erule like_step, erule like_step, erule like_step, erule like_step, erule like_step, erule like_ip)

lemma contains_source_ip: "like_contains s ''source_ip'' \<Longrightarrow> has_ip s"
proof (induction s)
  case Nil
  then show ?case by simp
next
  case (Cons c s)
  then show ?case by (auto simp del: like_prefix.simps intro: has_ip_Cons like_source_ip)
qed

lemma letters [simp]:
  "list_all (\<lambda>c. \<not> letter_i c) (CHR 0x22 # '',:{}oevntdsurcb_'')" "\<not> letter_i (CHR 0x22)" "\<not> letter_p (CHR 0x22)"
  by code_simp+

lemma has_ip_other: "\<not> letter_i c \<Longrightarrow> has_ip (c # t) = has_ip t"
  by (cases t) auto

lemma has_ip_quote [simp]: "has_ip (s @ CHR 0x22 # t) \<longleftrightarrow> has_ip s \<or> has_ip t"
proof (induction s)
  case (Cons c s)
  then show ?case by (cases s) (auto simp: has_ip_other)
qed (simp add: has_ip_other)

lemma plain_keys:
  "json_quote ''source'' = CHR 0x22 # ''source'' @ [CHR 0x22]" "json_quote ''event_id'' = CHR 0x22 # ''event_id'' @ [CHR 0x22]"
  "json_quote ''oidc_sub'' = CHR 0x22 # ''oidc_sub'' @ [CHR 0x22]"
  by code_simp+

lemma key_order:
  "sort_key fst (last_wins [(''source'', a), (''event_id'', b)]) = [(''event_id'', b), (''source'', a)]"
  "sort_key fst (last_wins [(''source'', a), (''event_id'', b), (''oidc_sub'', c)]) =
     [(''event_id'', b), (''oidc_sub'', c), (''source'', a)]"
  by simp_all

text \<open>The texts of an event that the search for pings reads.\<close>

definition no_ip_event :: "sdk_event \<Rightarrow> string \<Rightarrow> bool" where
  "no_ip_event ev sub \<longleftrightarrow> se_data ev = [] \<and> (\<forall>s \<in> {se_id ev, se_source ev, sub}. plain s \<and> \<not> has_ip s)"

lemma heartbeat_metadata_no_ip:
  assumes "no_ip_event ev sub"
  shows "\<not> has_ip (heartbeat_metadata ev sub)"
proof -
  have p: "json_quote (se_id ev) = CHR 0x22 # se_id ev @ [CHR 0x22]" "json_quote (se_source ev) = CHR 0x22 # se_source ev @ [CHR 0x22]"
    "json_quote sub = CHR 0x22 # sub @ [CHR 0x22]"
    using assms by (simp_all add: no_ip_event_def json_quote_plain)
  have q: "has_ip (CHR 0x22 # t) = has_ip t" for t by (simp add: has_ip_other)
  have k: "\<not> has_ip ''event_id''" "\<not> has_ip ''source''" "\<not> has_ip ''oidc_sub''" "\<not> has_ip '',''" "\<not> has_ip '':''"
    "\<not> has_ip ''{''" "\<not> has_ip ''}''"
    by code_simp+
  show ?thesis
  proof (cases "sub = []")
    case True
    have "heartbeat_metadata ev sub = ''{'' @ CHR 0x22 # ''event_id'' @ CHR 0x22 # '':'' @ CHR 0x22 # se_id ev @ CHR 0x22 # '','' @
        CHR 0x22 # ''source'' @ CHR 0x22 # '':'' @ CHR 0x22 # se_source ev @ CHR 0x22 # ''}''"
      using assms True by (simp add: heartbeat_metadata_def subject_member_def no_ip_event_def key_order plain_keys p)
    then show ?thesis using assms by (simp only: has_ip_quote q k) (simp add: no_ip_event_def)
  next
    case False
    have "heartbeat_metadata ev sub = ''{'' @ CHR 0x22 # ''event_id'' @ CHR 0x22 # '':'' @ CHR 0x22 # se_id ev @ CHR 0x22 # '','' @
        CHR 0x22 # ''oidc_sub'' @ CHR 0x22 # '':'' @ CHR 0x22 # sub @ CHR 0x22 # '','' @
        CHR 0x22 # ''source'' @ CHR 0x22 # '':'' @ CHR 0x22 # se_source ev @ CHR 0x22 # ''}''"
      using assms False by (simp add: heartbeat_metadata_def subject_member_def no_ip_event_def key_order plain_keys p)
    then show ?thesis using assms by (simp only: has_ip_quote q k) (simp add: no_ip_event_def)
  qed
qed

text \<open>
  The scheduler does not take a heartbeat that comes in as a CloudEvent without data for a ping: the
  row is recorded as up, but the latest ping of the monitor stays what it was, so a heartbeat monitor fed
  this way is declared down once its last ping is too old.
\<close>

theorem ingested_heartbeat_is_no_ping:
  assumes "apply_event t t' m sub ev st = (Inr False, st')" "se_type ev = ''run.yipyap.ingest.heartbeat.v1''"
    and "no_ip_event ev sub"
  shows "(\<exists>c. w_checks (is_world st') = w_checks (is_world st) @ [c] \<and> chk_monitor c = mon_id m \<and> chk_status c = StatusUp)
    \<and> checks_latest_ping (is_world st') (mon_id m) = checks_latest_ping (is_world st) (mon_id m)"
  using assms(1)
proof (cases rule: apply_event_cases)
  case (claimed st1)
  then obtain c where c: "w_checks (is_world st') = w_checks (is_world st) @ [c]" "chk_monitor c = mon_id m"
    "chk_status c = StatusUp" "chk_metadata c = heartbeat_metadata ev sub" using assms(2) by blast
  have "w_fails (is_world st') = w_fails (is_world st)"
    using arg_cong [OF claimed(5) [unfolded only_checks_def], of w_fails] by simp
  moreover have "\<not> like_contains (chk_metadata c) ''source_ip''"
    using contains_source_ip heartbeat_metadata_no_ip [OF assms(3)] c(4) by auto
  ultimately show ?thesis using c by (auto simp: checks_latest_ping_def)
qed simp

end
