(* ===== verification/IngestExamples.thy ===== *)
theory IngestExamples imports IngestRuns begin

text \<open>Concrete requests, events and settings on which the properties of ingestion apply.\<close>

section \<open>An organisation that demands a token\<close>

definition sample_ce :: sdk_event where
  "sample_ce = \<lparr>se_id = ''e'', se_type = ''run.yipyap.ingest.heartbeat.v1'', se_source = ''ci'', se_subject = [],
     se_spec_version = ''1.0'', se_content_type = [], se_time = None, se_data = [], se_data_json = None, se_exts = []\<rparr>"

definition sample_setting :: json where
  "sample_setting = JObj [(''type'', JStr ''oidc''), (''oidc'', JObj [(''issuer'', JStr ''i''),
     (''jwks_url'', JStr ''j''), (''audiences'', JArr [JStr ''a''])])]"

definition sample_auth :: ingest_auth where
  "sample_auth = \<lparr>ia_type = ''oidc'', ia_oidc = Some \<lparr>io_issuer = ''i'', io_jwks_url = ''j'', io_audiences = [''a'']\<rparr>\<rparr>"

definition sample_ingest_env :: ingest_env where
  "sample_ingest_env =
     \<lparr>ie_sdk = \<lparr>sdk_unmarshal = (\<lambda>_. Some sample_ce), sdk_marshal = (\<lambda>_. None), sdk_valid = (\<lambda>_. True),
        sdk_new_event = sample_ce, sdk_set = (\<lambda>_ _ ev. ev), sdk_set_data = (\<lambda>_ _ ev. ev)\<rparr>,
      ie_batch = (\<lambda>_. None), ie_binary = (\<lambda>_ _. Some sample_ce), ie_parse = (\<lambda>_. Some sample_setting),
      ie_oidc = \<lparr>ol_discover = (\<lambda>_ _. None),
        ol_verify = (\<lambda>tv now raw. if raw = ''x.y.z''
           then Inr \<lparr>it_issuer = tv_issuer tv, it_subject = ''s'', it_audience = [''a''], it_claims = Some (JObj [])\<rparr>
           else Inl LibExpired)\<rparr>\<rparr>"

definition sample_ingest :: ingest_state where
  "sample_ingest = \<lparr>is_world = inbound_world, is_seen = [], is_settings = [((''o'', ''cloudevents.ingest.auth''), ''oidc'')],
     is_org_cache = (\<lambda>_. None), is_pool = new_verifier_cache 0, is_heap = [], is_metrics = True,
     is_ingested = [], is_duplicates = []\<rparr>"

definition sample_ce_request :: ingest_request where
  "sample_ce_request = \<lparr>ir_token = ''key'', ir_headers = [(''Authorization'', [''Bearer x.y.z''])], ir_body = Some []\<rparr>"

abbreviation sample_run :: "http_answer \<times> ingest_state" where
  "sample_run \<equiv> ingest sample_ingest_env (\<lambda>_. second) sample_ce_request sample_ingest"

lemma sample_load: "load_ingest_config sample_ingest_env sample_ingest ''o'' = Some sample_auth"
  by code_simp

lemma sample_plain: "plain_setting sample_auth"
  by code_simp

lemma sample_bearer: "bearer_from_request (ir_headers sample_ce_request) = Some ''x.y.z''"
  by code_simp

lemma sample_authorise:
  "fst (authorise sample_ingest_env (\<lambda>_. second) (ir_headers sample_ce_request) sample_monitor sample_ingest) = Inr ''s''"
  by code_simp

lemma sample_ok: "verifiers_ok sample_ingest"
  by (simp add: verifiers_ok_def pool_ok_def sample_ingest_def new_verifier_cache_def)


abbreviation keyed_monitor :: monitor where
  "keyed_monitor \<equiv> heartbeat_monitor\<lparr>mon_integration_key := ''key'', mon_heartbeat_token := ''secret''\<rparr>"

lemma sample_first: "first_refused (ie_sdk sample_ingest_env) [sample_ce] = None"
  by code_simp

lemma sample_decode: "decode_cloud_events sample_ingest_env (ir_headers sample_ce_request) [] = Some [sample_ce]"
  by code_simp

lemma sample_frame [simp]: "is_world sample_ingest = inbound_world" "is_seen sample_ingest = []" "mon_id keyed_monitor = ''m''"
  by (simp_all add: sample_ingest_def heartbeat_monitor_def)

lemma sample_apply:
  assumes "is_world st = inbound_world" "is_seen st = []"
  shows "\<exists>st1. apply_event t u keyed_monitor sub sample_ce st = (Inr False, st1) \<and> w_checks (is_world st1) \<noteq> []"
  using assms
  by (simp add: apply_event_def try_seen_def new_uuid_def check_of_event_def sample_ce_def checks_create_def has_monitor_def
      heartbeat_monitor_def inbound_world_def sample_world_def empty_world_def)

lemma sample_run_changes: "is_world (snd sample_run) \<noteq> inbound_world"
proof -
  obtain r st1 where a: "authorise sample_ingest_env (\<lambda>_. second) (ir_headers sample_ce_request) keyed_monitor sample_ingest = (r, st1)"
    by fastforce
  have org: "mon_org keyed_monitor = mon_org sample_monitor" by (simp add: heartbeat_monitor_def)
  have "r = Inr ''s''" using sample_authorise a unfolding authorise_def org by simp
  moreover have st1: "is_world st1 = inbound_world" "is_seen st1 = []" using authorise_frame [OF a] by simp_all
  obtain st2 where st2: "apply_event second second keyed_monitor ''s'' sample_ce st1 = (Inr False, st2)" "w_checks (is_world st2) \<noteq> []"
    using sample_apply [OF st1] by blast
  have "is_world (snd (ingest_events sample_ingest_env (\<lambda>_. second) keyed_monitor ''s'' [sample_ce] st1)) = is_world st2"
    using sample_first by (simp add: ingest_events_def st2)
  moreover have "ir_token sample_ce_request = ''key''" "ir_body sample_ce_request = Some []"
    by (simp_all add: sample_ce_request_def)
  ultimately have "is_world (snd sample_run) = is_world st2"
    using a sample_decode by (simp add: ingest_def)
  with st2(2) show ?thesis by auto
qed


section \<open>An event that is sent again\<close>

definition recorded_state :: ingest_state where
  "recorded_state = snd (apply_event second second keyed_monitor ''s'' sample_ce sample_ingest)"

lemma recorded_state_eq: "apply_event second second keyed_monitor ''s'' sample_ce sample_ingest = (Inr False, recorded_state)"
  using sample_apply [of sample_ingest second second "''s''"] by (auto simp: recorded_state_def)

theorem event_is_recorded_once_a_day_witness:
  "snd (apply_event (60 * second) (60 * second) keyed_monitor ''s'' sample_ce recorded_state) = recorded_state"
  using event_is_recorded_once_a_day [OF recorded_state_eq _ rtranclp.rtrancl_refl _ refl refl surjective_pairing,
      where u = "60 * second" and u' = "60 * second" and sub' = "''s''"]
  by (simp add: ingest_ttl_def)

definition failing_ingest :: ingest_state where
  "failing_ingest = sample_ingest\<lparr>is_world := inbound_world\<lparr>w_fails := (\<lambda>q _. q = ChecksInsert)\<rparr>\<rparr>"

definition failed_state :: ingest_state where
  "failed_state = snd (apply_event second second keyed_monitor ''s'' sample_ce failing_ingest)"

lemma failed_state_eq: "apply_event second second keyed_monitor ''s'' sample_ce failing_ingest = (Inl ApplyStorage, failed_state)"
  by (simp add: failed_state_def failing_ingest_def sample_ingest_def apply_event_def try_seen_def new_uuid_def
      check_of_event_def sample_ce_def checks_create_def)

theorem failed_event_is_lost_on_retry_witness:
  "w_checks (is_world failed_state) = []
   \<and> apply_event (60 * second) (60 * second) keyed_monitor ''s'' sample_ce failed_state = (Inr True, failed_state)"
proof -
  have f: "w_fails (is_world failed_state) SeenUpsert i = False" for i
    by (simp add: failed_state_def failing_ingest_def sample_ingest_def apply_event_def try_seen_def new_uuid_def
        check_of_event_def sample_ce_def checks_create_def)
  from failed_event_is_lost_on_retry [OF failed_state_eq _ rtranclp.rtrancl_refl, where u = "60 * second" and u' = "60 * second"]
  show ?thesis using f by (simp add: ingest_ttl_def failing_ingest_def)
qed

section \<open>A verifier that is in use\<close>

definition built_verifier :: verifier where
  "built_verifier = \<lparr>vf_config = config_of (the (ia_oidc sample_auth)),
     vf_token = Some \<lparr>tv_issuer = ''i'', tv_jwks_url = ''j'', tv_built_at = 0\<rparr>\<rparr>"

definition settled_ingest :: ingest_state where
  "settled_ingest = sample_ingest\<lparr>is_heap := [built_verifier], is_org_cache := [''o'' \<mapsto> (sample_auth, 0)]\<rparr>"

lemma settled_sample: "settled sample_ingest_env ''o'' sample_auth 0 built_verifier settled_ingest"
proof -
  have "load_ingest_config sample_ingest_env settled_ingest ''o'' = Some sample_auth"
    using sample_load load_ingest_config_cong [of sample_ingest settled_ingest sample_ingest_env "''o''"]
    by (simp add: settled_ingest_def)
  then show ?thesis by (simp add: settled_def settled_ingest_def built_verifier_def sample_auth_def)
qed

theorem verifier_outlives_its_ttl_witness:
  "resolve_verifier minute (1000 * minute) ''o'' sample_auth
     (snd (ingest sample_ingest_env (\<lambda>_. minute) sample_ce_request settled_ingest)) =
   (Some 0, snd (ingest sample_ingest_env (\<lambda>_. minute) sample_ce_request settled_ingest))"
proof -
  have "(ingest_run sample_ingest_env)\<^sup>*\<^sup>* settled_ingest (snd (ingest sample_ingest_env (\<lambda>_. minute) sample_ce_request settled_ingest))"
    by (intro r_into_rtranclp ingest_run.request [OF surjective_pairing])
  from verifier_outlives_its_ttl [OF settled_sample this] show ?thesis by (simp add: built_verifier_def)
qed

section \<open>A heartbeat\<close>

theorem ingested_heartbeat_is_no_ping_witness:
  "checks_latest_ping (is_world recorded_state) ''m'' = Inr None"
proof -
  have "no_ip_event sample_ce ''s''" by code_simp
  from ingested_heartbeat_is_no_ping [OF recorded_state_eq _ this] show ?thesis
    by (simp add: sample_ce_def checks_latest_ping_def)
qed

end
