(* ===== verification/TokenClient.thy ===== *)
theory TokenClient imports JsonText Ssrf begin

text \<open>
  The client that gets access tokens for outbound deliveries (\<open>internal/cloudevents/oidc/client.go\<close>
  and \<open>singleflight.go\<close>): the cache of tokens, the request to the token endpoint, and \<open>Token\<close>,
  which many goroutines run at once. A call of \<open>Token\<close> is a program point; a step is what a goroutine
  does under one lock, or between two of them. The hexadecimal SHA-256 of a text, the JSON parser and the
  answers of the endpoint are parameters.
\<close>

section \<open>The cache\<close>

text \<open>The map is kept as its entries, so that its length can be read off.\<close>

record token_cache =
  tc_items :: "(string \<times> string \<times> gotime) list"
  tc_order :: "string list"
  tc_max :: int

definition default_memory_token_cache_max :: int where
  "default_memory_token_cache_max = 1024"

definition new_token_cache :: "int \<Rightarrow> token_cache" where
  "new_token_cache n =
     \<lparr>tc_items = [], tc_order = [], tc_max = (if n \<le> 0 then default_memory_token_cache_max else n)\<rparr>"

definition tc_touch :: "string \<Rightarrow> token_cache \<Rightarrow> token_cache" where
  "tc_touch key c =
     (if key \<in> set (tc_order c) then c\<lparr>tc_order := remove1 key (tc_order c) @ [key]\<rparr> else c)"

definition tc_delete :: "string \<Rightarrow> token_cache \<Rightarrow> token_cache" where
  "tc_delete key c = c\<lparr>tc_items := AList.delete key (tc_items c), tc_order := remove1 key (tc_order c)\<rparr>"

definition tc_get :: "string \<Rightarrow> token_cache \<Rightarrow> (string \<times> gotime) option \<times> token_cache" where
  "tc_get key c =
     (case map_of (tc_items c) key of None \<Rightarrow> (None, c) | Some it \<Rightarrow> (Some it, tc_touch key c))"

definition tc_put :: "string \<Rightarrow> string \<Rightarrow> gotime \<Rightarrow> token_cache \<Rightarrow> token_cache" where
  "tc_put key v expires c =
     (case map_of (tc_items c) key of
        Some _ \<Rightarrow> tc_touch key (c\<lparr>tc_items := AList.update key (v, expires) (tc_items c)\<rparr>)
      | None \<Rightarrow>
          let c1 = (if tc_max c \<le> int (length (tc_items c)) \<and> tc_order c \<noteq> [] then tc_delete (hd (tc_order c)) c else c)
          in c1\<lparr>tc_items := AList.update key (v, expires) (tc_items c1), tc_order := tc_order c1 @ [key]\<rparr>)"

definition tc_delete_expired :: "gotime \<Rightarrow> token_cache \<Rightarrow> int \<times> token_cache" where
  "tc_delete_expired now c =
     (let dead = map fst (filter (\<lambda>it. snd (snd it) \<noteq> zero_time \<and> snd (snd it) < now) (tc_items c))
      in (int (length dead), fold tc_delete dead c))"

section \<open>The token endpoint\<close>

record client_config =
  cl_issuer :: string
  cl_token_url :: string
  cl_id :: string
  cl_secret :: string
  cl_audience :: string
  cl_scopes :: "string list"

definition cache_key :: "(string \<Rightarrow> string) \<Rightarrow> client_config \<Rightarrow> string" where
  "cache_key digest cfg =
     str_join CHR ''|'' [cl_issuer cfg, cl_token_url cfg, cl_id cfg, cl_audience cfg, ''sk-'' @ take 16 (digest (cl_secret cfg))]"

text \<open>\<open>url.Values.Encode\<close>.\<close>

definition query_escape :: "string \<Rightarrow> string" where
  "query_escape s =
     concat (map (\<lambda>c. let n = of_char c :: nat in
        if 48 \<le> n \<and> n \<le> 57 \<or> 65 \<le> n \<and> n \<le> 90 \<or> 97 \<le> n \<and> n \<le> 122 \<or> c \<in> set ''-_.~'' then [c]
        else if n = 32 then ''+''
        else CHR ''%'' # map (\<lambda>d. if d < 10 then char_of (48 + d) else char_of (55 + d)) [n div 16, n mod 16]) s)"

definition form_encode :: "(string \<times> string) list \<Rightarrow> string" where
  "form_encode kvs =
     str_join CHR ''&'' (map (\<lambda>kv. query_escape (fst kv) @ CHR ''='' # query_escape (snd kv)) (sort_key fst kvs))"

record token_request =
  tr_url :: string
  tr_content_type :: string
  tr_accept :: string
  tr_body :: string

definition token_request_of :: "client_config \<Rightarrow> token_request" where
  "token_request_of cfg =
     \<lparr>tr_url = cl_token_url cfg, tr_content_type = ''application/x-www-form-urlencoded'', tr_accept = ''application/json'',
      tr_body = form_encode
        ([(''grant_type'', ''client_credentials''), (''client_id'', cl_id cfg), (''client_secret'', cl_secret cfg)] @
         (if cl_audience cfg \<noteq> [] then [(''audience'', cl_audience cfg)] else []) @
         (if cl_scopes cfg \<noteq> [] then [(''scope'', str_join CHR '' '' (cl_scopes cfg))] else []))\<rparr>"

datatype endpoint_answer = RequestNotBuilt | NoAnswer | BodyNotRead | Answer int string

datatype token_error =
    BuildRequest | Transport | ReadBody | EndpointStatus int string | DecodeResponse | EmptyAccessToken
  | UnsupportedTokenType string | InvalidExpiresIn int

record endpoint_token =
  et_access_token :: string
  et_token_type :: string
  et_expires_in :: int

definition decode_endpoint_token :: "(string \<times> json) list \<Rightarrow> endpoint_token option" where
  "decode_endpoint_token kvs =
     (case (get_string ''access_token'' kvs, get_string ''token_type'' kvs, get_int ''expires_in'' kvs) of
        (Some a, Some t, Some e) \<Rightarrow> Some \<lparr>et_access_token = a, et_token_type = t, et_expires_in = e\<rparr>
      | _ \<Rightarrow> None)"

definition snippet :: "string \<Rightarrow> string" where
  "snippet body = (let s = trim_space body in if 256 < length s then take 256 s @ ''...'' else s)"

text \<open>\<open>fetch\<close>, once the endpoint has answered; \<open>now\<close> is the instant the request was made.\<close>

definition fetched :: "(string \<Rightarrow> raw_json) \<Rightarrow> gotime \<Rightarrow> endpoint_answer \<Rightarrow> token_error + string \<times> gotime" where
  "fetched parse now answer =
     (case answer of
        RequestNotBuilt \<Rightarrow> Inl BuildRequest
      | NoAnswer \<Rightarrow> Inl Transport
      | BodyNotRead \<Rightarrow> Inl ReadBody
      | Answer status received \<Rightarrow>
          let body = take 1048576 received in
          if status < 200 \<or> 300 \<le> status then Inl (EndpointStatus status (snippet body))
          else case unmarshal decode_endpoint_token (parse body) of
                 None \<Rightarrow> Inl DecodeResponse
               | Some tr \<Rightarrow>
                   if et_access_token tr = [] then Inl EmptyAccessToken
                   else if to_lower (et_token_type tr) \<noteq> ''bearer'' then Inl (UnsupportedTokenType (et_token_type tr))
                   else if et_expires_in tr \<le> 0 then Inl (InvalidExpiresIn (et_expires_in tr))
                   else Inr (et_access_token tr,
                             now + sint (word_of_int (et_expires_in tr) * word_of_int second :: int64)))"

section \<open>Token\<close>

text \<open>
  Where a goroutine stands in \<open>Token\<close>. The number is the call it leads or waits for; a call is a result
  or still running.
\<close>

datatype token_point =
    Starting
  | Dropping
  | Joining
  | Leading nat
  | Fetching nat gotime
  | Storing nat string gotime
  | Finishing nat "token_error + string"
  | Clearing nat "token_error + string"
  | Waiting nat
  | Returned "token_error + string"

text \<open>
  Goroutine \<open>p\<close> works for client \<open>fst (tk_procs p)\<close>. Every client has its group of flights: the map of
  running calls and the calls it has made; the cache is shared. \<open>tk_log\<close> collects what the endpoint gave to
  whom.
\<close>

record token_state =
  tk_cache :: token_cache
  tk_flights :: "nat \<Rightarrow> string \<Rightarrow> nat option"
  tk_calls :: "nat \<Rightarrow> (token_error + string) option list"
  tk_procs :: "nat \<Rightarrow> nat \<times> token_point"
  tk_log :: "(client_config \<times> string \<times> gotime) list"

record token_env =
  te_digest :: "string \<Rightarrow> string"
  te_parse :: "string \<Rightarrow> raw_json"
  te_client :: "nat \<Rightarrow> client_config"

definition goto :: "nat \<Rightarrow> token_point \<Rightarrow> token_state \<Rightarrow> token_state" where
  "goto p point st = st\<lparr>tk_procs := (tk_procs st)(p := (fst (tk_procs st p), point))\<rparr>"

definition refresh_ahead_window :: int where
  "refresh_ahead_window = 30 * second"

definition token_start :: "string \<Rightarrow> gotime \<Rightarrow> nat \<Rightarrow> token_state \<Rightarrow> token_state" where
  "token_start key now p st =
     (case tc_get key (tk_cache st) of
        (None, _) \<Rightarrow> goto p Joining st
      | (Some (v, expires), c) \<Rightarrow>
          if now + refresh_ahead_window < expires
          then goto p (Returned (Inr v)) (st\<lparr>tk_cache := c\<rparr>)
          else goto p Dropping (st\<lparr>tk_cache := c\<rparr>))"

definition token_drop :: "string \<Rightarrow> nat \<Rightarrow> token_state \<Rightarrow> token_state" where
  "token_drop key p st = goto p Joining (st\<lparr>tk_cache := tc_delete key (tk_cache st)\<rparr>)"

text \<open>The first section of \<open>do\<close>: wait for the running call, or make one.\<close>

definition flight_join :: "nat \<Rightarrow> string \<Rightarrow> nat \<Rightarrow> token_state \<Rightarrow> token_state" where
  "flight_join k key p st =
     (case tk_flights st k key of
        Some c \<Rightarrow> goto p (Waiting c) st
      | None \<Rightarrow>
          let c = length (tk_calls st k) in
          goto p (Leading c) (st\<lparr>tk_calls := (tk_calls st)(k := tk_calls st k @ [None]),
             tk_flights := (tk_flights st)(k := (tk_flights st k)(key := Some c))\<rparr>))"

text \<open>The second look into the cache; on a miss the clock is read again for the request.\<close>

definition token_recheck :: "string \<Rightarrow> gotime \<Rightarrow> gotime \<Rightarrow> nat \<Rightarrow> nat \<Rightarrow> token_state \<Rightarrow> token_state" where
  "token_recheck key now now' c p st =
     (case tc_get key (tk_cache st) of
        (None, _) \<Rightarrow> goto p (Fetching c now') st
      | (Some (v, expires), cache) \<Rightarrow>
          if now + refresh_ahead_window < expires
          then goto p (Finishing c (Inr v)) (st\<lparr>tk_cache := cache\<rparr>)
          else goto p (Fetching c now') (st\<lparr>tk_cache := cache\<rparr>))"

definition token_answer :: "token_env \<Rightarrow> nat \<Rightarrow> gotime \<Rightarrow> endpoint_answer \<Rightarrow> nat \<Rightarrow> nat \<Rightarrow> token_state \<Rightarrow> token_state" where
  "token_answer env k now answer c p st =
     (case fetched (te_parse env) now answer of
        Inl e \<Rightarrow> goto p (Finishing c (Inl e)) st
      | Inr (v, expires) \<Rightarrow>
          goto p (Storing c v expires) (st\<lparr>tk_log := tk_log st @ [(te_client env k, v, expires)]\<rparr>))"

definition token_store :: "string \<Rightarrow> nat \<Rightarrow> string \<Rightarrow> gotime \<Rightarrow> nat \<Rightarrow> token_state \<Rightarrow> token_state" where
  "token_store key c v expires p st =
     goto p (Finishing c (Inr v)) (st\<lparr>tk_cache := tc_put key v expires (tk_cache st)\<rparr>)"

text \<open>\<open>wg.Done\<close> publishes the result; then the call leaves the map.\<close>

definition flight_finish :: "nat \<Rightarrow> nat \<Rightarrow> token_error + string \<Rightarrow> nat \<Rightarrow> token_state \<Rightarrow> token_state" where
  "flight_finish k c r p st =
     goto p (Clearing c r) (st\<lparr>tk_calls := (tk_calls st)(k := (tk_calls st k)[c := Some r])\<rparr>)"

definition flight_clear :: "nat \<Rightarrow> string \<Rightarrow> token_error + string \<Rightarrow> nat \<Rightarrow> token_state \<Rightarrow> token_state" where
  "flight_clear k key r p st =
     goto p (Returned r) (st\<lparr>tk_flights := (tk_flights st)(k := (tk_flights st k)(key := None))\<rparr>)"

definition flight_wait :: "nat \<Rightarrow> nat \<Rightarrow> nat \<Rightarrow> token_state \<Rightarrow> token_state" where
  "flight_wait k c p st =
     (case tk_calls st k ! c of None \<Rightarrow> st | Some r \<Rightarrow> goto p (Returned r) st)"

text \<open>The next step of goroutine \<open>p\<close>; the arguments it does not need are ignored.\<close>

definition token_step :: "token_env \<Rightarrow> gotime \<Rightarrow> gotime \<Rightarrow> endpoint_answer \<Rightarrow> nat \<Rightarrow> token_state \<Rightarrow> token_state" where
  "token_step env now now' answer p st =
     (let k = fst (tk_procs st p); key = cache_key (te_digest env) (te_client env k) in
      case snd (tk_procs st p) of
        Starting \<Rightarrow> token_start key now p st
      | Dropping \<Rightarrow> token_drop key p st
      | Joining \<Rightarrow> flight_join k key p st
      | Leading c \<Rightarrow> token_recheck key now now' c p st
      | Fetching c t \<Rightarrow> token_answer env k t answer c p st
      | Storing c v expires \<Rightarrow> token_store key c v expires p st
      | Finishing c r \<Rightarrow> flight_finish k c r p st
      | Clearing c r \<Rightarrow> flight_clear k key r p st
      | Waiting c \<Rightarrow> flight_wait k c p st
      | Returned r \<Rightarrow> st)"

end
