(* ===== verification/TokenLaws.thy ===== *)
theory TokenLaws imports TokenClient Joined "HOL-Library.Multiset" begin

text \<open>
  The cache of tokens refines a list of entries ordered by their last use, and is bounded. In every run
  of any number of goroutines and clients over one cache, a token is handed only to callers whose key is
  that of the client it was issued to, one goroutine of a client at a time talks to the endpoint, and
  nobody waits for ever.
\<close>

section \<open>The cache as a list\<close>

definition tc_ok :: "token_cache \<Rightarrow> bool" where
  "tc_ok c \<longleftrightarrow> distinct (tc_order c) \<and> mset (tc_order c) = mset (map fst (tc_items c))
     \<and> 0 < tc_max c \<and> int (length (tc_items c)) \<le> tc_max c"

definition tc_abs :: "token_cache \<Rightarrow> (string \<times> string \<times> gotime) list" where
  "tc_abs c = map (\<lambda>k. (k, the (map_of (tc_items c) k))) (tc_order c)"

text \<open>The specification: the least recently used entry comes first.\<close>

definition recent_delete :: "string \<Rightarrow> (string \<times> 'v) list \<Rightarrow> (string \<times> 'v) list" where
  "recent_delete key xs = filter (\<lambda>kv. fst kv \<noteq> key) xs"

definition recent_get :: "string \<Rightarrow> (string \<times> 'v) list \<Rightarrow> 'v option \<times> (string \<times> 'v) list" where
  "recent_get key xs =
     (case map_of xs key of None \<Rightarrow> (None, xs) | Some it \<Rightarrow> (Some it, recent_delete key xs @ [(key, it)]))"

definition recent_put :: "int \<Rightarrow> string \<Rightarrow> 'v \<Rightarrow> (string \<times> 'v) list \<Rightarrow> (string \<times> 'v) list" where
  "recent_put n key it xs =
     (if key \<in> fst ` set xs then recent_delete key xs @ [(key, it)]
      else (if n \<le> int (length xs) then tl xs else xs) @ [(key, it)])"

lemma remove1_filter: "distinct xs \<Longrightarrow> remove1 x xs = filter (\<lambda>y. y \<noteq> x) xs"
  by (simp add: distinct_remove1_removeAll removeAll_filter_not_eq) (metis)

lemma alist_delete: "AList.delete k xs = recent_delete k xs"
  by (auto simp: AList.delete_eq recent_delete_def intro: filter_cong)

lemma map_fst_delete: "map fst (recent_delete k xs) = filter (\<lambda>y. y \<noteq> k) (map fst xs)"
  by (simp add: recent_delete_def filter_map comp_def)

lemma tc_okD:
  assumes "tc_ok c"
  shows "distinct (tc_order c)" "mset (tc_order c) = mset (map fst (tc_items c))" "set (tc_order c) = fst ` set (tc_items c)"
    "length (tc_order c) = length (tc_items c)" "distinct (map fst (tc_items c))" "0 < tc_max c"
    "int (length (tc_items c)) \<le> tc_max c"
  using assms mset_eq_setD [of "tc_order c" "map fst (tc_items c)"] mset_eq_length [of "tc_order c" "map fst (tc_items c)"]
    mset_eq_imp_distinct_iff [of "tc_order c" "map fst (tc_items c)"]
  by (simp_all add: tc_ok_def)

lemma map_of_keyed: "map_of (map (\<lambda>k. (k, f k)) ks) key = (if key \<in> set ks then Some (f key) else None)"
  by (induction ks) auto

lemma in_order: "tc_ok c \<Longrightarrow> key \<in> set (tc_order c) \<longleftrightarrow> map_of (tc_items c) key \<noteq> None"
  by (simp add: tc_okD(3) map_of_eq_None_iff)

lemma map_of_tc_abs: "tc_ok c \<Longrightarrow> map_of (tc_abs c) key = map_of (tc_items c) key"
  using in_order [of c key] by (cases "map_of (tc_items c) key") (auto simp: tc_abs_def map_of_keyed)

lemma tc_abs_order: "map fst (tc_abs c) = tc_order c" "length (tc_abs c) = length (tc_order c)"
  by (simp_all add: tc_abs_def comp_def)

lemma tc_delete_refines:
  assumes "tc_ok c"
  shows "tc_ok (tc_delete key c) \<and> tc_abs (tc_delete key c) = recent_delete key (tc_abs c)"
proof -
  note ok = tc_okD [OF assms]
  have "tc_abs (tc_delete key c) = recent_delete key (tc_abs c)"
    using ok(1) by (auto simp: tc_abs_def tc_delete_def recent_delete_def remove1_filter filter_map comp_def AList.delete_conv')
  moreover have "length (recent_delete key (tc_items c)) \<le> length (tc_items c)" by (simp add: recent_delete_def)
  moreover have "mset (filter (\<lambda>y. y \<noteq> key) (tc_order c)) = mset (map fst (recent_delete key (tc_items c)))"
    by (simp only: map_fst_delete mset_filter ok(2))
  ultimately show ?thesis
    using ok(1,6,7) by (simp add: tc_ok_def tc_delete_def remove1_filter alist_delete)
qed

lemma tc_touch_refines:
  assumes "tc_ok c" "map_of (tc_items c) key = Some it"
  shows "tc_ok (tc_touch key c) \<and> tc_abs (tc_touch key c) = recent_delete key (tc_abs c) @ [(key, it)]
    \<and> tc_items (tc_touch key c) = tc_items c"
proof -
  note ok = tc_okD [OF assms(1)]
  have k: "key \<in> set (tc_order c)" using in_order [OF assms(1)] assms(2) by simp
  have "mset (remove1 key (tc_order c) @ [key]) = mset (tc_order c)" using k by simp
  then have "mset (remove1 key (tc_order c) @ [key]) = mset (map fst (tc_items c))" by (simp only: ok(2))
  moreover have "tc_abs (c\<lparr>tc_order := remove1 key (tc_order c) @ [key]\<rparr>) = recent_delete key (tc_abs c) @ [(key, it)]"
    using assms(2) ok(1) by (simp add: tc_abs_def recent_delete_def remove1_filter filter_map comp_def)
  moreover have "distinct (remove1 key (tc_order c) @ [key])" using ok(1) by simp
  ultimately show ?thesis using k ok(6,7) by (simp add: tc_touch_def tc_ok_def del: mset_append distinct_append)
qed

lemma tc_get_refines:
  assumes "tc_ok c" "tc_get key c = (r, c')"
  shows "tc_ok c' \<and> recent_get key (tc_abs c) = (r, tc_abs c') \<and> r = map_of (tc_items c) key \<and> tc_items c' = tc_items c
    \<and> tc_max c' = tc_max c"
proof (cases "map_of (tc_items c) key")
  case None
  with assms show ?thesis by (simp add: tc_get_def recent_get_def map_of_tc_abs)
next
  case (Some it)
  have "tc_max (tc_touch key c) = tc_max c" by (simp add: tc_touch_def)
  moreover have "r = Some it" "c' = tc_touch key c" using Some assms(2) by (auto simp: tc_get_def)
  ultimately show ?thesis
    using Some tc_touch_refines [OF assms(1) Some] by (simp add: recent_get_def map_of_tc_abs [OF assms(1)])
qed

text \<open>Room is made for a new key.\<close>

definition tc_room :: "token_cache \<Rightarrow> token_cache" where
  "tc_room c = (if tc_max c \<le> int (length (tc_items c)) \<and> tc_order c \<noteq> [] then tc_delete (hd (tc_order c)) c else c)"

lemma tc_room_refines:
  assumes "tc_ok c"
  shows "tc_ok (tc_room c) \<and> tc_abs (tc_room c) = (if tc_max c \<le> int (length (tc_abs c)) then tl (tc_abs c) else tc_abs c)
    \<and> tc_max (tc_room c) = tc_max c"
proof -
  note ok = tc_okD [OF assms]
  have full: "tc_order c \<noteq> []" if "tc_max c \<le> int (length (tc_items c))"
    using that ok(4,6) by auto
  have "recent_delete (hd (tc_order c)) (tc_abs c) = tl (tc_abs c)" if "tc_order c \<noteq> []"
    using that ok(1) by (cases "tc_order c") (auto simp: tc_abs_def recent_delete_def filter_id_conv)
  then show ?thesis
    using tc_delete_refines [OF assms, of "hd (tc_order c)"] assms full ok(4)
    by (auto simp: tc_room_def tc_abs_order tc_delete_def)
qed

lemma tc_put_new:
  assumes "tc_ok c" "map_of (tc_items c) key = None" "int (length (tc_items c)) < tc_max c"
  shows "tc_ok (c\<lparr>tc_items := AList.update key it (tc_items c), tc_order := tc_order c @ [key]\<rparr>)
    \<and> tc_abs (c\<lparr>tc_items := AList.update key it (tc_items c), tc_order := tc_order c @ [key]\<rparr>) = tc_abs c @ [(key, it)]"
proof -
  note ok = tc_okD [OF assms(1)]
  have k: "key \<notin> set (map fst (tc_items c))" "key \<notin> set (tc_order c)"
    using assms(2) in_order [OF assms(1)] by (simp_all add: map_of_eq_None_iff)
  have keys: "map fst (AList.update key it (tc_items c)) = map fst (tc_items c) @ [key]"
    using k(1) by (simp only: AList.update_keys if_False)
  have "length (AList.update key it (tc_items c)) = Suc (length (tc_items c))"
    using arg_cong [OF keys, of length] by simp
  then show ?thesis
    using ok k(2) keys assms(3) by (auto simp: tc_ok_def tc_abs_def AList.update_conv')
qed

lemma tc_put_refines:
  assumes "tc_ok c"
  shows "tc_ok (tc_put key v e c) \<and> tc_abs (tc_put key v e c) = recent_put (tc_max c) key (v, e) (tc_abs c)
    \<and> tc_max (tc_put key v e c) = tc_max c"
proof (cases "map_of (tc_items c) key")
  case (Some it)
  let ?c = "c\<lparr>tc_items := AList.update key (v, e) (tc_items c)\<rparr>"
  note ok = tc_okD [OF assms]
  have k: "key \<in> set (tc_order c)" using in_order [OF assms] Some by simp
  have keys: "map fst (AList.update key (v, e) (tc_items c)) = map fst (tc_items c)"
    using k ok(3) by (simp only: AList.update_keys set_map if_True)
  have len: "length (AList.update key (v, e) (tc_items c)) = length (tc_items c)"
    using arg_cong [OF keys, of length] by (simp only: length_map)
  have c: "tc_ok ?c" "map_of (tc_items ?c) key = Some (v, e)"
    using ok(1,2,6,7) keys len by (simp_all add: tc_ok_def AList.update_conv' del: mset_map)
  have "recent_delete key (tc_abs ?c) = recent_delete key (tc_abs c)"
    by (auto simp: tc_abs_def recent_delete_def filter_map comp_def AList.update_conv')
  moreover have "key \<in> fst ` set (tc_abs c)" using k tc_abs_order(1) [of c] by (metis set_map)
  moreover have "tc_max (tc_touch key ?c) = tc_max c" by (simp add: tc_touch_def)
  ultimately show ?thesis
    using Some tc_touch_refines [OF c] by (simp add: tc_put_def recent_put_def)
next
  case None
  note room = tc_room_refines [OF assms]
  have k: "key \<notin> fst ` set (tc_abs c)" using None map_of_tc_abs [OF assms, of key] by (metis map_of_eq_None_iff)
  have "map_of (tc_abs (tc_room c)) key = None"
    using room k by (cases "tc_abs c") (auto simp: map_of_eq_None_iff)
  then have none: "map_of (tc_items (tc_room c)) key = None" using room map_of_tc_abs by metis
  have "length (tc_items (tc_room c)) =
      (if tc_max c \<le> int (length (tc_items c)) then length (tc_items c) - 1 else length (tc_items c))"
    using room tc_okD(4) [OF assms] tc_okD(4) [of "tc_room c"] tc_abs_order(2) [of "tc_room c"] tc_abs_order(2) [of c]
    by (simp split: if_splits)
  then have "int (length (tc_items (tc_room c))) < tc_max (tc_room c)"
    using room tc_okD(6,7) [OF assms] by (auto split: if_splits)
  from tc_put_new [OF _ none this, of "(v, e)"] room k None show ?thesis
    by (simp add: tc_put_def Let_def recent_put_def flip: tc_room_def)
qed

lemma tc_delete_all:
  "tc_ok c \<Longrightarrow> tc_ok (fold tc_delete ks c) \<and> tc_abs (fold tc_delete ks c) = filter (\<lambda>kv. fst kv \<notin> set ks) (tc_abs c)
    \<and> tc_max (fold tc_delete ks c) = tc_max c"
proof (induction ks arbitrary: c)
  case (Cons k ks)
  have d: "tc_ok (tc_delete k c)" "tc_abs (tc_delete k c) = recent_delete k (tc_abs c)"
    "tc_max (tc_delete k c) = tc_max c" using tc_delete_refines [OF Cons.prems] by (simp_all add: tc_delete_def)
  have "filter (\<lambda>kv. fst kv \<notin> set ks) (recent_delete k (tc_abs c)) = filter (\<lambda>kv. fst kv \<notin> set (k # ks)) (tc_abs c)"
    by (simp add: recent_delete_def conj_commute)
  with Cons.IH [OF d(1)] d(2,3) show ?case by simp
qed simp

definition expired :: "gotime \<Rightarrow> string \<times> string \<times> gotime \<Rightarrow> bool" where
  "expired now kv \<longleftrightarrow> snd (snd kv) \<noteq> zero_time \<and> snd (snd kv) < now"

lemma tc_delete_expired_refines:
  assumes "tc_ok c"
  shows "tc_abs (snd (tc_delete_expired now c)) = filter (\<lambda>kv. \<not> expired now kv) (tc_abs c)
    \<and> tc_ok (snd (tc_delete_expired now c)) \<and> tc_max (snd (tc_delete_expired now c)) = tc_max c"
proof -
  let ?dead = "map fst (filter (expired now) (tc_items c))"
  note ok = tc_okD [OF assms]
  have inj: "inj_on fst (set (tc_items c))" using ok(5) by (simp add: distinct_map)
  have dead: "k \<in> set ?dead \<longleftrightarrow> (\<exists>x \<in> set (tc_items c). expired now x \<and> fst x = k)" for k by auto
  have "fst kv \<in> set ?dead \<longleftrightarrow> expired now kv" if "kv \<in> set (tc_abs c)" for kv
  proof -
    have "map_of (tc_items c) (fst kv) \<noteq> None" "kv = (fst kv, the (map_of (tc_items c) (fst kv)))"
      using that in_order [OF assms] by (auto simp: tc_abs_def)
    then have kv: "kv \<in> set (tc_items c)" by (metis map_of_SomeD option.collapse)
    then have "x = kv" if "x \<in> set (tc_items c)" "fst x = fst kv" for x using inj_onD [OF inj that(2) that(1)] by simp
    with kv show ?thesis unfolding dead by blast
  qed
  then have "filter (\<lambda>kv. fst kv \<notin> set ?dead) (tc_abs c) = filter (\<lambda>kv. \<not> expired now kv) (tc_abs c)"
    by (intro filter_cong) auto
  moreover have "snd (tc_delete_expired now c) = fold tc_delete ?dead c"
    by (simp add: tc_delete_expired_def expired_def [abs_def] Let_def)
  ultimately show ?thesis using tc_delete_all [OF assms, of ?dead] by (simp only: simp_thms)
qed

lemma new_token_cache_refines: "tc_ok (new_token_cache n)" "tc_abs (new_token_cache n) = []"
  by (simp_all add: new_token_cache_def tc_ok_def tc_abs_def default_memory_token_cache_max_def)

text \<open>
  C23: The token cache, a map and a list of keys updated side by side, behaves as one list of entries from
  the least to the most recently used: every operation keeps the two in step and at most the configured
  number of entries, and acts on that list as its specification says. A new key in a full cache evicts the
  head of the list, and nothing else is ever lost.
\<close>

theorem token_cache_is_a_bounded_lru:
  assumes "tc_ok c"
  shows "(tc_get key c = (r, c') \<longrightarrow> tc_ok c' \<and> recent_get key (tc_abs c) = (r, tc_abs c'))
    \<and> tc_ok (tc_put key v e c) \<and> tc_abs (tc_put key v e c) = recent_put (tc_max c) key (v, e) (tc_abs c)
    \<and> tc_ok (tc_delete key c) \<and> tc_abs (tc_delete key c) = recent_delete key (tc_abs c)
    \<and> tc_ok (snd (tc_delete_expired now c))
    \<and> tc_abs (snd (tc_delete_expired now c)) = filter (\<lambda>kv. \<not> expired now kv) (tc_abs c)
    \<and> int (length (tc_abs c)) \<le> tc_max c"
  using tc_get_refines [OF assms] tc_put_refines [OF assms] tc_delete_refines [OF assms]
    tc_delete_expired_refines [OF assms] tc_okD(4,7) [OF assms]
  by (simp add: tc_abs_order)

section \<open>The interface of token caches\<close>

text \<open>
  What the client relies on: \<open>Get\<close> answers what is stored, \<open>Put\<close> stores, and neither invents entries.
\<close>

locale token_cache_contract =
  fixes ok :: "'c \<Rightarrow> bool"
    and look :: "'c \<Rightarrow> string \<Rightarrow> (string \<times> gotime) option"
    and get :: "string \<Rightarrow> 'c \<Rightarrow> (string \<times> gotime) option \<times> 'c"
    and put :: "string \<Rightarrow> string \<Rightarrow> gotime \<Rightarrow> 'c \<Rightarrow> 'c"
    and drop_key :: "string \<Rightarrow> 'c \<Rightarrow> 'c"
  assumes get_law: "ok c \<Longrightarrow> get k c = (r, c') \<Longrightarrow> ok c' \<and> r = look c k \<and> look c' = look c"
    and put_law: "ok c \<Longrightarrow> ok (put k v e c) \<and> look (put k v e c) k = Some (v, e)
      \<and> (\<forall>j x. j \<noteq> k \<longrightarrow> look (put k v e c) j = Some x \<longrightarrow> look c j = Some x)"
    and drop_law: "ok c \<Longrightarrow> ok (drop_key k c) \<and> (\<forall>j x. look (drop_key k c) j = Some x \<longrightarrow> look c j = Some x)"
begin

definition holds :: "(string \<Rightarrow> string \<Rightarrow> gotime \<Rightarrow> bool) \<Rightarrow> 'c \<Rightarrow> bool" where
  "holds P c \<longleftrightarrow> ok c \<and> (\<forall>k v e. look c k = Some (v, e) \<longrightarrow> P k v e)"

lemma holds_get: "holds P c \<Longrightarrow> get k c = (r, c') \<Longrightarrow> holds P c' \<and> (\<forall>v e. r = Some (v, e) \<longrightarrow> P k v e)"
  using get_law unfolding holds_def by metis

lemma holds_put: "holds P c \<Longrightarrow> P k v e \<Longrightarrow> holds P (put k v e c)"
  using put_law unfolding holds_def by (metis option.inject prod.inject)

lemma holds_drop: "holds P c \<Longrightarrow> holds P (drop_key k c)"
  using drop_law unfolding holds_def by blast

lemma holds_mono: "holds P c \<Longrightarrow> (\<And>k v e. P k v e \<Longrightarrow> Q k v e) \<Longrightarrow> holds Q c"
  unfolding holds_def by blast

end

definition tc_look :: "token_cache \<Rightarrow> string \<Rightarrow> (string \<times> gotime) option" where
  "tc_look c = map_of (tc_items c)"

interpretation memory_cache: token_cache_contract tc_ok tc_look tc_get tc_put tc_delete
proof
  fix c k r c' assume "tc_ok c" "tc_get k c = (r, c')"
  then show "tc_ok c' \<and> r = tc_look c k \<and> tc_look c' = tc_look c" using tc_get_refines by (simp add: tc_look_def)
next
  fix c k v e assume "tc_ok c"
  from tc_put_refines [OF this] show "tc_ok (tc_put k v e c) \<and> tc_look (tc_put k v e c) k = Some (v, e)
      \<and> (\<forall>j x. j \<noteq> k \<longrightarrow> tc_look (tc_put k v e c) j = Some x \<longrightarrow> tc_look c j = Some x)"
    by (auto simp: tc_put_def tc_touch_def tc_look_def tc_delete_def AList.update_conv' AList.delete_conv' Let_def
        split: option.splits if_splits)
next
  fix c k assume "tc_ok c"
  from tc_delete_refines [OF this] show "tc_ok (tc_delete k c) \<and> (\<forall>j x. tc_look (tc_delete k c) j = Some x \<longrightarrow> tc_look c j = Some x)"
    by (auto simp: tc_delete_def tc_look_def AList.delete_conv' split: if_splits)
qed

end
