(* ===== verification/TokenRuns.thy ===== *)
theory TokenRuns imports TokenLaws begin

text \<open>
  Runs of the token client: any number of goroutines of any number of clients over one cache, a step
  at a time in any order.
\<close>

section \<open>Flights\<close>

text \<open>The call a goroutine leads: from the section that made it to the section that takes it off the map.\<close>

fun leads :: "token_point \<Rightarrow> nat option" where
  "leads (Leading c) = Some c"
| "leads (Fetching c t) = Some c"
| "leads (Storing c v e) = Some c"
| "leads (Finishing c r) = Some c"
| "leads (Clearing c r) = Some c"
| "leads _ = None"

abbreviation client_of :: "token_state \<Rightarrow> nat \<Rightarrow> nat" where
  "client_of st p \<equiv> fst (tk_procs st p)"

abbreviation point_of :: "token_state \<Rightarrow> nat \<Rightarrow> token_point" where
  "point_of st p \<equiv> snd (tk_procs st p)"

definition key_of :: "token_env \<Rightarrow> nat \<Rightarrow> string" where
  "key_of env k = cache_key (te_digest env) (te_client env k)"

definition leader_ok :: "token_env \<Rightarrow> token_state \<Rightarrow> nat \<Rightarrow> bool" where
  "leader_ok env st p \<longleftrightarrow> (\<forall>c. leads (point_of st p) = Some c \<longrightarrow>
     tk_flights st (client_of st p) (key_of env (client_of st p)) = Some c
     \<and> (\<forall>q. client_of st q = client_of st p \<longrightarrow> leads (point_of st q) = Some c \<longrightarrow> q = p))"

definition flight_ok :: "token_env \<Rightarrow> token_state \<Rightarrow> nat \<Rightarrow> string \<Rightarrow> bool" where
  "flight_ok env st k key \<longleftrightarrow> (\<forall>c. tk_flights st k key = Some c \<longrightarrow> key = key_of env k \<and> c < length (tk_calls st k)
     \<and> (\<exists>p. client_of st p = k \<and> leads (point_of st p) = Some c))"

definition waiter_ok :: "token_env \<Rightarrow> token_state \<Rightarrow> nat \<Rightarrow> bool" where
  "waiter_ok env st p \<longleftrightarrow> (\<forall>c. point_of st p = Waiting c \<longrightarrow> c < length (tk_calls st (client_of st p))
     \<and> (tk_calls st (client_of st p) ! c = None \<longrightarrow>
          tk_flights st (client_of st p) (key_of env (client_of st p)) = Some c))"

definition clearing_ok :: "token_state \<Rightarrow> nat \<Rightarrow> bool" where
  "clearing_ok st p \<longleftrightarrow> (\<forall>c r. point_of st p = Clearing c r \<longrightarrow> tk_calls st (client_of st p) ! c = Some r)"

definition flights_ok :: "token_env \<Rightarrow> token_state \<Rightarrow> bool" where
  "flights_ok env st \<longleftrightarrow> (\<forall>p. leader_ok env st p) \<and> (\<forall>k key. flight_ok env st k key)
     \<and> (\<forall>p. waiter_ok env st p) \<and> (\<forall>p. clearing_ok st p)"

lemma flights_okI:
  "(\<And>p. leader_ok env st p) \<Longrightarrow> (\<And>k key. flight_ok env st k key) \<Longrightarrow> (\<And>p. waiter_ok env st p) \<Longrightarrow>
   (\<And>p. clearing_ok st p) \<Longrightarrow> flights_ok env st"
  by (simp add: flights_ok_def)

lemma flights_okD:
  assumes "flights_ok env st"
  shows "leads (point_of st p) = Some c \<Longrightarrow> tk_flights st (client_of st p) (key_of env (client_of st p)) = Some c"
    and "leads (point_of st p) = Some c \<Longrightarrow> client_of st q = client_of st p \<Longrightarrow> leads (point_of st q) = Some c \<Longrightarrow> q = p"
    and "tk_flights st k key = Some c \<Longrightarrow> key = key_of env k \<and> c < length (tk_calls st k)"
    and "tk_flights st k key = Some c \<Longrightarrow> \<exists>p. client_of st p = k \<and> leads (point_of st p) = Some c"
    and "point_of st p = Waiting c \<Longrightarrow> c < length (tk_calls st (client_of st p))"
    and "point_of st p = Waiting c \<Longrightarrow> tk_calls st (client_of st p) ! c = None \<Longrightarrow>
      tk_flights st (client_of st p) (key_of env (client_of st p)) = Some c"
    and "point_of st p = Clearing c r \<Longrightarrow> tk_calls st (client_of st p) ! c = Some r"
  using assms unfolding flights_ok_def leader_ok_def flight_ok_def waiter_ok_def clearing_ok_def by blast+

lemma goto_simps [simp]:
  "tk_procs (goto p pt st) = (tk_procs st)(p := (client_of st p, pt))" "tk_cache (goto p pt st) = tk_cache st"
  "tk_flights (goto p pt st) = tk_flights st" "tk_calls (goto p pt st) = tk_calls st" "tk_log (goto p pt st) = tk_log st"
  by (simp_all add: goto_def)

definition waits_or_clears :: "token_point \<Rightarrow> bool" where
  "waits_or_clears pt \<longleftrightarrow> (\<exists>c. pt = Waiting c) \<or> (\<exists>c r. pt = Clearing c r)"

text \<open>Most steps only move the goroutine, and it goes on leading what it led.\<close>

lemma move_keeps_flights:
  assumes ok: "flights_ok env st" and procs: "tk_procs st' = (tk_procs st)(p := (client_of st p, pt))"
    and same: "tk_flights st' = tk_flights st" "tk_calls st' = tk_calls st"
    and pt: "leads pt = leads (point_of st p)" "\<not> waits_or_clears pt"
  shows "flights_ok env st'"
proof -
  have c: "client_of st' q = client_of st q" for q by (simp add: procs)
  have l: "leads (point_of st' q) = leads (point_of st q)" for q by (simp add: procs pt(1))
  have w: "point_of st' q = Waiting c \<longleftrightarrow> q \<noteq> p \<and> point_of st q = Waiting c" for q c
    using pt(2) by (auto simp: procs waits_or_clears_def)
  have x: "point_of st' q = Clearing c r \<longleftrightarrow> q \<noteq> p \<and> point_of st q = Clearing c r" for q c r
    using pt(2) by (auto simp: procs waits_or_clears_def)
  show ?thesis
  proof (rule flights_okI)
    show "leader_ok env st' q" for q unfolding leader_ok_def c l same using flights_okD(1,2) [OF ok] by blast
    show "flight_ok env st' k key" for k key unfolding flight_ok_def c l same using flights_okD(3,4) [OF ok] by blast
    show "waiter_ok env st' q" for q unfolding waiter_ok_def c w same using flights_okD(5,6) [OF ok] by blast
    show "clearing_ok st' q" for q unfolding clearing_ok_def c x same using flights_okD(7) [OF ok] by blast
  qed
qed

lemma wait_keeps_flights:
  assumes ok: "flights_ok env st" and p: "leads (point_of st p) = None"
    and f: "tk_flights st (client_of st p) (key_of env (client_of st p)) = Some c"
  shows "flights_ok env (goto p (Waiting c) st)" (is "flights_ok env ?st")
proof (rule flights_okI)
  have c: "client_of ?st q = client_of st q" for q by simp
  have l: "leads (point_of ?st q) = leads (point_of st q)" for q using p by simp
  have same: "tk_flights ?st = tk_flights st" "tk_calls ?st = tk_calls st" by simp_all
  show "leader_ok env ?st q" for q unfolding leader_ok_def c l same using flights_okD(1,2) [OF ok] by blast
  show "flight_ok env ?st k key" for k key unfolding flight_ok_def c l same using flights_okD(3,4) [OF ok] by blast
  show "waiter_ok env ?st q" for q
    using flights_okD(5,6) [OF ok, of q] f flights_okD(3) [OF ok f] by (auto simp: waiter_ok_def)
  show "clearing_ok ?st q" for q using flights_okD(7) [OF ok, of q] by (auto simp: clearing_ok_def)
qed

lemma lead_keeps_flights:
  assumes ok: "flights_ok env st" and p: "leads (point_of st p) = None" and k: "k = client_of st p"
    and none: "tk_flights st k (key_of env k) = None" and c: "c = length (tk_calls st k)"
    and st': "tk_procs st' = (tk_procs st)(p := (k, Leading c))"
      "tk_flights st' = (tk_flights st)(k := (tk_flights st k)(key_of env k := Some c))"
      "tk_calls st' = (tk_calls st)(k := tk_calls st k @ [None])"
  shows "flights_ok env st'"
proof (rule flights_okI)
  have cl: "client_of st' q = client_of st q" for q using k by (simp add: st')
  have idle: "leads (point_of st q) = None" if "client_of st q = k" for q
    using flights_okD(1) [OF ok, of q] that none by (cases "leads (point_of st q)") auto
  have old: "c' < length (tk_calls st j)" if "tk_flights st j key = Some c'" for j key c'
    using flights_okD(3) [OF ok that] by simp
  show "leader_ok env st' q" for q
    using flights_okD(1,2) [OF ok, of q] idle k unfolding leader_ok_def cl by (auto simp: st')
  have stays: "\<exists>r. client_of st' r = j \<and> leads (point_of st' r) = Some c'" if "tk_flights st j key = Some c'" for j key c'
  proof -
    from flights_okD(4) [OF ok that] obtain r where "client_of st r = j" "leads (point_of st r) = Some c'" by blast
    with p show ?thesis by (intro exI [of _ r]) (auto simp: st' k)
  qed
  show "flight_ok env st' j key" for j key
  proof (cases "j = k \<and> key = key_of env k")
    case True
    then show ?thesis using c k unfolding flight_ok_def cl by (auto simp: st' intro: exI [of _ p])
  next
    case False
    then have "tk_flights st' j key = tk_flights st j key" by (auto simp: st')
    then show ?thesis
      using stays flights_okD(3) [OF ok, of j key] unfolding flight_ok_def by (auto simp: st' less_SucI)
  qed
  show "waiter_ok env st' q" for q
    using flights_okD(5,6) [OF ok, of q] none unfolding waiter_ok_def cl by (auto simp: st' nth_append)
  show "clearing_ok st' q" for q
    using flights_okD(7) [OF ok, of q] flights_okD(1) [OF ok, of q] old unfolding clearing_ok_def cl
    by (auto simp: st' nth_append)
qed

lemma finish_keeps_flights:
  assumes ok: "flights_ok env st" and p: "point_of st p = Finishing c r" and k: "k = client_of st p"
  shows "flights_ok env (flight_finish k c r p st)" (is "flights_ok env ?st")
proof (rule flights_okI)
  have cl: "client_of ?st q = client_of st q" for q by (simp add: flight_finish_def)
  have l: "leads (point_of ?st q) = leads (point_of st q)" for q using p by (simp add: flight_finish_def)
  have same: "tk_flights ?st = tk_flights st" "length (tk_calls ?st j) = length (tk_calls st j)" for j
    by (simp_all add: flight_finish_def)
  have len: "c < length (tk_calls st k)"
    using flights_okD(1) [OF ok, of p c] flights_okD(3) [OF ok] p k by (metis leads.simps(4))
  show "leader_ok env ?st q" for q unfolding leader_ok_def cl l same using flights_okD(1,2) [OF ok] by blast
  show "flight_ok env ?st j key" for j key unfolding flight_ok_def cl l same using flights_okD(3,4) [OF ok] by blast
  show "waiter_ok env ?st q" for q
    using flights_okD(5,6) [OF ok, of q] k len unfolding waiter_ok_def cl same
    by (auto simp: flight_finish_def nth_list_update split: if_splits)
  show "clearing_ok ?st q" for q
    using flights_okD(7) [OF ok, of q] flights_okD(2) [OF ok, of p c q] p k len unfolding clearing_ok_def cl
    by (auto simp: flight_finish_def nth_list_update split: if_splits)
qed

lemma clear_keeps_flights:
  assumes ok: "flights_ok env st" and p: "point_of st p = Clearing c r" and k: "k = client_of st p"
  shows "flights_ok env (flight_clear k (key_of env k) r p st)" (is "flights_ok env ?st")
proof (rule flights_okI)
  have cl: "client_of ?st q = client_of st q" for q by (simp add: flight_clear_def)
  have f: "tk_flights st k (key_of env k) = Some c" using flights_okD(1) [OF ok, of p c] p k by simp
  have calls: "tk_calls ?st = tk_calls st" by (simp add: flight_clear_def)
  have other: "leads (point_of st q) \<noteq> None \<Longrightarrow> client_of st q = k \<Longrightarrow> q = p" for q
    using flights_okD(1) [OF ok, of q] flights_okD(2) [OF ok, of p c q] p k f by auto
  have gone: "leads (point_of st q) = None" if "q \<noteq> p" "client_of st q = k" for q
    using other [of q] that by (cases "leads (point_of st q)") auto
  show "leader_ok env ?st q" for q
    using flights_okD(1,2) [OF ok, of q] gone [of q] unfolding leader_ok_def cl by (auto simp: flight_clear_def)
  show "flight_ok env ?st j key" for j key
  proof (cases "j = k \<and> key = key_of env k")
    case True
    then show ?thesis by (simp add: flight_ok_def flight_clear_def)
  next
    case False
    have "j \<noteq> k" if "tk_flights ?st j key = Some c'" for c'
      using that False flights_okD(3) [OF ok, of j key c'] by (auto simp: flight_clear_def split: if_splits)
    then show ?thesis
      using False flights_okD(3) [OF ok, of j key] flights_okD(4) [OF ok, of j key] k
      unfolding flight_ok_def cl calls by (fastforce simp: flight_clear_def)
  qed
  show "waiter_ok env ?st q" for q
  proof (cases "\<exists>d. point_of ?st q = Waiting d")
    case True
    then obtain d where d: "point_of ?st q = Waiting d" "point_of st q = Waiting d"
      by (auto simp: flight_clear_def split: if_splits)
    have "client_of st q \<noteq> k" if "tk_calls st (client_of st q) ! d = None"
      using flights_okD(6) [OF ok d(2) that] flights_okD(7) [OF ok p] f k that by auto
    then show ?thesis
      using flights_okD(5,6) [OF ok d(2)] d(1) unfolding waiter_ok_def cl calls by (auto simp: flight_clear_def)
  qed (simp add: waiter_ok_def)
  show "clearing_ok ?st q" for q
    using flights_okD(7) [OF ok, of q] unfolding clearing_ok_def cl calls by (auto simp: flight_clear_def)
qed

lemma step_keeps_flights:
  assumes ok: "flights_ok env st"
  shows "flights_ok env (token_step env now now' answer p st)"
proof -
  note move = move_keeps_flights [OF ok, where p = p] and d = token_step_def Let_def
  let ?k = "client_of st p"
  show ?thesis
  proof (cases "point_of st p")
    case Starting
    then show ?thesis
      by (auto simp: d token_start_def waits_or_clears_def split: option.split prod.split intro!: move)
  next
    case Dropping
    then show ?thesis by (auto simp: d token_drop_def waits_or_clears_def intro!: move)
  next
    case Joining
    show ?thesis
    proof (cases "tk_flights st ?k (key_of env ?k)")
      case None
      with Joining show ?thesis
        by (auto simp: d flight_join_def key_of_def intro!: lead_keeps_flights [OF ok, of p ?k])
    next
      case (Some c)
      with Joining wait_keeps_flights [OF ok _ Some] show ?thesis by (simp add: d flight_join_def key_of_def)
    qed
  next
    case (Leading c)
    then show ?thesis
      by (auto simp: d token_recheck_def waits_or_clears_def split: option.split prod.split intro!: move)
  next
    case (Fetching c t)
    then show ?thesis
      by (auto simp: d token_answer_def waits_or_clears_def split: sum.split prod.split intro!: move)
  next
    case (Storing c v e)
    then show ?thesis by (auto simp: d token_store_def waits_or_clears_def intro!: move)
  next
    case (Finishing c r)
    then show ?thesis using finish_keeps_flights [OF ok] by (simp add: d)
  next
    case (Clearing c r)
    then show ?thesis using clear_keeps_flights [OF ok] by (simp add: d key_of_def)
  next
    case (Waiting c)
    then show ?thesis using ok by (auto simp: d flight_wait_def waits_or_clears_def split: option.split intro!: move)
  next
    case (Returned r)
    then show ?thesis using ok by (simp add: d)
  qed
qed

section \<open>Tokens\<close>

definition issued :: "token_env \<Rightarrow> token_state \<Rightarrow> string \<Rightarrow> string \<Rightarrow> bool" where
  "issued env st key v \<longleftrightarrow> (\<exists>cfg e. (cfg, v, e) \<in> set (tk_log st) \<and> cache_key (te_digest env) cfg = key)"

text \<open>The token a goroutine has in hand.\<close>

fun carries :: "token_point \<Rightarrow> string option" where
  "carries (Storing c v e) = Some v"
| "carries (Finishing c (Inr v)) = Some v"
| "carries (Clearing c (Inr v)) = Some v"
| "carries (Returned (Inr v)) = Some v"
| "carries _ = None"

definition tokens_ok :: "token_env \<Rightarrow> token_state \<Rightarrow> bool" where
  "tokens_ok env st \<longleftrightarrow> memory_cache.holds (\<lambda>k v e. issued env st k v) (tk_cache st)
     \<and> (\<forall>p v. carries (point_of st p) = Some v \<longrightarrow> issued env st (key_of env (client_of st p)) v)
     \<and> (\<forall>k v. Some (Inr v) \<in> set (tk_calls st k) \<longrightarrow> issued env st (key_of env k) v)"

lemma tokens_okD:
  assumes "tokens_ok env st"
  shows "memory_cache.holds (\<lambda>k v e. issued env st k v) (tk_cache st)"
    and "carries (point_of st p) = Some v \<Longrightarrow> issued env st (key_of env (client_of st p)) v"
    and "Some (Inr v) \<in> set (tk_calls st k) \<Longrightarrow> issued env st (key_of env k) v"
  using assms unfolding tokens_ok_def by blast+

text \<open>A step moves the goroutine, may change the cache, and may add to the log.\<close>

lemma move_keeps_tokens:
  assumes ok: "tokens_ok env st" and procs: "tk_procs st' = (tk_procs st)(p := (client_of st p, pt))"
    and log: "set (tk_log st) \<subseteq> set (tk_log st')"
    and cache: "memory_cache.holds (\<lambda>k v e. issued env st' k v) (tk_cache st')"
    and calls: "\<And>k v. Some (Inr v) \<in> set (tk_calls st' k) \<Longrightarrow> issued env st' (key_of env k) v"
    and pt: "\<And>v. carries pt = Some v \<Longrightarrow> issued env st' (key_of env (client_of st p)) v"
  shows "tokens_ok env st'"
proof -
  have "issued env st k v \<Longrightarrow> issued env st' k v" for k v using log unfolding issued_def by blast
  then show ?thesis
    using tokens_okD(2) [OF ok] cache calls pt unfolding tokens_ok_def by (auto simp: procs)
qed

lemma issued_cong: "tk_log st' = tk_log st \<Longrightarrow> issued env st' = issued env st"
  by (simp add: issued_def fun_eq_iff)

lemma goto_keeps_tokens:
  assumes ok: "tokens_ok env st"
    and same: "tk_procs b = tk_procs st" "tk_log b = tk_log st"
    and calls: "\<And>k v. Some (Inr v) \<in> set (tk_calls b k) \<Longrightarrow> issued env st (key_of env k) v"
    and cache: "memory_cache.holds (\<lambda>k v e. issued env st k v) (tk_cache b)"
    and pt: "\<And>v. carries pt = Some v \<Longrightarrow> issued env st (key_of env (client_of st p)) v"
  shows "tokens_ok env (goto p pt b)"
proof (rule move_keeps_tokens [OF ok])
  have i: "issued env (goto p pt b) = issued env st" by (rule issued_cong) (simp add: same(2))
  show "tk_procs (goto p pt b) = (tk_procs st)(p := (client_of st p, pt))" by (simp add: same(1))
  show "set (tk_log st) \<subseteq> set (tk_log (goto p pt b))" by (simp add: same(2))
  show "memory_cache.holds (\<lambda>k v e. issued env (goto p pt b) k v) (tk_cache (goto p pt b))"
    using cache unfolding i by simp
  show "issued env (goto p pt b) (key_of env k) v" if "Some (Inr v) \<in> set (tk_calls (goto p pt b) k)" for k v
    using that calls unfolding i by simp
  show "issued env (goto p pt b) (key_of env (client_of st p)) v" if "carries pt = Some v" for v
    unfolding i using that by (rule pt)
qed

lemma start_keeps_tokens:
  assumes ok: "tokens_ok env st" and k: "k = client_of st p"
  shows "tokens_ok env (token_start (key_of env k) now p st)"
    and "tokens_ok env (token_recheck (key_of env k) now now' c p st)"
proof -
  obtain r cache where g: "tc_get (key_of env k) (tk_cache st) = (r, cache)" by fastforce
  note got = memory_cache.holds_get [OF tokens_okD(1) [OF ok] g] and cache = tokens_okD(1) [OF ok]
  note move = goto_keeps_tokens [OF ok]
  have "tokens_ok env (token_start (key_of env k) now p st) \<and> tokens_ok env (token_recheck (key_of env k) now now' c p st)"
  proof (cases r)
    case None
    have "tokens_ok env (goto p Joining st)" "tokens_ok env (goto p (Fetching c now') st)"
      by ((rule move; simp add: cache tokens_okD(3) [OF ok])+)
    with None g show ?thesis by (simp add: token_start_def token_recheck_def)
  next
    case (Some x)
    obtain v e where x: "x = (v, e)" by (cases x)
    have v: "issued env st (key_of env (client_of st p)) v" using got Some x k by simp
    have "tokens_ok env (goto p (Returned (Inr v)) (st\<lparr>tk_cache := cache\<rparr>))"
      "tokens_ok env (goto p (Finishing c (Inr v)) (st\<lparr>tk_cache := cache\<rparr>))"
      "tokens_ok env (goto p Dropping (st\<lparr>tk_cache := cache\<rparr>))"
      "tokens_ok env (goto p (Fetching c now') (st\<lparr>tk_cache := cache\<rparr>))"
      by ((rule move; simp add: got v tokens_okD(3) [OF ok])+)
    with Some x g show ?thesis by (simp add: token_start_def token_recheck_def)
  qed
  then show "tokens_ok env (token_start (key_of env k) now p st)"
    "tokens_ok env (token_recheck (key_of env k) now now' c p st)" by simp_all
qed

lemma answer_keeps_tokens:
  assumes ok: "tokens_ok env st" and k: "k = client_of st p"
  shows "tokens_ok env (token_answer env k u answer c p st)"
proof (cases "fetched (te_parse env) u answer")
  case (Inl e)
  have "tokens_ok env (goto p (Finishing c (Inl e)) st)"
    by (rule goto_keeps_tokens [OF ok]; simp add: tokens_okD(1,3) [OF ok])
  with Inl show ?thesis by (simp add: token_answer_def)
next
  case (Inr x)
  obtain v e where x: "x = (v, e)" by (cases x)
  let ?st = "goto p (Storing c v e) (st\<lparr>tk_log := tk_log st @ [(te_client env k, v, e)]\<rparr>)"
  have new: "issued env ?st (key_of env k) v" by (auto simp: issued_def key_of_def)
  have old: "issued env st j w \<Longrightarrow> issued env ?st j w" for j w by (auto simp: issued_def)
  have "memory_cache.holds (\<lambda>j w e. issued env ?st j w) (tk_cache st)"
    by (rule memory_cache.holds_mono [OF tokens_okD(1) [OF ok]]) (rule old)
  then have "tokens_ok env ?st"
    using new old tokens_okD(3) [OF ok] k by (intro move_keeps_tokens [OF ok, where p = p]) auto
  with Inr x show ?thesis by (simp add: token_answer_def)
qed

lemma finish_keeps_tokens:
  assumes ok: "tokens_ok env st" and p: "point_of st p = Finishing c r" and k: "k = client_of st p"
  shows "tokens_ok env (flight_finish k c r p st)"
proof -
  have r: "issued env st (key_of env k) v" if "r = Inr v" for v using tokens_okD(2) [OF ok, of p v] p that k by simp
  have calls: "issued env st (key_of env j) v"
    if "Some (Inr v) \<in> set (((tk_calls st)(k := (tk_calls st k)[c := Some r])) j)" for j v
  proof -
    have "Some (Inr v) \<in> set (tk_calls st j) \<or> j = k \<and> r = Inr v"
      using that set_update_subset_insert [of "tk_calls st k" c "Some r"] by (cases "j = k") auto
    then show ?thesis using r tokens_okD(3) [OF ok] by auto
  qed
  have "issued env st (key_of env (client_of st p)) v" if "carries (Clearing c r) = Some v" for v
    using that r k by (cases r) auto
  then show ?thesis
    unfolding flight_finish_def using calls
    by (intro goto_keeps_tokens [OF ok]) (simp_all add: tokens_okD(1) [OF ok])
qed

lemma step_keeps_tokens:
  assumes ok: "tokens_ok env st" and fl: "flights_ok env st"
  shows "tokens_ok env (token_step env now now' answer p st)"
proof -
  let ?k = "client_of st p" let ?key = "key_of env (client_of st p)"
  note t = tokens_okD [OF ok] and move = goto_keeps_tokens [OF ok]
  have step: "token_step env now now' answer p st =
      (case point_of st p of
        Starting \<Rightarrow> token_start ?key now p st
      | Dropping \<Rightarrow> token_drop ?key p st
      | Joining \<Rightarrow> flight_join ?k ?key p st
      | Leading c \<Rightarrow> token_recheck ?key now now' c p st
      | Fetching c u \<Rightarrow> token_answer env ?k u answer c p st
      | Storing c v e \<Rightarrow> token_store ?key c v e p st
      | Finishing c r \<Rightarrow> flight_finish ?k c r p st
      | Clearing c r \<Rightarrow> flight_clear ?k ?key r p st
      | Waiting c \<Rightarrow> flight_wait ?k c p st
      | Returned r \<Rightarrow> st)" unfolding token_step_def key_of_def Let_def by (rule refl)
  show ?thesis
  proof (cases "point_of st p")
    case Starting
    then show ?thesis using start_keeps_tokens [OF ok] by (simp add: step)
  next
    case Dropping
    have "tokens_ok env (token_drop ?key p st)"
      unfolding token_drop_def by (rule move; simp add: memory_cache.holds_drop [OF t(1)] t(3))
    with Dropping show ?thesis by (simp add: step)
  next
    case Joining
    have "tokens_ok env (flight_join ?k ?key p st)"
    proof (cases "tk_flights st ?k ?key")
      case (Some c)
      have "tokens_ok env (goto p (Waiting c) st)" by (rule move; simp add: t(1,3))
      with Some show ?thesis by (simp add: flight_join_def)
    next
      case None
      have calls: "issued env st (key_of env j) v" if "Some (Inr v) \<in> set (((tk_calls st)(?k := tk_calls st ?k @ [None])) j)" for j v
        using that t(3) by (auto split: if_splits)
      then show ?thesis
        unfolding flight_join_def None option.case Let_def by (intro move) (simp_all add: t(1))
    qed
    with Joining show ?thesis by (simp add: step)
  next
    case (Leading c)
    then show ?thesis using start_keeps_tokens [OF ok] by (simp add: step)
  next
    case (Fetching c u)
    then show ?thesis using answer_keeps_tokens [OF ok] by (simp add: step)
  next
    case (Storing c v e)
    then have "issued env st ?key v" using t(2) [of p v] by simp
    then have "tokens_ok env (token_store ?key c v e p st)"
      unfolding token_store_def by (intro move; simp add: memory_cache.holds_put [OF t(1)] t(3))
    with Storing show ?thesis by (simp add: step)
  next
    case (Finishing c r)
    then show ?thesis using finish_keeps_tokens [OF ok] by (simp add: step)
  next
    case (Clearing c r)
    have "issued env st ?key v" if "carries (Returned r) = Some v" for v
      using t(2) [of p v] Clearing that by (cases r) auto
    then have "tokens_ok env (flight_clear ?k ?key r p st)"
      unfolding flight_clear_def by (intro move; simp add: t(1,3))
    with Clearing show ?thesis by (simp add: step)
  next
    case (Waiting c)
    show ?thesis
    proof (cases "tk_calls st ?k ! c")
      case None
      with Waiting ok show ?thesis by (simp add: step flight_wait_def)
    next
      case (Some r)
      have "issued env st ?key v" if "carries (Returned r) = Some v" for v
        using t(3) [of v ?k] nth_mem [OF flights_okD(5) [OF fl Waiting]] that Some by (cases r) auto
      then have "tokens_ok env (goto p (Returned r) st)" by (intro move; simp add: t(1,3))
      with Waiting Some show ?thesis by (simp add: step flight_wait_def)
    qed
  next
    case (Returned r)
    with ok show ?thesis by (simp add: step)
  qed
qed

section \<open>Runs\<close>

definition token_init :: "token_state \<Rightarrow> bool" where
  "token_init st \<longleftrightarrow> tc_ok (tk_cache st) \<and> tc_items (tk_cache st) = [] \<and> (\<forall>p. point_of st p = Starting)
     \<and> (\<forall>k. tk_calls st k = []) \<and> (\<forall>k key. tk_flights st k key = None)"

inductive token_run :: "token_env \<Rightarrow> token_state \<Rightarrow> token_state \<Rightarrow> bool" for env where
  step: "token_run env st (token_step env now now' answer p st)"

definition token_inv :: "token_env \<Rightarrow> token_state \<Rightarrow> bool" where
  "token_inv env st \<longleftrightarrow> flights_ok env st \<and> tokens_ok env st"

interpretation token_runs: invariant_system "token_run env" "token_inv env" for env
  by standard (auto elim!: token_run.cases simp: token_inv_def intro: step_keeps_flights step_keeps_tokens)

lemma token_init_inv: "token_init st \<Longrightarrow> token_inv env st"
  by (simp add: token_init_def token_inv_def flights_ok_def leader_ok_def flight_ok_def waiter_ok_def clearing_ok_def
      tokens_ok_def memory_cache.holds_def tc_look_def)

lemmas reached_inv = token_runs.reachable_keeps [OF _ token_init_inv]

text \<open>The parts of a key are read back when they have no separator in them.\<close>

definition key_parts :: "(string \<Rightarrow> string) \<Rightarrow> client_config \<Rightarrow> string list" where
  "key_parts digest cfg =
     [cl_issuer cfg, cl_token_url cfg, cl_id cfg, cl_audience cfg, ''sk-'' @ take 16 (digest (cl_secret cfg))]"

lemma cache_key_parts:
  "(\<And>t. t \<in> set (key_parts digest cfg) \<Longrightarrow> CHR ''|'' \<notin> set t) \<Longrightarrow> cache_key digest cfg' = cache_key digest cfg \<Longrightarrow>
   key_parts digest cfg' = key_parts digest cfg"
  by (rule str_join_inject [of _ "CHR ''|''"]) (simp_all add: key_parts_def cache_key_def)

text \<open>
  C19: A call of \<open>Token\<close> returns only a token that the endpoint issued to a client with the same key, so
  with the same issuer, token endpoint, client, audience and digest of the secret if these have no
  separator in them: in no interleaving does a token leak to another key. (The scopes are not in the key.)
\<close>

theorem tokens_stay_with_their_key:
  assumes "token_init st" "(token_run env)\<^sup>*\<^sup>* st st'" "point_of st' p = Returned (Inr v)"
  shows "\<exists>cfg e. (cfg, v, e) \<in> set (tk_log st')
    \<and> cache_key (te_digest env) cfg = cache_key (te_digest env) (te_client env (client_of st' p))
    \<and> ((\<forall>t \<in> set (key_parts (te_digest env) (te_client env (client_of st' p))). CHR ''|'' \<notin> set t) \<longrightarrow>
        key_parts (te_digest env) cfg = key_parts (te_digest env) (te_client env (client_of st' p)))"
proof -
  have "tokens_ok env st'" using reached_inv [OF assms(2,1)] by (simp add: token_inv_def)
  from tokens_okD(2) [OF this, of p v] assms(3) have "issued env st' (key_of env (client_of st' p)) v" by simp
  then show ?thesis unfolding issued_def key_of_def using cache_key_parts by metis
qed

section \<open>Waiting\<close>

text \<open>How many steps the leader of a call is away from publishing its result.\<close>

fun steps_left :: "token_point \<Rightarrow> nat" where
  "steps_left (Leading c) = 4"
| "steps_left (Fetching c t) = 3"
| "steps_left (Storing c v e) = 2"
| "steps_left (Finishing c r) = 1"
| "steps_left _ = 0"

definition published :: "token_state \<Rightarrow> nat \<Rightarrow> nat \<Rightarrow> bool" where
  "published st k c \<longleftrightarrow> c < length (tk_calls st k) \<and> tk_calls st k ! c \<noteq> None"

lemma set_published: "c < length xs \<Longrightarrow> xs ! c \<noteq> None \<Longrightarrow> xs[d := Some z] ! c \<noteq> None"
  by (cases "d = c") auto

lemma published_step: "published st k c \<Longrightarrow> published (token_step env now now' answer q st) k c"
  using set_published [of c "tk_calls st k"]
  by (cases "point_of st q")
    (auto simp: published_def token_step_def Let_def token_start_def token_drop_def flight_join_def token_recheck_def
      token_answer_def token_store_def flight_finish_def flight_clear_def flight_wait_def nth_append
      simp del: not_None_eq split: option.split sum.split prod.split)

definition due :: "token_state \<Rightarrow> nat \<Rightarrow> nat \<Rightarrow> nat \<Rightarrow> nat \<Rightarrow> bool" where
  "due st k c q n \<longleftrightarrow> published st k c
     \<or> client_of st q = k \<and> c < length (tk_calls st k) \<and> leads (point_of st q) = Some c
       \<and> 0 < steps_left (point_of st q) \<and> steps_left (point_of st q) \<le> n"

lemma due_step: "due st k c q n \<Longrightarrow> due (token_step env now now' answer q st) k c q (n - 1)"
proof (cases "published st k c")
  case False
  assume "due st k c q n"
  with False show ?thesis
    by (cases "point_of st q")
      (auto simp: due_def published_def token_step_def Let_def token_recheck_def token_answer_def token_store_def
        flight_finish_def split: option.split sum.split prod.split)
qed (simp add: due_def published_step)

definition leader_steps :: "token_env \<Rightarrow> nat \<Rightarrow> (gotime \<times> gotime \<times> endpoint_answer) list \<Rightarrow> token_state \<Rightarrow> token_state" where
  "leader_steps env q args st = foldl (\<lambda>s (now, now', answer). token_step env now now' answer q s) st args"

lemma due_steps: "due st k c q n \<Longrightarrow> due (leader_steps env q args st) k c q (n - length args)"
proof (induction args arbitrary: st n)
  case (Cons a args)
  obtain now now' answer where "a = (now, now', answer)" by (metis prod_cases3)
  with Cons.IH [OF due_step [OF Cons.prems]] show ?case by (simp add: leader_steps_def)
qed (simp add: leader_steps_def)

lemma step_frame: "p \<noteq> q \<Longrightarrow> tk_procs (token_step env now now' answer q st) p = tk_procs st p"
  by (auto simp: token_step_def Let_def token_start_def token_drop_def flight_join_def token_recheck_def token_answer_def
      token_store_def flight_finish_def flight_clear_def flight_wait_def
      split: token_point.split option.split sum.split prod.split)

lemma steps_frame: "p \<noteq> q \<Longrightarrow> tk_procs (leader_steps env q args st) p = tk_procs st p"
  by (induction args arbitrary: st) (auto simp: leader_steps_def step_frame)

text \<open>
  C22: One goroutine of a client at a time is between taking a flight and landing it, so a client has at
  most one request to its token endpoint on the way; and nobody waits for ever: whoever waits is let
  go after at most four steps of the one goroutine it waits for, whatever the clock and the endpoint say.
\<close>

theorem one_flight_and_nobody_is_stuck:
  assumes "token_init st" "(token_run env)\<^sup>*\<^sup>* st st'"
  shows "(leads (point_of st' p) \<noteq> None \<and> leads (point_of st' q) \<noteq> None \<and> client_of st' p = client_of st' q \<longrightarrow> p = q)
    \<and> (point_of st' p = Waiting c \<longrightarrow>
        (\<exists>l. \<forall>args. length args = 4 \<longrightarrow>
          (\<exists>r. point_of (token_step env now now' answer p (leader_steps env l args st')) p = Returned r)))"
proof -
  have ok: "flights_ok env st'" using reached_inv [OF assms(2,1)] by (simp add: token_inv_def)
  have one: "p = q" if pq: "leads (point_of st' p) \<noteq> None" "leads (point_of st' q) \<noteq> None" "client_of st' p = client_of st' q"
  proof -
    obtain d e where d: "leads (point_of st' p) = Some d" "leads (point_of st' q) = Some e" using pq(1,2) by blast
    with flights_okD(1) [OF ok d(1)] flights_okD(1) [OF ok d(2)] pq(3) have "d = e" by simp
    with flights_okD(2) [OF ok d(2), of p] d pq(3) show ?thesis by simp
  qed
  have go: "\<exists>l. \<forall>args. length args = 4 \<longrightarrow>
      (\<exists>r. point_of (token_step env now now' answer p (leader_steps env l args st')) p = Returned r)"
    if w: "point_of st' p = Waiting c"
  proof -
    let ?k = "client_of st' p"
    have free: "\<exists>r. point_of (token_step env now now' answer p s) p = Returned r"
      if "tk_procs s p = tk_procs st' p" "published s ?k c" for s
      using that w by (auto simp: published_def token_step_def Let_def flight_wait_def)
    have len: "c < length (tk_calls st' ?k)" using flights_okD(5) [OF ok w] .
    have "\<exists>l. l \<noteq> p \<and> due st' ?k c l 4"
    proof (cases "tk_calls st' ?k ! c")
      case None
      from flights_okD(4) [OF ok flights_okD(6) [OF ok w None]] obtain l where
        l: "client_of st' l = ?k" "leads (point_of st' l) = Some c" by blast
      have "point_of st' l \<noteq> Clearing c r" for r using flights_okD(7) [OF ok, of l c r] None l(1) by auto
      then have "0 < steps_left (point_of st' l)" "steps_left (point_of st' l) \<le> 4"
        using l(2) by (cases "point_of st' l"; simp)+
      with l len w show ?thesis by (intro exI [of _ l]) (auto simp: due_def)
    next
      case (Some r)
      with len show ?thesis by (intro exI [of _ "Suc p"]) (simp add: due_def published_def)
    qed
    then obtain l where l: "l \<noteq> p" "due st' ?k c l 4" by blast
    have "published (leader_steps env l args st') ?k c" if "length args = 4" for args
      using due_steps [OF l(2), of env args] that by (auto simp: due_def)
    with free steps_frame [of p l] l(1) show ?thesis by (intro exI [of _ l]) auto
  qed
  show ?thesis using one go by blast
qed

end
