(* ===== verification/TokenExamples.thy ===== *)
theory TokenExamples imports TokenRuns begin

text \<open>
  Concrete runs of the token client: the properties apply to them, and they show what the cache does not
  keep apart and what the flights do not join.
\<close>

definition sample_client :: "string list \<Rightarrow> client_config" where
  "sample_client scopes = \<lparr>cl_issuer = ''i'', cl_token_url = ''u'', cl_id = ''c'', cl_secret = ''s'', cl_audience = [],
     cl_scopes = scopes\<rparr>"

text \<open>Clients 0 and 1 differ in their scopes only.\<close>

definition sample_token_env :: token_env where
  "sample_token_env = \<lparr>te_digest = (\<lambda>s. s),
     te_parse = (\<lambda>_. Some (JObj [(''access_token'', JStr ''t''), (''token_type'', JStr ''Bearer''), (''expires_in'', JInt 3600)])),
     te_client = (\<lambda>k. sample_client (if k = 0 then [''read''] else [''write'']))\<rparr>"

text \<open>Goroutines 0 and 1 belong to client 0, the others to client 1.\<close>

definition sample_tokens :: token_state where
  "sample_tokens = \<lparr>tk_cache = new_token_cache 0, tk_flights = (\<lambda>_ _. None), tk_calls = (\<lambda>_. []),
     tk_procs = (\<lambda>p. (p div 2, Starting)), tk_log = []\<rparr>"

definition run_of :: "nat list \<Rightarrow> token_state" where
  "run_of ps = foldl (\<lambda>s p. token_step sample_token_env 0 0 (Answer 200 []) p s) sample_tokens ps"

lemma token_init_sample: "token_init sample_tokens"
  by (simp add: token_init_def sample_tokens_def new_token_cache_refines) (simp add: new_token_cache_def)

lemma run_of_reached: "(token_run sample_token_env)\<^sup>*\<^sup>* sample_tokens (run_of ps)"
proof (induction ps rule: rev_induct)
  case (snoc p ps)
  then show ?case using token_run.step by (auto simp: run_of_def intro: rtranclp.rtrancl_into_rtrancl)
qed (simp add: run_of_def)

lemma sample_key: "cache_key (te_digest sample_token_env) (te_client sample_token_env k) = ''i|u|c||sk-s''"
  by (simp add: cache_key_def sample_token_env_def sample_client_def)

lemma sample_decoded:
  "unmarshal decode_endpoint_token (te_parse sample_token_env s) =
     Some \<lparr>et_access_token = ''t'', et_token_type = ''Bearer'', et_expires_in = 3600\<rparr>"
  unfolding sample_token_env_def token_env.simps by code_simp

lemma sample_fetched: "fetched (te_parse sample_token_env) t (Answer 200 []) = Inr (''t'', t + 3600 * second)"
proof -
  have "to_lower ''Bearer'' = ''bearer''" by code_simp
  moreover have "sint (word_of_int 3600 * word_of_int second :: int64) = 3600 * second"
    using sint_of_int64 [of "3600 * second"] by simp
  ultimately show ?thesis by (simp add: fetched_def sample_decoded Let_def)
qed

text \<open>Goroutine 0 fetches a token; goroutine 2, of the client with other scopes, gets it from the cache.\<close>

lemmas run_simps = run_of_def sample_tokens_def token_step_def Let_def token_start_def flight_join_def token_recheck_def
  token_answer_def token_store_def flight_finish_def flight_clear_def flight_wait_def sample_key sample_fetched
  tc_get_def tc_put_def tc_touch_def new_token_cache_def default_memory_token_cache_max_def refresh_ahead_window_def

lemma scopes_share_a_token:
  "point_of (run_of [0, 0, 0, 0, 0, 0, 0, 2]) 2 = Returned (Inr ''t'')"
  "map (\<lambda>x. (cl_scopes (fst x), fst (snd x))) (tk_log (run_of [0, 0, 0, 0, 0, 0, 0, 2])) = [([''read''], ''t'')]"
  "client_of (run_of [0, 0, 0, 0, 0, 0, 0, 2]) 2 = 1"
  by (simp_all add: run_simps) (simp add: sample_token_env_def sample_client_def)

text \<open>Clients of one configuration do not share their flights: both talk to the endpoint.\<close>

lemma clients_fetch_side_by_side:
  "map (\<lambda>p. leads (point_of (run_of [0, 0, 0, 2, 2, 2]) p)) [0, 2] = [Some 0, Some 0]"
  by (simp add: run_simps)

theorem token_cache_is_a_bounded_lru_witness:
  "tc_abs (tc_put ''k'' ''v'' 9 (new_token_cache 2)) = [(''k'', ''v'', 9)]"
proof -
  have "tc_max (new_token_cache 2) = 2" by (simp add: new_token_cache_def)
  with token_cache_is_a_bounded_lru [OF new_token_cache_refines(1) [of 2], of "''k''" _ _ "''v''" 9]
  show ?thesis by (simp add: new_token_cache_refines recent_put_def)
qed

theorem tokens_stay_with_their_key_witness:
  "\<exists>cfg e. (cfg, ''t'', e) \<in> set (tk_log (run_of [0, 0, 0, 0, 0, 0, 0, 2])) \<and> cl_id cfg = ''c''"
proof -
  have parts: "\<forall>t \<in> set (key_parts (te_digest sample_token_env) (te_client sample_token_env 1)). CHR ''|'' \<notin> set t"
    by code_simp
  from tokens_stay_with_their_key [OF token_init_sample run_of_reached scopes_share_a_token(1)] parts
  show ?thesis unfolding scopes_share_a_token(3) by (auto simp: key_parts_def sample_token_env_def sample_client_def)
qed

theorem one_flight_and_nobody_is_stuck_witness:
  "\<exists>l. \<forall>args. length args = 4 \<longrightarrow>
     (\<exists>r. point_of (token_step sample_token_env 0 0 NoAnswer 1 (leader_steps sample_token_env l args (run_of [0, 0, 1, 1]))) 1 = Returned r)"
proof -
  have "point_of (run_of [0, 0, 1, 1]) 1 = Waiting 0" by (simp add: run_simps)
  with one_flight_and_nobody_is_stuck [OF token_init_sample run_of_reached, of "[0, 0, 1, 1]" 1 1 0 0 0 NoAnswer]
  show ?thesis by blast
qed

end
