(* ===== verification/Jwks.thy ===== *)
theory Jwks imports JsonText begin

text \<open>
  Signing keys and their rotation (\<open>internal/auth/jwks\<close>), their table
  (\<open>store/sqlite/oidc\_signing\_keys.go\<close>) and the envelope private keys are stored in
  (\<open>crypto/envelope.go\<close>). Key generation, PKCS#8, AES-GCM, JSON and the signer of go-jose are
  parameters. A key that the program holds and its row differ in the private part only.
\<close>

section \<open>The envelope\<close>

text \<open>
  A nil envelope passes everything through. The source of nonces may fail; sealing appends the tag.
\<close>

record gcm =
  gcm_nonce_size :: nat
  gcm_overhead :: nat
  gcm_seal :: "string \<Rightarrow> string \<Rightarrow> string"
  gcm_open :: "string \<Rightarrow> string \<Rightarrow> string option"

definition envelope_encrypt :: "gcm option \<Rightarrow> string option \<Rightarrow> string \<Rightarrow> string option" where
  "envelope_encrypt e nonce plain =
     (case e of
        None \<Rightarrow> Some plain
      | Some g \<Rightarrow> map_option (\<lambda>n. n @ gcm_seal g n plain) nonce)"

definition envelope_decrypt :: "gcm option \<Rightarrow> string \<Rightarrow> string option" where
  "envelope_decrypt e ct =
     (case e of
        None \<Rightarrow> Some ct
      | Some g \<Rightarrow>
          if length ct < gcm_nonce_size g + gcm_overhead g then None
          else gcm_open g (take (gcm_nonce_size g) ct) (drop (gcm_nonce_size g) ct))"

section \<open>Keys\<close>

datatype key_kind = KindEd25519 | KindRSA2048 | KindP256 | KindP384 | KindP521 | KindOther

text \<open>The curve or the size of a private key, and its material.\<close>

type_synonym private_key = "key_kind \<times> string"

definition valid_algorithm :: "string \<Rightarrow> bool" where
  "valid_algorithm a \<longleftrightarrow> a \<in> set [''EdDSA'', ''RS256'', ''RS384'', ''RS512'', ''PS256'', ''PS384'', ''PS512'', ''ES256'', ''ES384'', ''ES512'']"

definition default_algorithm :: string where
  "default_algorithm = ''EdDSA''"

definition kind_of_algorithm :: "string \<Rightarrow> key_kind option" where
  "kind_of_algorithm a =
     (if a = ''EdDSA'' then Some KindEd25519
      else if a \<in> set [''RS256'', ''RS384'', ''RS512'', ''PS256'', ''PS384'', ''PS512''] then Some KindRSA2048
      else if a = ''ES256'' then Some KindP256
      else if a = ''ES384'' then Some KindP384
      else if a = ''ES512'' then Some KindP521
      else None)"

datatype key_status = StatusActive | StatusRetiring | StatusExpired

record 'p key =
  key_id :: string
  key_alg :: string
  key_private :: 'p
  key_jwk :: string
  key_status :: key_status
  key_created :: gotime
  key_activated :: "gotime option"
  key_retired :: "gotime option"

type_synonym signing_key = "private_key key"

type_synonym key_row = "string key"

definition active_key_max_age :: int where
  "active_key_max_age = 7 * 24 * 60 * minute"

definition retiring_overlap :: int where
  "retiring_overlap = 14 * 24 * 60 * minute"

definition expired_key_prune_age :: int where
  "expired_key_prune_age = 30 * 24 * 60 * minute"

datatype key_error =
    ListKeys | SaveKey | RetireKey string | ExpireKey string | PruneKeys | KeyRowNotFound string
  | UnsupportedAlg string | GenerateKey | EncodeJwk | MarshalKey | EncryptKey | DecryptKey string | ParseKey string
  | DecodeJwk string | NoActiveKey | KeyNotFound | NewSigner string

section \<open>The table\<close>

text \<open>Statement \<open>n\<close> of a run fails if \<open>kd_fails n\<close>. Stored instants have seconds.\<close>

record key_db =
  kd_rows :: "key_row list"
  kd_fails :: "nat \<Rightarrow> bool"
  kd_count :: nat

definition kd_tick :: "key_db \<Rightarrow> key_db" where
  "kd_tick db = db\<lparr>kd_count := Suc (kd_count db)\<rparr>"

definition kd_broken :: "key_db \<Rightarrow> bool" where
  "kd_broken db \<longleftrightarrow> kd_fails db (kd_count db)"

definition stored_times :: "key_row \<Rightarrow> key_row" where
  "stored_times r = r\<lparr>key_created := rfc3339 (key_created r), key_activated := map_option rfc3339 (key_activated r),
     key_retired := map_option rfc3339 (key_retired r)\<rparr>"

definition row_create :: "key_row \<Rightarrow> key_db \<Rightarrow> key_error option \<times> key_db" where
  "row_create r db =
     (if kd_broken db \<or> key_id r \<in> set (map key_id (kd_rows db)) then (Some SaveKey, kd_tick db)
      else (None, (kd_tick db)\<lparr>kd_rows := kd_rows db @ [stored_times r]\<rparr>))"

definition row_get :: "string \<Rightarrow> key_db \<Rightarrow> (key_error + key_row option) \<times> key_db" where
  "row_get kid db =
     (if kd_broken db then (Inl ListKeys, kd_tick db)
      else (Inr (List.find (\<lambda>r. key_id r = kid) (kd_rows db)), kd_tick db))"

text \<open>No statuses stand for all rows. Rows come by creation.\<close>

definition rows_by_status :: "key_status list \<Rightarrow> key_db \<Rightarrow> (key_error + key_row list) \<times> key_db" where
  "rows_by_status sts db =
     (if kd_broken db then (Inl ListKeys, kd_tick db)
      else (Inr (sort_key key_created (filter (\<lambda>r. sts = [] \<or> key_status r \<in> set sts) (kd_rows db))), kd_tick db))"

definition row_update_status :: "string \<Rightarrow> key_status \<Rightarrow> gotime option \<Rightarrow> key_db \<Rightarrow> key_error option \<times> key_db" where
  "row_update_status kid st retired db =
     (if kd_broken db \<or> kid \<notin> set (map key_id (kd_rows db)) then (Some (KeyRowNotFound kid), kd_tick db)
      else (None, (kd_tick db)\<lparr>kd_rows := update_where (\<lambda>r. key_id r = kid)
             (\<lambda>r. r\<lparr>key_status := st, key_retired := map_option rfc3339 retired\<rparr>) (kd_rows db)\<rparr>))"

definition rows_prune :: "gotime \<Rightarrow> key_db \<Rightarrow> key_error option \<times> key_db" where
  "rows_prune cutoff db =
     (if kd_broken db then (Some PruneKeys, kd_tick db)
      else (None, (kd_tick db)\<lparr>kd_rows := delete_where
              (\<lambda>r. key_status r = StatusExpired \<and> (\<exists>t \<in> set_option (key_retired r). t < rfc3339 cutoff)) (kd_rows db)\<rparr>))"

section \<open>The key store\<close>

record key_env =
  ke_gcm :: "gcm option"
  ke_marshal :: "private_key \<Rightarrow> string option"
  ke_parse :: "string \<Rightarrow> private_key option"
  ke_jwk :: "private_key \<Rightarrow> string \<Rightarrow> string \<Rightarrow> string option"
  ke_json :: "string \<Rightarrow> raw_json"
  ke_signer :: "string \<Rightarrow> private_key \<Rightarrow> bool"
  ke_observed :: bool

definition with_private :: "'q \<Rightarrow> 'p key \<Rightarrow> 'q key" where
  "with_private p k = \<lparr>key_id = key_id k, key_alg = key_alg k, key_private = p, key_jwk = key_jwk k,
     key_status = key_status k, key_created = key_created k, key_activated = key_activated k, key_retired = key_retired k\<rparr>"

definition marshal_pkcs8 :: "key_env \<Rightarrow> private_key \<Rightarrow> string option" where
  "marshal_pkcs8 env p = (if fst p = KindOther then None else ke_marshal env p)"

definition parse_pkcs8 :: "key_env \<Rightarrow> string \<Rightarrow> private_key option" where
  "parse_pkcs8 env der =
     (case ke_parse env der of None \<Rightarrow> None | Some p \<Rightarrow> if fst p = KindOther then None else Some p)"

definition ks_save :: "key_env \<Rightarrow> string option \<Rightarrow> signing_key \<Rightarrow> key_db \<Rightarrow> key_error option \<times> key_db" where
  "ks_save env nonce k db =
     (case marshal_pkcs8 env (key_private k) of
        None \<Rightarrow> (Some MarshalKey, db)
      | Some der \<Rightarrow>
          (case envelope_encrypt (ke_gcm env) nonce der of
             None \<Rightarrow> (Some EncryptKey, db)
           | Some ct \<Rightarrow> row_create (with_private ct k) db))"

definition row_to_key :: "key_env \<Rightarrow> key_row \<Rightarrow> key_error + signing_key" where
  "row_to_key env r =
     (case envelope_decrypt (ke_gcm env) (key_private r) of
        None \<Rightarrow> Inl (DecryptKey (key_id r))
      | Some der \<Rightarrow>
          (case parse_pkcs8 env der of
             None \<Rightarrow> Inl (ParseKey (key_id r))
           | Some p \<Rightarrow> Inr (with_private p r)))"

text \<open>One row that cannot be read fails the list.\<close>

fun rows_to_keys :: "key_env \<Rightarrow> key_row list \<Rightarrow> key_error + signing_key list" where
  "rows_to_keys env [] = Inr []"
| "rows_to_keys env (r # rs) =
     (case row_to_key env r of
        Inl e \<Rightarrow> Inl e
      | Inr k \<Rightarrow> (case rows_to_keys env rs of Inl e \<Rightarrow> Inl e | Inr ks \<Rightarrow> Inr (k # ks)))"

definition ks_list :: "key_env \<Rightarrow> key_status list \<Rightarrow> key_db \<Rightarrow> (key_error + signing_key list) \<times> key_db" where
  "ks_list env sts db =
     (case rows_by_status sts db of
        (Inl e, db1) \<Rightarrow> (Inl e, db1)
      | (Inr rows, db1) \<Rightarrow> (rows_to_keys env rows, db1))"

definition ks_get :: "key_env \<Rightarrow> string \<Rightarrow> key_db \<Rightarrow> (key_error + signing_key) \<times> key_db" where
  "ks_get env kid db =
     (case row_get kid db of
        (Inl e, db1) \<Rightarrow> (Inl e, db1)
      | (Inr None, db1) \<Rightarrow> (Inl KeyNotFound, db1)
      | (Inr (Some r), db1) \<Rightarrow> (row_to_key env r, db1))"

section \<open>The manager\<close>

text \<open>What a generation draws: the id, the key material of each kind, and the nonce of its encryption.\<close>

record key_draw =
  dr_kid :: string
  dr_material :: "key_kind \<Rightarrow> string option"
  dr_nonce :: "string option"

definition generate :: "key_env \<Rightarrow> string \<Rightarrow> gotime \<Rightarrow> key_draw \<Rightarrow> key_error + signing_key" where
  "generate env alg now draw =
     (if \<not> valid_algorithm alg then Inl (UnsupportedAlg alg)
      else case kind_of_algorithm alg of
             None \<Rightarrow> Inl (UnsupportedAlg alg)
           | Some kind \<Rightarrow>
               (case dr_material draw kind of
                  None \<Rightarrow> Inl GenerateKey
                | Some mat \<Rightarrow>
                    (case ke_jwk env (kind, mat) (dr_kid draw) alg of
                       None \<Rightarrow> Inl EncodeJwk
                     | Some jwk \<Rightarrow>
                         Inr \<lparr>key_id = dr_kid draw, key_alg = alg, key_private = (kind, mat), key_jwk = jwk,
                              key_status = StatusActive, key_created = now, key_activated = None, key_retired = None\<rparr>)))"

fun latest_active_from :: "'p key option \<Rightarrow> 'p key list \<Rightarrow> 'p key option" where
  "latest_active_from out [] = out"
| "latest_active_from out (k # ks) =
     (if key_status k \<noteq> StatusActive then latest_active_from out ks
      else latest_active_from
        (case out of None \<Rightarrow> Some k | Some o' \<Rightarrow> if key_created o' < key_created k then Some k else out) ks)"

abbreviation latest_active :: "'p key list \<Rightarrow> 'p key option" where
  "latest_active \<equiv> latest_active_from None"

text \<open>The first part of \<open>rotateLocked\<close>: a new key if there is no active one or it is too old.\<close>

definition rotate_mint :: "key_env \<Rightarrow> gotime \<Rightarrow> key_draw \<Rightarrow> signing_key list \<Rightarrow> key_db \<Rightarrow> key_error option \<times> key_db" where
  "rotate_mint env now draw keys db =
     (let active = latest_active keys in
      if (\<forall>k \<in> set_option active. active_key_max_age \<le> time_sub now (key_created k))
      then case generate env default_algorithm now draw of
             Inl e \<Rightarrow> (Some e, db)
           | Inr k \<Rightarrow>
               (case ks_save env (dr_nonce draw)
                       (k\<lparr>key_status := StatusActive, key_created := now, key_activated := Some now\<rparr>) db of
                  (Some e, db1) \<Rightarrow> (Some e, db1)
                | (None, db1) \<Rightarrow>
                    (case active of
                       None \<Rightarrow> (None, db1)
                     | Some old \<Rightarrow>
                         (case row_update_status (key_id old) StatusRetiring (Some now) db1 of
                            (Some _, db2) \<Rightarrow> (Some (RetireKey (key_id old)), db2)
                          | (None, db2) \<Rightarrow> (None, db2))))
      else (None, db))"

fun rotate_expire :: "gotime \<Rightarrow> signing_key list \<Rightarrow> key_db \<Rightarrow> key_error option \<times> key_db" where
  "rotate_expire now [] db = (None, db)"
| "rotate_expire now (k # ks) db =
     (if key_status k = StatusRetiring \<and> (\<exists>t \<in> set_option (key_retired k). retiring_overlap \<le> time_sub now t)
      then case row_update_status (key_id k) StatusExpired (key_retired k) db of
             (Some _, db1) \<Rightarrow> (Some (ExpireKey (key_id k)), db1)
           | (None, db1) \<Rightarrow> rotate_expire now ks db1
      else rotate_expire now ks db)"

definition rotate_locked :: "key_env \<Rightarrow> gotime \<Rightarrow> key_draw \<Rightarrow> key_db \<Rightarrow> key_error option \<times> key_db" where
  "rotate_locked env now draw db =
     (case ks_list env [] db of
        (Inl e, db1) \<Rightarrow> (Some e, db1)
      | (Inr keys, db1) \<Rightarrow>
          (case rotate_mint env now draw keys db1 of
             (Some e, db2) \<Rightarrow> (Some e, db2)
           | (None, db2) \<Rightarrow>
               (case ks_list env [] db2 of
                  (Inl e, db3) \<Rightarrow> (Some e, db3)
                | (Inr keys', db3) \<Rightarrow>
                    (case rotate_expire now keys' db3 of
                       (Some e, db4) \<Rightarrow> (Some e, db4)
                     | (None, db4) \<Rightarrow> rows_prune (now - expired_key_prune_age) db4))))"

text \<open>What the observer of rotations is told: the number of published keys and the age of the last active one.\<close>

definition key_snapshot :: "key_env \<Rightarrow> gotime \<Rightarrow> key_db \<Rightarrow> (int \<times> int) \<times> key_db" where
  "key_snapshot env now db =
     (case ks_list env [StatusActive, StatusRetiring] db of
        (Inl _, db1) \<Rightarrow> ((0, 0), db1)
      | (Inr keys, db1) \<Rightarrow>
          ((int (length keys),
            foldl (\<lambda>age k. if key_status k = StatusActive \<and> key_created k < now then time_sub now (key_created k) else age) 0 keys),
           db1))"

definition rotate_keys :: "key_env \<Rightarrow> gotime \<Rightarrow> key_draw \<Rightarrow> key_db \<Rightarrow> (key_error option \<times> (int \<times> int) option) \<times> key_db" where
  "rotate_keys env now draw db =
     (case rotate_locked env now draw db of
        (r, db1) \<Rightarrow>
          if ke_observed env
          then case key_snapshot env now db1 of (seen, db2) \<Rightarrow> ((r, Some seen), db2)
          else ((r, None), db1))"

fun decode_jwks :: "key_env \<Rightarrow> signing_key list \<Rightarrow> key_error + (string \<times> json) list list" where
  "decode_jwks env [] = Inr []"
| "decode_jwks env (k # ks) =
     (case unmarshal (\<lambda>kvs. if json_any (JObj kvs) then Some kvs else None) (ke_json env (key_jwk k)) of
        None \<Rightarrow> Inl (DecodeJwk (key_id k))
      | Some kvs \<Rightarrow> (case decode_jwks env ks of Inl e \<Rightarrow> Inl e | Inr js \<Rightarrow> Inr (kvs # js)))"

definition list_public_jwks :: "key_env \<Rightarrow> key_db \<Rightarrow> (key_error + (string \<times> json) list list) \<times> key_db" where
  "list_public_jwks env db =
     (case ks_list env [StatusActive, StatusRetiring] db of
        (Inl e, db1) \<Rightarrow> (Inl e, db1)
      | (Inr keys, db1) \<Rightarrow> (decode_jwks env keys, db1))"

text \<open>The most recently created active key signs; the library may refuse it.\<close>

definition active_signer :: "key_env \<Rightarrow> key_db \<Rightarrow> (key_error + signing_key) \<times> key_db" where
  "active_signer env db =
     (case ks_list env [StatusActive] db of
        (Inl e, db1) \<Rightarrow> (Inl e, db1)
      | (Inr keys, db1) \<Rightarrow>
          (case sort_key (\<lambda>k. - key_created k) keys of
             [] \<Rightarrow> (Inl NoActiveKey, db1)
           | k # _ \<Rightarrow>
               if \<not> valid_algorithm (key_alg k) then (Inl (UnsupportedAlg (key_alg k)), db1)
               else if \<not> ke_signer env (key_alg k) (key_private k) then (Inl (NewSigner (key_id k)), db1)
               else (Inr k, db1)))"

definition save_and_activate :: "key_env \<Rightarrow> gotime \<Rightarrow> string option \<Rightarrow> signing_key \<Rightarrow> key_db \<Rightarrow> key_error option \<times> key_db" where
  "save_and_activate env now nonce k db =
     ks_save env nonce (k\<lparr>key_status := StatusActive, key_activated := Some now,
        key_created := (if key_created k = zero_time then now else key_created k)\<rparr>) db"

definition ensure_initial_key :: "key_env \<Rightarrow> gotime \<Rightarrow> gotime \<Rightarrow> key_draw \<Rightarrow> key_db \<Rightarrow> key_error option \<times> key_db" where
  "ensure_initial_key env now now' draw db =
     (case list_public_jwks env db of
        (Inl e, db1) \<Rightarrow> (Some e, db1)
      | (Inr (_ # _), db1) \<Rightarrow> (None, db1)
      | (Inr [], db1) \<Rightarrow>
          (case generate env default_algorithm now draw of
             Inl e \<Rightarrow> (Some e, db1)
           | Inr k \<Rightarrow> save_and_activate env now' (dr_nonce draw) k db1))"

datatype jwks_answer = MethodNotAllowed | JwksUnavailable | NoSigningKey | JwkSet "(string \<times> json) list list"

definition serve_jwks :: "key_env \<Rightarrow> string \<Rightarrow> key_db \<Rightarrow> jwks_answer \<times> key_db" where
  "serve_jwks env request_method db =
     (if request_method \<noteq> ''GET'' then (MethodNotAllowed, db)
      else case list_public_jwks env db of
             (Inl _, db1) \<Rightarrow> (JwksUnavailable, db1)
           | (Inr [], db1) \<Rightarrow> (NoSigningKey, db1)
           | (Inr keys, db1) \<Rightarrow> (JwkSet keys, db1))"

end
