(* ===== verification/JwksLaws.thy ===== *)
theory JwksLaws imports Jwks begin

text \<open>
  What rotation guarantees: a token stays verifiable for two weeks after its key signed it, a
  successful rotation leaves one young active key, and a key stranded as active is never retired. Keys
  read back as they were saved.
\<close>

section \<open>Rows and keys\<close>

abbreviation public_part :: "'p key \<Rightarrow> unit key" where
  "public_part \<equiv> with_private ()"

lemma public_part_eq:
  "public_part k = public_part r \<Longrightarrow> key_id k = key_id r \<and> key_alg k = key_alg r \<and> key_jwk k = key_jwk r
     \<and> key_status k = key_status r \<and> key_created k = key_created r \<and> key_retired k = key_retired r"
  by (simp add: with_private_def)

lemma row_to_key_public: "row_to_key env r = Inr k \<Longrightarrow> public_part k = public_part r"
  by (auto simp: row_to_key_def with_private_def split: option.splits)

lemma rows_to_keys_public: "rows_to_keys env rows = Inr ks \<Longrightarrow> map public_part ks = map public_part rows"
  by (induction rows arbitrary: ks) (auto dest: row_to_key_public split: sum.splits)

lemma kd_tick_rows [simp]: "kd_rows (kd_tick db) = kd_rows db"
  by (simp add: kd_tick_def)

definition listed :: "key_status list \<Rightarrow> key_row list \<Rightarrow> key_row list" where
  "listed sts rows = filter (\<lambda>r. sts = [] \<or> key_status r \<in> set sts) rows"

lemma ks_list_rows:
  assumes "ks_list env sts db = (r, db1)"
  shows "kd_rows db1 = kd_rows db"
    and "r = Inr ks \<Longrightarrow> public_part ` set ks = public_part ` set (listed sts (kd_rows db))"
proof -
  show "kd_rows db1 = kd_rows db"
    using assms by (auto simp: ks_list_def rows_by_status_def split: if_splits sum.splits)
  assume "r = Inr ks"
  then have "rows_to_keys env (sort_key key_created (listed sts (kd_rows db))) = Inr ks"
    using assms by (auto simp: ks_list_def rows_by_status_def listed_def split: if_splits)
  from arg_cong [OF rows_to_keys_public [OF this], of set] show
    "public_part ` set ks = public_part ` set (listed sts (kd_rows db))" by simp
qed

lemma listed_key:
  assumes "ks_list env sts db = (Inr ks, db1)" "k \<in> set ks"
  obtains r where "r \<in> set (kd_rows db)" "public_part k = public_part r" "sts = [] \<or> key_status r \<in> set sts"
  using ks_list_rows(2) [OF assms(1) refl] assms(2) by (auto simp: listed_def)

lemma row_listed:
  assumes "ks_list env sts db = (Inr ks, db1)" "r \<in> set (kd_rows db)" "sts = [] \<or> key_status r \<in> set sts"
  obtains k where "k \<in> set ks" "public_part k = public_part r"
proof -
  have "public_part r \<in> public_part ` set ks"
    using ks_list_rows(2) [OF assms(1) refl] assms(2,3) by (auto simp: listed_def)
  then show thesis using that by auto
qed

text \<open>The primary key.\<close>

definition ids_ok :: "key_db \<Rightarrow> bool" where
  "ids_ok db \<longleftrightarrow> distinct (map key_id (kd_rows db))"

lemma ids_okD: "ids_ok db \<Longrightarrow> r \<in> set (kd_rows db) \<Longrightarrow> s \<in> set (kd_rows db) \<Longrightarrow> key_id r = key_id s \<Longrightarrow> r = s"
  by (auto simp: ids_ok_def distinct_map dest: inj_onD)

section \<open>What the statements change\<close>

lemma row_create_rows:
  assumes "row_create r db = (x, db1)"
  shows "kd_rows db1 = kd_rows db \<or>
    x = None \<and> kd_rows db1 = kd_rows db @ [stored_times r] \<and> key_id r \<notin> key_id ` set (kd_rows db)"
  using assms by (auto simp: row_create_def split: if_splits)

lemma ks_save_rows:
  assumes "ks_save env nonce k db = (x, db1)"
  shows "x \<noteq> None \<and> kd_rows db1 = kd_rows db \<or>
    x = None \<and> (\<exists>ct. kd_rows db1 = kd_rows db @ [stored_times (with_private ct k)]) \<and> key_id k \<notin> key_id ` set (kd_rows db)"
  using assms
  by (auto simp: ks_save_def row_create_def with_private_def split: option.splits if_splits)

definition set_status :: "string \<Rightarrow> key_status \<Rightarrow> gotime option \<Rightarrow> key_row list \<Rightarrow> key_row list" where
  "set_status kid st retired rows =
     update_where (\<lambda>r. key_id r = kid) (\<lambda>r. r\<lparr>key_status := st, key_retired := map_option rfc3339 retired\<rparr>) rows"

lemma row_update_rows:
  assumes "row_update_status kid st retired db = (x, db1)"
  shows "x \<noteq> None \<and> kd_rows db1 = kd_rows db \<or> x = None \<and> kd_rows db1 = set_status kid st retired (kd_rows db)"
  using assms by (auto simp: row_update_status_def set_status_def split: if_splits)

lemma set_status_ids [simp]: "map key_id (set_status kid st retired rows) = map key_id rows"
  by (simp add: set_status_def update_where_def comp_def)

lemma latest_active_some:
  "latest_active_from out ks = Some k \<Longrightarrow> out = Some k \<or> k \<in> set ks \<and> key_status k = StatusActive"
  by (induction out ks rule: latest_active_from.induct) (auto split: if_splits option.splits)

lemma latest_active_newest:
  "latest_active_from out ks = Some k \<Longrightarrow>
   (\<forall>o' \<in> set_option out. key_created o' \<le> key_created k) \<and> (\<forall>a \<in> set ks. key_status a = StatusActive \<longrightarrow> key_created a \<le> key_created k)"
  by (induction out ks rule: latest_active_from.induct) (fastforce split: if_splits option.splits)+

lemma latest_active_none:
  "latest_active_from out ks = None \<longleftrightarrow> out = None \<and> (\<forall>a \<in> set ks. key_status a \<noteq> StatusActive)"
  by (induction out ks rule: latest_active_from.induct) (auto split: option.splits)

section \<open>A rotation as changes of the table\<close>

lemma ks_list_distinct:
  assumes "ks_list env sts db = (Inr ks, db1)" "ids_ok db"
  shows "distinct (map key_id ks)"
proof -
  have "rows_to_keys env (sort_key key_created (listed sts (kd_rows db))) = Inr ks"
    using assms(1) by (auto simp: ks_list_def rows_by_status_def listed_def split: if_splits)
  from arg_cong [OF rows_to_keys_public [OF this], of "map key_id"]
  have "map key_id ks = map key_id (sort_key key_created (listed sts (kd_rows db)))"
    by (simp add: comp_def with_private_def)
  moreover have "distinct (map key_id (listed sts (kd_rows db)))"
    using assms(2) by (simp add: ids_ok_def listed_def distinct_map_filter)
  ultimately show ?thesis by (simp add: distinct_map)
qed

definition newest_active :: "key_row \<Rightarrow> key_row list \<Rightarrow> bool" where
  "newest_active o' rows \<longleftrightarrow> o' \<in> set rows \<and> key_status o' = StatusActive
     \<and> (\<forall>a \<in> set rows. key_status a = StatusActive \<longrightarrow> key_created a \<le> key_created o')"

text \<open>A new key, and the retirement of the newest of the old active ones unless it failed.\<close>

definition minted :: "gotime \<Rightarrow> key_row list \<Rightarrow> key_row list \<Rightarrow> bool" where
  "minted now rows rows' \<longleftrightarrow> (\<exists>new. key_id new \<notin> key_id ` set rows \<and> key_status new = StatusActive
     \<and> key_created new = rfc3339 now
     \<and> (\<forall>o'. newest_active o' rows \<longrightarrow> active_key_max_age \<le> time_sub now (key_created o'))
     \<and> (rows' = rows @ [new]
        \<or> (\<exists>o'. newest_active o' rows \<and> rows' = set_status (key_id o') StatusRetiring (Some now) (rows @ [new]))))"

lemma latest_active_listed:
  assumes l: "ks_list env [] db = (Inr keys, db1)"
  shows "(\<forall>k. latest_active keys = Some k \<longrightarrow> (\<exists>r. newest_active r (kd_rows db) \<and> public_part k = public_part r))
    \<and> (latest_active keys = None \<longrightarrow> (\<forall>r \<in> set (kd_rows db). key_status r \<noteq> StatusActive))"
proof -
  have "\<exists>r. newest_active r (kd_rows db) \<and> public_part k = public_part r" if k: "latest_active keys = Some k" for k
  proof -
    have a: "k \<in> set keys" "key_status k = StatusActive" using latest_active_some [OF k] by simp_all
    obtain r where r: "r \<in> set (kd_rows db)" "public_part k = public_part r" using listed_key [OF l a(1)] by blast
    have "key_created b \<le> key_created r" if b: "b \<in> set (kd_rows db)" "key_status b = StatusActive" for b
    proof -
      obtain j where "j \<in> set keys" "public_part j = public_part b" using row_listed [OF l b(1)] by auto
      with latest_active_newest [OF k] b(2) public_part_eq [of j b] public_part_eq [OF r(2)] show ?thesis by metis
    qed
    with a r public_part_eq [OF r(2)] show ?thesis unfolding newest_active_def by metis
  qed
  moreover have "key_status r \<noteq> StatusActive" if "latest_active keys = None" "r \<in> set (kd_rows db)" for r
    using row_listed [OF l that(2)] that(1) public_part_eq latest_active_none by (metis (no_types, lifting))
  ultimately show ?thesis by blast
qed

lemma newest_age:
  "newest_active o' rows \<Longrightarrow> newest_active q rows \<Longrightarrow> key_created q = key_created o'"
  unfolding newest_active_def by (meson antisym)

lemma rotate_mint_rows:
  assumes l: "ks_list env [] db = (Inr keys, db1)" and m: "rotate_mint env now draw keys db1 = (x, db2)"
  shows "kd_rows db2 = kd_rows db \<and>
      (x = None \<longrightarrow> (\<exists>o'. newest_active o' (kd_rows db) \<and> time_sub now (key_created o') < active_key_max_age))
    \<or> minted now (kd_rows db) (kd_rows db2) \<and>
      (x = None \<longrightarrow> (\<forall>a \<in> set (kd_rows db). key_status a \<noteq> StatusActive) \<or>
        (\<exists>o' new. newest_active o' (kd_rows db) \<and> key_id new \<notin> key_id ` set (kd_rows db) \<and> key_status new = StatusActive
           \<and> key_created new = rfc3339 now
           \<and> kd_rows db2 = set_status (key_id o') StatusRetiring (Some now) (kd_rows db @ [new])))"
proof -
  note la = latest_active_listed [OF l]
  have same: "kd_rows db1 = kd_rows db" using ks_list_rows(1) [OF l] .
  show ?thesis
  proof (cases "\<forall>k \<in> set_option (latest_active keys). active_key_max_age \<le> time_sub now (key_created k)")
    case False
    then obtain k where k: "latest_active keys = Some k" "time_sub now (key_created k) < active_key_max_age" by auto
    then obtain r where "newest_active r (kd_rows db)" "public_part k = public_part r" using la by blast
    with k(2) public_part_eq have "\<exists>o'. newest_active o' (kd_rows db) \<and> time_sub now (key_created o') < active_key_max_age" by metis
    moreover have "db2 = db1" using m False by (auto simp: rotate_mint_def Let_def split: if_splits)
    ultimately show ?thesis using same by simp
  next
    case True
    show ?thesis
    proof (cases "generate env default_algorithm now draw")
      case (Inl e)
      with True m same show ?thesis by (auto simp: rotate_mint_def Let_def)
    next
      case (Inr k0)
      define k where "k = k0\<lparr>key_status := StatusActive, key_created := now, key_activated := Some now\<rparr>"
      obtain y db' where s: "ks_save env (dr_nonce draw) k db1 = (y, db')" by fastforce
      show ?thesis
      proof (cases y)
        case (Some e)
        with True Inr s m ks_save_rows [OF s] same show ?thesis by (auto simp: rotate_mint_def Let_def k_def)
      next
        case None
        from ks_save_rows [OF s] None obtain ct where ct: "kd_rows db' = kd_rows db @ [stored_times (with_private ct k)]"
          "key_id k \<notin> key_id ` set (kd_rows db)" using same by auto
        let ?new = "stored_times (with_private ct k)"
        have new: "key_id ?new \<notin> key_id ` set (kd_rows db)" "key_status ?new = StatusActive" "key_created ?new = rfc3339 now"
          using ct(2) by (simp_all add: stored_times_def with_private_def k_def)
        have age: "active_key_max_age \<le> time_sub now (key_created q)" if q: "newest_active q (kd_rows db)" for q
        proof -
          obtain j where "latest_active keys = Some j" using q la by (cases "latest_active keys") (auto simp: newest_active_def)
          moreover then obtain r where "newest_active r (kd_rows db)" "public_part j = public_part r" using la by blast
          ultimately show ?thesis using True newest_age [OF q, of r] public_part_eq [of j r] by auto
        qed
        show ?thesis
        proof (cases "latest_active keys")
          case None
          with True Inr s \<open>y = None\<close> m have "db2 = db'" "x = None" by (auto simp: rotate_mint_def Let_def k_def)
          with ct(1) new age la None show ?thesis unfolding minted_def by auto
        next
          case (Some old)
          then obtain r where r: "newest_active r (kd_rows db)" "public_part old = public_part r" using la by blast
          obtain z db'' where u: "row_update_status (key_id old) StatusRetiring (Some now) db' = (z, db'')" by fastforce
          have x: "db2 = db''" "x = None \<longleftrightarrow> z = None"
            using True Inr s \<open>y = None\<close> m Some u by (auto simp: rotate_mint_def Let_def k_def split: option.splits)
          from row_update_rows [OF u] show ?thesis
          proof
            assume "z \<noteq> None \<and> kd_rows db'' = kd_rows db'"
            then show ?thesis using x ct(1) new age unfolding minted_def by auto
          next
            assume "z = None \<and> kd_rows db'' = set_status (key_id old) StatusRetiring (Some now) (kd_rows db')"
            then have "kd_rows db2 = set_status (key_id r) StatusRetiring (Some now) (kd_rows db @ [?new])"
              using x(1) ct(1) public_part_eq [OF r(2)] by simp
            then show ?thesis using new age r(1) unfolding minted_def by blast
          qed
        qed
      qed
    qed
  qed
qed

text \<open>The sweep: keys that retired long enough ago expire, old expired ones go.\<close>

definition pruned :: "gotime \<Rightarrow> key_row list \<Rightarrow> key_row list" where
  "pruned now rows = delete_where
     (\<lambda>r. key_status r = StatusExpired \<and> (\<exists>t \<in> set_option (key_retired r). t < rfc3339 (now - expired_key_prune_age))) rows"

definition overdue :: "gotime \<Rightarrow> 'p key \<Rightarrow> bool" where
  "overdue now k \<longleftrightarrow> key_status k = StatusRetiring \<and> (\<exists>t. key_retired k = Some t \<and> retiring_overlap \<le> time_sub now t)"

lemma minted_ids: "minted now rows rows' \<Longrightarrow> distinct (map key_id rows) \<Longrightarrow> distinct (map key_id rows')"
  by (auto simp: minted_def)

lemma rotate_cases:
  assumes r: "rotate_locked env now draw db = (x, db')"
  obtains (stopped) "x \<noteq> None" "kd_rows db' = kd_rows db \<or> minted now (kd_rows db) (kd_rows db')"
  | (swept) keys db1 db2 keys' db3 y db4 where "ks_list env [] db = (Inr keys, db1)"
      "rotate_mint env now draw keys db1 = (None, db2)" "kd_rows db2 = kd_rows db \<or> minted now (kd_rows db) (kd_rows db2)"
      "ks_list env [] db2 = (Inr keys', db3)" "rotate_expire now keys' db3 = (y, db4)"
      "y \<noteq> None \<and> x = y \<and> db' = db4 \<or> y = None \<and> rows_prune (now - expired_key_prune_age) db4 = (x, db')"
proof -
  obtain l db1 where l: "ks_list env [] db = (l, db1)" by fastforce
  show thesis
  proof (cases l)
    case (Inl e)
    with r l ks_list_rows(1) [OF l] show thesis by (intro stopped) (auto simp: rotate_locked_def)
  next
    case (Inr keys)
    obtain m db2 where m: "rotate_mint env now draw keys db1 = (m, db2)" by fastforce
    have rows: "kd_rows db2 = kd_rows db \<or> minted now (kd_rows db) (kd_rows db2)"
      using rotate_mint_rows [OF l [unfolded Inr] m] by blast
    show thesis
    proof (cases m)
      case (Some e)
      with r l Inr m rows show thesis by (intro stopped) (auto simp: rotate_locked_def)
    next
      case None
      obtain l' db3 where l': "ks_list env [] db2 = (l', db3)" by fastforce
      show thesis
      proof (cases l')
        case (Inl e)
        with r l Inr m None l' rows ks_list_rows(1) [OF l'] show thesis
          by (intro stopped) (auto simp: rotate_locked_def)
      next
        case (Inr keys')
        obtain y db4 where y: "rotate_expire now keys' db3 = (y, db4)" by fastforce
        with r l \<open>l = Inr keys\<close> m None l' Inr rows show thesis
          by (intro swept) (auto simp: rotate_locked_def split: option.splits)
      qed
    qed
  qed
qed

locale row_invariant =
  fixes I :: "key_row list \<Rightarrow> bool" and now :: gotime
  assumes expire_keeps: "distinct (map key_id rows) \<Longrightarrow> I rows \<Longrightarrow> r \<in> set rows \<Longrightarrow> overdue now r \<Longrightarrow>
      I (set_status (key_id r) StatusExpired (key_retired r) rows)"
    and prune_keeps: "distinct (map key_id rows) \<Longrightarrow> I rows \<Longrightarrow> I (pruned now rows)"
begin

lemma expire_loop:
  "rotate_expire now ks db = (x, db') \<Longrightarrow> ids_ok db \<Longrightarrow> I (kd_rows db) \<Longrightarrow> distinct (map key_id ks) \<Longrightarrow>
   (\<And>k. k \<in> set ks \<Longrightarrow> \<exists>r \<in> set (kd_rows db). public_part k = public_part r) \<Longrightarrow> I (kd_rows db') \<and> ids_ok db'"
proof (induction ks arbitrary: db)
  case (Cons k ks)
  show ?case
  proof (cases "overdue now k")
    case False
    then have "rotate_expire now ks db = (x, db')" using Cons.prems(1) by (auto simp: overdue_def split: if_splits)
    from Cons.IH [OF this Cons.prems(2,3)] Cons.prems(4,5) show ?thesis by simp
  next
    case True
    obtain r where r: "r \<in> set (kd_rows db)" "public_part k = public_part r" using Cons.prems(5) [of k] by auto
    note same = public_part_eq [OF r(2)]
    then have od: "overdue now r" using True by (auto simp: overdue_def)
    obtain y db1 where u: "row_update_status (key_id k) StatusExpired (key_retired k) db = (y, db1)" by fastforce
    have rest: "y \<noteq> None \<and> db' = db1 \<or> y = None \<and> rotate_expire now ks db1 = (x, db')"
      using True Cons.prems(1) u by (auto simp: overdue_def split: if_splits option.splits)
    have rows: "y \<noteq> None \<and> kd_rows db1 = kd_rows db \<or>
        kd_rows db1 = set_status (key_id r) StatusExpired (key_retired r) (kd_rows db)"
      using row_update_rows [OF u] same by auto
    have I1: "I (kd_rows db1) \<and> ids_ok db1"
      using rows expire_keeps [OF _ Cons.prems(3) r(1) od] Cons.prems(2,3) by (auto simp: ids_ok_def)
    have "\<exists>q \<in> set (kd_rows db1). public_part j = public_part q" if j: "j \<in> set ks" for j
    proof -
      obtain q where q: "q \<in> set (kd_rows db)" "public_part j = public_part q" using Cons.prems(5) [of j] j by auto
      have "key_id j \<noteq> key_id k" using Cons.prems(4) j by (auto simp: image_iff)
      then have "key_id q \<noteq> key_id r" using public_part_eq [OF q(2)] same by simp
      with q rows show ?thesis by (auto simp: set_status_def update_where_def intro!: bexI [of _ q])
    qed
    with rest I1 Cons.IH [of db1] Cons.prems(4) show ?thesis by auto
  qed
qed simp

lemma sweep_rows:
  assumes "ks_list env [] db = (Inr keys, db1)" "rotate_expire now keys db1 = (y, db2)" "ids_ok db" "I (kd_rows db)"
  shows "I (kd_rows db2) \<and> ids_ok db2"
proof (rule expire_loop [OF assms(2)])
  have same: "kd_rows db1 = kd_rows db" using ks_list_rows(1) [OF assms(1)] .
  then show "ids_ok db1" "I (kd_rows db1)" using assms(3,4) by (simp_all add: ids_ok_def)
  show "distinct (map key_id keys)" using ks_list_distinct [OF assms(1,3)] .
  show "\<exists>r \<in> set (kd_rows db1). public_part k = public_part r" if "k \<in> set keys" for k
    using listed_key [OF assms(1) that] same by metis
qed

lemma prune_rows:
  assumes "rows_prune (now - expired_key_prune_age) db = (x, db')" "ids_ok db" "I (kd_rows db)"
  shows "I (kd_rows db') \<and> ids_ok db'"
  using assms prune_keeps by (auto simp: rows_prune_def pruned_def ids_ok_def delete_where_def distinct_map_filter split: if_splits)

lemma after_mint:
  assumes "ids_ok db" "I (kd_rows db)" "ks_list env [] db = (Inr keys, db1)" "rotate_expire now keys db1 = (y, db2)"
    and "y \<noteq> None \<and> x = y \<and> db' = db2 \<or> y = None \<and> rows_prune (now - expired_key_prune_age) db2 = (x, db')"
  shows "I (kd_rows db') \<and> ids_ok db'"
  using sweep_rows [OF assms(3,4,1,2)] prune_rows assms(5) by blast

text \<open>A rotation keeps what its new key, the sweep and the pruning keep.\<close>

lemma rotation:
  assumes r: "rotate_locked env now draw db = (x, db')" and ok: "ids_ok db" and I: "I (kd_rows db)"
    and fresh: "\<And>rows'. minted now (kd_rows db) rows' \<Longrightarrow> I rows'"
  shows "I (kd_rows db') \<and> ids_ok db'"
  using r
proof (cases rule: rotate_cases)
  case stopped
  then show ?thesis using ok I fresh minted_ids unfolding ids_ok_def by metis
next
  case (swept keys db1 db2 keys' db3 y db4)
  have "I (kd_rows db2)" "ids_ok db2"
    using swept(3) ok I fresh minted_ids unfolding ids_ok_def by metis+
  then show ?thesis using after_mint swept(4-6) by blast
qed

end

section \<open>Signed tokens stay verifiable\<close>

text \<open>The key \<open>k\<close> is published and was not retired before \<open>t\<close>.\<close>

definition trusted :: "gotime \<Rightarrow> signing_key \<Rightarrow> key_row list \<Rightarrow> bool" where
  "trusted t k rows \<longleftrightarrow> (\<exists>r \<in> set rows. key_id r = key_id k \<and> key_jwk r = key_jwk k
     \<and> (key_status r = StatusActive \<or> key_status r = StatusRetiring \<and> (\<exists>u. key_retired r = Some u \<and> rfc3339 t \<le> u)))"

lemma trusted_set_status:
  assumes "trusted t k rows" "\<And>r. r \<in> set rows \<Longrightarrow> key_id r = key_id k \<Longrightarrow> kid \<noteq> key_id k
      \<or> st = StatusRetiring \<and> (\<exists>u. retired = Some u \<and> t \<le> u)"
  shows "trusted t k (set_status kid st retired rows)"
proof -
  obtain r where r: "r \<in> set rows" "key_id r = key_id k" "key_jwk r = key_jwk k"
    "key_status r = StatusActive \<or> key_status r = StatusRetiring \<and> (\<exists>u. key_retired r = Some u \<and> rfc3339 t \<le> u)"
    using assms(1) by (auto simp: trusted_def)
  let ?r = "if key_id r = kid then r\<lparr>key_status := st, key_retired := map_option rfc3339 retired\<rparr> else r"
  have "?r \<in> set (set_status kid st retired rows)" using r(1) by (auto simp: set_status_def update_where_def)
  moreover have "key_status ?r = StatusActive \<or> key_status ?r = StatusRetiring \<and> (\<exists>u. key_retired ?r = Some u \<and> rfc3339 t \<le> u)"
    using assms(2) [OF r(1,2)] r(2,4) by (auto intro: rfc3339_mono)
  ultimately show ?thesis using r(2,3) unfolding trusted_def by (intro bexI [of _ ?r]) auto
qed

lemma trusted_minted:
  assumes "minted now rows rows'" "trusted t k rows" "t \<le> now" "distinct (map key_id rows)"
  shows "trusted t k rows'"
proof -
  have "trusted t k (rows @ [new])" for new using assms(2) by (auto simp: trusted_def)
  then show ?thesis using assms(1,3) trusted_set_status [of t k _ _ StatusRetiring "Some now"] by (auto simp: minted_def)
qed

lemma trusted_expire:
  assumes "distinct (map key_id rows)" "trusted t k rows" "r \<in> set rows" "overdue now r" "now < rfc3339 t + retiring_overlap"
  shows "trusted t k (set_status (key_id r) StatusExpired (key_retired r) rows)"
proof (rule trusted_set_status [OF assms(2)])
  fix q assume "q \<in> set rows" "key_id q = key_id k"
  obtain s where s: "s \<in> set rows" "key_id s = key_id k"
    "key_status s = StatusActive \<or> key_status s = StatusRetiring \<and> (\<exists>u. key_retired s = Some u \<and> rfc3339 t \<le> u)"
    using assms(2) by (auto simp: trusted_def)
  have "r \<noteq> s" using s(3) assms(4,5) by (auto simp: overdue_def time_sub_def retiring_overlap_def)
  moreover have "inj_on key_id (set rows)" using assms(1) by (simp add: distinct_map)
  ultimately have "key_id r \<noteq> key_id k" using s(1,2) assms(3) by (metis inj_onD)
  then show "key_id r \<noteq> key_id k \<or> StatusExpired = StatusRetiring \<and> (\<exists>u. key_retired r = Some u \<and> t \<le> u)" by simp
qed

lemma trusted_pruned: "trusted t k rows \<Longrightarrow> trusted t k (pruned now rows)"
  by (fastforce simp: trusted_def pruned_def delete_where_def)

interpretation trust: row_invariant "\<lambda>rows. now < rfc3339 t + retiring_overlap \<longrightarrow> trusted t k rows" now for now t k
  by standard (auto intro: trusted_expire trusted_pruned)

text \<open>Rotations and starts between two instants, and whatever only reads.\<close>

inductive key_step :: "key_env \<Rightarrow> gotime \<Rightarrow> gotime \<Rightarrow> key_db \<Rightarrow> key_db \<Rightarrow> bool" for env lo hi where
  rotate: "rotate_keys env now draw db = (x, db') \<Longrightarrow> lo \<le> now \<Longrightarrow> now < hi \<Longrightarrow> key_step env lo hi db db'"
| start: "ensure_initial_key env now now' draw db = (x, db') \<Longrightarrow> key_step env lo hi db db'"
| read: "kd_rows db' = kd_rows db \<Longrightarrow> key_step env lo hi db db'"

lemma rotate_keys_rows:
  assumes "rotate_keys env now draw db = (x, db')"
  obtains y db1 where "rotate_locked env now draw db = (y, db1)" "kd_rows db' = kd_rows db1"
proof -
  obtain y db1 where r: "rotate_locked env now draw db = (y, db1)" by fastforce
  have "kd_rows db2 = kd_rows db1" if "key_snapshot env now db1 = (z, db2)" for z db2
    using that ks_list_rows(1) by (fastforce simp: key_snapshot_def split: prod.splits sum.splits)
  with r assms show thesis by (intro that [OF r]) (auto simp: rotate_keys_def split: if_splits prod.splits)
qed

lemma list_public_rows: "list_public_jwks env db = (x, db1) \<Longrightarrow> kd_rows db1 = kd_rows db"
  using ks_list_rows(1) by (fastforce simp: list_public_jwks_def split: prod.splits sum.splits)

lemma ensure_rows:
  assumes "ensure_initial_key env now now' draw db = (x, db')"
  shows "kd_rows db' = kd_rows db \<or> (\<exists>new. kd_rows db' = kd_rows db @ [new] \<and> key_id new \<notin> key_id ` set (kd_rows db)
    \<and> key_status new = StatusActive)"
proof -
  obtain l db1 where l: "list_public_jwks env db = (l, db1)" by fastforce
  note same = list_public_rows [OF l]
  have save: "kd_rows db2 = kd_rows db1 \<or> (\<exists>new. kd_rows db2 = kd_rows db1 @ [new] \<and> key_id new \<notin> key_id ` set (kd_rows db1)
      \<and> key_status new = StatusActive)" if "save_and_activate env t n k db1 = (y, db2)" for t n k y db2
    using ks_save_rows [OF that [unfolded save_and_activate_def]]
    by (auto simp: stored_times_def with_private_def)
  show ?thesis
    using assms l same save by (auto simp: ensure_initial_key_def split: sum.splits list.splits)
qed

interpretation trusted_runs: invariant_system "key_step env t (rfc3339 t + retiring_overlap)"
    "\<lambda>db. ids_ok db \<and> trusted t k (kd_rows db)" for env t k
proof
  fix db db' assume st: "key_step env t (rfc3339 t + retiring_overlap) db db'" and ok: "ids_ok db \<and> trusted t k (kd_rows db)"
  from st show "ids_ok db' \<and> trusted t k (kd_rows db')"
  proof cases
    case (rotate now draw x)
    from rotate_keys_rows [OF rotate(1)] obtain y db1 where r: "rotate_locked env now draw db = (y, db1)"
      "kd_rows db' = kd_rows db1" by blast
    have "trusted t k rows'" if "minted now (kd_rows db) rows'" for rows'
      using trusted_minted [OF that] ok rotate(2) by (simp add: ids_ok_def)
    with trust.rotation [OF r(1), of t k] ok r(2) rotate(3) show ?thesis by (simp add: ids_ok_def)
  next
    case (start now now' draw x)
    from ensure_rows [OF start] ok show ?thesis by (auto simp: ids_ok_def trusted_def)
  next
    case read
    with ok show ?thesis by (simp add: ids_ok_def)
  qed
qed

lemma published_key:
  assumes "trusted t k (kd_rows db)" "serve_jwks env ''GET'' db = (ans, db1)"
  shows "ans = JwksUnavailable \<or> (\<exists>sets. ans = JwkSet sets
    \<and> (\<exists>kvs \<in> set sets. unmarshal (\<lambda>kvs. if json_any (JObj kvs) then Some kvs else None) (ke_json env (key_jwk k)) = Some kvs))"
proof -
  obtain r where r: "r \<in> set (kd_rows db)" "key_jwk r = key_jwk k" "key_status r \<in> set [StatusActive, StatusRetiring]"
    using assms(1) by (auto simp: trusted_def)
  obtain l db2 where l: "ks_list env [StatusActive, StatusRetiring] db = (l, db2)" by fastforce
  show ?thesis
  proof (cases l)
    case (Inl e)
    with l assms(2) show ?thesis by (auto simp: serve_jwks_def list_public_jwks_def)
  next
    case (Inr keys)
    obtain j where j: "j \<in> set keys" "key_jwk j = key_jwk k"
      using row_listed [OF l [unfolded Inr] r(1)] r(2,3) public_part_eq by metis
    have "\<exists>kvs \<in> set js. unmarshal (\<lambda>kvs. if json_any (JObj kvs) then Some kvs else None) (ke_json env (key_jwk j)) = Some kvs"
      if "decode_jwks env keys = Inr js" "j \<in> set keys" for js
      using that by (induction env keys arbitrary: js rule: decode_jwks.induct) (auto split: option.splits sum.splits)
    with j l Inr assms(2) show ?thesis
      by (fastforce simp: serve_jwks_def list_public_jwks_def split: sum.splits list.splits)
  qed
qed

lemma active_signer_row:
  assumes "active_signer env db = (Inr k, db1)"
  shows "trusted t k (kd_rows db) \<and> kd_rows db1 = kd_rows db"
proof -
  obtain l db2 where l: "ks_list env [StatusActive] db = (l, db2)" by fastforce
  have first: "sort_key f xs = k # ys \<Longrightarrow> k \<in> set xs" for f :: "signing_key \<Rightarrow> int" and xs ys by (metis list.set_intros(1) set_sort)
  from l obtain keys where keys: "l = Inr keys" "db1 = db2" "k \<in> set keys"
    using assms by (cases l) (auto simp: active_signer_def dest: first split: list.splits if_splits)
  then have "k \<in> set keys" by simp
  from listed_key [OF l [unfolded keys(1)] this] obtain r where "r \<in> set (kd_rows db)" "public_part k = public_part r"
    "key_status r = StatusActive" by auto
  then show ?thesis using public_part_eq [of k r] ks_list_rows(1) [OF l] keys(2) by (auto simp: trusted_def)
qed

text \<open>
  C18: A token stays verifiable for two weeks after it was signed: whatever rotations, failing statements
  and restarts happen in that time, the endpoint that publishes the keys, when it answers, publishes the key
  that signed it. (Two weeks from the second the signature was made in, as retirement is stored to the second.)
\<close>

theorem signed_tokens_stay_verifiable:
  assumes "active_signer env db = (Inr k, db1)" "ids_ok db"
    and "(key_step env t (rfc3339 t + retiring_overlap))\<^sup>*\<^sup>* db1 db2" "serve_jwks env ''GET'' db2 = (ans, db3)"
  shows "ans = JwksUnavailable \<or> (\<exists>sets. ans = JwkSet sets
    \<and> (\<exists>kvs \<in> set sets. unmarshal (\<lambda>kvs. if json_any (JObj kvs) then Some kvs else None) (ke_json env (key_jwk k)) = Some kvs))"
proof -
  have "ids_ok db1 \<and> trusted t k (kd_rows db1)" using active_signer_row [OF assms(1)] assms(2) by (simp add: ids_ok_def)
  from trusted_runs.reachable_keeps [OF assms(3) this] published_key [OF _ assms(4)] show ?thesis by blast
qed

section \<open>One young active key\<close>

definition one_young :: "gotime \<Rightarrow> key_row list \<Rightarrow> bool" where
  "one_young now rows \<longleftrightarrow> (\<exists>r. filter (\<lambda>r. key_status r = StatusActive) rows = [r]
     \<and> time_sub now (key_created r) < active_key_max_age)"

lemma active_set_status:
  assumes "st \<noteq> StatusActive" "\<And>q. q \<in> set rows \<Longrightarrow> key_id q = kid \<Longrightarrow> key_status q \<noteq> StatusActive"
  shows "filter (\<lambda>r. key_status r = StatusActive) (set_status kid st retired rows) = filter (\<lambda>r. key_status r = StatusActive) rows"
  using assms(2) by (induction rows) (use assms(1) in \<open>auto simp: set_status_def update_where_def\<close>)

lemma active_retired:
  assumes "st \<noteq> StatusActive"
  shows "filter (\<lambda>r. key_status r = StatusActive) (set_status kid st retired rows) =
    filter (\<lambda>r. key_status r = StatusActive \<and> key_id r \<noteq> kid) rows"
  using assms by (induction rows) (auto simp: set_status_def update_where_def)

interpretation young: row_invariant "one_young now" now for now
proof
  fix rows r assume d: "distinct (map key_id rows)" "one_young now rows" "r \<in> set rows" "overdue now r"
  have "key_status q \<noteq> StatusActive" if "q \<in> set rows" "key_id q = key_id r" for q
  proof -
    have "q = r" using d(1,3) that by (auto simp: distinct_map dest: inj_onD)
    with d(4) show ?thesis by (simp add: overdue_def)
  qed
  with d(2) show "one_young now (set_status (key_id r) StatusExpired (key_retired r) rows)"
    by (simp add: one_young_def active_set_status)
next
  fix rows assume "one_young now rows"
  moreover have "filter (\<lambda>r. key_status r = StatusActive) (pruned now rows) = filter (\<lambda>r. key_status r = StatusActive) rows"
    by (auto simp: pruned_def delete_where_def intro: filter_cong)
  ultimately show "one_young now (pruned now rows)" by (simp add: one_young_def)
qed

text \<open>
  C24: After a rotation that reports success exactly one key is active, and it is younger than the seven
  days that call for a new one, provided at most one key was active before.
\<close>

theorem rotation_leaves_one_young_key:
  assumes "rotate_locked env now draw db = (None, db')" "ids_ok db"
    and "length (filter (\<lambda>r. key_status r = StatusActive) (kd_rows db)) \<le> 1"
  shows "\<exists>r. filter (\<lambda>r. key_status r = StatusActive) (kd_rows db') = [r] \<and> time_sub now (key_created r) < active_key_max_age"
  using assms(1)
proof (cases rule: rotate_cases)
  case (swept keys db1 db2 keys' db3 y db4)
  let ?act = "\<lambda>r. key_status r = StatusActive"
  have young: "time_sub now (rfc3339 now) < active_key_max_age"
    by (simp add: time_sub_def rfc3339_def active_key_max_age_def minus_mod_eq_mult_div[symmetric] pos_mod_bound)
  have single: "filter ?act (kd_rows db) = [q]" if "newest_active q (kd_rows db)" for q
  proof -
    have "q \<in> set (filter ?act (kd_rows db))" using that by (simp add: newest_active_def)
    with assms(3) show ?thesis by (cases "filter ?act (kd_rows db)") (simp_all del: set_filter)
  qed
  have "one_young now (kd_rows db2) \<and> ids_ok db2"
  proof (rule disjE [OF rotate_mint_rows [OF swept(1,2)]], goal_cases)
    case 1
    then obtain o' where o': "newest_active o' (kd_rows db)" "time_sub now (key_created o') < active_key_max_age" by blast
    with 1 single [OF o'(1)] assms(2) show ?case by (auto simp: one_young_def ids_ok_def)
  next
    case 2
    have ids: "ids_ok db2" using 2 minted_ids assms(2) unfolding ids_ok_def by blast
    show ?case
    proof (cases "\<forall>a \<in> set (kd_rows db). key_status a \<noteq> StatusActive")
      case True
      then have "filter ?act (kd_rows db) = []" "\<not> newest_active q (kd_rows db)" for q
        by (auto simp: filter_empty_conv newest_active_def)
      with 2 young ids show ?thesis by (auto simp: minted_def one_young_def)
    next
      case False
      with 2 obtain q new where q: "newest_active q (kd_rows db)" "key_id new \<notin> key_id ` set (kd_rows db)"
        "key_status new = StatusActive" "key_created new = rfc3339 now"
        "kd_rows db2 = set_status (key_id q) StatusRetiring (Some now) (kd_rows db @ [new])" by blast
      have "filter (\<lambda>r. ?act r \<and> key_id r \<noteq> key_id q) (kd_rows db) = filter (\<lambda>r. key_id r \<noteq> key_id q) (filter ?act (kd_rows db))"
        by (simp add: conj_commute)
      also have "\<dots> = []" by (simp add: single [OF q(1)])
      finally have "filter ?act (kd_rows db2) = [new]"
        using q(1-3,5) by (auto simp: active_retired newest_active_def)
      with q(4) young ids show ?thesis by (simp add: one_young_def)
    qed
  qed
  with young.after_mint [OF _ _ swept(4-6)] show ?thesis by (simp add: one_young_def)
qed simp

section \<open>A stranded key\<close>

text \<open>Key \<open>kid\<close> is active, and so is a newer one.\<close>

definition stranded :: "string \<Rightarrow> key_row list \<Rightarrow> bool" where
  "stranded kid rows \<longleftrightarrow> (\<exists>r \<in> set rows. \<exists>n \<in> set rows. key_id r = kid \<and> key_status r = StatusActive
     \<and> key_status n = StatusActive \<and> key_created r < key_created n)"

lemma stranded_keep:
  assumes "stranded kid rows" "\<And>q. q \<in> set rows \<Longrightarrow> key_status q = StatusActive \<Longrightarrow> q \<in> set rows'"
  shows "stranded kid rows'"
  using assms unfolding stranded_def by blast

lemma stays_active: "q \<in> set rows \<Longrightarrow> key_id q \<noteq> kid \<Longrightarrow> q \<in> set (set_status kid st retired rows)"
  by (auto simp: set_status_def update_where_def intro!: rev_image_eqI)

interpretation strand: row_invariant "stranded kid" now for kid now
proof
  fix rows r assume d: "distinct (map key_id rows)" "stranded kid rows" "r \<in> set rows" "overdue now r"
  show "stranded kid (set_status (key_id r) StatusExpired (key_retired r) rows)"
  proof (rule stranded_keep [OF d(2)])
    fix q assume q: "q \<in> set rows" "key_status q = StatusActive"
    with d(4) have "q \<noteq> r" by (auto simp: overdue_def)
    with q(1) d(1,3) have "key_id q \<noteq> key_id r" by (auto simp: distinct_map dest: inj_onD)
    with q(1) show "q \<in> set (set_status (key_id r) StatusExpired (key_retired r) rows)" by (rule stays_active)
  qed
next
  fix rows assume "stranded kid rows"
  then show "stranded kid (pruned now rows)" by (rule stranded_keep) (simp add: pruned_def delete_where_def)
qed

lemma stranded_minted:
  assumes m: "minted now rows rows'" and s: "stranded kid rows" and d: "distinct (map key_id rows)"
  shows "stranded kid rows'"
proof -
  obtain new where new: "key_id new \<notin> key_id ` set rows" "key_status new = StatusActive" "key_created new = rfc3339 now"
    "\<And>q. newest_active q rows \<Longrightarrow> active_key_max_age \<le> time_sub now (key_created q)"
    "rows' = rows @ [new] \<or> (\<exists>q. newest_active q rows \<and> rows' = set_status (key_id q) StatusRetiring (Some now) (rows @ [new]))"
    using m by (auto simp: minted_def)
  obtain r n where r: "r \<in> set rows" "n \<in> set rows" "key_id r = kid" "key_status r = StatusActive"
    "key_status n = StatusActive" "key_created r < key_created n" using s by (auto simp: stranded_def)
  from new(5) show ?thesis
  proof
    assume "rows' = rows @ [new]"
    then show ?thesis using stranded_keep [OF s] by simp
  next
    assume "\<exists>q. newest_active q rows \<and> rows' = set_status (key_id q) StatusRetiring (Some now) (rows @ [new])"
    then obtain q where q: "newest_active q rows" "rows' = set_status (key_id q) StatusRetiring (Some now) (rows @ [new])" by blast
    have rq: "key_created r < key_created q" using q(1) r(2,5,6) by (force simp: newest_active_def)
    then have "key_id r \<noteq> key_id q" using q(1) r(1) d by (auto simp: newest_active_def distinct_map dest: inj_onD)
    then have "r \<in> set rows'" "new \<in> set rows'"
      using r(1) new(1) q by (auto simp: newest_active_def intro!: stays_active)
    moreover have "active_key_max_age \<le> now - key_created q"
      using new(4) [OF q(1)] by (auto simp: time_sub_def active_key_max_age_def)
    then have "key_created r < key_created new"
      using rq new(3) rfc3339_le [of now] by (auto simp: rfc3339_def active_key_max_age_def minus_mod_eq_mult_div[symmetric])
    ultimately show ?thesis using r(3,4) new(2) unfolding stranded_def by blast
  qed
qed

interpretation stranded_runs: invariant_system "key_step env lo hi" "\<lambda>db. ids_ok db \<and> stranded kid (kd_rows db)" for env lo hi kid
proof
  fix db db' assume st: "key_step env lo hi db db'" and ok: "ids_ok db \<and> stranded kid (kd_rows db)"
  from st show "ids_ok db' \<and> stranded kid (kd_rows db')"
  proof cases
    case (rotate now draw x)
    from rotate_keys_rows [OF rotate(1)] obtain y db1 where r: "rotate_locked env now draw db = (y, db1)"
      "kd_rows db' = kd_rows db1" by blast
    from strand.rotation [OF r(1), of kid] stranded_minted ok r(2) show ?thesis by (simp add: ids_ok_def)
  next
    case (start now now' draw x)
    from ensure_rows [OF start] have rows: "q \<in> set (kd_rows db) \<Longrightarrow> q \<in> set (kd_rows db')" "ids_ok db \<Longrightarrow> ids_ok db'" for q
      by (auto simp: ids_ok_def)
    with ok stranded_keep [of kid "kd_rows db" "kd_rows db'"] show ?thesis by blast
  next
    case read
    with ok show ?thesis by (simp add: ids_ok_def)
  qed
qed

text \<open>
  A key that is active beside a newer one, as a rotation leaves it when it stops after saving the new
  key, is never retired: through any run of rotations, at whatever time, it stays active, so the endpoint goes
  on publishing it.
\<close>

theorem stranded_key_is_never_retired:
  assumes "r \<in> set (kd_rows db)" "n \<in> set (kd_rows db)" "key_status r = StatusActive" "key_status n = StatusActive"
    and "key_created r < key_created n" "ids_ok db" "(key_step env lo hi)\<^sup>*\<^sup>* db db'"
  shows "\<exists>q \<in> set (kd_rows db'). key_id q = key_id r \<and> key_status q = StatusActive"
proof -
  have "stranded (key_id r) (kd_rows db)" using assms(1-5) by (auto simp: stranded_def)
  with stranded_runs.reachable_keeps [OF assms(7), of "key_id r"] assms(6) show ?thesis by (auto simp: stranded_def)
qed

section \<open>Keys read back\<close>

text \<open>What AES-GCM and PKCS#8 are documented to do.\<close>

definition gcm_law :: "gcm \<Rightarrow> bool" where
  "gcm_law g \<longleftrightarrow> (\<forall>n p. length n = gcm_nonce_size g \<longrightarrow>
     gcm_open g n (gcm_seal g n p) = Some p \<and> length (gcm_seal g n p) = length p + gcm_overhead g)"

lemma envelope_round_trip:
  assumes "envelope_encrypt e nonce plain = Some ct" "\<And>g. e = Some g \<Longrightarrow> gcm_law g"
    and "\<And>g n. e = Some g \<Longrightarrow> nonce = Some n \<Longrightarrow> length n = gcm_nonce_size g"
  shows "envelope_decrypt e ct = Some plain"
  using assms by (cases e) (auto simp: envelope_encrypt_def envelope_decrypt_def gcm_law_def)

text \<open>
  A signing key that was saved reads back as it was, decrypted, with its instants cut to the second.
\<close>

theorem saved_key_reads_back:
  assumes "ks_save env nonce k db = (None, db1)" "\<not> kd_broken db1"
    and "\<And>g. ke_gcm env = Some g \<Longrightarrow> gcm_law g"
    and "\<And>g n. ke_gcm env = Some g \<Longrightarrow> nonce = Some n \<Longrightarrow> length n = gcm_nonce_size g"
    and "\<And>p der. ke_marshal env p = Some der \<Longrightarrow> ke_parse env der = Some p"
  shows "fst (ks_get env (key_id k) db1) =
    Inr (k\<lparr>key_created := rfc3339 (key_created k), key_activated := map_option rfc3339 (key_activated k),
           key_retired := map_option rfc3339 (key_retired k)\<rparr>)"
proof -
  obtain der where der: "marshal_pkcs8 env (key_private k) = Some der" using assms(1) by (auto simp: ks_save_def split: option.splits)
  then obtain ct where ct: "envelope_encrypt (ke_gcm env) nonce der = Some ct" "row_create (with_private ct k) db = (None, db1)"
    using assms(1) by (auto simp: ks_save_def split: option.splits)
  have row: "kd_rows db1 = kd_rows db @ [stored_times (with_private ct k)]" "key_id k \<notin> key_id ` set (kd_rows db)"
    using ct(2) by (auto simp: row_create_def with_private_def split: if_splits)
  have "List.find (\<lambda>r. key_id r = key_id k) (kd_rows db1) = Some (stored_times (with_private ct k))"
  proof -
    have "List.find (\<lambda>r. key_id r = key_id k) (kd_rows db) = None" using row(2) by (force simp: find_None_iff)
    then show ?thesis using row(1) by (simp add: find_append stored_times_def with_private_def)
  qed
  moreover have "envelope_decrypt (ke_gcm env) ct = Some der" using envelope_round_trip [OF ct(1) assms(3,4)] .
  moreover have "parse_pkcs8 env der = Some (key_private k)"
    using der assms(5) by (auto simp: marshal_pkcs8_def parse_pkcs8_def split: if_splits option.splits)
  ultimately show ?thesis
    using assms(2) by (simp add: ks_get_def row_get_def row_to_key_def stored_times_def with_private_def)
qed

end
