(* ===== verification/JwksExamples.thy ===== *)
theory JwksExamples imports JwksLaws begin

text \<open>Concrete tables of signing keys on which the properties of rotation apply.\<close>

definition sample_gcm :: gcm where
  "sample_gcm = \<lparr>gcm_nonce_size = 1, gcm_overhead = 0, gcm_seal = (\<lambda>n p. p), gcm_open = (\<lambda>n c. Some c)\<rparr>"

definition sample_key_env :: key_env where
  "sample_key_env = \<lparr>ke_gcm = Some sample_gcm, ke_marshal = (\<lambda>p. if fst p = KindEd25519 then Some (snd p) else None),
     ke_parse = (\<lambda>s. Some (KindEd25519, s)), ke_jwk = (\<lambda>_ kid _. Some kid), ke_json = (\<lambda>s. Some (JObj [(''kid'', JStr s)])),
     ke_signer = (\<lambda>_ _. True), ke_observed = False\<rparr>"

definition draw :: "string \<Rightarrow> key_draw" where
  "draw kid = \<lparr>dr_kid = kid, dr_material = (\<lambda>_. Some ''m''), dr_nonce = Some ''n''\<rparr>"

definition no_keys :: "nat list \<Rightarrow> key_db" where
  "no_keys broken = \<lparr>kd_rows = [], kd_fails = (\<lambda>n. n \<in> set broken), kd_count = 0\<rparr>"

abbreviation day :: int where
  "day \<equiv> 24 * 60 * minute"

abbreviation rotated :: "gotime \<Rightarrow> string \<Rightarrow> key_db \<Rightarrow> key_db" where
  "rotated now kid db \<equiv> snd (rotate_keys sample_key_env now (draw kid) db)"

lemma sample_rotations:
  "map (\<lambda>r. (key_id r, key_status r)) (kd_rows (rotated (8 * day) ''b'' (rotated 0 ''a'' (no_keys [])))) =
     [(''a'', StatusRetiring), (''b'', StatusActive)]"
  "map (\<lambda>r. (key_id r, key_status r, key_created r)) (kd_rows (rotated (8 * day) ''b'' (rotated 0 ''a'' (no_keys [6])))) =
     [(''a'', StatusActive, 0), (''b'', StatusActive, 8 * day)]"
  by code_simp+

definition one_key :: key_db where
  "one_key = rotated 0 ''a'' (no_keys [])"

definition two_keys :: key_db where
  "two_keys = rotated (8 * day) ''b'' (rotated 0 ''a'' (no_keys [6]))"

definition sample_active :: "string \<Rightarrow> gotime \<Rightarrow> key_row" where
  "sample_active kid t = \<lparr>key_id = kid, key_alg = ''EdDSA'', key_private = ''nm'', key_jwk = kid, key_status = StatusActive,
     key_created = t, key_activated = Some t, key_retired = None\<rparr>"

lemma sample_rows:
  "kd_rows one_key = [sample_active ''a'' 0]"
  "kd_rows two_keys = [sample_active ''a'' 0, sample_active ''b'' (8 * day)]"
  by code_simp+

lemma ids_ok_samples: "ids_ok one_key" "ids_ok two_keys" "ids_ok (no_keys [])"
  by (simp_all add: ids_ok_def sample_rows no_keys_def sample_active_def)

theorem signed_tokens_stay_verifiable_witness:
  "fst (serve_jwks sample_key_env ''GET'' (rotated (8 * day) ''b'' one_key)) = JwksUnavailable
   \<or> (\<exists>sets. fst (serve_jwks sample_key_env ''GET'' (rotated (8 * day) ''b'' one_key)) = JwkSet sets
      \<and> (\<exists>kvs \<in> set sets. unmarshal (\<lambda>kvs. if json_any (JObj kvs) then Some kvs else None) (Some (JObj [(''kid'', JStr ''a'')])) = Some kvs))"
proof -
  define k where "k = with_private (KindEd25519, ''m'') (sample_active ''a'' 0)"
  define db1 where "db1 = snd (active_signer sample_key_env one_key)"
  have "fst (active_signer sample_key_env one_key) = Inr k" unfolding k_def by code_simp
  then have s: "active_signer sample_key_env one_key = (Inr k, db1)" by (simp add: db1_def prod_eq_iff)
  have "kd_rows one_key = kd_rows db1" using active_signer_row [OF s] by simp
  then have "key_step sample_key_env 0 (rfc3339 0 + retiring_overlap) db1 one_key" by (rule key_step.read)
  moreover have "key_step sample_key_env 0 (rfc3339 0 + retiring_overlap) one_key (rotated (8 * day) ''b'' one_key)"
    by (rule key_step.rotate [OF surjective_pairing]) (simp_all add: rfc3339_def retiring_overlap_def)
  ultimately have "(key_step sample_key_env 0 (rfc3339 0 + retiring_overlap))\<^sup>*\<^sup>* db1 (rotated (8 * day) ''b'' one_key)" by simp
  from signed_tokens_stay_verifiable [OF s ids_ok_samples(1) this surjective_pairing]
  show ?thesis by (simp add: sample_key_env_def k_def with_private_def sample_active_def)
qed

theorem rotation_leaves_one_young_key_witness:
  "\<exists>r. filter (\<lambda>r. key_status r = StatusActive) (kd_rows (snd (rotate_locked sample_key_env 0 (draw ''a'') (no_keys [])))) = [r]"
proof -
  have "fst (rotate_locked sample_key_env 0 (draw ''a'') (no_keys [])) = None" by code_simp
  then have "rotate_locked sample_key_env 0 (draw ''a'') (no_keys []) =
      (None, snd (rotate_locked sample_key_env 0 (draw ''a'') (no_keys [])))" by (simp add: prod_eq_iff)
  from rotation_leaves_one_young_key [OF this ids_ok_samples(3)] show ?thesis by (auto simp: no_keys_def)
qed

theorem stranded_key_is_never_retired_witness:
  "\<exists>q \<in> set (kd_rows (rotated (100 * day) ''c'' two_keys)). key_id q = ''a'' \<and> key_status q = StatusActive"
proof -
  have "(key_step sample_key_env 0 (101 * day))\<^sup>*\<^sup>* two_keys (rotated (100 * day) ''c'' two_keys)"
    by (intro r_into_rtranclp key_step.rotate [OF surjective_pairing]) simp_all
  from stranded_key_is_never_retired [OF _ _ _ _ _ ids_ok_samples(2) this, of "sample_active ''a'' 0" "sample_active ''b'' (8 * day)"]
  show ?thesis by (simp add: sample_rows sample_active_def)
qed

theorem saved_key_reads_back_witness:
  "fst (ks_get sample_key_env ''a'' (snd (ks_save sample_key_env (Some ''n'') (with_private (KindEd25519, ''m'') (sample_active ''a'' 5)) (no_keys [])))) =
     Inr (with_private (KindEd25519, ''m'') (sample_active ''a'' 0)\<lparr>key_activated := Some 0\<rparr>)"
proof -
  let ?k = "with_private (KindEd25519, ''m'') (sample_active ''a'' 5)"
  have s: "ks_save sample_key_env (Some ''n'') ?k (no_keys []) = (None, snd (ks_save sample_key_env (Some ''n'') ?k (no_keys [])))"
    by (simp add: prod_eq_iff) code_simp
  have "\<not> kd_broken (snd (ks_save sample_key_env (Some ''n'') ?k (no_keys [])))" by code_simp
  moreover have "gcm_law g" if "ke_gcm sample_key_env = Some g" for g
    using that by (auto simp: sample_key_env_def sample_gcm_def gcm_law_def)
  moreover have "length n = gcm_nonce_size g" if "ke_gcm sample_key_env = Some g" "Some ''n'' = Some n" for g n
    using that by (auto simp: sample_key_env_def sample_gcm_def)
  moreover have "ke_parse sample_key_env der = Some p" if "ke_marshal sample_key_env p = Some der" for p der
    using that by (cases p) (auto simp: sample_key_env_def split: if_splits)
  moreover have "key_id ?k = ''a''" by (simp add: with_private_def sample_active_def)
  ultimately show ?thesis
    using saved_key_reads_back [OF s] by (simp add: with_private_def sample_active_def rfc3339_def)
qed

end
