(* ===== verification/SsrfLaws.thy ===== *)
theory SsrfLaws imports Ssrf begin

unbundle bit_operations_syntax

text \<open>
  Which addresses the two guards block, as ranges of address values in CIDR notation, and what a
  guard that looks a name up before the dialer looks it up again can promise.
\<close>

section \<open>Values of addresses\<close>

fun ip_value :: "ip \<Rightarrow> int" where
  "ip_value [] = 0"
| "ip_value (b # bs) = uint b * 256 ^ length bs + ip_value bs"

lemma byte_range: "0 \<le> uint (b :: byte)" "uint (b :: byte) < 256"
  using uint_bounded [of b] by simp_all

lemma ip_value_range: "0 \<le> ip_value bs" "ip_value bs < 256 ^ length bs"
proof (induction bs)
  case (Cons b bs)
  have "uint b * 256 ^ length bs + ip_value bs < (uint b + 1) * 256 ^ length bs"
    using Cons(2) by (simp add: distrib_right)
  also have "\<dots> \<le> 256 * 256 ^ length bs" using byte_range(2) [of b] by (intro mult_right_mono) auto
  finally show "ip_value (b # bs) < 256 ^ length (b # bs)" by simp
  show "0 \<le> ip_value (b # bs)" using Cons(1) byte_range(1) [of b] by simp
qed simp_all

lemma ip_value_append: "ip_value (xs @ ys) = ip_value xs * 256 ^ length ys + ip_value ys"
  by (induction xs) (simp_all add: algebra_simps power_add)

lemma ip_value_div: "ip_value (xs @ ys) div 256 ^ length ys = ip_value xs"
  "ip_value (xs @ ys) mod 256 ^ length ys = ip_value ys"
  using ip_value_range [of ys] by (simp_all add: ip_value_append)

lemma ip_value_Cons:
  "ip_value (b # bs) div 256 ^ length bs = uint b" "ip_value (b # bs) mod 256 ^ length bs = ip_value bs"
  using ip_value_div [of "[b]" bs] by simp_all

lemma ip_value_inj: "length xs = length ys \<Longrightarrow> ip_value xs = ip_value ys \<longleftrightarrow> xs = ys"
proof (induction xs ys rule: list_induct2)
  case (Cons x xs y ys)
  have "uint x = uint y \<and> ip_value xs = ip_value ys" if "ip_value (x # xs) = ip_value (y # ys)"
    using ip_value_Cons [of x xs] ip_value_Cons [of y ys] Cons.hyps that by metis
  then have "x # xs = y # ys" if "ip_value (x # xs) = ip_value (y # ys)"
    using that Cons.IH word_uint_eq_iff [of x y] by metis
  then show ?case by blast
qed simp

definition cidr :: "nat \<Rightarrow> int \<Rightarrow> nat \<Rightarrow> int \<Rightarrow> bool" where
  "cidr bits net len v \<longleftrightarrow> v div 2 ^ (bits - len) = net div 2 ^ (bits - len)"

definition dotted :: "int \<Rightarrow> int \<Rightarrow> int \<Rightarrow> int \<Rightarrow> int" where
  "dotted a b c d = a * 2 ^ 24 + b * 2 ^ 16 + c * 2 ^ 8 + d"

text \<open>The IPv4 address an address stands for: itself, mapped, or compatible but not \<open>::\<close> and \<open>::1\<close>.\<close>

definition embedded_v4 :: "ip \<Rightarrow> int option" where
  "embedded_v4 ip =
     (let v = ip_value ip in
      if length ip = 4 then Some v
      else if v div 2 ^ 32 = 0xffff then Some (v mod 2 ^ 32)
      else if v div 2 ^ 32 = 0 \<and> 1 < v then Some v
      else None)"

definition in_ranges :: "(int \<Rightarrow> bool) \<Rightarrow> (int \<Rightarrow> bool) \<Rightarrow> ip \<Rightarrow> bool" where
  "in_ranges blocked4 blocked6 ip =
     (case embedded_v4 ip of Some v \<Rightarrow> blocked4 v | None \<Rightarrow> blocked6 (ip_value ip))"

definition monitor_blocked4 :: "int \<Rightarrow> bool" where
  "monitor_blocked4 v \<longleftrightarrow>
     cidr 32 (dotted 127 0 0 0) 8 v \<or> cidr 32 (dotted 10 0 0 0) 8 v \<or> cidr 32 (dotted 172 16 0 0) 12 v
     \<or> cidr 32 (dotted 192 168 0 0) 16 v \<or> cidr 32 (dotted 169 254 0 0) 16 v
     \<or> cidr 32 (dotted 224 0 0 0) 24 v \<or> v = 0"

definition sink_blocked4 :: "int \<Rightarrow> bool" where
  "sink_blocked4 v \<longleftrightarrow> monitor_blocked4 v \<or> cidr 32 (dotted 100 64 0 0) 10 v \<or> cidr 32 (dotted 224 0 0 0) 4 v"

definition monitor_blocked6 :: "int \<Rightarrow> bool" where
  "monitor_blocked6 v \<longleftrightarrow>
     v = 0 \<or> v = 1 \<or> cidr 128 (0xfc * 2 ^ 120) 7 v \<or> cidr 128 (0xfe80 * 2 ^ 112) 10 v
     \<or> cidr 128 (0xff * 2 ^ 120) 8 v \<and> v div 2 ^ 112 mod 16 = 2"

definition sink_blocked6 :: "int \<Rightarrow> bool" where
  "sink_blocked6 v \<longleftrightarrow> monitor_blocked6 v \<or> cidr 128 (0xff * 2 ^ 120) 8 v"

section \<open>Masks\<close>

lemma byte_and: "(b :: byte) AND m = n \<longleftrightarrow> (uint b AND uint m) = uint n"
  by (simp add: word_uint_eq_iff uint_and)

lemma mask_cases:
  assumes "0 \<le> x" "x < (256 :: int)"
  shows "(x AND 0xf0 = 0xe0) = (x div 16 = 14)" "(x AND 0xf0 = 16) = (x div 16 = 1)"
    "(x AND 0xfe = 0xfc) = (x div 2 = 126)" "(x AND 0xc0 = 64) = (x div 64 = 1)"
    "(x AND 0xc0 = 0x80) = (x div 64 = 2)" "(x AND 0x0f = 2) = (x mod 16 = 2)"
proof -
  have all: "\<forall>x \<in> set [0..255 :: int].
      (x AND 0xf0 = 0xe0) = (x div 16 = 14) \<and> (x AND 0xf0 = 16) = (x div 16 = 1)
      \<and> (x AND 0xfe = 0xfc) = (x div 2 = 126) \<and> (x AND 0xc0 = 64) = (x div 64 = 1)
      \<and> (x AND 0xc0 = 0x80) = (x div 64 = 2) \<and> (x AND 0x0f = 2) = (x mod 16 = 2)"
    by code_simp
  have "x \<in> set [0..255]" using assms by simp
  from bspec [OF all this]
  show "(x AND 0xf0 = 0xe0) = (x div 16 = 14)" "(x AND 0xf0 = 16) = (x div 16 = 1)"
    "(x AND 0xfe = 0xfc) = (x div 2 = 126)" "(x AND 0xc0 = 64) = (x div 64 = 1)"
    "(x AND 0xc0 = 0x80) = (x div 64 = 2)" "(x AND 0x0f = 2) = (x mod 16 = 2)" by blast+
qed

lemma byte_masks:
  "(b :: byte) AND 0xf0 = 0xe0 \<longleftrightarrow> uint b div 16 = 14" "b AND 0xf0 = 16 \<longleftrightarrow> uint b div 16 = 1"
  "b AND 0xfe = 0xfc \<longleftrightarrow> uint b div 2 = 126" "b AND 0xc0 = 64 \<longleftrightarrow> uint b div 64 = 1"
  "b AND 0xc0 = 0x80 \<longleftrightarrow> uint b div 64 = 2" "b AND 0x0f = 2 \<longleftrightarrow> uint b mod 16 = 2"
  using mask_cases [OF byte_range [of b]] by (simp_all add: byte_and)

section \<open>IPv4\<close>

lemma length4E: "length xs = 4 \<Longrightarrow> \<exists>a b c d. xs = [a, b, c, d]"
  by (auto simp: length_Suc_conv eval_nat_numeral)

lemma digits_unique:
  fixes x y n m k :: int
  assumes "0 \<le> y" "y < k" "0 \<le> m" "m < k"
  shows "x * k + y = n * k + m \<longleftrightarrow> x = n \<and> y = m"
proof
  assume e: "x * k + y = n * k + m"
  have "(x * k + y) div k = x" "(n * k + m) div k = n" using assms by simp_all
  with e show "x = n \<and> y = m" by simp
qed simp

lemma two_digits:
  fixes x y n m :: int
  assumes "0 \<le> y" "y < 256" "0 \<le> m" "m < 256"
  shows "x * 256 + y = n * 256 + m \<longleftrightarrow> x = n \<and> y = m"
    and "(x * 256 + y) div 16 = (n * 256 + m) div 16 \<longleftrightarrow> x = n \<and> y div 16 = m div 16"
    and "(x * 256 + y) div 64 = (n * 256 + m) div 64 \<longleftrightarrow> x = n \<and> y div 64 = m div 64"
proof -
  show "x * 256 + y = n * 256 + m \<longleftrightarrow> x = n \<and> y = m" by (rule digits_unique [OF assms])
  have "(u * 256 + t) div 16 = u * 16 + t div 16" "(u * 256 + t) div 64 = u * 4 + t div 64" for u t :: int
    using div_mult_self1 [of 16 t "u * 16"] div_mult_self1 [of 64 t "u * 4"] by (simp_all add: add.commute)
  moreover have "0 \<le> t div 16 \<and> t div 16 < 16 \<and> 0 \<le> t div 64 \<and> t div 64 < 4" if "0 \<le> t" "t < 256" for t :: int
    using that by linarith
  ultimately show "(x * 256 + y) div 16 = (n * 256 + m) div 16 \<longleftrightarrow> x = n \<and> y div 16 = m div 16"
    "(x * 256 + y) div 64 = (n * 256 + m) div 64 \<longleftrightarrow> x = n \<and> y div 64 = m div 64"
    using assms digits_unique [of "y div 16" 16 "m div 16" x n] digits_unique [of "y div 64" 4 "m div 64" x n]
    by simp_all
qed

lemma v4_prefixes:
  fixes a b c d :: byte
  defines "v \<equiv> ip_value [a, b, c, d]"
  shows "v div 16777216 = uint a" "v div 268435456 = uint a div 16"
    "v div 65536 = uint a * 256 + uint b" "v div 1048576 = (uint a * 256 + uint b) div 16"
    "v div 4194304 = (uint a * 256 + uint b) div 64" "v div 256 = (uint a * 256 + uint b) * 256 + uint c"
proof -
  have "v div 256 ^ length [b, c, d] = ip_value [a]" "v div 256 ^ length [c, d] = ip_value [a, b]"
    "v div 256 ^ length [d] = ip_value [a, b, c]"
    using ip_value_div(1) [of "[a]" "[b, c, d]"] ip_value_div(1) [of "[a, b]" "[c, d]"]
      ip_value_div(1) [of "[a, b, c]" "[d]"] by (simp_all only: v_def append.simps)
  then show d: "v div 16777216 = uint a" "v div 65536 = uint a * 256 + uint b"
    "v div 256 = (uint a * 256 + uint b) * 256 + uint c" by simp_all
  show "v div 268435456 = uint a div 16" "v div 1048576 = (uint a * 256 + uint b) div 16"
    "v div 4194304 = (uint a * 256 + uint b) div 64"
    using zdiv_zmult2_eq [of 16 v 16777216] zdiv_zmult2_eq [of 16 v 65536] zdiv_zmult2_eq [of 64 v 65536]
    by (simp_all add: d)
qed

text \<open>A four-byte address against the ranges.\<close>

lemma v4_ranges:
  fixes a b c d :: byte
  defines "v \<equiv> ip_value [a, b, c, d]"
  shows "cidr 32 (dotted n 0 0 0) 8 v \<longleftrightarrow> uint a = n"
    and "cidr 32 (dotted n 0 0 0) 4 v \<longleftrightarrow> uint a div 16 = n div 16"
    and "0 \<le> m \<Longrightarrow> m < 256 \<Longrightarrow> cidr 32 (dotted n m 0 0) 16 v \<longleftrightarrow> uint a = n \<and> uint b = m"
    and "0 \<le> m \<Longrightarrow> m < 256 \<Longrightarrow> cidr 32 (dotted n m 0 0) 12 v \<longleftrightarrow> uint a = n \<and> uint b div 16 = m div 16"
    and "0 \<le> m \<Longrightarrow> m < 256 \<Longrightarrow> cidr 32 (dotted n m 0 0) 10 v \<longleftrightarrow> uint a = n \<and> uint b div 64 = m div 64"
    and "cidr 32 (dotted n 0 0 0) 24 v \<longleftrightarrow> uint a = n \<and> uint b = 0 \<and> uint c = 0"
    and "v = 0 \<longleftrightarrow> a = 0 \<and> b = 0 \<and> c = 0 \<and> d = 0"
proof -
  note p = v4_prefixes [of a b c d, folded v_def]
  have e: "n * 16777216 + m * 65536 = (n * 256 + m) * 65536" for m :: int by simp
  have n: "(n * 16777216) div 268435456 = n div 16" "(n * 16777216 + m * 65536) div 65536 = n * 256 + m"
    "(n * 16777216 + m * 65536) div 1048576 = (n * 256 + m) div 16"
    "(n * 16777216 + m * 65536) div 4194304 = (n * 256 + m) div 64"
    "(n * 16777216) div 256 = (n * 256 + 0) * 256 + 0" for m :: int
    using div_mult_mult2 [of 16777216 n 16] div_mult_mult2 [of 65536 "n * 256 + m" 16]
      div_mult_mult2 [of 65536 "n * 256 + m" 64] div_mult_mult2 [of 256 "n * 65536" 1]
    unfolding e by simp_all
  show "cidr 32 (dotted n 0 0 0) 8 v \<longleftrightarrow> uint a = n" "cidr 32 (dotted n 0 0 0) 4 v \<longleftrightarrow> uint a div 16 = n div 16"
    using n(1) by (simp_all add: cidr_def dotted_def p)
  note digits = two_digits [OF byte_range [of b]]
  show "cidr 32 (dotted n m 0 0) 16 v \<longleftrightarrow> uint a = n \<and> uint b = m"
    "cidr 32 (dotted n m 0 0) 12 v \<longleftrightarrow> uint a = n \<and> uint b div 16 = m div 16"
    "cidr 32 (dotted n m 0 0) 10 v \<longleftrightarrow> uint a = n \<and> uint b div 64 = m div 64" if "0 \<le> m" "m < 256"
    using digits [OF that, of "uint a" n] n(2-4) [of m] by (simp_all add: cidr_def dotted_def p mult.commute [of n])
  show "cidr 32 (dotted n 0 0 0) 24 v \<longleftrightarrow> uint a = n \<and> uint b = 0 \<and> uint c = 0"
    using two_digits(1) [OF byte_range [of c], of 0 "uint a * 256 + uint b" "n * 256 + 0"]
      digits(1) [of 0 "uint a" n] n(5) by (simp add: cidr_def dotted_def p)
  show "v = 0 \<longleftrightarrow> a = 0 \<and> b = 0 \<and> c = 0 \<and> d = 0"
    using ip_value_inj [of "[a, b, c, d]" "[0, 0, 0, 0]"] by (simp add: v_def)
qed

lemma zeros16: "replicate 16 (0 :: byte) = replicate 10 0 @ [0, 0, 0, 0, 0, 0]"
  by (simp add: eval_nat_numeral)

lemma net_v4:
  "is_loopback [a, b, c, d] \<longleftrightarrow> uint a = 127"
  "is_private [a, b, c, d] \<longleftrightarrow> uint a = 10 \<or> uint a = 172 \<and> uint b div 16 = 1 \<or> uint a = 192 \<and> uint b = 168"
  "is_link_local_unicast [a, b, c, d] \<longleftrightarrow> uint a = 169 \<and> uint b = 254"
  "is_link_local_multicast [a, b, c, d] \<longleftrightarrow> uint a = 224 \<and> uint b = 0 \<and> uint c = 0"
  "is_multicast [a, b, c, d] \<longleftrightarrow> uint a div 16 = 14"
  "is_unspecified [a, b, c, d] \<longleftrightarrow> a = 0 \<and> b = 0 \<and> c = 0 \<and> d = 0"
  by (simp_all add: is_loopback_def is_private_def is_link_local_unicast_def is_link_local_multicast_def
      is_multicast_def is_unspecified_def to4_def byte_masks word_uint_eq_iff [of a] word_uint_eq_iff [of b]
      word_uint_eq_iff [of c] ip_equal_def ip4_def ip6_unspecified_def zeros16)

lemma monitor_v4:
  "monitor_blocked4 (ip_value [a, b, c, d]) \<longleftrightarrow>
     is_loopback [a, b, c, d] \<or> is_private [a, b, c, d] \<or> is_link_local_unicast [a, b, c, d]
     \<or> is_link_local_multicast [a, b, c, d] \<or> is_unspecified [a, b, c, d]"
  by (simp add: monitor_blocked4_def v4_ranges net_v4 del: ip_value.simps)

lemma sink_v4:
  "sink_blocked4 (ip_value [a, b, c, d]) \<longleftrightarrow> is_private_addr (Some [a, b, c, d]) \<noteq> None"
  by (simp add: sink_blocked4_def monitor_v4 v4_ranges is_private_addr_def Let_def to4_def ipv4_compat_to_v4_def
      net_v4 byte_masks word_uint_eq_iff [of a] del: ip_value.simps)

section \<open>IPv6\<close>

lemma ip_value_zeros [simp]: "ip_value (replicate n 0) = 0"
  by (induction n) simp_all

text \<open>The two halves an IPv6 address is judged by: twelve bytes, and the four that may be an IPv4 address.\<close>

lemma ip_halves:
  assumes "length p = 12" "length q = 4"
  shows "ip_value (p @ q) div 4294967296 = ip_value p" "ip_value (p @ q) mod 4294967296 = ip_value q"
    and "to4 (p @ q) = (if ip_value p = 0xffff then Some q else None)"
    and "ipv4_compat_to_v4 (p @ q) =
      (if ip_value p = 0 \<and> 1 < ip_value q then Some (ip4 (q ! 0) (q ! 1) (q ! 2) (q ! 3)) else None)"
proof -
  show "ip_value (p @ q) div 4294967296 = ip_value p" "ip_value (p @ q) mod 4294967296 = ip_value q"
    using ip_value_div [of p q] assms by simp_all
  have "drop 10 p = [p ! 10, p ! 11]"
    using assms(1) by (intro nth_equalityI) (auto simp: less_Suc_eq numeral_2_eq_2)
  then have split: "p = take 10 p @ [p ! 10, p ! 11]" by (metis append_take_drop_id)
  have iff: "take 10 p = replicate 10 0 \<and> p ! 10 = x \<and> p ! 11 = y \<longleftrightarrow> ip_value p = uint x * 256 + uint y" for x y
  proof -
    have "ip_value p = uint x * 256 + uint y \<longleftrightarrow> p = replicate 10 0 @ [x, y]"
      using ip_value_inj [of p "replicate 10 0 @ [x, y]"] assms(1) by (simp add: ip_value_append)
    also have "\<dots> \<longleftrightarrow> take 10 p = replicate 10 0 \<and> p ! 10 = x \<and> p ! 11 = y"
      using split by (auto simp: nth_append)
    finally show ?thesis by blast
  qed
  show "to4 (p @ q) = (if ip_value p = 0xffff then Some q else None)"
    using iff [of 255 255] assms by (simp add: to4_def nth_append)
  obtain a b c d where q: "q = [a, b, c, d]" using length4E [OF assms(2)] by blast
  have "ip_value q \<le> 1 \<longleftrightarrow> a = 0 \<and> b = 0 \<and> c = 0 \<and> (d = 0 \<or> d = 1)"
  proof -
    have "ip_value q \<le> 1 \<longleftrightarrow> ip_value q = 0 \<or> ip_value q = 1" using ip_value_range(1) [of q] by linarith
    also have "\<dots> \<longleftrightarrow> q = [0, 0, 0, 0] \<or> q = [0, 0, 0, 1]"
      using ip_value_inj [of q "[0, 0, 0, 0]"] ip_value_inj [of q "[0, 0, 0, 1]"] assms(2) by simp
    finally show ?thesis using q by auto
  qed
  then show "ipv4_compat_to_v4 (p @ q) =
      (if ip_value p = 0 \<and> 1 < ip_value q then Some (ip4 (q ! 0) (q ! 1) (q ! 2) (q ! 3)) else None)"
    using iff [of 0 0] assms(1) q by (auto simp: ipv4_compat_to_v4_def nth_append not_le)
qed

lemma v6_prefixes:
  fixes b0 b1 :: byte
  assumes "length bs = 14"
  defines "v \<equiv> ip_value (b0 # b1 # bs)"
  shows "cidr 128 (0xfc * 2 ^ 120) 7 v \<longleftrightarrow> b0 AND 0xfe = 0xfc"
    and "cidr 128 (0xfe80 * 2 ^ 112) 10 v \<longleftrightarrow> b0 = 254 \<and> b1 AND 0xc0 = 0x80"
    and "cidr 128 (0xff * 2 ^ 120) 8 v \<longleftrightarrow> b0 = 255"
    and "v div 2 ^ 112 mod 16 = 2 \<longleftrightarrow> b1 AND 0x0f = 2"
proof -
  have "v div 256 ^ 14 = uint b0 * 256 + uint b1" "v div 256 ^ 15 = uint b0"
    using ip_value_div(1) [of "[b0, b1]" bs] ip_value_div(1) [of "[b0]" "b1 # bs"] assms by simp_all
  then have d: "v div 2 ^ 112 = uint b0 * 256 + uint b1" "v div 2 ^ 120 = uint b0" by simp_all
  then have d2: "v div 2 ^ 121 = uint b0 div 2" "v div 2 ^ 118 = (uint b0 * 256 + uint b1) div 64"
    using zdiv_zmult2_eq [of 2 v "2 ^ 120"] zdiv_zmult2_eq [of 64 v "2 ^ 112"] by simp_all
  show "cidr 128 (0xfc * 2 ^ 120) 7 v \<longleftrightarrow> b0 AND 0xfe = 0xfc" "cidr 128 (0xff * 2 ^ 120) 8 v \<longleftrightarrow> b0 = 255"
    using d(2) d2(1) by (simp_all add: cidr_def byte_masks word_uint_eq_iff [of b0])
  show "cidr 128 (0xfe80 * 2 ^ 112) 10 v \<longleftrightarrow> b0 = 254 \<and> b1 AND 0xc0 = 0x80"
    using d2(2) two_digits(3) [OF byte_range [of b1], of 128 "uint b0" 254]
    by (simp add: cidr_def byte_masks word_uint_eq_iff [of b0])
  have "(uint b0 * 256 + uint b1) mod 16 = uint b1 mod 16"
    using mod_mult_self3 [of "uint b0 * 16" 16 "uint b1"] by (simp add: mult.commute)
  then show "v div 2 ^ 112 mod 16 = 2 \<longleftrightarrow> b1 AND 0x0f = 2" using d(1) by (simp add: byte_masks)
qed

text \<open>An address that stands for an IPv4 address is judged as that one.\<close>

lemma to4_ip4 [simp]: "to4 (ip4 a b c d) = Some [a, b, c, d]" "length (ip4 a b c d) = 16"
  by (simp_all add: to4_def ip4_def nth_append)

lemma to4_16: "to4 ip = Some [a, b, c, d] \<Longrightarrow> length ip = 16 \<Longrightarrow> ip = ip4 a b c d"
proof -
  assume t: "to4 ip = Some [a, b, c, d]" "length ip = 16"
  then have "take 10 ip = replicate 10 0" "ip ! 10 = 255" "ip ! 11 = 255" "drop 12 ip = [a, b, c, d]"
    by (auto simp: to4_def split: if_splits)
  moreover have "drop 10 ip = ip ! 10 # ip ! 11 # drop 12 ip"
    using t(2) Cons_nth_drop_Suc [of 10 ip] Cons_nth_drop_Suc [of 11 ip] by simp
  ultimately show ?thesis unfolding ip4_def by (metis append_take_drop_id)
qed

lemma net_ip4:
  "is_loopback (ip4 a b c d) = is_loopback [a, b, c, d]" "is_private (ip4 a b c d) = is_private [a, b, c, d]"
  "is_link_local_unicast (ip4 a b c d) = is_link_local_unicast [a, b, c, d]"
  "is_link_local_multicast (ip4 a b c d) = is_link_local_multicast [a, b, c, d]"
  "is_multicast (ip4 a b c d) = is_multicast [a, b, c, d]" "is_unspecified (ip4 a b c d) = is_unspecified [a, b, c, d]"
proof -
  have "to4 [a, b, c, d] = Some [a, b, c, d]" by (simp add: to4_def)
  then show "is_loopback (ip4 a b c d) = is_loopback [a, b, c, d]" "is_private (ip4 a b c d) = is_private [a, b, c, d]"
    "is_link_local_unicast (ip4 a b c d) = is_link_local_unicast [a, b, c, d]"
    "is_link_local_multicast (ip4 a b c d) = is_link_local_multicast [a, b, c, d]"
    "is_multicast (ip4 a b c d) = is_multicast [a, b, c, d]"
    by (simp_all add: is_loopback_def is_private_def is_link_local_unicast_def is_link_local_multicast_def is_multicast_def)
  show "is_unspecified (ip4 a b c d) = is_unspecified [a, b, c, d]"
    unfolding net_v4 by (simp add: is_unspecified_def ip_equal_def ip4_def ip6_unspecified_def zeros16)
qed

lemma compat_ip4 [simp]: "ipv4_compat_to_v4 (ip4 a b c d) = None" "ipv4_compat_to_v4 [a, b, c, d] = None"
  by (simp_all add: ipv4_compat_to_v4_def ip4_def nth_append)

lemma embedded_guards:
  assumes "length ip = 16" "to4 ip = Some [a, b, c, d] \<or> to4 ip = None \<and> ipv4_compat_to_v4 ip = Some (ip4 a b c d)"
  shows "is_private_ip ip = is_private_ip [a, b, c, d]" "is_private_addr (Some ip) = is_private_addr (Some [a, b, c, d])"
proof -
  have q: "to4 [a, b, c, d] = Some [a, b, c, d]" by (simp add: to4_def)
  have c: "to4 ip = Some [a, b, c, d] \<Longrightarrow> ipv4_compat_to_v4 ip = None" using to4_16 [OF _ assms(1)] by simp
  have "is_private_ip ip = is_private_ip (ip4 a b c d)"
    using assms(2) to4_16 [OF _ assms(1)] by (auto simp: is_private_ip_def)
  then show "is_private_ip ip = is_private_ip [a, b, c, d]" by (simp add: is_private_ip_def Let_def net_ip4)
  show "is_private_addr (Some ip) = is_private_addr (Some [a, b, c, d])"
    using assms(2)
  proof (elim disjE conjE)
    assume "to4 ip = Some [a, b, c, d]"
    then show ?thesis by (simp add: is_private_addr_def q split del: if_split)
  next
    assume e: "to4 ip = None" "ipv4_compat_to_v4 ip = Some (ip4 a b c d)"
    show ?thesis
      unfolding is_private_addr_def Let_def option.case e q compat_ip4 to4_ip4 net_ip4
      by (simp cong: if_cong split del: if_split)
  qed
qed

lemma v6_guards:
  assumes "length ip = 16" "to4 ip = None" "ipv4_compat_to_v4 ip = None"
  shows "is_private_ip ip \<longleftrightarrow> monitor_blocked6 (ip_value ip)"
    and "is_private_addr (Some ip) \<noteq> None \<longleftrightarrow> sink_blocked6 (ip_value ip)"
proof -
  obtain b0 b1 bs where ip: "ip = b0 # b1 # bs" "length bs = 14"
    using assms(1) by (cases ip; cases "tl ip") auto
  have one: "is_loopback ip \<longleftrightarrow> ip_value ip = 1"
    using ip_value_inj [of ip ip6_loopback] assms
    by (simp add: is_loopback_def ip_equal_def ip6_loopback_def ip_value_append)
  have "to4 (ip4 0 0 0 0) \<noteq> None" by (simp add: to4_def ip4_def nth_append)
  then have "ip \<noteq> ip4 0 0 0 0" using assms(2) by auto
  then have zero: "is_unspecified ip \<longleftrightarrow> ip_value ip = 0"
    using ip_value_inj [of ip ip6_unspecified] assms(1)
    by (simp add: is_unspecified_def ip_equal_def ip6_unspecified_def ip4_def)
  note p = v6_prefixes [OF ip(2), of b0 b1, folded ip(1)]
  have net: "is_private ip \<longleftrightarrow> b0 AND 0xfe = 0xfc" "is_link_local_unicast ip \<longleftrightarrow> b0 = 254 \<and> b1 AND 0xc0 = 0x80"
    "is_link_local_multicast ip \<longleftrightarrow> b0 = 255 \<and> b1 AND 0x0f = 2" "is_multicast ip \<longleftrightarrow> b0 = 255" "ip ! 0 = b0"
    using assms ip by (simp_all add: is_private_def is_link_local_unicast_def is_link_local_multicast_def is_multicast_def)
  show "is_private_ip ip \<longleftrightarrow> monitor_blocked6 (ip_value ip)"
    unfolding is_private_ip_def monitor_blocked6_def assms(3) option.case Let_def one zero net p by blast
  show "is_private_addr (Some ip) \<noteq> None \<longleftrightarrow> sink_blocked6 (ip_value ip)"
    unfolding is_private_addr_def sink_blocked6_def monitor_blocked6_def assms(2,3) option.case Let_def one zero net p
    using assms(1) by (simp split: if_split)
qed

text \<open>
  C9: The two guards against internal addresses, byte tests on IPv4, mapped, compatible and IPv6
  addresses, block exactly the documented ranges of address values: the monitor guard loopback,
  private, link-local and unspecified addresses; the sink guard those, all multicast, and the shared
  address space of carrier-grade NAT.
\<close>

theorem guards_block_exactly:
  assumes "length ip = 4 \<or> length ip = 16"
  shows "(is_private_ip ip \<longleftrightarrow> in_ranges monitor_blocked4 monitor_blocked6 ip)
    \<and> (is_private_addr (Some ip) \<noteq> None \<longleftrightarrow> in_ranges sink_blocked4 sink_blocked6 ip)"
proof (cases "length ip = 4")
  case True
  then obtain a b c d where ip: "ip = [a, b, c, d]" using length4E by blast
  then show ?thesis
    using monitor_v4 [of a b c d] sink_v4 [of a b c d]
    by (simp add: in_ranges_def embedded_v4_def is_private_ip_def Let_def ipv4_compat_to_v4_def del: ip_value.simps)
next
  case False
  then have len: "length ip = 16" using assms by simp
  define p q where "p = take 12 ip" and "q = drop 12 ip"
  then have ip: "ip = p @ q" "length p = 12" "length q = 4" using len by simp_all
  note h = ip_halves [OF ip(2,3), folded ip(1)]
  have v: "ip_value ip = ip_value p * 4294967296 + ip_value q" using ip by (simp add: ip_value_append)
  obtain a b c d where q: "q = [a, b, c, d]" using length4E [OF ip(3)] by blast
  show ?thesis
  proof (cases "ip_value p = 0xffff \<or> ip_value p = 0 \<and> 1 < ip_value q")
    case True
    then have "embedded_v4 ip = Some (ip_value q)"
      using h(1,2) v len unfolding embedded_v4_def Let_def by fastforce
    then have e: "in_ranges f g ip = f (ip_value [a, b, c, d])" for f g by (simp add: in_ranges_def q del: ip_value.simps)
    have "to4 ip = Some [a, b, c, d] \<or> to4 ip = None \<and> ipv4_compat_to_v4 ip = Some (ip4 a b c d)"
      using True h(3,4) q by auto
    note g = embedded_guards [OF len this]
    show ?thesis
      unfolding e monitor_v4 sink_v4 g by (simp add: is_private_ip_def Let_def)
  next
    case False
    then have "to4 ip = None" "ipv4_compat_to_v4 ip = None" using h(3,4) by auto
    note v6_guards [OF len this]
    moreover have "embedded_v4 ip = None"
      using False h(1) v len ip_value_range [of q] ip(3) by (auto simp: embedded_v4_def Let_def)
    ultimately show ?thesis by (simp add: in_ranges_def)
  qed
qed

theorem guards_block_exactly_witness:
  "is_private_addr (parse_ip ''100.64.0.1'') \<noteq> None \<and> \<not> is_private_ip (the (parse_ip ''100.64.0.1''))"
proof -
  have p: "parse_ip ''100.64.0.1'' = Some (ip4 100 64 0 1)" by code_simp
  have "in_ranges sink_blocked4 sink_blocked6 (ip4 100 64 0 1)" "\<not> in_ranges monitor_blocked4 monitor_blocked6 (ip4 100 64 0 1)"
    by code_simp+
  then show ?thesis using guards_block_exactly [of "ip4 100 64 0 1"] by (simp add: p)
qed

section \<open>The dial\<close>

text \<open>The addresses \<open>net.Dialer\<close> tries: a literal is itself, a name is resolved.\<close>

definition dial_targets :: "(string \<Rightarrow> string option) \<Rightarrow> resolver \<Rightarrow> string \<Rightarrow> ip list" where
  "dial_targets split lookup addr =
     (case split addr of
        None \<Rightarrow> []
      | Some host \<Rightarrow>
          (case parse_ip host of
             Some ip \<Rightarrow> [ip]
           | None \<Rightarrow> (case lookup host of Some ips \<Rightarrow> ips | None \<Rightarrow> [])))"

lemma first_blocked_None: "first_blocked host ips = None \<longleftrightarrow> (\<forall>ip \<in> set ips. is_private_addr (Some ip) = None)"
  by (induction ips) (auto split: option.split)

text \<open>
  The guard of the sink dialer looks the name up itself, and the dialer it wraps looks it up again.
  If both get the same answer, no blocked address is dialled. But for every name that is no literal
  and not localhost, and for every address, blocked or not, a resolver that answers the guard with a
  public address and the dialer with that address makes the guarded dial connect there: the guard
  does not stop DNS rebinding.
\<close>

theorem sink_dial_trusts_the_second_lookup:
  assumes "split addr = Some host"
  shows "(\<forall>ips. sink_guarded_dial False split lookup (dial_targets split lookup) addr = Inr ips \<longrightarrow>
      (\<forall>ip \<in> set ips. is_private_addr (Some ip) = None))
    \<and> (host \<noteq> [] \<and> parse_ip host = None \<and> to_lower host \<noteq> ''localhost''
        \<and> \<not> has_suffix (to_lower host) ''.localhost'' \<longrightarrow>
        sink_guarded_dial False split (\<lambda>_. Some [ip4 93 184 216 34]) (dial_targets split (\<lambda>_. Some [inner])) addr =
          Inr [inner])"
proof -
  have "is_private_addr (Some ip) = None"
    if "sink_guarded_dial False split lookup (dial_targets split lookup) addr = Inr ips" "ip \<in> set ips" for ips ip
    using that assms
    by (auto simp: sink_guarded_dial_def dial_targets_def is_private_host_def Let_def first_blocked_None
        split: option.splits if_splits)
  moreover have "is_private_addr (Some (ip4 93 184 216 34)) = None" by code_simp
  ultimately show ?thesis
    using assms by (auto simp: sink_guarded_dial_def dial_targets_def is_private_host_def Let_def)
qed

definition host_of_addr :: "string \<Rightarrow> string option" where
  "host_of_addr addr = Some (takeWhile (\<lambda>c. c \<noteq> CHR '':'') addr)"

theorem sink_dial_trusts_the_second_lookup_witness:
  "sink_guarded_dial False host_of_addr (\<lambda>_. Some [ip4 93 184 216 34])
     (dial_targets host_of_addr (\<lambda>_. Some [ip4 169 254 169 254])) ''evil.example:443'' = Inr [ip4 169 254 169 254]"
proof -
  have "host_of_addr ''evil.example:443'' = Some ''evil.example''" by code_simp
  moreover have "parse_ip ''evil.example'' = None \<and> to_lower ''evil.example'' \<noteq> ''localhost''
      \<and> \<not> has_suffix (to_lower ''evil.example'') ''.localhost''" by code_simp
  ultimately show ?thesis
    using sink_dial_trusts_the_second_lookup [of host_of_addr "''evil.example:443''" "''evil.example''"] by simp
qed

end
