(* ===== verification/SinkLaws.thy ===== *)
theory SinkLaws imports CloudEventHttp begin

text \<open>
  What the CloudEvents sink and the reply dispatcher do together. The provider records an event, and
  dispatches a reply, under the channel of the job; but the channel of a job is its type, which is the
  same for all of them.
\<close>

section \<open>Only entries of the sink's type\<close>

definition only_sink_entries :: "ce_provider \<Rightarrow> bool" where
  "only_sink_entries p \<longleftrightarrow>
     (case cp_dispatcher p of
        None \<Rightarrow> True
      | Some d \<Rightarrow> reg_ok (dsp_registry d)
          \<and> (\<forall>en \<in> set (reg_abs (dsp_registry d)). en_channel en = ''cloudevent_http''))"

lemma emit_dispatcher [simp]: "cp_dispatcher (ceh_record_emit ty ok p) = cp_dispatcher p"
  by (simp add: ceh_record_emit_def)

lemma only_sink_entries_cong: "cp_dispatcher p' = cp_dispatcher p \<Longrightarrow> only_sink_entries p' = only_sink_entries p"
  by (simp add: only_sink_entries_def)

lemma record_keeps_sink_entries:
  assumes "only_sink_entries p" "job_channel job = ''cloudevent_http''"
  shows "only_sink_entries (record_outbound p now ev job)"
proof (cases "cp_dispatcher p")
  case (Some d)
  then have ok: "reg_ok (dsp_registry d)" using assms(1) by (simp add: only_sink_entries_def)
  show ?thesis
    using assms Some mem.ok_record [OF ok] mem.record_holds [OF ok]
    by (fastforce simp: record_outbound_def only_sink_entries_def new_entry_def)
qed (use assms(1) in \<open>simp add: record_outbound_def\<close>)

text \<open>A dispatch touches the registry by its lookup only.\<close>

lemma dispatch_core_registry:
  assumes "dispatch_core d w now ev cfg sub eo ec = (r, d1, w1)"
  shows "dsp_registry d1 = dsp_registry d \<or> dsp_registry d1 = snd (reg_lookup (dsp_registry d) now (extract_alertref ev))"
  using assms by (auto simp: dispatch_core_def Let_def split: if_splits prod.splits option.splits gate_result.splits bool.splits)

lemma dispatch_core_mismatch:
  assumes "dispatch_core d w now ev cfg sub eo ec = ((ok, Some ErrChannelMismatch), d1, w1)"
  shows "\<exists>en. fst (reg_lookup (dsp_registry d) now (extract_alertref ev)) = Some en \<and> en_channel en \<noteq> ec"
  using assms
  by (auto simp: dispatch_core_def dispatch_gates_def Let_def split: if_splits prod.splits option.splits bool.splits)

lemma handle_reply_dispatcher:
  assumes "handle_reply sdk p w now resp cfg org channel = (r, p1, w1)"
  shows "cp_dispatcher p1 = cp_dispatcher p \<and> r = (False, None) \<or>
    (\<exists>d ev c d1 w1. cp_dispatcher p = Some d \<and> dispatch_core d w now ev c [] org channel = (r, d1, w1) \<and>
       cp_dispatcher p1 = Some d1)"
  using assms
  by (auto simp: handle_reply_def dispatch_for_channel_def split: option.splits prod.splits if_splits)

lemma handle_reply_keeps_sink_entries:
  assumes "only_sink_entries p" "handle_reply sdk p w now resp cfg org channel = (r, p1, w1)"
  shows "only_sink_entries p1"
  using handle_reply_dispatcher [OF assms(2)]
proof (elim disjE exE conjE)
  fix d ev c d1 w2
  assume d: "cp_dispatcher p = Some d" "dispatch_core d w now ev c [] org channel = (r, d1, w2)"
    and d1: "cp_dispatcher p1 = Some d1"
  have ok: "reg_ok (dsp_registry d)" "\<forall>en \<in> set (reg_abs (dsp_registry d)). en_channel en = ''cloudevent_http''"
    using assms(1) d(1) by (simp_all add: only_sink_entries_def)
  from dispatch_core_registry [OF d(2)] show ?thesis
    using ok mem.ok_lookup [OF ok(1)] mem.lookup_holds [OF ok(1)] d1 by (fastforce simp: only_sink_entries_def)
qed (use assms(1) only_sink_entries_cong in blast)

lemma send_event_keeps_sink_entries:
  assumes "only_sink_entries p" "job_channel job = ''cloudevent_http''"
    and "send_event env p w t1 t2 cfg job ev = (r, p1, w1)"
  shows "only_sink_entries p1"
proof -
  have r: "only_sink_entries (record_outbound p t ev' job)" for t ev'
    by (rule record_keeps_sink_entries [OF assms(1,2)])
  show ?thesis
    using assms(3) r only_sink_entries_cong [OF emit_dispatcher] assms(1)
    by (auto simp: send_event_def Let_def dest: handle_reply_keeps_sink_entries [OF r]
        split: option.splits sum.splits prod.splits)
qed

lemma ceh_send_keeps_sink_entries:
  assumes "only_sink_entries p" "job_channel job = ''cloudevent_http''" "ceh_send env p w t1 t2 job = (r, p1, w1)"
  shows "only_sink_entries p1"
  using assms(3) send_event_keeps_sink_entries [OF assms(1,2)] assms(1)
  by (auto simp: ceh_send_def split: sum.splits option.splits if_splits)

text \<open>
  A run of the provider: jobs sent, from the worlds other parts of the program leave behind. The
  dispatcher hands the provider the jobs of its channel type only.
\<close>

inductive sink_step :: "sink_environment \<Rightarrow> ce_provider \<Rightarrow> ce_provider \<Rightarrow> bool" for env where
  send: "job_channel job = ''cloudevent_http'' \<Longrightarrow> ceh_send env p w t1 t2 job = (r, p1, w1) \<Longrightarrow> sink_step env p p1"

interpretation sinks: invariant_system "sink_step env" only_sink_entries for env
  by unfold_locales (auto elim: sink_step.cases intro: ceh_send_keeps_sink_entries)

text \<open>
  C10: The check that a reply comes from the channel its event went to never fails: in every run of the
  provider from the start, whatever a sink answers to a job, the dispatcher does not report a
  channel mismatch. Every event of an organisation can be answered by each of its sinks.
\<close>

theorem channel_check_never_fails:
  assumes "(sink_step env)\<^sup>*\<^sup>* p0 p"
    and "cp_dispatcher p0 = Some (register_all url_parse (new_dispatcher (new_memory_registry 10000 (24 * 3600 * second)) True))"
    and "job_channel job = ''cloudevent_http''"
  shows "snd (fst (handle_reply sdk p w now resp cfg (job_org job) (job_channel job))) \<noteq> Some ErrChannelMismatch"
proof
  assume e: "snd (fst (handle_reply sdk p w now resp cfg (job_org job) (job_channel job))) = Some ErrChannelMismatch"
  have "dsp_registry (register_all url_parse d) = dsp_registry d" for d
    by (simp add: register_all_def all_handlers_def dsp_register_def)
  then have "only_sink_entries p0"
    using assms(2) mem.ok_empty mem.holds_empty by (simp add: only_sink_entries_def new_dispatcher_def)
  then have p: "only_sink_entries p" using sinks.reachable_keeps [OF assms(1)] by blast
  obtain r p1 w1 where h: "handle_reply sdk p w now resp cfg (job_org job) (job_channel job) = (r, p1, w1)"
    using prod_cases3 by blast
  with e obtain ok where r: "r = (ok, Some ErrChannelMismatch)" by (cases r) auto
  from handle_reply_dispatcher [OF h] r obtain d ev c d1 w2 where
    d: "cp_dispatcher p = Some d" "dispatch_core d w now ev c [] (job_org job) (job_channel job) = ((ok, Some ErrChannelMismatch), d1, w2)"
    by auto
  from dispatch_core_mismatch [OF d(2)] obtain en where
    en: "fst (reg_lookup (dsp_registry d) now (extract_alertref ev)) = Some en" "en_channel en \<noteq> job_channel job" by blast
  have "reg_ok (dsp_registry d)" "\<forall>en \<in> set (reg_abs (dsp_registry d)). en_channel en = ''cloudevent_http''"
    using p d(1) by (simp_all add: only_sink_entries_def)
  then show False using mem.lookup_sound [OF _ en(1)] en(2) assms(3) by auto
qed

section \<open>A run\<close>

definition echo_event :: sdk_event where
  "echo_event = \<lparr>se_id = ''e'', se_type = ''run.yipyap.alert.fired.v1'', se_source = ''/s'', se_subject = [],
     se_spec_version = ''1.0'', se_content_type = [], se_time = None, se_data = [], se_data_json = None, se_exts = []\<rparr>"

definition echo_sdk :: sdk where
  "echo_sdk = \<lparr>sdk_unmarshal = (\<lambda>_. Some echo_event), sdk_marshal = (\<lambda>_. Some []), sdk_valid = (\<lambda>_. True),
     sdk_new_event = echo_event\<lparr>se_id := [], se_type := []\<rparr>,
     sdk_set = (\<lambda>a v ev. case a of
        AttrId \<Rightarrow> ev\<lparr>se_id := v\<rparr> | AttrType \<Rightarrow> ev\<lparr>se_type := v\<rparr> | AttrSource \<Rightarrow> ev\<lparr>se_source := v\<rparr>
      | AttrSubject \<Rightarrow> ev\<lparr>se_subject := v\<rparr> | AttrSpecVersion \<Rightarrow> ev\<lparr>se_spec_version := v\<rparr>
      | AttrExtension k \<Rightarrow> ev\<lparr>se_exts := (k, ExtString v) # se_exts ev\<rparr>),
     sdk_set_data = (\<lambda>ct body ev. ev\<lparr>se_content_type := ct, se_data := body\<rparr>)\<rparr>"

definition echo_response :: http_response where
  "echo_response = \<lparr>rs_status = 202, rs_headers = [(''Ce-Id'', [''r'']), (''Ce-Type'', [''run.yipyap.reply.alert.claimed.v1'']),
     (''Ce-Alertref'', [''e''])], rs_body = []\<rparr>"

definition echo_environment :: sink_environment where
  "echo_environment = \<lparr>sk_sdk = echo_sdk,
     sk_parse_json = (\<lambda>_. Some (JObj [(''sink_url'', JStr ''https://sink.example/'')])),
     sk_parse_url = (\<lambda>_. Some \<lparr>pu_scheme = ''https'', pu_host = ''sink.example'', pu_hostname = ''sink.example''\<rparr>),
     sk_lookup = (\<lambda>_. Some [ip4 93 184 216 34]), sk_allow_private = False, sk_token = (\<lambda>_. Inr ''t''),
     sk_do = (\<lambda>_. Inr echo_response)\<rparr>"

definition sink_job :: notification_job where
  "sink_job = \<lparr>job_id = ''j'', job_alert = [], job_org = ''o'', job_monitor_name = [], job_severity = no_severity,
     job_channel = ''cloudevent_http'', job_target_config = [CHR 0x00, CHR ''c''], job_message = ''event'',
     job_ack_url = [], job_dedupe_key = [], job_runbook = [], job_service_name = [],
     job_service_notes = [], job_context_links = None, job_dependency_status = None\<rparr>"

definition fresh_provider :: ce_provider where
  "fresh_provider = \<lparr>cp_decrypt = None,
     cp_dispatcher = Some (register_all (\<lambda>_. None) (new_dispatcher (new_memory_registry 10000 (24 * 3600 * second)) True)),
     cp_tier = None, cp_metrics = True, cp_emitted = [], cp_replies = []\<rparr>"

theorem channel_check_never_fails_witness:
  "snd (fst (handle_reply echo_sdk (fst (snd (ceh_send echo_environment fresh_provider empty_world 1 2 sink_job)))
     empty_world 3 echo_response empty_http_config ''o'' ''cloudevent_http'')) \<noteq> Some ErrChannelMismatch"
proof -
  let ?p = "fst (snd (ceh_send echo_environment fresh_provider empty_world 1 2 sink_job))"
  have "sink_step echo_environment fresh_provider ?p"
    by (rule sink_step.send [of sink_job _ _ empty_world 1 2 "fst (ceh_send echo_environment fresh_provider empty_world 1 2 sink_job)"
          _ "snd (snd (ceh_send echo_environment fresh_provider empty_world 1 2 sink_job))"]) (simp_all add: sink_job_def)
  then have "(sink_step echo_environment)\<^sup>*\<^sup>* fresh_provider ?p" by blast
  from channel_check_never_fails [OF this, of "\<lambda>_. None" sink_job] show ?thesis
    by (simp add: fresh_provider_def sink_job_def)
qed

end
