(* ===== verification/Accounts.thy ===== *)
theory Accounts imports Store begin

text \<open>
  The tables behind sign-in: users, organisations, API keys and built-in monitor states
  (\<open>store/sqlite/users.go\<close>, \<open>orgs.go\<close>, \<open>api\_keys.go\<close>, \<open>monitor\_states.go\<close>),
  transactions (\<open>sqlite.go\<close>), and the mails the handlers send. A statement has its constraints
  and an injected fault as its error branches. Rows of other tables that refer to these can only make
  a deletion fail, which is such a fault.
\<close>

section \<open>Rows (internal/domain)\<close>

record org =
  org_id :: string
  org_name :: string
  org_slug :: string
  org_plan :: string
  org_oncall_display :: string
  org_mfa_required :: bool
  org_mfa_grace_days :: int
  org_promo_expires_at :: string
  org_promo_grace_days :: int
  org_created_at :: gotime
  org_updated_at :: gotime

record api_key =
  ak_id :: string
  ak_org :: string
  ak_name :: string
  ak_hash :: string
  ak_prefix :: string
  ak_scopes :: "string list"
  ak_created_by :: string
  ak_expires_at :: "gotime option"
  ak_created_at :: gotime
  ak_last_used_at :: "gotime option"

record builtin_state =
  bs_org :: string
  bs_slug :: string
  bs_name :: string
  bs_health :: string
  bs_severity :: string
  bs_color :: string
  bs_position :: int

text \<open>A mail: its receiver, its subject and the link it carries.\<close>

type_synonym mail = "string \<times> string \<times> string"

section \<open>The database\<close>

text \<open>Statement \<open>n\<close> of a run fails if \<open>ac_fails n\<close>.\<close>

record accounts =
  ac_users :: "user list"
  ac_orgs :: "org list"
  ac_keys :: "api_key list"
  ac_states :: "builtin_state list"
  ac_fails :: "nat \<Rightarrow> bool"
  ac_count :: nat
  ac_mail :: "mail list"

datatype acct_error = AcSQL | AcConstraint | AcNotFound

definition ac_tick :: "accounts \<Rightarrow> accounts" where
  "ac_tick db = db\<lparr>ac_count := Suc (ac_count db)\<rparr>"

definition ac_query :: "(accounts \<Rightarrow> acct_error + 'a) \<Rightarrow> accounts \<Rightarrow> (acct_error + 'a) \<times> accounts" where
  "ac_query q db = (if ac_fails db (ac_count db) then (Inl AcSQL, ac_tick db) else (q db, ac_tick db))"

definition ac_exec :: "(accounts \<Rightarrow> acct_error + accounts) \<Rightarrow> accounts \<Rightarrow> acct_error option \<times> accounts" where
  "ac_exec f db =
     (if ac_fails db (ac_count db) then (Some AcSQL, ac_tick db)
      else case f db of Inl e \<Rightarrow> (Some e, ac_tick db) | Inr db1 \<Rightarrow> (None, ac_tick db1))"

text \<open>\<open>expectOneRow\<close>: a statement that touches no row is an error.\<close>

definition expect_one_row :: "bool \<Rightarrow> accounts \<Rightarrow> acct_error + accounts" where
  "expect_one_row touched db = (if touched then Inr db else Inl AcNotFound)"

definition ac_restore :: "accounts \<Rightarrow> accounts \<Rightarrow> accounts" where
  "ac_restore db db1 = db1\<lparr>ac_users := ac_users db, ac_orgs := ac_orgs db, ac_keys := ac_keys db,
     ac_states := ac_states db\<rparr>"

definition in_tx :: "(accounts \<Rightarrow> acct_error option \<times> accounts) \<Rightarrow> accounts \<Rightarrow> acct_error option \<times> accounts" where
  "in_tx body db =
     (if ac_fails db (ac_count db) then (Some AcSQL, ac_tick db)
      else case body (ac_tick db) of
             (Some e, db1) \<Rightarrow> (Some e, ac_restore db db1)
           | (None, db1) \<Rightarrow>
               if ac_fails db1 (ac_count db1) then (Some AcSQL, ac_restore db (ac_tick db1))
               else (None, ac_tick db1))"

definition send_mail :: "mail \<Rightarrow> accounts \<Rightarrow> accounts" where
  "send_mail m db = db\<lparr>ac_mail := ac_mail db @ [m]\<rparr>"

section \<open>Users\<close>

text \<open>The insert names ten columns; the others take their defaults.\<close>

definition new_user_row :: "user \<Rightarrow> user" where
  "new_user_row u = u\<lparr>usr_mfa_app_enabled := False, usr_mfa_enforced_at := [], usr_email_verified_at := None,
     usr_verification_sent_at := None, usr_verification_resends := 0, usr_verification_window := None,
     usr_created_at := rfc3339 (usr_created_at u), usr_updated_at := rfc3339 (usr_updated_at u),
     usr_disabled_at := None\<rparr>"

definition user_create :: "user \<Rightarrow> accounts \<Rightarrow> acct_error option \<times> accounts" where
  "user_create u = ac_exec (\<lambda>db.
     if usr_id u \<in> set (map usr_id (ac_users db)) \<or> usr_email u \<in> set (map usr_email (ac_users db))
        \<or> usr_org u \<notin> set (map org_id (ac_orgs db))
     then Inl AcConstraint else Inr (db\<lparr>ac_users := ac_users db @ [new_user_row u]\<rparr>))"

definition one_row :: "'r option \<Rightarrow> acct_error + 'r" where
  "one_row r = (case r of None \<Rightarrow> Inl AcNotFound | Some x \<Rightarrow> Inr x)"

definition user_by_id :: "string \<Rightarrow> accounts \<Rightarrow> (acct_error + user) \<times> accounts" where
  "user_by_id i = ac_query (\<lambda>db. one_row (List.find (\<lambda>u. usr_id u = i) (ac_users db)))"

definition user_by_email :: "string \<Rightarrow> accounts \<Rightarrow> (acct_error + user) \<times> accounts" where
  "user_by_email e = ac_query (\<lambda>db. one_row (List.find (\<lambda>u. usr_email u = e) (ac_users db)))"

definition page :: "int \<Rightarrow> int \<Rightarrow> 'r list \<Rightarrow> 'r list" where
  "page limit offset rows = take (nat (if limit \<le> 0 then 50 else limit)) (drop (nat offset) rows)"

definition active_members :: "string \<Rightarrow> accounts \<Rightarrow> user list" where
  "active_members org db = filter (\<lambda>u. usr_org u = org \<and> usr_disabled_at u = None) (ac_users db)"

definition users_by_org :: "string \<Rightarrow> int \<Rightarrow> int \<Rightarrow> accounts \<Rightarrow> (acct_error + user list) \<times> accounts" where
  "users_by_org org limit offset = ac_query (\<lambda>db. Inr (page limit offset (sort_key usr_email (active_members org db))))"

definition set_user_columns :: "user \<Rightarrow> user \<Rightarrow> user" where
  "set_user_columns u r = r\<lparr>usr_email := usr_email u, usr_name := usr_name u, usr_password_hash := usr_password_hash u,
     usr_role := usr_role u, usr_phone := usr_phone u, usr_force_password_change := usr_force_password_change u,
     usr_updated_at := rfc3339 (usr_updated_at u)\<rparr>"

definition user_update :: "user \<Rightarrow> accounts \<Rightarrow> acct_error option \<times> accounts" where
  "user_update u = ac_exec (\<lambda>db.
     if \<exists>r \<in> set (ac_users db). usr_id r \<noteq> usr_id u \<and> usr_email r = usr_email u
          \<and> usr_id u \<in> set (map usr_id (ac_users db))
     then Inl AcConstraint
     else expect_one_row (usr_id u \<in> set (map usr_id (ac_users db)))
       (db\<lparr>ac_users := update_where (\<lambda>r. usr_id r = usr_id u) (set_user_columns u) (ac_users db)\<rparr>))"

definition user_delete :: "string \<Rightarrow> accounts \<Rightarrow> acct_error option \<times> accounts" where
  "user_delete i = ac_exec (\<lambda>db. expect_one_row (i \<in> set (map usr_id (ac_users db)))
     (db\<lparr>ac_users := delete_where (\<lambda>r. usr_id r = i) (ac_users db)\<rparr>))"

text \<open>An \<open>UPDATE users\<close> with a guard.\<close>

definition user_set :: "(user \<Rightarrow> bool) \<Rightarrow> (user \<Rightarrow> user) \<Rightarrow> accounts \<Rightarrow> acct_error + accounts" where
  "user_set p f db = expect_one_row (\<exists>r \<in> set (ac_users db). p r) (db\<lparr>ac_users := update_where p f (ac_users db)\<rparr>)"

definition user_disable :: "string \<Rightarrow> gotime \<Rightarrow> accounts \<Rightarrow> acct_error option \<times> accounts" where
  "user_disable i at = ac_exec (user_set (\<lambda>r. usr_id r = i \<and> usr_disabled_at r = None)
     (\<lambda>r. r\<lparr>usr_disabled_at := Some (rfc3339 at), usr_updated_at := rfc3339 at\<rparr>))"

definition user_enable :: "string \<Rightarrow> gotime \<Rightarrow> accounts \<Rightarrow> acct_error option \<times> accounts" where
  "user_enable i now = ac_exec (user_set (\<lambda>r. usr_id r = i \<and> usr_disabled_at r \<noteq> None)
     (\<lambda>r. r\<lparr>usr_disabled_at := None, usr_updated_at := rfc3339 now\<rparr>))"

definition disabled_before :: "gotime \<Rightarrow> accounts \<Rightarrow> (acct_error + user list) \<times> accounts" where
  "disabled_before t = ac_query (\<lambda>db. Inr (filter (\<lambda>u. \<exists>d \<in> set_option (usr_disabled_at u). d < rfc3339 t) (ac_users db)))"

definition mark_email_verified :: "string \<Rightarrow> gotime \<Rightarrow> accounts \<Rightarrow> acct_error option \<times> accounts" where
  "mark_email_verified i at = ac_exec (user_set (\<lambda>r. usr_id r = i)
     (\<lambda>r. r\<lparr>usr_email_verified_at := Some (rfc3339 at), usr_updated_at := rfc3339 at\<rparr>))"

definition count_send :: "gotime \<Rightarrow> user \<Rightarrow> user" where
  "count_send at r =
     (let stale = (case usr_verification_window r of None \<Rightarrow> True | Some t \<Rightarrow> t < rfc3339 (at - 60 * minute)) in
      r\<lparr>usr_verification_sent_at := Some (rfc3339 at),
        usr_verification_resends := (if stale then 1 else usr_verification_resends r + 1),
        usr_verification_window := (if stale then Some (rfc3339 at) else usr_verification_window r)\<rparr>)"

definition record_verification_send :: "string \<Rightarrow> gotime \<Rightarrow> accounts \<Rightarrow> acct_error option \<times> accounts" where
  "record_verification_send i at = ac_exec (\<lambda>db.
     Inr (db\<lparr>ac_users := update_where (\<lambda>r. usr_id r = i) (count_send at) (ac_users db)\<rparr>))"

definition unverified_unsent :: "accounts \<Rightarrow> (acct_error + user list) \<times> accounts" where
  "unverified_unsent = ac_query (\<lambda>db. Inr (filter (\<lambda>u. usr_email_verified_at u = None
     \<and> usr_verification_sent_at u = None \<and> usr_disabled_at u = None) (ac_users db)))"

section \<open>API keys\<close>

definition api_key_create :: "api_key \<Rightarrow> accounts \<Rightarrow> acct_error option \<times> accounts" where
  "api_key_create k = ac_exec (\<lambda>db.
     if ak_id k \<in> set (map ak_id (ac_keys db)) \<or> ak_hash k \<in> set (map ak_hash (ac_keys db))
        \<or> ak_org k \<notin> set (map org_id (ac_orgs db))
     then Inl AcConstraint
     else Inr (db\<lparr>ac_keys := ac_keys db @ [k\<lparr>ak_expires_at := map_option rfc3339 (ak_expires_at k),
            ak_created_at := rfc3339 (ak_created_at k), ak_last_used_at := map_option rfc3339 (ak_last_used_at k)\<rparr>]\<rparr>))"

definition api_key_by_id :: "string \<Rightarrow> accounts \<Rightarrow> (acct_error + api_key) \<times> accounts" where
  "api_key_by_id i = ac_query (\<lambda>db. one_row (List.find (\<lambda>k. ak_id k = i) (ac_keys db)))"

definition api_key_by_hash :: "string \<Rightarrow> accounts \<Rightarrow> (acct_error + api_key) \<times> accounts" where
  "api_key_by_hash h = ac_query (\<lambda>db. one_row (List.find (\<lambda>k. ak_hash k = h) (ac_keys db)))"

definition api_keys_by_org :: "string \<Rightarrow> int \<Rightarrow> int \<Rightarrow> accounts \<Rightarrow> (acct_error + api_key list) \<times> accounts" where
  "api_keys_by_org org limit offset = ac_query (\<lambda>db.
     Inr (page limit offset (sort_key (\<lambda>k. - ak_created_at k) (filter (\<lambda>k. ak_org k = org) (ac_keys db)))))"

definition api_key_delete :: "string \<Rightarrow> accounts \<Rightarrow> acct_error option \<times> accounts" where
  "api_key_delete i = ac_exec (\<lambda>db. expect_one_row (i \<in> set (map ak_id (ac_keys db)))
     (db\<lparr>ac_keys := delete_where (\<lambda>k. ak_id k = i) (ac_keys db)\<rparr>))"

definition api_key_used :: "string \<Rightarrow> gotime \<Rightarrow> accounts \<Rightarrow> acct_error option \<times> accounts" where
  "api_key_used i at = ac_exec (\<lambda>db. expect_one_row (i \<in> set (map ak_id (ac_keys db)))
     (db\<lparr>ac_keys := update_where (\<lambda>k. ak_id k = i) (\<lambda>k. k\<lparr>ak_last_used_at := Some (rfc3339 at)\<rparr>) (ac_keys db)\<rparr>))"

section \<open>Organisations\<close>

definition stored_org :: "org \<Rightarrow> org" where
  "stored_org g = g\<lparr>org_created_at := rfc3339 (org_created_at g), org_updated_at := rfc3339 (org_updated_at g)\<rparr>"

definition org_create :: "org \<Rightarrow> accounts \<Rightarrow> acct_error option \<times> accounts" where
  "org_create g = ac_exec (\<lambda>db.
     if org_id g \<in> set (map org_id (ac_orgs db)) \<or> org_slug g \<in> set (map org_slug (ac_orgs db))
     then Inl AcConstraint else Inr (db\<lparr>ac_orgs := ac_orgs db @ [stored_org g]\<rparr>))"

definition org_by_id :: "string \<Rightarrow> accounts \<Rightarrow> (acct_error + org) \<times> accounts" where
  "org_by_id i = ac_query (\<lambda>db. one_row (List.find (\<lambda>g. org_id g = i) (ac_orgs db)))"

definition org_by_slug :: "string \<Rightarrow> accounts \<Rightarrow> (acct_error + org) \<times> accounts" where
  "org_by_slug s = ac_query (\<lambda>db. one_row (List.find (\<lambda>g. org_slug g = s) (ac_orgs db)))"

definition org_update :: "org \<Rightarrow> accounts \<Rightarrow> acct_error option \<times> accounts" where
  "org_update g = ac_exec (\<lambda>db.
     if \<exists>r \<in> set (ac_orgs db). org_id r \<noteq> org_id g \<and> org_slug r = org_slug g
          \<and> org_id g \<in> set (map org_id (ac_orgs db))
     then Inl AcConstraint
     else expect_one_row (org_id g \<in> set (map org_id (ac_orgs db)))
       (db\<lparr>ac_orgs := update_where (\<lambda>r. org_id r = org_id g)
              (\<lambda>r. (stored_org g)\<lparr>org_created_at := org_created_at r\<rparr>) (ac_orgs db)\<rparr>))"

text \<open>
  The tables that \<open>Delete\<close> empties in turn, and the two statements after them. Errors are skipped.
\<close>

definition org_tables :: "string list" where
  "org_tables = [''monitor_checks'', ''monitor_rollups'', ''monitor_labels'', ''alert_events'',
     ''alert_escalation_state'', ''alerts'', ''step_targets'', ''escalation_steps'', ''escalation_policies'',
     ''notification_channels'', ''maintenance_windows'', ''schedule_overrides'', ''schedules'', ''team_members'',
     ''teams'', ''api_keys'', ''monitors'', ''users'', ''org_settings'']"

definition empty_table :: "string \<Rightarrow> string \<Rightarrow> accounts \<Rightarrow> accounts" where
  "empty_table org table db = snd (ac_exec (\<lambda>db. Inr
     (if table = ''api_keys'' then db\<lparr>ac_keys := delete_where (\<lambda>k. ak_org k = org) (ac_keys db)\<rparr>
      else if table = ''users'' then db\<lparr>ac_users := delete_where (\<lambda>u. usr_org u = org) (ac_users db)\<rparr>
      else db)) db)"

definition org_delete :: "string \<Rightarrow> accounts \<Rightarrow> acct_error option \<times> accounts" where
  "org_delete i db =
     (let db1 = foldl (\<lambda>d t. empty_table i t d) db (org_tables @ [''monitor_checks'', ''monitor_rollups''])
      in ac_exec (\<lambda>db.
           if (\<exists>u \<in> set (ac_users db). usr_org u = i) \<or> (\<exists>k \<in> set (ac_keys db). ak_org k = i)
           then Inl AcConstraint
           else Inr (db\<lparr>ac_orgs := delete_where (\<lambda>g. org_id g = i) (ac_orgs db),
                       ac_states := delete_where (\<lambda>s. bs_org s = i) (ac_states db)\<rparr>)) db1)"

section \<open>Built-in monitor states\<close>

definition builtin_states :: "string \<Rightarrow> builtin_state list" where
  "builtin_states org =
     [\<lparr>bs_org = org, bs_slug = ''up'', bs_name = ''Up'', bs_health = ''healthy'', bs_severity = ''info'',
       bs_color = ''#10b981'', bs_position = 0\<rparr>,
      \<lparr>bs_org = org, bs_slug = ''degraded'', bs_name = ''Degraded'', bs_health = ''degraded'', bs_severity = ''warning'',
       bs_color = ''#f59e0b'', bs_position = 1\<rparr>,
      \<lparr>bs_org = org, bs_slug = ''down'', bs_name = ''Down'', bs_health = ''unhealthy'', bs_severity = ''critical'',
       bs_color = ''#ef4444'', bs_position = 2\<rparr>]"

fun insert_states :: "builtin_state list \<Rightarrow> accounts \<Rightarrow> acct_error option \<times> accounts" where
  "insert_states [] db = (None, db)"
| "insert_states (b # bs) db =
     (case ac_exec (\<lambda>db. Inr (db\<lparr>ac_states := ac_states db @ [b]\<rparr>)) db of
        (Some e, db1) \<Rightarrow> (Some e, db1)
      | (None, db1) \<Rightarrow> insert_states bs db1)"

definition seed_builtins :: "string \<Rightarrow> accounts \<Rightarrow> acct_error option \<times> accounts" where
  "seed_builtins org = insert_states (builtin_states org)"

end
