(* ===== verification/Access.thy ===== *)
theory Access imports Accounts JsonText begin

text \<open>
  Who a request speaks for: session tokens and the single-purpose tokens mailed to users
  (\<open>internal/auth/jwt.go\<close>), API keys (\<open>auth/apikey.go\<close>), passwords
  (\<open>auth/passwords.go\<close>), the middleware (\<open>internal/api/middleware\<close>) and the routes it
  guards (\<open>internal/api/server.go\<close>, \<open>routes.go\<close>). The library of signed tokens, bcrypt, SHA-256
  and HMAC are parameters.
\<close>

section \<open>Tokens\<close>

text \<open>The claims of a token: the program's own and the registered ones it sets.\<close>

record claims =
  cl_user :: string
  cl_org :: string
  cl_role :: string
  cl_nonce :: string
  cl_scopes :: "string list"
  cl_issued_at :: "gotime option"
  cl_expires_at :: "gotime option"
  cl_audience :: "string list"

text \<open>
  Signing and parsing are bound to the issuer's secret. Parsing takes the time and the audience asked
  for; the program's key function makes it refuse methods other than HMAC. Dates are cut to what a
  token can carry. A hash of a password takes the salt drawn for it.
\<close>

record auth_env =
  ae_sign :: "claims \<Rightarrow> string option"
  ae_parse :: "gotime \<Rightarrow> string option \<Rightarrow> string \<Rightarrow> claims option"
  ae_date :: "gotime \<Rightarrow> gotime"
  ae_ttl :: int
  ae_bcrypt :: "string \<Rightarrow> string \<Rightarrow> string option"
  ae_compare :: "string \<Rightarrow> string \<Rightarrow> bool"
  ae_sha256 :: "string \<Rightarrow> string"
  ae_hmac :: "string \<Rightarrow> string \<Rightarrow> string"
  ae_hasher :: "string option"
  ae_mailer :: bool
  ae_base_url :: string

definition new_claims :: "auth_env \<Rightarrow> gotime \<Rightarrow> int \<Rightarrow> string list \<Rightarrow> string \<Rightarrow> string \<Rightarrow> string \<Rightarrow> string \<Rightarrow> claims" where
  "new_claims env now ttl aud user org role nonce =
     \<lparr>cl_user = user, cl_org = org, cl_role = role, cl_nonce = nonce, cl_scopes = [],
      cl_issued_at = Some (ae_date env now), cl_expires_at = Some (ae_date env (now + ttl)), cl_audience = aud\<rparr>"

definition hex_text :: "string \<Rightarrow> string" where
  "hex_text s = concat (map (\<lambda>c. [json_hex (of_char c div 16), json_hex (of_char c mod 16)]) s)"

definition password_reset_nonce :: "auth_env \<Rightarrow> string \<Rightarrow> string" where
  "password_reset_nonce env pwhash = hex_text (take 8 (ae_sha256 env pwhash))"

definition issue_with_ttl :: "auth_env \<Rightarrow> gotime \<Rightarrow> string \<Rightarrow> string \<Rightarrow> string \<Rightarrow> int \<Rightarrow> string option" where
  "issue_with_ttl env now user org role ttl = ae_sign env (new_claims env now ttl [] user org role [])"

definition issue :: "auth_env \<Rightarrow> gotime \<Rightarrow> string \<Rightarrow> string \<Rightarrow> string \<Rightarrow> string option" where
  "issue env now user org role = ae_sign env (new_claims env now (ae_ttl env) [] user org role [])"

definition issue_mfa :: "auth_env \<Rightarrow> gotime \<Rightarrow> string \<Rightarrow> string \<Rightarrow> string \<Rightarrow> string option" where
  "issue_mfa env now user org role = ae_sign env (new_claims env now (5 * minute) [''mfa''] user org role [])"

definition issue_password_reset :: "auth_env \<Rightarrow> gotime \<Rightarrow> string \<Rightarrow> string \<Rightarrow> string \<Rightarrow> string \<Rightarrow> string option" where
  "issue_password_reset env now user org email pwhash =
     ae_sign env (new_claims env now (60 * minute) [''password-reset''] user org email (password_reset_nonce env pwhash))"

definition issue_email_verification :: "auth_env \<Rightarrow> gotime \<Rightarrow> string \<Rightarrow> string \<Rightarrow> string \<Rightarrow> string option" where
  "issue_email_verification env now user org email =
     ae_sign env (new_claims env now (24 * 60 * minute) [''email-verification''] user org email [])"

definition issue_account_deletion :: "auth_env \<Rightarrow> gotime \<Rightarrow> string \<Rightarrow> string \<Rightarrow> string \<Rightarrow> string \<Rightarrow> string option" where
  "issue_account_deletion env now user org email pwhash =
     ae_sign env (new_claims env now (60 * minute) [''account-delete''] user org email (password_reset_nonce env pwhash))"

definition issue_account_recovery :: "auth_env \<Rightarrow> gotime \<Rightarrow> string \<Rightarrow> string \<Rightarrow> string \<Rightarrow> string \<Rightarrow> string option" where
  "issue_account_recovery env now user org email pwhash =
     ae_sign env (new_claims env now (60 * minute) [''account-recover''] user org email (password_reset_nonce env pwhash))"

definition validate :: "auth_env \<Rightarrow> gotime \<Rightarrow> string \<Rightarrow> claims option" where
  "validate env now tok =
     (case ae_parse env now None tok of
        None \<Rightarrow> None
      | Some c \<Rightarrow> if cl_audience c \<noteq> [] then None else Some c)"

definition validate_mfa :: "auth_env \<Rightarrow> gotime \<Rightarrow> string \<Rightarrow> claims option" where
  "validate_mfa env now = ae_parse env now (Some ''mfa'')"

definition validate_password_reset :: "auth_env \<Rightarrow> gotime \<Rightarrow> string \<Rightarrow> claims option" where
  "validate_password_reset env now = ae_parse env now (Some ''password-reset'')"

definition validate_email_verification :: "auth_env \<Rightarrow> gotime \<Rightarrow> string \<Rightarrow> claims option" where
  "validate_email_verification env now = ae_parse env now (Some ''email-verification'')"

definition validate_account_deletion :: "auth_env \<Rightarrow> gotime \<Rightarrow> string \<Rightarrow> claims option" where
  "validate_account_deletion env now = ae_parse env now (Some ''account-delete'')"

definition validate_account_recovery :: "auth_env \<Rightarrow> gotime \<Rightarrow> string \<Rightarrow> claims option" where
  "validate_account_recovery env now = ae_parse env now (Some ''account-recover'')"

section \<open>API keys\<close>

definition hash_api_key :: "auth_env \<Rightarrow> string \<Rightarrow> string" where
  "hash_api_key env plaintext = hex_text (ae_sha256 env plaintext)"

definition hasher_hash :: "auth_env \<Rightarrow> string \<Rightarrow> string \<Rightarrow> string" where
  "hasher_hash env secret plaintext =
     (if secret = [] then hash_api_key env plaintext else hex_text (ae_hmac env secret plaintext))"

text \<open>The plaintext, its hash and its prefix, from the 32 bytes drawn (if any).\<close>

definition generate_api_key :: "auth_env \<Rightarrow> string \<Rightarrow> string option \<Rightarrow> (string \<times> string \<times> string) option" where
  "generate_api_key env secret bytes =
     map_option (\<lambda>b. let plaintext = ''yy_'' @ hex_text b in
                     (plaintext, hasher_hash env secret plaintext, take 11 plaintext)) bytes"

section \<open>Middleware\<close>

text \<open>A request: its session cookie if it has one, and the Authorization header (empty if absent).\<close>

record api_request =
  ar_method :: string
  ar_path :: string
  ar_cookie :: "string option"
  ar_authorization :: string

type_synonym refusal = "int \<times> string"

definition has_prefix :: "string \<Rightarrow> string \<Rightarrow> bool" where
  "has_prefix p s \<longleftrightarrow> take (length p) s = p"

definition request_token :: "api_request \<Rightarrow> refusal + string" where
  "request_token r =
     (let cookie = (case ar_cookie r of None \<Rightarrow> [] | Some v \<Rightarrow> v); header = ar_authorization r in
      if cookie \<noteq> [] then Inr cookie
      else if header = [] then Inl (401, ''missing authorization header'')
      else if has_prefix ''Bearer '' header then Inr (drop 7 header)
      else Inl (401, ''invalid authorization header''))"

text \<open>The time of the last use is written by a goroutine, here before the request goes on.\<close>

definition authenticate :: "auth_env \<Rightarrow> gotime \<Rightarrow> api_request \<Rightarrow> accounts \<Rightarrow> (refusal + claims) \<times> accounts" where
  "authenticate env now r db =
     (case request_token r of
        Inl e \<Rightarrow> (Inl e, db)
      | Inr tok \<Rightarrow>
          (case validate env now tok of
             Some c \<Rightarrow> (Inr c, db)
           | None \<Rightarrow>
               if has_prefix ''yy_'' tok
               then (case ae_hasher env of
                       None \<Rightarrow> (Inl (401, ''api key authentication not configured''), db)
                     | Some secret \<Rightarrow>
                         (case api_key_by_hash (hasher_hash env secret tok) db of
                            (Inl _, db1) \<Rightarrow> (Inl (401, ''invalid or expired token''), db1)
                          | (Inr k, db1) \<Rightarrow>
                              (Inr \<lparr>cl_user = ak_created_by k, cl_org = ak_org k, cl_role = ''api_key'', cl_nonce = [],
                                   cl_scopes = ak_scopes k, cl_issued_at = None, cl_expires_at = None, cl_audience = []\<rparr>,
                               snd (api_key_used (ak_id k) now db1))))
               else (Inl (401, ''invalid or expired token''), db)))"

definition has_scope :: "string list \<Rightarrow> string \<Rightarrow> bool" where
  "has_scope scopes want \<longleftrightarrow> want \<in> set scopes"

definition has_read_suffix :: "string \<Rightarrow> bool" where
  "has_read_suffix s \<longleftrightarrow> 5 \<le> length s \<and> drop (length s - 5) s = '':read''"

definition is_read_only :: "string list \<Rightarrow> bool" where
  "is_read_only scopes \<longleftrightarrow> (\<forall>s \<in> set scopes. s = ''read'' \<or> has_read_suffix s)"

datatype guard = LiveAccount | WriteAccess | PasswordFresh | NeedScope string | NeedRole "string list"

definition password_exempt :: "string list" where
  "password_exempt = [''/api/v1/auth/password'', ''/api/v1/auth/refresh'', ''/api/v1/meta'']"

definition trim_slash :: "string \<Rightarrow> string" where
  "trim_slash p = (if p \<noteq> [] \<and> last p = CHR ''/'' then butlast p else p)"

text \<open>The five middlewares that can refuse a request: \<open>None\<close> hands it on.\<close>

definition disabled_account_guard :: "claims \<Rightarrow> accounts \<Rightarrow> refusal option \<times> accounts" where
  "disabled_account_guard c db =
     (case user_by_id (cl_user c) db of
        (Inl _, db1) \<Rightarrow> if cl_role c = ''api_key'' then (None, db1) else (Some (401, ''user not found''), db1)
      | (Inr u, db1) \<Rightarrow>
          if usr_disabled_at u \<noteq> None then (Some (403, ''account is disabled''), db1) else (None, db1))"

definition require_write_access :: "api_request \<Rightarrow> claims \<Rightarrow> refusal option" where
  "require_write_access r c =
     (if ar_method r \<in> {''GET'', ''HEAD'', ''OPTIONS''} then None
      else if cl_role c = ''api_key'' \<and> cl_scopes c \<noteq> [] \<and> is_read_only (cl_scopes c)
      then Some (403, ''api key is read-only'') else None)"

definition force_password_change :: "api_request \<Rightarrow> claims \<Rightarrow> accounts \<Rightarrow> refusal option \<times> accounts" where
  "force_password_change r c db =
     (if trim_slash (ar_path r) \<in> set password_exempt then (None, db)
      else case user_by_id (cl_user c) db of
             (Inl _, db1) \<Rightarrow> (Some (401, ''user not found''), db1)
           | (Inr u, db1) \<Rightarrow>
               if usr_force_password_change u then (Some (403, ''password change required''), db1) else (None, db1))"

definition require_scope :: "string \<Rightarrow> claims \<Rightarrow> refusal option" where
  "require_scope s c =
     (if cl_role c = ''api_key'' \<and> cl_scopes c \<noteq> [] \<and> \<not> has_scope (cl_scopes c) s
      then Some (403, ''api key missing required scope: '' @ s) else None)"

definition require_role :: "string list \<Rightarrow> claims \<Rightarrow> refusal option" where
  "require_role roles c = (if cl_role c \<notin> set roles then Some (403, ''insufficient permissions'') else None)"

lemmas guard_defs [simp] =
  disabled_account_guard_def require_write_access_def force_password_change_def require_scope_def require_role_def

fun run_guard :: "guard \<Rightarrow> api_request \<Rightarrow> claims \<Rightarrow> accounts \<Rightarrow> refusal option \<times> accounts" where
  "run_guard LiveAccount r c db = disabled_account_guard c db"
| "run_guard WriteAccess r c db = (require_write_access r c, db)"
| "run_guard PasswordFresh r c db = force_password_change r c db"
| "run_guard (NeedScope s) r c db = (require_scope s c, db)"
| "run_guard (NeedRole roles) r c db = (require_role roles c, db)"

fun run_guards :: "guard list \<Rightarrow> api_request \<Rightarrow> claims \<Rightarrow> accounts \<Rightarrow> refusal option \<times> accounts" where
  "run_guards [] r c db = (None, db)"
| "run_guards (g # gs) r c db =
     (case run_guard g r c db of
        (Some e, db1) \<Rightarrow> (Some e, db1)
      | (None, db1) \<Rightarrow> run_guards gs r c db1)"

text \<open>A request to a route: refused, or handed to the handler with its claims.\<close>

definition admit :: "auth_env \<Rightarrow> gotime \<Rightarrow> guard list \<Rightarrow> api_request \<Rightarrow> accounts \<Rightarrow> (refusal + claims) \<times> accounts" where
  "admit env now guards r db =
     (case authenticate env now r db of
        (Inl e, db1) \<Rightarrow> (Inl e, db1)
      | (Inr c, db1) \<Rightarrow>
          (case run_guards guards r c db1 of
             (Some e, db2) \<Rightarrow> (Inl e, db2)
           | (None, db2) \<Rightarrow> (Inr c, db2)))"

section \<open>Routes\<close>

text \<open>
  Method, pattern under \<open>/api/v1\<close> and guards of every route behind the authentication. The guards
  of the commercial edition (plans, MFA, promotions) let everything pass in this one; rate limits are
  the library's.
\<close>

definition standing :: "guard list" where
  "standing = [LiveAccount, WriteAccess, PasswordFresh]"

definition managers :: guard where
  "managers = NeedRole [''owner'', ''admin'']"

definition crud :: "string \<Rightarrow> guard list \<Rightarrow> (string \<times> string \<times> guard list) list" where
  "crud base guards =
     [(''GET'', base, guards), (''POST'', base, guards), (''GET'', base @ ''/{id}'', guards),
      (''PATCH'', base @ ''/{id}'', guards), (''DELETE'', base @ ''/{id}'', guards)]"

definition account_routes :: "(string \<times> string \<times> guard list) list" where
  "account_routes =
     [(''POST'', ''/auth/refresh'', standing),
      (''PUT'', ''/auth/password'', standing),
      (''PUT'', ''/auth/email'', standing),
      (''POST'', ''/auth/delete-account'', standing),
      (''GET'', ''/org'', standing),
      (''GET'', ''/org/settings'', standing),
      (''PATCH'', ''/org'', standing @ [managers]),
      (''PUT'', ''/org/settings'', standing @ [managers]),
      (''GET'', ''/users'', standing),
      (''GET'', ''/users/{id}'', standing),
      (''POST'', ''/users'', standing @ [managers]),
      (''PATCH'', ''/users/{id}'', standing @ [managers]),
      (''DELETE'', ''/users/{id}'', standing @ [managers]),
      (''POST'', ''/users/{id}/reset-password'', standing @ [managers]),
      (''POST'', ''/org/transfer-ownership'', standing @ [NeedRole [''owner'']])]"

definition monitor_routes :: "(string \<times> string \<times> guard list) list" where
  "monitor_routes =
     (let mon = standing @ [NeedScope ''monitors''] in
      crud ''/monitors'' mon @
      [(''GET'', ''/monitors/check-stats'', mon),
       (''POST'', ''/monitors/{id}/pause'', mon),
       (''POST'', ''/monitors/{id}/resume'', mon),
       (''POST'', ''/monitors/{id}/mute'', mon),
       (''POST'', ''/monitors/{id}/unmute'', mon),
       (''GET'', ''/monitors/{id}/checks'', mon),
       (''GET'', ''/monitors/{id}/uptime'', mon),
       (''GET'', ''/monitors/{id}/latency'', mon),
       (''PUT'', ''/monitors/{id}/labels'', mon),
       (''DELETE'', ''/monitors/{id}/labels/{key}'', mon),
       (''POST'', ''/import'', standing @ [managers]),
       (''GET'', ''/admin/cloudevents/replies'', standing @ [managers]),
       (''GET'', ''/monitor-groups'', mon),
       (''GET'', ''/monitor-groups/{id}'', mon),
       (''POST'', ''/monitor-groups'', mon @ [managers]),
       (''PATCH'', ''/monitor-groups/{id}'', mon @ [managers]),
       (''DELETE'', ''/monitor-groups/{id}'', mon @ [managers]),
       (''GET'', ''/monitor-states'', mon),
       (''GET'', ''/monitors/{id}/rules'', mon),
       (''POST'', ''/monitor-states'', mon @ [managers]),
       (''PATCH'', ''/monitor-states/{id}'', mon @ [managers]),
       (''DELETE'', ''/monitor-states/{id}'', mon @ [managers]),
       (''PUT'', ''/monitors/{id}/rules'', mon @ [NeedRole [''owner'', ''admin'', ''member'']])])"

definition alert_routes :: "(string \<times> string \<times> guard list) list" where
  "alert_routes =
     (let al = standing @ [NeedScope ''alerts'']; esc = standing @ [NeedScope ''escalation_policies''];
          ch = standing @ [NeedScope ''notification_channels''] in
      [(''GET'', ''/alerts'', al),
       (''GET'', ''/alerts/{id}'', al),
       (''POST'', ''/alerts/{id}/ack'', al),
       (''POST'', ''/alerts/{id}/resolve'', al),
       (''GET'', ''/alerts/{id}/timeline'', al)] @
      crud ''/escalation-policies'' esc @ [(''PUT'', ''/escalation-policies/{id}/steps'', esc)] @
      crud ''/notification-channels'' ch @ [(''POST'', ''/notification-channels/{id}/test'', ch)] @
      crud ''/maintenance-windows'' (standing @ [NeedScope ''maintenance_windows'']))"

definition guarded_routes :: "(string \<times> string \<times> guard list) list" where
  "guarded_routes = account_routes @ monitor_routes @ alert_routes"

text \<open>The other routes that authenticate: the two event feeds, the source configuration, and API keys.\<close>

definition feed_routes :: "(string \<times> string \<times> guard list) list" where
  "feed_routes =
     [(''GET'', ''/cloudevents/poll'', []), (''GET'', ''/cloudevents/stream'', []), (''GET'', ''/knative/source-config'', [])]"

definition api_key_routes :: "(string \<times> string \<times> guard list) list" where
  "api_key_routes =
     [(''GET'', ''/org/api-keys'', [WriteAccess]),
      (''POST'', ''/org/api-keys'', [WriteAccess]),
      (''DELETE'', ''/org/api-keys/{id}'', [WriteAccess])]"

end
