(* ===== verification/AccountHandlers.thy ===== *)
theory AccountHandlers imports Access Utf8 begin

text \<open>
  Registration, sign-in and self-service (\<open>internal/api/handlers/auth.go\<close>,
  \<open>auth\_self\_service.go\<close>, \<open>email\_verification.go\<close>, \<open>password\_reset.go\<close>).
  A handler maps the instant, what it draws, its claims, the decoded body and the tables to the answer
  and the new tables. The multi-factor checks are those of this edition, which has none.
\<close>

section \<open>Answers\<close>

datatype cookie = SessionCookie string int | ExpiredCookie

datatype acct_body =
    BodyError string
  | BodyMap "(string \<times> json) list"
  | BodyAuth string user
  | BodyUser user
  | BodyUsers "user list"
  | BodyKeys "api_key list"
  | BodyNewKey string api_key
  | BodyNotFound
  | BodyNone

type_synonym acct_answer = "int \<times> cookie option \<times> acct_body"

definition refuse :: "int \<Rightarrow> string \<Rightarrow> acct_answer" where
  "refuse st msg = (st, None, BodyError msg)"

definition status_map :: "int \<Rightarrow> string \<Rightarrow> acct_answer" where
  "status_map st s = (st, None, BodyMap [(''status'', JStr s)])"

definition session_cookie :: "auth_env \<Rightarrow> string \<Rightarrow> cookie" where
  "session_cookie env tok = SessionCookie tok (if ae_ttl env div second \<le> 0 then 86400 else ae_ttl env div second)"

section \<open>Slugs\<close>

text \<open>
  The bytes of the letters that lower-case to ASCII: A to Z, the Kelvin sign and the dotted capital I.
  Everything else outside a to z, 0 to 9 and the hyphen is dropped after lower-casing.
\<close>

fun slug_bytes :: "nat list \<Rightarrow> string" where
  "slug_bytes [] = []"
| "slug_bytes (b # bs) =
     (if b = 0xE2 \<and> take 2 bs = [0x84, 0xAA] then CHR ''k'' # slug_bytes (drop 2 bs)
      else if b = 0xC4 \<and> take 1 bs = [0xB0] then CHR ''i'' # slug_bytes (drop 1 bs)
      else if 65 \<le> b \<and> b \<le> 90 then char_of (b + 32) # slug_bytes bs
      else if b = 32 then CHR ''-'' # slug_bytes bs
      else if 97 \<le> b \<and> b \<le> 122 \<or> 48 \<le> b \<and> b \<le> 57 \<or> b = 45 then char_of b # slug_bytes bs
      else slug_bytes bs)"

definition trim_hyphens :: "string \<Rightarrow> string" where
  "trim_hyphens s = rev (dropWhile (\<lambda>c. c = CHR ''-'') (rev (dropWhile (\<lambda>c. c = CHR ''-'') s)))"

definition slugify :: "string \<Rightarrow> string" where
  "slugify name =
     (let s = trim_hyphens (slug_bytes (map of_char (trim_space name))) in if s = [] then ''org'' else s)"

section \<open>Registration and sign-in (auth.go)\<close>

definition send_verification :: "auth_env \<Rightarrow> gotime \<Rightarrow> user \<Rightarrow> accounts \<Rightarrow> accounts" where
  "send_verification env now u db =
     (if \<not> ae_mailer env then db
      else case issue_email_verification env now (usr_id u) (usr_org u) (usr_email u) of
             None \<Rightarrow> db
           | Some tok \<Rightarrow>
               snd (record_verification_send (usr_id u) now
                 (send_mail (usr_email u, ''YipYap: Verify your email'', ae_base_url env @ ''/verify-email?token='' @ tok) db)))"

record register_request =
  rr_org_name :: string
  rr_email :: string
  rr_password :: string
  rr_confirm :: string

definition decode_register :: "(string \<times> json) list \<Rightarrow> register_request option" where
  "decode_register kvs =
     (case (get_string ''org_name'' kvs, get_string ''email'' kvs, get_string ''password'' kvs,
            get_string ''confirm_password'' kvs) of
        (Some n, Some e, Some p, Some c) \<Rightarrow> Some \<lparr>rr_org_name = n, rr_email = e, rr_password = p, rr_confirm = c\<rparr>
      | _ \<Rightarrow> None)"

definition new_user :: "string \<Rightarrow> string \<Rightarrow> string \<Rightarrow> string \<Rightarrow> string \<Rightarrow> string \<Rightarrow> string \<Rightarrow> gotime \<Rightarrow> user" where
  "new_user i org email name pwhash role phone now =
     \<lparr>usr_id = i, usr_org = org, usr_email = email, usr_name = name, usr_password_hash = pwhash, usr_role = role,
      usr_phone = phone, usr_force_password_change = False, usr_mfa_app_enabled = False, usr_mfa_enforced_at = [],
      usr_email_verified_at = None, usr_verification_sent_at = None, usr_verification_resends = 0,
      usr_verification_window = None, usr_created_at = now, usr_updated_at = now, usr_disabled_at = None\<rparr>"

definition register_tx :: "org \<Rightarrow> user \<Rightarrow> accounts \<Rightarrow> acct_error option \<times> accounts" where
  "register_tx g u db =
     (case org_create g db of
        (Some e, db1) \<Rightarrow> (Some e, db1)
      | (None, db1) \<Rightarrow>
          (case user_create u db1 of
             (Some e, db2) \<Rightarrow> (Some e, db2)
           | (None, db2) \<Rightarrow> seed_builtins (org_id g) db2))"

text \<open>The draws are the ids of the organisation and of the user and the salt of the hash.\<close>

definition register_account ::
  "auth_env \<Rightarrow> gotime \<Rightarrow> string \<times> string \<times> string \<Rightarrow> raw_json \<Rightarrow> accounts \<Rightarrow> acct_answer \<times> accounts" where
  "register_account env now draw raw db =
     (case unmarshal decode_register raw of
        None \<Rightarrow> (refuse 400 ''invalid request body'', db)
      | Some req \<Rightarrow>
          if rr_org_name req = [] \<or> rr_email req = [] \<or> rr_password req = []
          then (refuse 400 ''org_name, email, and password are required'', db)
          else if length (rr_password req) < 8 then (refuse 400 ''password must be at least 8 characters'', db)
          else if rr_confirm req \<noteq> [] \<and> rr_confirm req \<noteq> rr_password req then (refuse 400 ''passwords do not match'', db)
          else case draw of (oid, uid, salt) \<Rightarrow>
            (case ae_bcrypt env salt (rr_password req) of
               None \<Rightarrow> (refuse 500 ''failed to hash password'', db)
             | Some pwhash \<Rightarrow>
                 let t = time_truncate second now;
                     g = \<lparr>org_id = oid, org_name = rr_org_name req, org_slug = slugify (rr_org_name req), org_plan = ''free'',
                          org_oncall_display = [], org_mfa_required = False, org_mfa_grace_days = 0,
                          org_promo_expires_at = [], org_promo_grace_days = 0, org_created_at = t, org_updated_at = t\<rparr>;
                     u = new_user uid oid (rr_email req) [] pwhash ''owner'' [] t
                 in (case in_tx (register_tx g u) db of
                       (Some _, db1) \<Rightarrow> (refuse 409 ''org or user already exists'', db1)
                     | (None, db1) \<Rightarrow>
                         if \<not> ae_mailer env
                         then let db2 = snd (mark_email_verified uid t db1) in
                              (case issue env now uid oid ''owner'' of
                                 None \<Rightarrow> (refuse 500 ''failed to issue token'', db2)
                               | Some tok \<Rightarrow> ((201, Some (session_cookie env tok), BodyAuth tok u), db2))
                         else ((201, None, BodyMap [(''status'', JStr ''verification_sent''), (''email'', JStr (rr_email req))]),
                               send_verification env now u db1))))"

definition user_has_mfa :: "user \<Rightarrow> bool \<times> string list" where
  "user_has_mfa u = (False, [])"

text \<open>Answers 200 with a session.\<close>

definition grant_session :: "auth_env \<Rightarrow> gotime \<Rightarrow> cookie option \<Rightarrow> user \<Rightarrow> acct_answer" where
  "grant_session env now noted u =
     (case issue env now (usr_id u) (usr_org u) (usr_role u) of
        None \<Rightarrow> refuse 500 ''failed to issue token''
      | Some tok \<Rightarrow> (200, (case noted of None \<Rightarrow> None | Some _ \<Rightarrow> Some (session_cookie env tok)), BodyAuth tok u))"

definition decode_credentials :: "(string \<times> json) list \<Rightarrow> (string \<times> string) option" where
  "decode_credentials kvs =
     (case (get_string ''email'' kvs, get_string ''password'' kvs) of (Some e, Some p) \<Rightarrow> Some (e, p) | _ \<Rightarrow> None)"

definition login :: "auth_env \<Rightarrow> gotime \<Rightarrow> raw_json \<Rightarrow> accounts \<Rightarrow> acct_answer \<times> accounts" where
  "login env now raw db =
     (case unmarshal decode_credentials raw of
        None \<Rightarrow> (refuse 400 ''invalid request body'', db)
      | Some (email, pw) \<Rightarrow>
          if email = [] \<or> pw = [] then (refuse 400 ''email and password are required'', db)
          else (case user_by_email email db of
                  (Inl _, db1) \<Rightarrow> (refuse 401 ''invalid credentials'', db1)
                | (Inr u, db1) \<Rightarrow>
                    if \<not> ae_compare env (usr_password_hash u) pw then (refuse 401 ''invalid credentials'', db1)
                    else if usr_disabled_at u \<noteq> None
                    then ((403, None, BodyMap [(''account_disabled'', JBool True)]), db1)
                    else if usr_email_verified_at u = None
                    then ((403, None, BodyMap [(''email_not_verified'', JBool True), (''email'', JStr (usr_email u))]), db1)
                    else if fst (user_has_mfa u)
                    then (case issue_mfa env now (usr_id u) (usr_org u) (usr_role u) of
                            None \<Rightarrow> (refuse 500 ''failed to issue MFA token'', db1)
                          | Some tok \<Rightarrow>
                              ((200, None, BodyMap [(''mfa_required'', JBool True), (''mfa_token'', JStr tok),
                                  (''mfa_methods'', JArr (map JStr (snd (user_has_mfa u))))]), db1))
                    else (grant_session env now (Some ExpiredCookie) u, db1)))"

definition refresh :: "auth_env \<Rightarrow> gotime \<Rightarrow> claims \<Rightarrow> accounts \<Rightarrow> acct_answer \<times> accounts" where
  "refresh env now c db =
     (case user_by_id (cl_user c) db of
        (Inl _, db1) \<Rightarrow> (refuse 500 ''failed to load user'', db1)
      | (Inr u, db1) \<Rightarrow>
          if usr_disabled_at u \<noteq> None then ((401, Some ExpiredCookie, BodyError ''account is disabled''), db1)
          else (grant_session env now (Some ExpiredCookie) u, db1))"

definition logout :: "accounts \<Rightarrow> acct_answer \<times> accounts" where
  "logout db = ((204, Some ExpiredCookie, BodyNone), db)"

section \<open>Verification of addresses (email\_verification.go)\<close>

definition verify_email :: "auth_env \<Rightarrow> gotime \<Rightarrow> raw_json \<Rightarrow> accounts \<Rightarrow> acct_answer \<times> accounts" where
  "verify_email env now raw db =
     (case unmarshal (get_string ''token'') raw of
        None \<Rightarrow> (refuse 400 ''token is required'', db)
      | Some tok \<Rightarrow>
          if tok = [] then (refuse 400 ''token is required'', db)
          else (case validate_email_verification env now tok of
                  None \<Rightarrow> (refuse 401 ''invalid or expired verification token'', db)
                | Some c \<Rightarrow>
                    (case user_by_id (cl_user c) db of
                       (Inl _, db1) \<Rightarrow> (refuse 404 ''user not found'', db1)
                     | (Inr u, db1) \<Rightarrow>
                         if usr_email u \<noteq> cl_role c then (refuse 401 ''verification token is no longer valid'', db1)
                         else if usr_email_verified_at u \<noteq> None then (status_map 200 ''already_verified'', db1)
                         else (case mark_email_verified (usr_id u) now db1 of
                                 (Some _, db2) \<Rightarrow> (refuse 500 ''failed to mark email verified'', db2)
                               | (None, db2) \<Rightarrow> (status_map 200 ''verified'', db2)))))"

definition retry_after :: "string \<Rightarrow> int \<Rightarrow> acct_answer" where
  "retry_after msg wait =
     (429, None, BodyMap [(''error'', JStr msg), (''retry_after'', JInt (if wait div second < 1 then 1 else wait div second))])"

definition resend_verification :: "auth_env \<Rightarrow> gotime \<Rightarrow> raw_json \<Rightarrow> accounts \<Rightarrow> acct_answer \<times> accounts" where
  "resend_verification env now raw db =
     (if \<not> ae_mailer env then ((404, None, BodyNotFound), db)
      else case unmarshal (get_string ''email'') raw of
             None \<Rightarrow> (status_map 200 ''ok'', db)
           | Some email \<Rightarrow>
               if email = [] then (status_map 200 ''ok'', db)
               else (case user_by_email email db of
                       (Inl _, db1) \<Rightarrow> (status_map 200 ''ok'', db1)
                     | (Inr u, db1) \<Rightarrow>
                         if usr_email_verified_at u \<noteq> None then (status_map 200 ''already_verified'', db1)
                         else let since = map_option (time_sub now) (usr_verification_sent_at u);
                                  window = map_option (time_sub now) (usr_verification_window u) in
                           if \<exists>d \<in> set_option since. d < 30 * second
                           then (retry_after ''please wait before requesting another email'' (30 * second - the since), db1)
                           else if (\<exists>d \<in> set_option window. d < 60 * minute) \<and> 5 \<le> usr_verification_resends u
                           then (retry_after ''too many verification emails requested; try again later'' (60 * minute - the window), db1)
                           else (status_map 200 ''sent'', send_verification env now u db1)))"

section \<open>Changing the password or the address (auth\_self\_service.go)\<close>

definition verify_mfa_if_enabled :: "user \<Rightarrow> string \<Rightarrow> bool" where
  "verify_mfa_if_enabled u code = True"

definition decode_three :: "string \<Rightarrow> string \<Rightarrow> string \<Rightarrow> (string \<times> json) list \<Rightarrow> (string \<times> string \<times> string) option" where
  "decode_three a b c kvs =
     (case (get_string a kvs, get_string b kvs, get_string c kvs) of
        (Some x, Some y, Some z) \<Rightarrow> Some (x, y, z) | _ \<Rightarrow> None)"

text \<open>Both handlers start alike: the body, its two required members, the user, the password, the second factor.\<close>

definition with_password ::
  "auth_env \<Rightarrow> claims \<Rightarrow> string \<Rightarrow> raw_json \<Rightarrow> (user \<Rightarrow> string \<Rightarrow> accounts \<Rightarrow> acct_answer \<times> accounts) \<Rightarrow>
   accounts \<Rightarrow> acct_answer \<times> accounts" where
  "with_password env c field raw body db =
     (case unmarshal (decode_three ''current_password'' field ''mfa_code'') raw of
        None \<Rightarrow> (refuse 400 ''invalid request body'', db)
      | Some (pw, new, code) \<Rightarrow>
          if pw = [] \<or> new = [] then (refuse 400 (''current_password and '' @ field @ '' are required''), db)
          else (case user_by_id (cl_user c) db of
                  (Inl _, db1) \<Rightarrow> (refuse 500 ''failed to load user'', db1)
                | (Inr u, db1) \<Rightarrow>
                    if \<not> ae_compare env (usr_password_hash u) pw then (refuse 401 ''invalid current password'', db1)
                    else if \<not> verify_mfa_if_enabled u code then (refuse 403 ''MFA verification failed'', db1)
                    else body u new db1))"

definition save_and_grant :: "auth_env \<Rightarrow> gotime \<Rightarrow> user \<Rightarrow> accounts \<Rightarrow> acct_answer \<times> accounts" where
  "save_and_grant env now u db =
     (case user_update u db of
        (Some _, db1) \<Rightarrow> (refuse 500 ''failed to update user'', db1)
      | (None, db1) \<Rightarrow> (grant_session env now None u, db1))"

definition change_password :: "auth_env \<Rightarrow> gotime \<Rightarrow> string \<Rightarrow> claims \<Rightarrow> raw_json \<Rightarrow> accounts \<Rightarrow> acct_answer \<times> accounts" where
  "change_password env now salt c raw =
     with_password env c ''new_password'' raw (\<lambda>u new db.
       case ae_bcrypt env salt new of
         None \<Rightarrow> (refuse 500 ''failed to hash password'', db)
       | Some pwhash \<Rightarrow>
           save_and_grant env now (u\<lparr>usr_password_hash := pwhash, usr_force_password_change := False,
             usr_updated_at := time_truncate second now\<rparr>) db)"

definition change_email :: "auth_env \<Rightarrow> gotime \<Rightarrow> claims \<Rightarrow> raw_json \<Rightarrow> accounts \<Rightarrow> acct_answer \<times> accounts" where
  "change_email env now c raw =
     with_password env c ''new_email'' raw (\<lambda>u new db.
       case user_by_email new db of
         (Inr _, db1) \<Rightarrow> (refuse 409 ''email already in use'', db1)
       | (Inl _, db1) \<Rightarrow> save_and_grant env now (u\<lparr>usr_email := new, usr_updated_at := time_truncate second now\<rparr>) db1)"

section \<open>Password resets (password\_reset.go)\<close>

definition forgot_password :: "auth_env \<Rightarrow> gotime \<Rightarrow> raw_json \<Rightarrow> accounts \<Rightarrow> acct_answer \<times> accounts" where
  "forgot_password env now raw db =
     (if \<not> ae_mailer env then ((404, None, BodyNotFound), db)
      else case unmarshal (get_string ''email'') raw of
             None \<Rightarrow> (status_map 200 ''ok'', db)
           | Some email \<Rightarrow>
               if email = [] then (status_map 200 ''ok'', db)
               else (case user_by_email email db of
                       (Inl _, db1) \<Rightarrow> (status_map 200 ''ok'', db1)
                     | (Inr u, db1) \<Rightarrow>
                         (case issue_password_reset env now (usr_id u) (usr_org u) (usr_email u) (usr_password_hash u) of
                            None \<Rightarrow> (status_map 200 ''ok'', db1)
                          | Some tok \<Rightarrow>
                              (status_map 200 ''ok'',
                               send_mail (usr_email u, ''YipYap: Password Reset'',
                                 ae_base_url env @ ''/reset-password?token='' @ tok) db1))))"

definition reset_password :: "auth_env \<Rightarrow> gotime \<Rightarrow> string \<Rightarrow> raw_json \<Rightarrow> accounts \<Rightarrow> acct_answer \<times> accounts" where
  "reset_password env now salt raw db =
     (case unmarshal (\<lambda>kvs. case (get_string ''token'' kvs, get_string ''password'' kvs) of
                              (Some t, Some p) \<Rightarrow> Some (t, p) | _ \<Rightarrow> None) raw of
        None \<Rightarrow> (refuse 400 ''invalid request body'', db)
      | Some (tok, pw) \<Rightarrow>
          if tok = [] \<or> pw = [] then (refuse 400 ''token and password are required'', db)
          else if length pw < 8 then (refuse 400 ''password must be at least 8 characters'', db)
          else (case validate_password_reset env now tok of
                  None \<Rightarrow> (refuse 401 ''invalid or expired reset token'', db)
                | Some c \<Rightarrow>
                    (case user_by_id (cl_user c) db of
                       (Inl _, db1) \<Rightarrow> (refuse 404 ''user not found'', db1)
                     | (Inr u, db1) \<Rightarrow>
                         if usr_email u \<noteq> cl_role c \<or> password_reset_nonce env (usr_password_hash u) \<noteq> cl_nonce c
                         then (refuse 401 ''reset token is no longer valid'', db1)
                         else (case ae_bcrypt env salt pw of
                                 None \<Rightarrow> (refuse 500 ''failed to hash password'', db1)
                               | Some pwhash \<Rightarrow>
                                   (case user_update (u\<lparr>usr_password_hash := pwhash, usr_force_password_change := False\<rparr>) db1 of
                                      (Some _, db2) \<Rightarrow> (refuse 500 ''failed to update password'', db2)
                                    | (None, db2) \<Rightarrow> (status_map 200 ''password updated'', db2))))))"

end
