(* ===== verification/AccountClosing.thy ===== *)
theory AccountClosing imports AccountHandlers begin

text \<open>
  Closing and recovering an account (\<open>internal/api/handlers/account\_delete.go\<close>) and the job that
  removes accounts at the end of their grace period (\<open>internal/jobs/account\_cleanup.go\<close>).
\<close>

section \<open>Requests and confirmations\<close>

definition query_safe :: "char \<Rightarrow> bool" where
  "query_safe c \<longleftrightarrow> (let n = (of_char c :: nat) in
     48 \<le> n \<and> n \<le> 57 \<or> 65 \<le> n \<and> n \<le> 90 \<or> 97 \<le> n \<and> n \<le> 122 \<or> c \<in> set ''-_.~'')"

definition upper_hex :: "nat \<Rightarrow> char" where
  "upper_hex n = char_of (if n < 10 then 48 + n else 55 + n)"

text \<open>\<open>url.QueryEscape\<close>.\<close>

definition query_escape :: "string \<Rightarrow> string" where
  "query_escape s = concat (map (\<lambda>c. if query_safe c then [c] else if c = CHR '' '' then ''+''
     else [CHR ''%'', upper_hex (of_char c div 16), upper_hex (of_char c mod 16)]) s)"

definition confirm_phrase :: string where
  "confirm_phrase = ''I am sure I wish to delete my account''"

text \<open>The owner guard: whether a page of the members of the organisation shows another one.\<close>

definition has_company :: "int \<Rightarrow> string \<Rightarrow> accounts \<Rightarrow> (acct_error + bool) \<times> accounts" where
  "has_company limit org db =
     (case users_by_org org limit 0 db of
        (Inl e, db1) \<Rightarrow> (Inl e, db1)
      | (Inr ms, db1) \<Rightarrow> (Inr (1 < length (filter (\<lambda>m. usr_disabled_at m = None) ms)), db1))"

definition owner_guard ::
  "int \<Rightarrow> string \<Rightarrow> string \<Rightarrow> user \<Rightarrow> (accounts \<Rightarrow> acct_answer \<times> accounts) \<Rightarrow> accounts \<Rightarrow> acct_answer \<times> accounts" where
  "owner_guard limit broken taken u body db =
     (if usr_role u \<noteq> ''owner'' then body db
      else case has_company limit (usr_org u) db of
             (Inl _, db1) \<Rightarrow> (refuse 500 broken, db1)
           | (Inr True, db1) \<Rightarrow> (refuse 409 taken, db1)
           | (Inr False, db1) \<Rightarrow> body db1)"

definition request_deletion :: "auth_env \<Rightarrow> gotime \<Rightarrow> claims \<Rightarrow> raw_json \<Rightarrow> accounts \<Rightarrow> acct_answer \<times> accounts" where
  "request_deletion env now c raw db =
     (if \<not> ae_mailer env then ((404, None, BodyNotFound), db)
      else case unmarshal (decode_three ''password'' ''mfa_code'' ''confirm_phrase'') raw of
             None \<Rightarrow> (refuse 400 ''invalid request body'', db)
           | Some (pw, code, phrase) \<Rightarrow>
               if phrase \<noteq> confirm_phrase then (refuse 400 (''confirm_phrase must be exactly: '' @ confirm_phrase), db)
               else (case user_by_id (cl_user c) db of
                       (Inl _, db1) \<Rightarrow> (refuse 404 ''user not found'', db1)
                     | (Inr u, db1) \<Rightarrow>
                         if \<not> ae_compare env (usr_password_hash u) pw then (refuse 401 ''invalid password'', db1)
                         else if \<not> verify_mfa_if_enabled u code then (refuse 401 ''invalid MFA code'', db1)
                         else owner_guard 10 ''failed to check org membership''
                           ''you must transfer ownership or remove all other members before deleting your account'' u
                           (\<lambda>db2. case issue_account_deletion env now (usr_id u) (usr_org u) (usr_email u) (usr_password_hash u) of
                               None \<Rightarrow> (refuse 500 ''failed to issue deletion token'', db2)
                             | Some tok \<Rightarrow>
                                 (status_map 200 ''confirmation email sent'',
                                  send_mail (usr_email u, ''Confirm Account Deletion'',
                                    ae_base_url env @ ''/account/confirm-delete?token='' @ query_escape tok) db2)) db1))"

text \<open>The common start of the two confirmations: the token, its claims and the user.\<close>

definition with_token_user ::
  "(string \<Rightarrow> claims option) \<Rightarrow> string \<Rightarrow> raw_json \<Rightarrow> (claims \<Rightarrow> user \<Rightarrow> accounts \<Rightarrow> acct_answer \<times> accounts) \<Rightarrow>
   accounts \<Rightarrow> acct_answer \<times> accounts" where
  "with_token_user val invalid raw body db =
     (case unmarshal (get_string ''token'') raw of
        None \<Rightarrow> (refuse 400 ''token is required'', db)
      | Some tok \<Rightarrow>
          if tok = [] then (refuse 400 ''token is required'', db)
          else (case val tok of
                  None \<Rightarrow> (refuse 401 invalid, db)
                | Some c \<Rightarrow>
                    (case user_by_id (cl_user c) db of
                       (Inl _, db1) \<Rightarrow> (refuse 404 ''user not found'', db1)
                     | (Inr u, db1) \<Rightarrow> body c u db1)))"

definition stale_token :: "auth_env \<Rightarrow> string \<Rightarrow> claims \<Rightarrow> user \<Rightarrow> acct_answer option" where
  "stale_token env moved c u =
     (if usr_email u \<noteq> cl_role c then Some (refuse 401 moved)
      else if password_reset_nonce env (usr_password_hash u) \<noteq> cl_nonce c
      then Some (refuse 401 ''link already used or password changed'') else None)"

definition confirm_deletion :: "auth_env \<Rightarrow> gotime \<Rightarrow> raw_json \<Rightarrow> accounts \<Rightarrow> acct_answer \<times> accounts" where
  "confirm_deletion env now raw =
     with_token_user (validate_account_deletion env now) ''invalid or expired deletion token'' raw (\<lambda>c u db.
       if usr_disabled_at u \<noteq> None then (status_map 200 ''already_disabled'', db)
       else case stale_token env ''deletion token is no longer valid'' c u of
              Some a \<Rightarrow> (a, db)
            | None \<Rightarrow>
                owner_guard 2 ''failed to verify membership'' ''transfer ownership before deleting your account'' u
                  (\<lambda>db1. case user_disable (usr_id u) now db1 of
                     (Some _, db2) \<Rightarrow> (refuse 500 ''failed to disable account'', db2)
                   | (None, db2) \<Rightarrow> (status_map 200 ''account disabled, will be permanently deleted in 96 hours'', db2)) db)"

definition request_recovery :: "auth_env \<Rightarrow> gotime \<Rightarrow> raw_json \<Rightarrow> accounts \<Rightarrow> acct_answer \<times> accounts" where
  "request_recovery env now raw db =
     (if \<not> ae_mailer env then ((404, None, BodyNotFound), db)
      else case unmarshal decode_credentials raw of
             None \<Rightarrow> (refuse 400 ''invalid request body'', db)
           | Some (email, pw) \<Rightarrow>
               if email = [] \<or> pw = [] then (refuse 400 ''email and password are required'', db)
               else (case user_by_email email db of
                       (Inl _, db1) \<Rightarrow> (refuse 401 ''invalid credentials'', db1)
                     | (Inr u, db1) \<Rightarrow>
                         if \<not> ae_compare env (usr_password_hash u) pw \<or> usr_disabled_at u = None
                         then (refuse 401 ''invalid credentials'', db1)
                         else (case issue_account_recovery env now (usr_id u) (usr_org u) (usr_email u) (usr_password_hash u) of
                                 None \<Rightarrow> (refuse 500 ''failed to issue recovery token'', db1)
                               | Some tok \<Rightarrow>
                                   (status_map 200 ''recovery email sent'',
                                    send_mail (usr_email u, ''Recover Your Account'',
                                      ae_base_url env @ ''/account/confirm-recover?token='' @ query_escape tok) db1))))"

definition confirm_recovery :: "auth_env \<Rightarrow> gotime \<Rightarrow> raw_json \<Rightarrow> accounts \<Rightarrow> acct_answer \<times> accounts" where
  "confirm_recovery env now raw =
     with_token_user (validate_account_recovery env now) ''invalid or expired recovery token'' raw (\<lambda>c u db.
       if usr_disabled_at u = None then (status_map 200 ''already_active'', db)
       else case stale_token env ''recovery token is no longer valid'' c u of
              Some a \<Rightarrow> (a, db)
            | None \<Rightarrow>
                (case user_enable (usr_id u) now db of
                   (Some _, db1) \<Rightarrow> (refuse 500 ''failed to re-enable account'', db1)
                 | (None, db1) \<Rightarrow> (status_map 200 ''account re-enabled'', db1)))"

section \<open>The clean-up\<close>

definition account_grace_period :: int where
  "account_grace_period = 96 * 60 * minute"

definition delete_keys :: "api_key list \<Rightarrow> accounts \<Rightarrow> accounts" where
  "delete_keys ks db = foldl (\<lambda>d k. snd (api_key_delete (ak_id k) d)) db ks"

definition cleanup_org :: "string \<Rightarrow> accounts \<Rightarrow> accounts" where
  "cleanup_org org db =
     (case users_by_org org 1 0 db of
        (Inl _, db1) \<Rightarrow> db1
      | (Inr (_ # _), db1) \<Rightarrow> db1
      | (Inr [], db1) \<Rightarrow>
          (case api_keys_by_org org 1000 0 db1 of
             (Inl _, db2) \<Rightarrow> snd (org_delete org db2)
           | (Inr ks, db2) \<Rightarrow> snd (org_delete org (delete_keys ks db2))))"

text \<open>One user of the list; the job stops between users when its context is cancelled.\<close>

definition cleanup_user :: "user \<Rightarrow> accounts \<Rightarrow> accounts" where
  "cleanup_user u db =
     (case user_by_id (usr_id u) db of
        (Inl _, db1) \<Rightarrow> db1
      | (Inr v, db1) \<Rightarrow>
          if usr_disabled_at v = None then db1
          else (case user_delete (usr_id v) db1 of
                  (Some _, db2) \<Rightarrow> db2
                | (None, db2) \<Rightarrow> cleanup_org (usr_org v) db2))"

definition cleanup_accounts :: "gotime \<Rightarrow> accounts \<Rightarrow> accounts" where
  "cleanup_accounts now db =
     (case disabled_before (now - account_grace_period) db of
        (Inl _, db1) \<Rightarrow> db1
      | (Inr us, db1) \<Rightarrow> foldl (\<lambda>d u. cleanup_user u d) db1 us)"

end
