(* ===== verification/Members.thy ===== *)
theory Members imports AccountHandlers begin

text \<open>
  The members of an organisation (\<open>internal/api/handlers/users.go\<close>, \<open>auth\_admin\_reset.go\<close>),
  and its API keys (\<open>orgs\_apikeys.go\<close>). The hook for billing is nil in this edition.
\<close>

section \<open>Paging (pagination.go)\<close>

text \<open>\<open>strconv.Atoi\<close>, whose error the handler ignores: a malformed text is 0, one out of range is cut off.\<close>

fun scan_digits :: "int \<Rightarrow> string \<Rightarrow> int option" where
  "scan_digits acc [] = Some acc"
| "scan_digits acc (c # cs) =
     (let d = (of_char c :: int) - 48 in
      if d < 0 \<or> 9 < d then None
      else if 2 ^ 64 \<le> acc * 10 + d then Some (2 ^ 64 - 1)
      else scan_digits (acc * 10 + d) cs)"

definition go_atoi :: "string \<Rightarrow> int" where
  "go_atoi s =
     (let neg = (take 1 s = ''-''); ds = (if neg \<or> take 1 s = ''+'' then drop 1 s else s) in
      case (if ds = [] then None else scan_digits 0 ds) of
        None \<Rightarrow> 0
      | Some n \<Rightarrow> if neg then - min n (2 ^ 63) else min n (2 ^ 63 - 1))"

definition pagination :: "string \<Rightarrow> string \<Rightarrow> int \<times> int" where
  "pagination limit offset =
     ((let l = go_atoi limit in if l \<le> 0 \<or> 100 < l then 50 else l), max 0 (go_atoi offset))"

section \<open>Members\<close>

definition list_users :: "claims \<Rightarrow> string \<Rightarrow> string \<Rightarrow> accounts \<Rightarrow> acct_answer \<times> accounts" where
  "list_users c limit offset db =
     (case users_by_org (cl_org c) (fst (pagination limit offset)) (snd (pagination limit offset)) db of
        (Inl _, db1) \<Rightarrow> (refuse 500 ''failed to list users'', db1)
      | (Inr us, db1) \<Rightarrow> ((200, None, BodyUsers us), db1))"

definition own_user :: "claims \<Rightarrow> string \<Rightarrow> accounts \<Rightarrow> user option \<times> accounts" where
  "own_user c i db =
     (case user_by_id i db of
        (Inl _, db1) \<Rightarrow> (None, db1)
      | (Inr u, db1) \<Rightarrow> (if usr_org u \<noteq> cl_org c then None else Some u, db1))"

definition get_user :: "claims \<Rightarrow> string \<Rightarrow> accounts \<Rightarrow> acct_answer \<times> accounts" where
  "get_user c i db =
     (case own_user c i db of
        (None, db1) \<Rightarrow> (refuse 404 ''user not found'', db1)
      | (Some u, db1) \<Rightarrow> ((200, None, BodyUser u), db1))"

record member_request =
  mr_email :: string
  mr_name :: string
  mr_password :: string
  mr_role :: string
  mr_phone :: string

definition decode_member :: "(string \<times> json) list \<Rightarrow> member_request option" where
  "decode_member kvs =
     (case (get_string ''email'' kvs, get_string ''name'' kvs, get_string ''password'' kvs, get_string ''role'' kvs,
            get_string ''phone'' kvs) of
        (Some e, Some n, Some p, Some r, Some ph) \<Rightarrow>
          Some \<lparr>mr_email = e, mr_name = n, mr_password = p, mr_role = r, mr_phone = ph\<rparr>
      | _ \<Rightarrow> None)"

definition free_max_members :: nat where
  "free_max_members = 5"

text \<open>The limit of the free plan: \<open>None\<close> lets the request pass.\<close>

definition seat_check :: "claims \<Rightarrow> accounts \<Rightarrow> acct_answer option \<times> accounts" where
  "seat_check c db =
     (case org_by_id (cl_org c) db of
        (Inl _, db1) \<Rightarrow> (Some (refuse 500 ''failed to get org''), db1)
      | (Inr g, db1) \<Rightarrow>
          if org_plan g \<noteq> ''free'' then (None, db1)
          else (case users_by_org (cl_org c) 100 0 db1 of
                  (Inl _, db2) \<Rightarrow> (Some (refuse 500 ''failed to count members''), db2)
                | (Inr ms, db2) \<Rightarrow>
                    (if free_max_members \<le> length ms
                     then Some (refuse 403 ''free plan limited to 5 members. Upgrade to add more'') else None, db2)))"

definition create_user ::
  "auth_env \<Rightarrow> gotime \<Rightarrow> string \<times> string \<Rightarrow> claims \<Rightarrow> raw_json \<Rightarrow> accounts \<Rightarrow> acct_answer \<times> accounts" where
  "create_user env now draw c raw db =
     (case unmarshal decode_member raw of
        None \<Rightarrow> (refuse 400 ''invalid request body'', db)
      | Some req \<Rightarrow>
          if mr_email req = [] \<or> mr_password req = [] then (refuse 400 ''email and password are required'', db)
          else if length (mr_password req) < 8 then (refuse 400 ''password must be at least 8 characters'', db)
          else (case seat_check c db of
                  (Some a, db1) \<Rightarrow> (a, db1)
                | (None, db1) \<Rightarrow>
                    (case ae_bcrypt env (snd draw) (mr_password req) of
                       None \<Rightarrow> (refuse 500 ''failed to hash password'', db1)
                     | Some pwhash \<Rightarrow>
                         let t = time_truncate second now;
                             u = new_user (fst draw) (cl_org c) (mr_email req) (mr_name req) pwhash
                                   (if mr_role req = [] then ''member'' else mr_role req) (mr_phone req) t
                         in (case user_create u db1 of
                               (Some _, db2) \<Rightarrow> (refuse 409 ''user already exists'', db2)
                             | (None, db2) \<Rightarrow>
                                 ((201, None, BodyUser (u\<lparr>usr_email_verified_at := Some t\<rparr>)),
                                  snd (mark_email_verified (usr_id u) t db2))))))"

text \<open>A member of pointer type: \<open>null\<close> makes it nil.\<close>

fun opt_string :: "string \<Rightarrow> (string \<times> json) list \<Rightarrow> string option \<Rightarrow> string option option" where
  "opt_string k [] acc = Some acc"
| "opt_string k (kv # rest) acc =
     (if fold_name (fst kv) = fold_name k
      then (case snd kv of JNull \<Rightarrow> opt_string k rest None | JStr s \<Rightarrow> opt_string k rest (Some s) | _ \<Rightarrow> None)
      else opt_string k rest acc)"

record member_patch =
  mp_email :: "string option"
  mp_name :: "string option"
  mp_role :: "string option"
  mp_phone :: "string option"

definition decode_patch :: "(string \<times> json) list \<Rightarrow> member_patch option" where
  "decode_patch kvs =
     (case (opt_string ''email'' kvs None, opt_string ''name'' kvs None, opt_string ''role'' kvs None,
            opt_string ''phone'' kvs None) of
        (Some e, Some n, Some r, Some p) \<Rightarrow> Some \<lparr>mp_email = e, mp_name = n, mp_role = r, mp_phone = p\<rparr>
      | _ \<Rightarrow> None)"

definition patched :: "'a option \<Rightarrow> 'a \<Rightarrow> 'a" where
  "patched p old = (case p of None \<Rightarrow> old | Some new \<Rightarrow> new)"

definition role_change :: "claims \<Rightarrow> user \<Rightarrow> string \<Rightarrow> acct_answer option" where
  "role_change c u target =
     (if target = ''owner'' then Some (refuse 403 ''use ownership transfer to change org owner'')
      else if usr_role u = ''owner'' then Some (refuse 403 ''cannot change the owner's role'')
      else if target = ''admin'' \<and> cl_role c \<noteq> ''owner'' then Some (refuse 403 ''only the org owner can promote to admin'')
      else None)"

definition update_user :: "gotime \<Rightarrow> claims \<Rightarrow> string \<Rightarrow> raw_json \<Rightarrow> accounts \<Rightarrow> acct_answer \<times> accounts" where
  "update_user now c i raw db =
     (case own_user c i db of
        (None, db1) \<Rightarrow> (refuse 404 ''user not found'', db1)
      | (Some u, db1) \<Rightarrow>
          (case unmarshal decode_patch raw of
             None \<Rightarrow> (refuse 400 ''invalid request body'', db1)
           | Some p \<Rightarrow>
               (case (case mp_role p of None \<Rightarrow> None | Some target \<Rightarrow> role_change c u target) of
                  Some a \<Rightarrow> (a, db1)
                | None \<Rightarrow>
                    let v = u\<lparr>usr_email := patched (mp_email p) (usr_email u), usr_name := patched (mp_name p) (usr_name u),
                              usr_role := patched (mp_role p) (usr_role u), usr_phone := patched (mp_phone p) (usr_phone u),
                              usr_updated_at := time_truncate second now\<rparr>
                    in (case user_update v db1 of
                          (Some _, db2) \<Rightarrow> (refuse 500 ''failed to update user'', db2)
                        | (None, db2) \<Rightarrow> ((200, None, BodyUser v), db2)))))"

definition delete_user :: "claims \<Rightarrow> string \<Rightarrow> accounts \<Rightarrow> acct_answer \<times> accounts" where
  "delete_user c i db =
     (if i = cl_user c then (refuse 400 ''cannot delete yourself'', db)
      else case own_user c i db of
             (None, db1) \<Rightarrow> (refuse 404 ''user not found'', db1)
           | (Some u, db1) \<Rightarrow>
               if usr_role u = ''owner'' then (refuse 403 ''cannot delete the org owner'', db1)
               else (case user_delete (usr_id u) db1 of
                       (Some _, db2) \<Rightarrow> (refuse 404 ''user not found'', db2)
                     | (None, db2) \<Rightarrow> ((204, None, BodyNone), db2)))"

definition admin_reset_password ::
  "auth_env \<Rightarrow> gotime \<Rightarrow> string \<Rightarrow> claims \<Rightarrow> string \<Rightarrow> raw_json \<Rightarrow> accounts \<Rightarrow> acct_answer \<times> accounts" where
  "admin_reset_password env now salt c i raw db =
     (if cl_role c \<noteq> ''owner'' \<and> cl_role c \<noteq> ''admin'' then (refuse 403 ''insufficient permissions'', db)
      else case own_user c i db of
             (None, db1) \<Rightarrow> (refuse 404 ''user not found'', db1)
           | (Some u, db1) \<Rightarrow>
               if usr_role u = ''owner'' then (refuse 403 ''cannot reset the owner's password'', db1)
               else (case unmarshal (get_string ''temporary_password'') raw of
                       None \<Rightarrow> (refuse 400 ''temporary_password is required'', db1)
                     | Some pw \<Rightarrow>
                         if pw = [] then (refuse 400 ''temporary_password is required'', db1)
                         else (case ae_bcrypt env salt pw of
                                 None \<Rightarrow> (refuse 500 ''failed to hash password'', db1)
                               | Some pwhash \<Rightarrow>
                                   (case user_update (u\<lparr>usr_password_hash := pwhash, usr_force_password_change := True,
                                           usr_updated_at := time_truncate second now\<rparr>) db1 of
                                      (Some _, db2) \<Rightarrow> (refuse 500 ''failed to reset password'', db2)
                                    | (None, db2) \<Rightarrow>
                                        ((200, None, BodyMap [(''message'', JStr ''password reset, user must change on next login'')]),
                                         db2)))))"

text \<open>The body of the transaction: the target becomes the owner, the caller an administrator.\<close>

definition transfer_tx :: "gotime \<Rightarrow> claims \<Rightarrow> user \<Rightarrow> accounts \<Rightarrow> acct_error option \<times> accounts" where
  "transfer_tx now c target db =
     (case user_update (target\<lparr>usr_role := ''owner'', usr_updated_at := time_truncate second now\<rparr>) db of
        (Some e, db1) \<Rightarrow> (Some e, db1)
      | (None, db1) \<Rightarrow>
          (case user_by_id (cl_user c) db1 of
             (Inl e, db2) \<Rightarrow> (Some e, db2)
           | (Inr caller, db2) \<Rightarrow>
               user_update (caller\<lparr>usr_role := ''admin'', usr_updated_at := time_truncate second now\<rparr>) db2))"

definition transfer_ownership :: "auth_env \<Rightarrow> gotime \<Rightarrow> claims \<Rightarrow> raw_json \<Rightarrow> accounts \<Rightarrow> acct_answer \<times> accounts" where
  "transfer_ownership env now c raw db =
     (if cl_role c \<noteq> ''owner'' then (refuse 403 ''only the org owner can transfer ownership'', db)
      else case unmarshal (decode_three ''user_id'' ''current_password'' ''mfa_code'') raw of
             None \<Rightarrow> (refuse 400 ''user_id is required'', db)
           | Some (i, pw, code) \<Rightarrow>
               if i = [] then (refuse 400 ''user_id is required'', db)
               else if pw = [] then (refuse 400 ''current_password is required'', db)
               else if i = cl_user c then (refuse 400 ''cannot transfer ownership to yourself'', db)
               else (case user_by_id (cl_user c) db of
                       (Inl _, db1) \<Rightarrow> (refuse 500 ''failed to load user'', db1)
                     | (Inr caller, db1) \<Rightarrow>
                         if \<not> ae_compare env (usr_password_hash caller) pw then (refuse 401 ''invalid current password'', db1)
                         else if \<not> verify_mfa_if_enabled caller code then (refuse 401 ''MFA verification failed'', db1)
                         else (case own_user c i db1 of
                                 (None, db2) \<Rightarrow> (refuse 404 ''user not found'', db2)
                               | (Some target, db2) \<Rightarrow>
                                   if usr_role target \<noteq> ''admin''
                                   then (refuse 400 ''target user must be an admin before ownership can be transferred'', db2)
                                   else (case in_tx (transfer_tx now c target) db2 of
                                           (Some _, db3) \<Rightarrow> (refuse 500 ''failed to transfer ownership'', db3)
                                         | (None, db3) \<Rightarrow>
                                             ((200, None, BodyMap [(''message'', JStr ''ownership transferred''),
                                                 (''new_owner'', JStr (usr_email target))]), db3)))))"

section \<open>API keys\<close>

definition list_api_keys :: "claims \<Rightarrow> string \<Rightarrow> string \<Rightarrow> accounts \<Rightarrow> acct_answer \<times> accounts" where
  "list_api_keys c limit offset db =
     (case api_keys_by_org (cl_org c) (fst (pagination limit offset)) (snd (pagination limit offset)) db of
        (Inl _, db1) \<Rightarrow> (refuse 500 ''failed to list api keys'', db1)
      | (Inr ks, db1) \<Rightarrow> ((200, None, BodyKeys ks), db1))"

text \<open>The draws are the id of the row and the random bytes of the key.\<close>

definition create_api_key ::
  "auth_env \<Rightarrow> gotime \<Rightarrow> string \<times> string option \<Rightarrow> claims \<Rightarrow> raw_json \<Rightarrow> accounts \<Rightarrow> acct_answer \<times> accounts" where
  "create_api_key env now draw c raw db =
     (case unmarshal (\<lambda>kvs. case (get_string ''name'' kvs, get_strings ''scopes'' kvs) of
                              (Some n, Some s) \<Rightarrow> Some (n, s) | _ \<Rightarrow> None) raw of
        None \<Rightarrow> (refuse 400 ''invalid request body'', db)
      | Some (name, scopes) \<Rightarrow>
          if name = [] then (refuse 400 ''name is required'', db)
          else (case ae_hasher env of
                  None \<Rightarrow> (refuse 500 ''api key generation not configured'', db)
                | Some secret \<Rightarrow>
                    (case generate_api_key env secret (snd draw) of
                       None \<Rightarrow> (refuse 500 ''failed to generate api key'', db)
                     | Some (plaintext, digest, pre) \<Rightarrow>
                         let k = \<lparr>ak_id = fst draw, ak_org = cl_org c, ak_name = name, ak_hash = digest, ak_prefix = pre,
                                  ak_scopes = scopes, ak_created_by = cl_user c, ak_expires_at = None,
                                  ak_created_at = time_truncate second now, ak_last_used_at = None\<rparr>
                         in (case api_key_create k db of
                               (Some _, db1) \<Rightarrow> (refuse 500 ''failed to create api key'', db1)
                             | (None, db1) \<Rightarrow> ((201, None, BodyNewKey plaintext k), db1)))))"

definition delete_api_key :: "claims \<Rightarrow> string \<Rightarrow> accounts \<Rightarrow> acct_answer \<times> accounts" where
  "delete_api_key c i db =
     (case api_key_by_id i db of
        (Inl _, db1) \<Rightarrow> (refuse 404 ''api key not found'', db1)
      | (Inr k, db1) \<Rightarrow>
          if ak_org k \<noteq> cl_org c then (refuse 404 ''api key not found'', db1)
          else (case api_key_delete i db1 of
                  (Some _, db2) \<Rightarrow> (refuse 404 ''api key not found'', db2)
                | (None, db2) \<Rightarrow> ((204, None, BodyNone), db2)))"

end
