(* ===== verification/AccountLaws.thy ===== *)
theory AccountLaws imports AccountClosing Members begin

text \<open>
  What the statements and handlers of accounts do to the tables. The locale \<open>account\_rows\<close> states
  what an invariant of the tables has to satisfy for every handler to keep it; it is interpreted for
  the constraints of the schema and for the rule that an organisation has one owner.
\<close>

section \<open>Statements\<close>

lemma ac_tick_simps [simp]:
  "ac_users (ac_tick db) = ac_users db" "ac_orgs (ac_tick db) = ac_orgs db" "ac_keys (ac_tick db) = ac_keys db"
  "ac_states (ac_tick db) = ac_states db" "ac_fails (ac_tick db) = ac_fails db" "ac_mail (ac_tick db) = ac_mail db"
  "ac_count (ac_tick db) = Suc (ac_count db)"
  by (simp_all add: ac_tick_def)

lemma send_mail_simps [simp]:
  "ac_users (send_mail m db) = ac_users db" "ac_orgs (send_mail m db) = ac_orgs db" "ac_keys (send_mail m db) = ac_keys db"
  "ac_states (send_mail m db) = ac_states db" "ac_fails (send_mail m db) = ac_fails db"
  "ac_mail (send_mail m db) = ac_mail db @ [m]" "ac_count (send_mail m db) = ac_count db"
  by (simp_all add: send_mail_def)

lemma ac_query_cases:
  assumes "ac_query q db = (r, db1)"
  shows "db1 = ac_tick db" "r = Inr x \<Longrightarrow> q db = Inr x"
  using assms by (auto simp: ac_query_def split: if_splits)

lemma one_row_find: "one_row (List.find p rs) = Inr x \<longleftrightarrow> List.find p rs = Some x"
  by (simp add: one_row_def split: option.splits)

lemma user_by_id_cases:
  assumes "user_by_id i db = (r, db1)"
  shows "db1 = ac_tick db" "r = Inr u \<Longrightarrow> u \<in> set (ac_users db) \<and> usr_id u = i"
  using ac_query_cases[OF assms[unfolded user_by_id_def]] by (auto simp: one_row_find dest: find_SomeD)

lemma user_by_email_cases:
  assumes "user_by_email e db = (r, db1)"
  shows "db1 = ac_tick db" "r = Inr u \<Longrightarrow> u \<in> set (ac_users db) \<and> usr_email u = e"
  using ac_query_cases[OF assms[unfolded user_by_email_def]] by (auto simp: one_row_find dest: find_SomeD)

lemma own_user_cases:
  assumes "own_user c i db = (r, db1)"
  shows "db1 = ac_tick db" "r = Some u \<Longrightarrow> u \<in> set (ac_users db) \<and> usr_id u = i \<and> usr_org u = cl_org c"
  using assms user_by_id_cases[of i db] unfolding own_user_def
  by (auto split: prod.splits sum.splits if_splits)

lemma read_tick:
  "users_by_org org l k db = (r1, d1) \<Longrightarrow> d1 = ac_tick db"
  "org_by_id i db = (r2, d2) \<Longrightarrow> d2 = ac_tick db"
  "api_key_by_id i db = (r3, d3) \<Longrightarrow> d3 = ac_tick db"
  "api_key_by_hash h db = (r4, d4) \<Longrightarrow> d4 = ac_tick db"
  "api_keys_by_org org l k db = (r5, d5) \<Longrightarrow> d5 = ac_tick db"
  "disabled_before t db = (r6, d6) \<Longrightarrow> d6 = ac_tick db"
  by (auto simp: users_by_org_def org_by_id_def api_key_by_id_def api_key_by_hash_def api_keys_by_org_def
      disabled_before_def dest: ac_query_cases(1))

lemma ac_exec_cases:
  assumes "ac_exec f db = (r, db1)"
  obtains "r \<noteq> None" "db1 = ac_tick db" | db2 where "r = None" "f db = Inr db2" "db1 = ac_tick db2"
  using assms by (auto simp: ac_exec_def split: if_splits sum.splits)

lemma reads:
  "user_by_id i db = (Inl e, d1) \<Longrightarrow> d1 = ac_tick db"
  "user_by_id i db = (Inr u, d2) \<Longrightarrow> d2 = ac_tick db \<and> u \<in> set (ac_users db) \<and> usr_id u = i"
  "user_by_email a db = (Inl e, d3) \<Longrightarrow> d3 = ac_tick db"
  "user_by_email a db = (Inr u, d4) \<Longrightarrow> d4 = ac_tick db \<and> u \<in> set (ac_users db) \<and> usr_email u = a"
  "own_user c i db = (None, d5) \<Longrightarrow> d5 = ac_tick db"
  "own_user c i db = (Some u, d6) \<Longrightarrow> d6 = ac_tick db \<and> u \<in> set (ac_users db) \<and> usr_id u = i \<and> usr_org u = cl_org c"
  by (fast dest: user_by_id_cases user_by_email_cases own_user_cases)+

section \<open>Runs\<close>

text \<open>What happens to the tables: the requests of the handlers with their draws, and the job.\<close>

datatype acct_call =
    Register gotime "string \<times> string \<times> string" raw_json
  | Login gotime raw_json
  | Refresh gotime claims
  | VerifyEmail gotime raw_json
  | ResendVerification gotime raw_json
  | ChangePassword gotime string claims raw_json
  | ChangeEmail gotime claims raw_json
  | ForgotPassword gotime raw_json
  | ResetPassword gotime string raw_json
  | RequestDeletion gotime claims raw_json
  | ConfirmDeletion gotime raw_json
  | RequestRecovery gotime raw_json
  | ConfirmRecovery gotime raw_json
  | CreateUser gotime "string \<times> string" claims raw_json
  | UpdateUser gotime claims string raw_json
  | DeleteUser claims string
  | AdminReset gotime string claims string raw_json
  | Transfer gotime claims raw_json
  | CreateKey gotime "string \<times> string option" claims raw_json
  | DeleteKey claims string
  | Cleanup gotime

fun perform :: "auth_env \<Rightarrow> acct_call \<Rightarrow> accounts \<Rightarrow> accounts" where
  "perform env (Register now draw raw) db = snd (register_account env now draw raw db)"
| "perform env (Login now raw) db = snd (login env now raw db)"
| "perform env (Refresh now c) db = snd (refresh env now c db)"
| "perform env (VerifyEmail now raw) db = snd (verify_email env now raw db)"
| "perform env (ResendVerification now raw) db = snd (resend_verification env now raw db)"
| "perform env (ChangePassword now salt c raw) db = snd (change_password env now salt c raw db)"
| "perform env (ChangeEmail now c raw) db = snd (change_email env now c raw db)"
| "perform env (ForgotPassword now raw) db = snd (forgot_password env now raw db)"
| "perform env (ResetPassword now salt raw) db = snd (reset_password env now salt raw db)"
| "perform env (RequestDeletion now c raw) db = snd (request_deletion env now c raw db)"
| "perform env (ConfirmDeletion now raw) db = snd (confirm_deletion env now raw db)"
| "perform env (RequestRecovery now raw) db = snd (request_recovery env now raw db)"
| "perform env (ConfirmRecovery now raw) db = snd (confirm_recovery env now raw db)"
| "perform env (CreateUser now draw c raw) db = snd (create_user env now draw c raw db)"
| "perform env (UpdateUser now c i raw) db = snd (update_user now c i raw db)"
| "perform env (DeleteUser c i) db = snd (delete_user c i db)"
| "perform env (AdminReset now salt c i raw) db = snd (admin_reset_password env now salt c i raw db)"
| "perform env (Transfer now c raw) db = snd (transfer_ownership env now c raw db)"
| "perform env (CreateKey now draw c raw) db = snd (create_api_key env now draw c raw db)"
| "perform env (DeleteKey c i) db = snd (delete_api_key c i db)"
| "perform env (Cleanup now) db = cleanup_accounts now db"

text \<open>
  What a single owner depends on: nobody is created as an owner, and an ownership is transferred by
  somebody whose stored row, not only whose token, says owner.
\<close>

definition owner_request :: "raw_json \<Rightarrow> bool" where
  "owner_request raw \<longleftrightarrow> (\<exists>req \<in> set_option (unmarshal decode_member raw). mr_role req = ''owner'')"

definition owner_now :: "accounts \<Rightarrow> claims \<Rightarrow> bool" where
  "owner_now db c \<longleftrightarrow> (\<forall>u \<in> set (ac_users db). usr_id u = cl_user c \<longrightarrow> usr_role u = ''owner'' \<and> usr_org u = cl_org c)"

fun proper :: "acct_call \<Rightarrow> accounts \<Rightarrow> bool" where
  "proper (CreateUser now draw c raw) db = (\<not> owner_request raw)"
| "proper (Transfer now c raw) db = owner_now db c"
| "proper call db = True"

inductive acct_run :: "auth_env \<Rightarrow> bool \<Rightarrow> accounts \<Rightarrow> accounts \<Rightarrow> bool" for env strict db where
  start: "acct_run env strict db db"
| step: "acct_run env strict db db1 \<Longrightarrow> (strict \<Longrightarrow> proper call db1) \<Longrightarrow> acct_run env strict db (perform env call db1)"

section \<open>Invariants of the tables\<close>

definition same_identity :: "(user \<Rightarrow> user) \<Rightarrow> bool" where
  "same_identity f \<longleftrightarrow> (\<forall>u. usr_id (f u) = usr_id u \<and> usr_org (f u) = usr_org u \<and> usr_email (f u) = usr_email u
     \<and> usr_role (f u) = usr_role u)"

text \<open>An update that makes nobody an owner.\<close>

definition no_promotion :: "user \<Rightarrow> accounts \<Rightarrow> bool" where
  "no_promotion u db \<longleftrightarrow> (\<exists>r \<in> set (ac_users db). usr_id r = usr_id u \<and> (usr_role u = ''owner'' \<longrightarrow> usr_role r = ''owner''))"

lemma no_promotionI: "no_promotion v db" if "u \<in> set (ac_users db)" "usr_id v = usr_id u" "usr_role v = ''owner'' \<Longrightarrow> usr_role u = ''owner''"
  using that by (auto simp: no_promotion_def)

lemma no_promotion_tick [simp]: "no_promotion u (ac_tick db) = no_promotion u db"
  by (simp add: no_promotion_def)

locale account_rows =
  fixes Inv :: "accounts \<Rightarrow> bool" and strict :: bool
  assumes tick: "Inv db \<Longrightarrow> Inv (ac_tick db)"
    and mailed: "Inv db \<Longrightarrow> Inv (send_mail m db)"
    and columns: "Inv db \<Longrightarrow> same_identity f \<Longrightarrow> Inv (db\<lparr>ac_users := update_where p f (ac_users db)\<rparr>)"
    and updated: "Inv db \<Longrightarrow> no_promotion u db \<Longrightarrow> Inv (snd (user_update u db))"
    and created: "Inv db \<Longrightarrow> (strict \<Longrightarrow> usr_role u \<noteq> ''owner'') \<Longrightarrow> Inv (snd (user_create u db))"
    and deleted: "Inv db \<Longrightarrow> Inv (snd (user_delete i db))"
    and registered: "Inv db \<Longrightarrow> usr_org u = org_id g \<Longrightarrow> Inv (snd (in_tx (register_tx g u) db))"
    and transferred: "Inv db \<Longrightarrow> (strict \<Longrightarrow> owner_now db c) \<Longrightarrow> target \<in> set (ac_users db) \<Longrightarrow>
      usr_org target = cl_org c \<Longrightarrow> usr_id target \<noteq> cl_user c \<Longrightarrow> Inv (snd (in_tx (transfer_tx now c target) db))"
    and key_created: "Inv db \<Longrightarrow> Inv (snd (api_key_create k db))"
    and key_deleted: "Inv db \<Longrightarrow> Inv (snd (api_key_delete i db))"
    and org_deleted: "Inv db \<Longrightarrow> Inv (snd (org_delete org db))"
begin

lemma user_set: "Inv (snd (ac_exec (user_set p f) db))" if "Inv db" "same_identity f"
  using that tick columns by (auto simp: ac_exec_def user_set_def expect_one_row_def split: sum.splits if_splits)

lemma verified: "Inv (snd (mark_email_verified i at db))" if "Inv db"
  unfolding mark_email_verified_def by (rule user_set[OF that]) (simp add: same_identity_def)

lemma disabled: "Inv (snd (user_disable i at db))" if "Inv db"
  unfolding user_disable_def by (rule user_set[OF that]) (simp add: same_identity_def)

lemma enabled: "Inv (snd (user_enable i at db))" if "Inv db"
  unfolding user_enable_def by (rule user_set[OF that]) (simp add: same_identity_def)

lemma sent: "Inv (send_verification env now u db)" if "Inv db"
proof -
  have "same_identity (count_send now)" by (simp add: same_identity_def count_send_def Let_def)
  then have "Inv (snd (record_verification_send i now d))" if "Inv d" for i d
    using that columns tick by (auto simp: record_verification_send_def ac_exec_def)
  with that mailed show ?thesis by (simp add: send_verification_def split: option.splits)
qed

lemma keys_deleted: "Inv (delete_keys ks db)" if "Inv db"
  unfolding delete_keys_def using that by (induction ks arbitrary: db) (auto intro: key_deleted)

lemma saved: "Inv (snd (save_and_grant env now u db))" if "Inv db" "no_promotion u db"
  using updated[OF that] unfolding save_and_grant_def by (auto split: prod.splits option.splits)

lemma registration: "Inv (snd (register_account env now draw raw db))" if "Inv db"
proof -
  have tx: "Inv d" if "in_tx (register_tx g u) db = (r, d)" "usr_org u = org_id g" for g u r d
    using registered[OF \<open>Inv db\<close> that(2)] that(1) by simp
  from that show ?thesis
    by (auto simp: register_account_def Let_def split: prod.splits option.splits
        intro!: verified sent elim!: tx) (simp_all add: new_user_def)
qed

text \<open>A handler step whose result is known up to the pair it returns.\<close>

lemma changed:
  "user_update u db = (r1, d1) \<Longrightarrow> Inv db \<Longrightarrow> no_promotion u db \<Longrightarrow> Inv d1"
  "mark_email_verified i at db = (r2, d2) \<Longrightarrow> Inv db \<Longrightarrow> Inv d2"
  "user_disable i at db = (r3, d3) \<Longrightarrow> Inv db \<Longrightarrow> Inv d3"
  "user_enable i at db = (r4, d4) \<Longrightarrow> Inv db \<Longrightarrow> Inv d4"
  "user_delete i db = (r5, d5) \<Longrightarrow> Inv db \<Longrightarrow> Inv d5"
  "api_key_create k db = (r6, d6) \<Longrightarrow> Inv db \<Longrightarrow> Inv d6"
  "api_key_delete i db = (r7, d7) \<Longrightarrow> Inv db \<Longrightarrow> Inv d7"
  using updated[of db u] verified[of db i at] disabled[of db i at] enabled[of db i at] deleted[of db i]
    key_created[of db k] key_deleted[of db i]
  by simp_all

lemma rewritten:
  assumes "user_update v d = (r, d1)" "Inv d" "u \<in> set (ac_users d)" "usr_id v = usr_id u" "usr_role v = usr_role u"
  shows "Inv d1"
  using changed(1)[OF assms(1,2) no_promotionI[OF assms(3,4)]] assms(5) by simp

lemma password_steps:
  assumes "Inv db" "\<And>u new d. Inv d \<Longrightarrow> u \<in> set (ac_users d) \<Longrightarrow> Inv (snd (body u new d))"
  shows "Inv (snd (with_password env c field raw body db))"
  using assms tick unfolding with_password_def by (auto split: option.splits prod.splits sum.splits dest!: reads)

lemma sign_in:
  assumes "Inv db"
  shows "Inv (snd (login env now raw db))" "Inv (snd (refresh env now c db))"
    "Inv (snd (verify_email env now raw db))" "Inv (snd (resend_verification env now raw db))"
    "Inv (snd (forgot_password env now raw db))"
  using assms tick mailed sent
  by (auto simp: login_def refresh_def verify_email_def resend_verification_def forgot_password_def Let_def
      split: option.splits prod.splits sum.splits dest!: reads elim!: changed)

lemma self_service:
  assumes "Inv db"
  shows "Inv (snd (change_password env now salt c raw db))" "Inv (snd (change_email env now c raw db))"
    "Inv (snd (reset_password env now salt raw db))"
proof -
  have saving: "Inv (snd (save_and_grant env now v d))" if "Inv d" "u \<in> set (ac_users d)" "usr_id v = usr_id u" "usr_role v = usr_role u" for u v d
    by (rule saved[OF that(1) no_promotionI[OF that(2,3)]]) (simp add: that)
  show "Inv (snd (change_password env now salt c raw db))" unfolding change_password_def
    by (rule password_steps[OF assms]) (auto split: option.splits intro: saving)
  show "Inv (snd (change_email env now c raw db))" unfolding change_email_def
    by (rule password_steps[OF assms]) (auto split: prod.splits sum.splits dest!: reads intro: tick saving)
  show "Inv (snd (reset_password env now salt raw db))"
    using assms tick unfolding reset_password_def
    by (auto split: option.splits prod.splits sum.splits if_splits elim!: rewritten dest!: reads)
qed

lemma guarded_by_owner:
  assumes "Inv db" "\<And>d. Inv d \<Longrightarrow> Inv (snd (body d))"
  shows "Inv (snd (owner_guard l a b u body db))"
  using assms tick by (auto simp: owner_guard_def has_company_def split: option.splits prod.splits sum.splits bool.splits dest!: read_tick)

lemma token_steps:
  assumes "Inv db" "\<And>k u d. Inv d \<Longrightarrow> Inv (snd (body k u d))"
  shows "Inv (snd (with_token_user val e raw body db))"
  using assms tick by (auto simp: with_token_user_def split: option.splits prod.splits sum.splits dest!: reads)

lemma closing:
  assumes "Inv db"
  shows "Inv (snd (request_deletion env now c raw db))" "Inv (snd (confirm_deletion env now raw db))"
    "Inv (snd (request_recovery env now raw db))" "Inv (snd (confirm_recovery env now raw db))"
  using assms tick mailed
  by (auto simp: request_deletion_def confirm_deletion_def request_recovery_def confirm_recovery_def
      split: option.splits prod.splits sum.splits intro!: guarded_by_owner token_steps elim!: changed dest!: reads)

lemma cleaned_org: "Inv (cleanup_org org db)" if "Inv db"
  using that tick org_deleted keys_deleted
  by (auto simp: cleanup_org_def split: prod.splits sum.splits list.splits dest!: read_tick)

lemma cleaned_user: "Inv (cleanup_user u db)" if "Inv db"
  using that tick
  by (auto simp: cleanup_user_def split: prod.splits sum.splits option.splits intro!: cleaned_org elim!: changed dest!: reads)

lemma cleaned: "Inv (cleanup_accounts now db)" if "Inv db"
proof -
  have "Inv (foldl (\<lambda>d u. cleanup_user u d) d us)" if "Inv d" for d us
    using that by (induction us arbitrary: d) (auto intro: cleaned_user)
  with that tick show ?thesis
    by (auto simp: cleanup_accounts_def split: prod.splits sum.splits dest!: read_tick)
qed

lemma member_changes:
  assumes "Inv db"
  shows "Inv (snd (update_user now c i raw db))" "Inv (snd (delete_user c i db))"
    "Inv (snd (admin_reset_password env now salt c i raw db))"
proof -
  have "Inv d1" if "user_update (u\<lparr>usr_email := e, usr_name := n, usr_role := patched ro (usr_role u), usr_phone := ph,
      usr_updated_at := t\<rparr>) (ac_tick db) = (r, d1)"
      "u \<in> set (ac_users db)" "(case ro of None \<Rightarrow> None | Some target \<Rightarrow> role_change c u target) = None"
    for u e n ro ph t r d1
    by (rule changed(1)[OF that(1) tick[OF assms] no_promotionI[of u]])
      (use that(2,3) in \<open>auto simp: patched_def role_change_def split: option.splits if_splits\<close>)
  with assms tick show "Inv (snd (update_user now c i raw db))"
    unfolding update_user_def Let_def
    by (fastforce split: option.split prod.split dest!: reads)
  show "Inv (snd (delete_user c i db))"
    using assms tick by (auto simp: delete_user_def split: option.splits prod.splits elim!: changed dest!: reads)
  show "Inv (snd (admin_reset_password env now salt c i raw db))"
    using assms tick unfolding admin_reset_password_def
    by (auto split: option.splits prod.splits if_splits elim!: rewritten dest!: reads)
qed

lemma key_changes:
  assumes "Inv db"
  shows "Inv (snd (create_api_key env now draw c raw db))" "Inv (snd (delete_api_key c i db))"
proof -
  show "Inv (snd (create_api_key env now draw c raw db))"
    using assms unfolding create_api_key_def Let_def by (auto split: option.splits prod.splits elim!: changed)
  show "Inv (snd (delete_api_key c i db))"
    using assms tick unfolding delete_api_key_def
    by (auto split: option.splits prod.splits sum.splits elim!: changed dest!: read_tick)
qed

lemma seats: "snd (seat_check c db) = ac_tick db \<or> snd (seat_check c db) = ac_tick (ac_tick db)"
  by (auto simp: seat_check_def split: prod.splits sum.splits dest!: read_tick)

lemma user_creation:
  assumes "Inv db" "strict \<Longrightarrow> \<not> owner_request raw"
  shows "Inv (snd (create_user env now draw c raw db))"
proof (cases "unmarshal decode_member raw")
  case (Some req)
  have seat: "Inv d" if "seat_check c db = (r, d)" for r d
    using seats[of c db] that assms(1) tick by auto
  have "Inv d" if "user_create (new_user i g e n h (if mr_role req = [] then ''member'' else mr_role req) ph t) d0 = (r, d)"
      "Inv d0" for i g e n h ph t d0 r d
    using created[OF that(2), of "new_user i g e n h (if mr_role req = [] then ''member'' else mr_role req) ph t"] that(1)
      assms(2) Some by (auto simp: new_user_def owner_request_def)
  with seat assms(1) show ?thesis unfolding create_user_def Some
    by (auto simp: Let_def split: prod.splits option.splits intro!: verified)
qed (simp add: create_user_def assms)

lemma transfer:
  assumes "Inv db" "strict \<Longrightarrow> owner_now db c"
  shows "Inv (snd (transfer_ownership env now c raw db))"
proof -
  have "Inv d" if "in_tx (transfer_tx now c u) (ac_tick (ac_tick db)) = (r, d)" "u \<in> set (ac_users db)"
      "usr_org u = cl_org c" "usr_id u \<noteq> cl_user c" for r u d
    using transferred[OF tick[OF tick[OF assms(1)]], of c u now] assms(2) that by (auto simp: owner_now_def)
  with assms(1) tick show ?thesis
    by (auto simp: transfer_ownership_def split: option.splits prod.splits sum.splits dest!: reads)
qed

lemma keeps: "Inv db \<Longrightarrow> (strict \<Longrightarrow> proper call db) \<Longrightarrow> Inv (perform env call db)"
  by (cases call) (auto intro: registration sign_in self_service closing cleaned member_changes key_changes user_creation transfer)

lemma runs_keep: "acct_run env strict db db1 \<Longrightarrow> Inv db \<Longrightarrow> Inv db1"
  by (induction rule: acct_run.induct) (auto intro: keeps)

end

end
