(* ===== verification/AccountInvariants.thy ===== *)
theory AccountInvariants imports AccountLaws begin

text \<open>
  The two invariants of the account tables: the constraints of the schema, kept by every run, and one
  owner at most in an organisation, kept by the runs that create no owner and transfer no ownership on
  the word of an old token.
\<close>

section \<open>The schema\<close>

definition users_ok :: "user list \<Rightarrow> string list \<Rightarrow> bool" where
  "users_ok us orgs \<longleftrightarrow> distinct (map usr_id us) \<and> distinct (map usr_email us) \<and> (\<forall>u \<in> set us. usr_org u \<in> set orgs)"

definition keys_ok :: "api_key list \<Rightarrow> string list \<Rightarrow> bool" where
  "keys_ok ks orgs \<longleftrightarrow> distinct (map ak_id ks) \<and> distinct (map ak_hash ks) \<and> (\<forall>k \<in> set ks. ak_org k \<in> set orgs)"

definition wellformed :: "accounts \<Rightarrow> bool" where
  "wellformed db \<longleftrightarrow> distinct (map org_id (ac_orgs db)) \<and> users_ok (ac_users db) (map org_id (ac_orgs db))
     \<and> keys_ok (ac_keys db) (map org_id (ac_orgs db))"

lemma wellformed_cong:
  "ac_users db = ac_users d \<Longrightarrow> ac_orgs db = ac_orgs d \<Longrightarrow> ac_keys db = ac_keys d \<Longrightarrow> wellformed db = wellformed d"
  by (simp add: wellformed_def)

lemma users_ok_row: "users_ok us orgs \<Longrightarrow> u \<in> set us \<Longrightarrow> v \<in> set us \<Longrightarrow> usr_id u = usr_id v \<Longrightarrow> u = v"
  by (auto simp: users_ok_def distinct_map dest: inj_onD)

lemma set_user_columns_simps [simp]:
  "usr_id (set_user_columns u r) = usr_id r" "usr_org (set_user_columns u r) = usr_org r"
  "usr_email (set_user_columns u r) = usr_email u" "usr_role (set_user_columns u r) = usr_role u"
  by (simp_all add: set_user_columns_def)

lemma wellformed_row: "u = v" if "wellformed db" "u \<in> set (ac_users db)" "v \<in> set (ac_users db)" "usr_id u = usr_id v"
  using that users_ok_row unfolding wellformed_def by blast

lemma wellformed_member: "usr_org u \<in> set (map org_id (ac_orgs db))" if "wellformed db" "u \<in> set (ac_users db)"
  using that by (simp add: wellformed_def users_ok_def)

lemma users_ok_columns: "users_ok (update_where p f us) orgs" if "users_ok us orgs" "same_identity f"
proof -
  have "map g (update_where p f us) = map g us" if "\<And>u. g (f u) = g u" for g :: "user \<Rightarrow> string"
    by (rule map_update_where) (rule that)
  with that show ?thesis by (auto simp: users_ok_def same_identity_def set_update_where)
qed

lemma users_ok_delete: "users_ok (delete_where p us) orgs" if "users_ok us orgs"
  using that by (auto simp: users_ok_def distinct_map_delete_where)

lemma keys_ok_delete: "keys_ok (delete_where p ks) orgs" if "keys_ok ks orgs"
  using that by (auto simp: keys_ok_def distinct_map_delete_where)

lemma distinct_map_set_columns:
  assumes "distinct (map usr_id us)" "distinct (map usr_email us)"
    "\<And>r. r \<in> set us \<Longrightarrow> usr_id r \<noteq> usr_id u \<Longrightarrow> usr_email r \<noteq> usr_email u"
  shows "distinct (map usr_email (update_where (\<lambda>r. usr_id r = usr_id u) (set_user_columns u) us))"
  using assms
proof (induction us)
  case (Cons r us)
  show ?case
  proof (cases "usr_id r = usr_id u")
    case True
    then have others: "usr_id v \<noteq> usr_id u" if "v \<in> set us" for v using that Cons.prems(1) by (auto simp: image_iff)
    with Cons.prems(3) have "usr_email u \<notin> usr_email ` set us" by force
    moreover from others
    have "update_where (\<lambda>r. usr_id r = usr_id u) (set_user_columns u) us = us" by (intro update_where_none) auto
    ultimately show ?thesis using True Cons.prems by simp
  next
    case False
    with Cons show ?thesis by (auto simp: set_update_where)
  qed
qed simp

lemma users_ok_update:
  assumes "users_ok us orgs" "\<And>r. r \<in> set us \<Longrightarrow> usr_id r \<noteq> usr_id u \<Longrightarrow> usr_email r \<noteq> usr_email u"
  shows "users_ok (update_where (\<lambda>r. usr_id r = usr_id u) (set_user_columns u) us) orgs"
proof -
  have "map g (update_where p (set_user_columns u) us) = map g us"
    if "\<And>r. g (set_user_columns u r) = g r" for g :: "user \<Rightarrow> string" and p
    by (rule map_update_where) (rule that)
  with assms distinct_map_set_columns[of us u] show ?thesis
    by (auto simp: users_ok_def set_update_where)
qed

lemma update_cases:
  assumes "user_update u db = (r, d)"
  obtains "r \<noteq> None" "d = ac_tick db"
  | "r = None" "usr_id u \<in> usr_id ` set (ac_users db)"
    "\<And>x. x \<in> set (ac_users db) \<Longrightarrow> usr_id x \<noteq> usr_id u \<Longrightarrow> usr_email x \<noteq> usr_email u"
    "d = ac_tick (db\<lparr>ac_users := update_where (\<lambda>r. usr_id r = usr_id u) (set_user_columns u) (ac_users db)\<rparr>)"
  using assms by (auto simp: user_update_def ac_exec_def expect_one_row_def split: if_splits sum.splits)

lemma wellformed_update: "user_update u db = (r, d) \<Longrightarrow> wellformed db \<Longrightarrow> wellformed d"
  by (elim update_cases) (auto simp: wellformed_def intro: users_ok_update)

lemma wellformed_create: "user_create u db = (r, d) \<Longrightarrow> wellformed db \<Longrightarrow> wellformed d"
  by (auto simp: user_create_def ac_exec_def wellformed_def users_ok_def new_user_row_def split: if_splits sum.splits)

lemma wellformed_org: "org_create g db = (r, d) \<Longrightarrow> wellformed db \<Longrightarrow> wellformed d"
  by (auto simp: org_create_def ac_exec_def wellformed_def users_ok_def keys_ok_def stored_org_def split: if_splits sum.splits)

lemma insert_states_frame:
  "insert_states bs db = (r, d) \<Longrightarrow> ac_users d = ac_users db \<and> ac_orgs d = ac_orgs db \<and> ac_keys d = ac_keys db"
  by (induction bs arbitrary: db) (auto simp: ac_exec_def split: if_splits prod.splits)

lemma restore_simps [simp]:
  "ac_users (ac_restore db d) = ac_users db" "ac_orgs (ac_restore db d) = ac_orgs db" "ac_keys (ac_restore db d) = ac_keys db"
  by (simp_all add: ac_restore_def)

lemma in_tx_cases:
  assumes "in_tx body db = (r, d)"
  obtains "r \<noteq> None" "ac_users d = ac_users db" "ac_orgs d = ac_orgs db" "ac_keys d = ac_keys db"
  | d1 where "r = None" "body (ac_tick db) = (None, d1)" "d = ac_tick d1"
  using assms by (auto simp: in_tx_def split: if_splits prod.splits option.splits)

lemma wellformed_register: "in_tx (register_tx g u) db = (r, d) \<Longrightarrow> wellformed db \<Longrightarrow> wellformed d"
proof (elim in_tx_cases)
  fix d1 assume body: "register_tx g u (ac_tick db) = (None, d1)" and "d = ac_tick d1" "wellformed db"
  moreover from \<open>wellformed db\<close> have "wellformed (ac_tick db)" by (simp add: wellformed_def)
  ultimately show "wellformed d"
    by (auto simp: register_tx_def seed_builtins_def split: prod.splits option.splits
        dest!: insert_states_frame wellformed_org wellformed_create) (simp_all add: wellformed_def)
qed (simp add: wellformed_def)

lemma wellformed_transfer: "in_tx (transfer_tx now c target) db = (r, d) \<Longrightarrow> wellformed db \<Longrightarrow> wellformed d"
proof (elim in_tx_cases)
  fix d1 assume body: "transfer_tx now c target (ac_tick db) = (None, d1)" and "d = ac_tick d1" "wellformed db"
  moreover from \<open>wellformed db\<close> have "wellformed (ac_tick db)" by (simp add: wellformed_def)
  moreover have "wellformed (ac_tick x) = wellformed x" for x by (simp add: wellformed_def)
  ultimately show "wellformed d"
    by (auto simp: transfer_tx_def split: prod.splits option.splits sum.splits dest!: reads wellformed_update)
qed (simp add: wellformed_def)

lemma empty_table_frame:
  "ac_orgs (empty_table org t db) = ac_orgs db"
  "\<exists>p. ac_users (empty_table org t db) = delete_where p (ac_users db)"
  "\<exists>p. ac_keys (empty_table org t db) = delete_where p (ac_keys db)"
proof -
  have none: "delete_where (\<lambda>_. False) (ac_users db) = ac_users db" "delete_where (\<lambda>_. False) (ac_keys db) = ac_keys db"
    by (simp_all add: delete_where_def)
  show "ac_orgs (empty_table org t db) = ac_orgs db" by (auto simp: empty_table_def ac_exec_def)
  show "\<exists>p. ac_users (empty_table org t db) = delete_where p (ac_users db)"
    "\<exists>p. ac_keys (empty_table org t db) = delete_where p (ac_keys db)"
    using none by (auto simp: empty_table_def ac_exec_def intro: exI[of _ "\<lambda>_. False"])
qed

lemma wellformed_empty: "wellformed (empty_table org t db)" if "wellformed db"
  using that empty_table_frame[of org t db] by (auto simp: wellformed_def intro: users_ok_delete keys_ok_delete)

lemma wellformed_org_delete: "wellformed (snd (org_delete i db))" if "wellformed db"
proof -
  define d where "d = foldl (\<lambda>d t. empty_table i t d) db (org_tables @ [''monitor_checks'', ''monitor_rollups''])"
  have "wellformed (foldl (\<lambda>d t. empty_table i t d) d ts)" if "wellformed d" for d ts
    using that by (induction ts arbitrary: d) (auto intro: wellformed_empty)
  then have "wellformed d" using that unfolding d_def by blast
  moreover have "org_id ` {r \<in> set gs. org_id r \<noteq> i} = org_id ` set gs - {i}" for gs :: "org list" by auto
  ultimately show ?thesis unfolding org_delete_def Let_def d_def[symmetric]
    by (auto simp: ac_exec_def wellformed_def users_ok_def keys_ok_def distinct_map_delete_where split: sum.splits if_splits)
qed

lemma wellformed_keys:
  "wellformed db \<Longrightarrow> wellformed (snd (api_key_create k db))" "wellformed db \<Longrightarrow> wellformed (snd (api_key_delete i db))"
  by (auto simp: api_key_create_def api_key_delete_def ac_exec_def expect_one_row_def wellformed_def keys_ok_def
      distinct_map_delete_where split: sum.splits if_splits)

lemma wellformed_delete: "wellformed db \<Longrightarrow> wellformed (snd (user_delete i db))"
  by (auto simp: user_delete_def ac_exec_def expect_one_row_def wellformed_def users_ok_delete split: sum.splits if_splits)

interpretation schema: account_rows wellformed False
proof
  fix db u show "wellformed db \<Longrightarrow> wellformed (snd (user_update u db))" by (cases "user_update u db") (auto dest: wellformed_update)
  show "wellformed db \<Longrightarrow> wellformed (snd (user_create u db))" by (cases "user_create u db") (auto dest: wellformed_create)
  fix g show "wellformed db \<Longrightarrow> wellformed (snd (in_tx (register_tx g u) db))"
    by (cases "in_tx (register_tx g u) db") (auto dest: wellformed_register)
  fix now c target show "wellformed db \<Longrightarrow> wellformed (snd (in_tx (transfer_tx now c target) db))"
    by (cases "in_tx (transfer_tx now c target) db") (auto dest: wellformed_transfer)
qed (auto simp: wellformed_delete wellformed_keys wellformed_org_delete, auto simp: wellformed_def users_ok_columns)

section \<open>One owner\<close>

definition is_owner :: "user \<Rightarrow> bool" where
  "is_owner u \<longleftrightarrow> usr_role u = ''owner''"

definition owners_of :: "string \<Rightarrow> accounts \<Rightarrow> user list" where
  "owners_of org db = filter (\<lambda>u. usr_org u = org \<and> is_owner u) (ac_users db)"

definition sole_owners :: "user list \<Rightarrow> bool" where
  "sole_owners us \<longleftrightarrow> (\<forall>u \<in> set us. \<forall>v \<in> set us. is_owner u \<longrightarrow> is_owner v \<longrightarrow> usr_org u = usr_org v \<longrightarrow> usr_id u = usr_id v)"

definition one_owner :: "accounts \<Rightarrow> bool" where
  "one_owner db \<longleftrightarrow> sole_owners (ac_users db)"

lemma sole_ownersD:
  "sole_owners us \<Longrightarrow> u \<in> set us \<Longrightarrow> v \<in> set us \<Longrightarrow> is_owner u \<Longrightarrow> is_owner v \<Longrightarrow> usr_org u = usr_org v \<Longrightarrow> usr_id u = usr_id v"
  unfolding sole_owners_def by blast

lemma sole_ownersI:
  "(\<And>u v. u \<in> set us \<Longrightarrow> v \<in> set us \<Longrightarrow> is_owner u \<Longrightarrow> is_owner v \<Longrightarrow> usr_org u = usr_org v \<Longrightarrow> usr_id u = usr_id v) \<Longrightarrow> sole_owners us"
  unfolding sole_owners_def by blast

text \<open>Every owner of the new rows was one before, under the same id and organisation.\<close>

lemma sole_owners_mono:
  assumes "sole_owners us"
    "\<And>v. v \<in> set vs \<Longrightarrow> is_owner v \<Longrightarrow> \<exists>u \<in> set us. is_owner u \<and> usr_id u = usr_id v \<and> usr_org u = usr_org v"
  shows "sole_owners vs"
  by (rule sole_ownersI) (metis assms sole_ownersD)

lemma is_owner_columns [simp]: "is_owner (set_user_columns u r) = is_owner u"
  by (simp add: is_owner_def)

lemma short_list: "length xs \<le> 1" if "distinct xs" "\<And>x y. x \<in> set xs \<Longrightarrow> y \<in> set xs \<Longrightarrow> x = y"
proof (cases xs rule: remdups_adj.cases)
  case (3 x y zs)
  with that(1) that(2)[of x y] show ?thesis by simp
qed simp_all

lemma owners_counted: "length (owners_of org db) \<le> 1" if "wellformed db" "one_owner db"
proof -
  have "distinct (owners_of org db)"
    using that by (simp add: owners_of_def wellformed_def users_ok_def distinct_map)
  moreover have "x = y" if "x \<in> set (owners_of org db)" "y \<in> set (owners_of org db)" for x y
  proof (rule wellformed_row[OF \<open>wellformed db\<close>])
    show "x \<in> set (ac_users db)" "y \<in> set (ac_users db)" using that by (simp_all add: owners_of_def)
    from that show "usr_id x = usr_id y"
      using sole_ownersD[OF \<open>one_owner db\<close>[unfolded one_owner_def], of x y] by (simp add: owners_of_def)
  qed
  ultimately show ?thesis by (rule short_list)
qed

lemma one_owner_smaller: "one_owner db \<Longrightarrow> set (ac_users d) \<subseteq> set (ac_users db) \<Longrightarrow> one_owner d"
  unfolding one_owner_def by (erule sole_owners_mono) blast

lemma one_owner_columns:
  "one_owner (db\<lparr>ac_users := update_where p f (ac_users db)\<rparr>)" if "one_owner db" "same_identity f"
  using that(1) unfolding one_owner_def
  by (rule sole_owners_mono) (use that(2) in \<open>auto simp: same_identity_def is_owner_def set_update_where\<close>)

lemma one_owner_update:
  assumes "user_update u db = (r, d)" "one_owner db" "wellformed db" "no_promotion u db"
  shows "one_owner d"
  using assms(1)
proof (cases rule: update_cases)
  case 2
  obtain x where x: "x \<in> set (ac_users db)" "usr_id x = usr_id u" "is_owner u \<longrightarrow> is_owner x"
    using assms(4) by (auto simp: no_promotion_def is_owner_def)
  have same: "y = x" if "y \<in> set (ac_users db)" "usr_id y = usr_id u" for y
    using wellformed_row[OF assms(3) that(1) x(1)] that x by simp
  show ?thesis using assms(2) unfolding one_owner_def
  proof (rule sole_owners_mono)
    fix v assume "v \<in> set (ac_users d)" "is_owner v"
    with x show "\<exists>u \<in> set (ac_users db). is_owner u \<and> usr_id u = usr_id v \<and> usr_org u = usr_org v"
      by (auto simp: 2(4) set_update_where dest: same)
  qed
qed (use assms in \<open>simp add: one_owner_def\<close>)

lemma one_owner_create:
  assumes "user_create u db = (r, d)" "one_owner db" "\<And>v. is_owner u \<Longrightarrow> v \<in> set (ac_users db) \<Longrightarrow> usr_org v \<noteq> usr_org u"
  shows "one_owner d"
proof -
  have row: "is_owner (new_user_row u) = is_owner u" "usr_org (new_user_row u) = usr_org u" "usr_id (new_user_row u) = usr_id u"
    by (simp_all add: new_user_row_def is_owner_def)
  have "ac_users d = ac_users db \<or> ac_users d = ac_users db @ [new_user_row u]"
    using assms(1) by (auto simp: user_create_def ac_exec_def split: if_splits sum.splits)
  then show ?thesis
  proof
    assume d: "ac_users d = ac_users db @ [new_user_row u]"
    show ?thesis unfolding one_owner_def d
    proof (rule sole_ownersI)
      fix x y assume *: "x \<in> set (ac_users db @ [new_user_row u])" "y \<in> set (ac_users db @ [new_user_row u])"
        "is_owner x" "is_owner y" "usr_org x = usr_org y"
      show "usr_id x = usr_id y"
        using * assms(3) row sole_ownersD[OF assms(2)[unfolded one_owner_def], of x y] by fastforce
    qed
  qed (use assms in \<open>simp add: one_owner_def\<close>)
qed

lemma one_owner_register:
  assumes "in_tx (register_tx g u) db = (r, d)" "one_owner db" "wellformed db" "usr_org u = org_id g"
  shows "one_owner d"
  using assms(1)
proof (cases rule: in_tx_cases)
  case (2 d1)
  obtain d2 d3 where org: "org_create g (ac_tick db) = (None, d2)" and user: "user_create u d2 = (None, d3)"
    and seed: "seed_builtins (org_id g) d3 = (None, d1)"
    using 2(2) by (auto simp: register_tx_def split: prod.splits option.splits)
  have d2: "ac_users d2 = ac_users db" "org_id g \<notin> set (map org_id (ac_orgs db))"
    using org by (auto simp: org_create_def ac_exec_def split: if_splits sum.splits)
  have "usr_org v \<noteq> usr_org u" if "v \<in> set (ac_users db)" for v
    using wellformed_member[OF assms(3) that] d2(2) assms(4) by auto
  with assms(2) d2 have "one_owner d3"
    by (intro one_owner_create[OF user]) (simp_all add: one_owner_def)
  with insert_states_frame[OF seed[unfolded seed_builtins_def]] 2 show ?thesis by (simp add: one_owner_def)
qed (use assms in \<open>simp add: one_owner_def\<close>)

lemma one_owner_transfer:
  assumes "in_tx (transfer_tx now c target) db = (r, d)" "one_owner db" "wellformed db" "owner_now db c"
    "target \<in> set (ac_users db)" "usr_org target = cl_org c" "usr_id target \<noteq> cl_user c"
  shows "one_owner d"
  using assms(1)
proof (cases rule: in_tx_cases)
  case (2 d1)
  define t where "t = target\<lparr>usr_role := ''owner'', usr_updated_at := time_truncate second now\<rparr>"
  obtain d2 caller d3 where first: "user_update t (ac_tick db) = (None, d2)"
    and found: "user_by_id (cl_user c) d2 = (Inr caller, d3)"
    and second: "user_update (caller\<lparr>usr_role := ''admin'', usr_updated_at := time_truncate second now\<rparr>) d3 = (None, d1)"
    using 2(2) by (auto simp: transfer_tx_def t_def split: prod.splits option.splits sum.splits)
  define a where "a = caller\<lparr>usr_role := ''admin'', usr_updated_at := time_truncate second now\<rparr>"
  have caller: "usr_id caller = cl_user c" "d3 = ac_tick d2" "caller \<in> set (ac_users d2)" using reads(2)[OF found] by auto
  have d2: "ac_users d2 = update_where (\<lambda>x. usr_id x = usr_id target) (set_user_columns t) (ac_users db)"
    using first by (elim update_cases) (simp_all add: t_def)
  have d1: "ac_users d1 = update_where (\<lambda>x. usr_id x = cl_user c) (set_user_columns a) (ac_users d2)"
    using second caller by (elim update_cases) (simp_all add: a_def)
  have not: "\<not> is_owner a" by (simp add: a_def is_owner_def)
  have only: "y = target" if "y \<in> set (ac_users db)" "usr_id y = usr_id target" for y
    using wellformed_row[OF assms(3) that(1) assms(5)] that by simp
  have row: "usr_id x = usr_id target \<and> usr_org x = cl_org c \<or>
      usr_id x \<noteq> cl_user c \<and> x \<in> set (ac_users db)" if "x \<in> set (ac_users d1)" "is_owner x" for x
    using that not assms(6) only by (auto simp: d1 d2 set_update_where dest: only)
  obtain b where b: "b \<in> set (ac_users db)" "usr_id b = cl_user c"
    using caller(1,3) assms(7) by (auto simp: d2 set_update_where)
  with assms(4) have "is_owner b" "usr_org b = cl_org c" by (auto simp: owner_now_def is_owner_def)
  with b have other: "usr_org y \<noteq> cl_org c" if "y \<in> set (ac_users db)" "is_owner y" "usr_id y \<noteq> cl_user c" for y
    using that sole_ownersD[OF assms(2)[unfolded one_owner_def], of y b] by auto
  have "one_owner d1" unfolding one_owner_def
  proof (rule sole_ownersI)
    fix u v assume *: "u \<in> set (ac_users d1)" "v \<in> set (ac_users d1)" "is_owner u" "is_owner v" "usr_org u = usr_org v"
    show "usr_id u = usr_id v"
      using row[OF *(1,3)] row[OF *(2,4)] other[of u] other[of v] *(3-5)
        sole_ownersD[OF assms(2)[unfolded one_owner_def], of u v] by auto
  qed
  with 2 show ?thesis by (simp add: one_owner_def)
qed (use assms in \<open>simp add: one_owner_def\<close>)

lemma empty_tables_users: "set (ac_users (foldl (\<lambda>d t. empty_table i t d) db ts)) \<subseteq> set (ac_users db)"
proof (induction ts arbitrary: db)
  case (Cons t ts)
  obtain p where "ac_users (empty_table i t db) = delete_where p (ac_users db)" using empty_table_frame(2) by blast
  with Cons[of "empty_table i t db"] show ?case by auto
qed simp

lemma one_owner_org_delete: "one_owner (snd (org_delete i db))" if "one_owner db"
proof (rule one_owner_smaller[OF that])
  define d where "d = foldl (\<lambda>d t. empty_table i t d) db (org_tables @ [''monitor_checks'', ''monitor_rollups''])"
  have "ac_users (snd (org_delete i db)) = ac_users d" unfolding org_delete_def Let_def d_def[symmetric]
    by (simp add: ac_exec_def split: sum.split)
  then show "set (ac_users (snd (org_delete i db))) \<subseteq> set (ac_users db)" unfolding d_def by (simp only: empty_tables_users)
qed

interpretation ownership: account_rows "\<lambda>db. wellformed db \<and> one_owner db" True
proof
  fix db u show "wellformed db \<and> one_owner db \<Longrightarrow> no_promotion u db \<Longrightarrow>
      wellformed (snd (user_update u db)) \<and> one_owner (snd (user_update u db))"
    using schema.updated[of db u] by (cases "user_update u db") (auto dest: one_owner_update)
  show "wellformed (snd (user_create u db)) \<and> one_owner (snd (user_create u db))"
    if "wellformed db \<and> one_owner db" "True \<Longrightarrow> usr_role u \<noteq> ''owner''"
    using that schema.created[of db u] by (cases "user_create u db") (auto dest: one_owner_create simp: is_owner_def)
  fix g show "wellformed db \<and> one_owner db \<Longrightarrow> usr_org u = org_id g \<Longrightarrow>
      wellformed (snd (in_tx (register_tx g u) db)) \<and> one_owner (snd (in_tx (register_tx g u) db))"
    using schema.registered[of db u g] by (cases "in_tx (register_tx g u) db") (auto dest: one_owner_register)
  fix now c target show "wellformed (snd (in_tx (transfer_tx now c target) db)) \<and> one_owner (snd (in_tx (transfer_tx now c target) db))"
    if "wellformed db \<and> one_owner db" "True \<Longrightarrow> owner_now db c" "target \<in> set (ac_users db)"
      "usr_org target = cl_org c" "usr_id target \<noteq> cl_user c"
    using that schema.transferred[of db c target now]
    by (cases "in_tx (transfer_tx now c target) db") (auto dest: one_owner_transfer)
  fix f p show "wellformed db \<and> one_owner db \<Longrightarrow> same_identity f \<Longrightarrow>
      wellformed (db\<lparr>ac_users := update_where p f (ac_users db)\<rparr>) \<and> one_owner (db\<lparr>ac_users := update_where p f (ac_users db)\<rparr>)"
    by (simp add: schema.columns one_owner_columns)
  have users: "set (ac_users (snd (user_delete i db))) \<subseteq> set (ac_users db)"
    "ac_users (snd (api_key_create k db)) = ac_users db" "ac_users (snd (api_key_delete i db)) = ac_users db" for i k
    by (auto simp: user_delete_def api_key_create_def api_key_delete_def ac_exec_def expect_one_row_def split: sum.splits if_splits)
  fix i show "wellformed db \<and> one_owner db \<Longrightarrow> wellformed (snd (user_delete i db)) \<and> one_owner (snd (user_delete i db))"
    using one_owner_smaller[OF _ users(1)] wellformed_delete by blast
  fix k show "wellformed db \<and> one_owner db \<Longrightarrow> wellformed (snd (api_key_create k db)) \<and> one_owner (snd (api_key_create k db))"
    by (simp add: wellformed_keys one_owner_def users)
  show "wellformed db \<and> one_owner db \<Longrightarrow> wellformed (snd (api_key_delete i db)) \<and> one_owner (snd (api_key_delete i db))"
    by (simp add: wellformed_keys one_owner_def users)
qed (auto simp: wellformed_org_delete one_owner_org_delete, auto simp: wellformed_def one_owner_def)

end
