(* ===== verification/AccessLaws.thy ===== *)
theory AccessLaws imports AccountInvariants begin

text \<open>
  What tokens and middleware promise: a token is good for the one purpose it was issued for until it
  expires, and a request that passes the guards of the main routes comes from an account in good
  standing. The routes outside those guards, and API keys, promise less.
\<close>

section \<open>Tokens\<close>

text \<open>
  The documented behaviour of the token library, for tokens signed with the issuer's secret: parsing
  gives the claims back while they have not expired and name the audience asked for.
\<close>

definition token_fits :: "gotime \<Rightarrow> string option \<Rightarrow> claims \<Rightarrow> bool" where
  "token_fits now aud c \<longleftrightarrow>
     (\<forall>e \<in> set_option (cl_expires_at c). now < e) \<and> (\<forall>a \<in> set_option aud. a \<in> set (cl_audience c))"

definition jwt_sound :: "auth_env \<Rightarrow> bool" where
  "jwt_sound env \<longleftrightarrow> (\<forall>c tok now aud. ae_sign env c = Some tok \<longrightarrow>
     ae_parse env now aud tok = (if token_fits now aud c then Some c else None))"

lemma jwt_soundD:
  "jwt_sound env \<Longrightarrow> ae_sign env c = Some tok \<Longrightarrow> ae_parse env now aud tok = (if token_fits now aud c then Some c else None)"
  by (simp add: jwt_sound_def)

datatype purpose = Session | MfaChallenge | PasswordResetLink | EmailLink | DeletionLink | RecoveryLink

fun issue_for :: "purpose \<Rightarrow> auth_env \<Rightarrow> gotime \<Rightarrow> string \<Rightarrow> string \<Rightarrow> string \<Rightarrow> string \<Rightarrow> string option" where
  "issue_for Session env now user org txt pwhash = issue env now user org txt"
| "issue_for MfaChallenge env now user org txt pwhash = issue_mfa env now user org txt"
| "issue_for PasswordResetLink env now user org txt pwhash = issue_password_reset env now user org txt pwhash"
| "issue_for EmailLink env now user org txt pwhash = issue_email_verification env now user org txt"
| "issue_for DeletionLink env now user org txt pwhash = issue_account_deletion env now user org txt pwhash"
| "issue_for RecoveryLink env now user org txt pwhash = issue_account_recovery env now user org txt pwhash"

fun validate_for :: "purpose \<Rightarrow> auth_env \<Rightarrow> gotime \<Rightarrow> string \<Rightarrow> claims option" where
  "validate_for Session = validate"
| "validate_for MfaChallenge = validate_mfa"
| "validate_for PasswordResetLink = validate_password_reset"
| "validate_for EmailLink = validate_email_verification"
| "validate_for DeletionLink = validate_account_deletion"
| "validate_for RecoveryLink = validate_account_recovery"

fun lifetime :: "auth_env \<Rightarrow> purpose \<Rightarrow> int" where
  "lifetime env Session = ae_ttl env"
| "lifetime env MfaChallenge = 5 * minute"
| "lifetime env EmailLink = 24 * 60 * minute"
| "lifetime env p = 60 * minute"

definition bound_to_password :: "purpose \<Rightarrow> bool" where
  "bound_to_password p \<longleftrightarrow> p \<in> {PasswordResetLink, DeletionLink, RecoveryLink}"

fun audience :: "purpose \<Rightarrow> string list" where
  "audience Session = []"
| "audience MfaChallenge = [''mfa'']"
| "audience PasswordResetLink = [''password-reset'']"
| "audience EmailLink = [''email-verification'']"
| "audience DeletionLink = [''account-delete'']"
| "audience RecoveryLink = [''account-recover'']"

lemmas issue_defs = issue_def issue_mfa_def issue_password_reset_def issue_email_verification_def
  issue_account_deletion_def issue_account_recovery_def

lemmas validate_defs = validate_def validate_mfa_def validate_password_reset_def validate_email_verification_def
  validate_account_deletion_def validate_account_recovery_def

lemma issue_for_signs: "issue_for p env now user org txt pwhash =
   ae_sign env (new_claims env now (lifetime env p) (audience p) user org txt
     (if bound_to_password p then password_reset_nonce env pwhash else []))"
  by (cases p) (simp_all add: issue_defs bound_to_password_def)

lemma validate_for_parses:
  assumes "\<And>aud. ae_parse env now aud tok = (if token_fits now aud c then Some c else None)" "cl_audience c = audience p"
  shows "validate_for q env now tok = (if p = q \<and> token_fits now None c then Some c else None)"
  using assms(2) by (cases p; cases q) (simp_all add: validate_defs assms(1) token_fits_def)

lemma issued_claims:
  assumes "jwt_sound env" "issue_for p env now user org txt pwhash = Some tok"
  shows "validate_for q env now' tok =
    (if p = q \<and> now' < ae_date env (now + lifetime env p)
     then Some (new_claims env now (lifetime env p) (audience p) user org txt
       (if bound_to_password p then password_reset_nonce env pwhash else [])) else None)"
  using validate_for_parses[OF jwt_soundD[OF assms(1) assms(2)[unfolded issue_for_signs]]]
  by (cases "p = q") (simp_all add: token_fits_def new_claims_def)

text \<open>
  C13: A token issued for one purpose (session, second factor, password reset, address verification,
  account deletion or recovery) is accepted for that purpose, until it expires, with the user,
  organisation, text and password fingerprint it was issued with, and for no other purpose at any
  time: in particular no mailed link works as a session.
\<close>

theorem tokens_serve_one_purpose:
  assumes "jwt_sound env" "issue_for p env now user org txt pwhash = Some tok"
  shows "map_option (\<lambda>c. (cl_user c, cl_org c, cl_role c, cl_nonce c)) (validate_for q env now' tok) =
    (if p = q \<and> now' < ae_date env (now + lifetime env p)
     then Some (user, org, txt, if bound_to_password p then password_reset_nonce env pwhash else []) else None)"
  unfolding issued_claims[OF assms] by (auto simp: new_claims_def)

lemma session_claims:
  assumes "jwt_sound env" "issue env now user org role = Some tok" "now' < ae_date env (now + ae_ttl env)"
  shows "validate env now' tok = Some (new_claims env now (ae_ttl env) [] user org role [])"
  using issued_claims[of env Session now user org role "[]" tok Session now'] assms by (simp add: bound_to_password_def)

section \<open>Guards\<close>

lemma run_guard_frame: "run_guard g r c db = (x, d) \<Longrightarrow> ac_users d = ac_users db"
  by (cases g) (auto split: prod.splits sum.splits if_splits dest!: reads)

lemma run_guards_pass:
  "run_guards gs r c db = (None, d) \<Longrightarrow> g \<in> set gs \<Longrightarrow>
   \<exists>d0 d1. ac_users d0 = ac_users db \<and> run_guard g r c d0 = (None, d1)"
proof (induction gs arbitrary: db)
  case (Cons h gs)
  then obtain d1 where h: "run_guard h r c db = (None, d1)" "run_guards gs r c d1 = (None, d)"
    by (auto split: prod.splits option.splits)
  with Cons run_guard_frame[OF h(1)] show ?case by (cases "g = h") fastforce+
qed simp

lemma authenticate_cases:
  assumes "authenticate env now r db = (Inr c, d)"
  obtains tok where "request_token r = Inr tok" "validate env now tok = Some c" "d = db"
  | tok k secret where "request_token r = Inr tok" "ae_hasher env = Some secret" "k \<in> set (ac_keys db)"
    "ak_hash k = hasher_hash env secret tok" "cl_user c = ak_created_by k" "cl_org c = ak_org k"
    "cl_role c = ''api_key''" "cl_scopes c = ak_scopes k" "ac_users d = ac_users db"
proof -
  have key: "x \<in> set (ac_keys db) \<and> ak_hash x = h \<and> e = ac_tick db" if "api_key_by_hash h db = (Inr x, e)" for x h e
    using ac_query_cases[OF that[unfolded api_key_by_hash_def]] by (auto simp: one_row_find dest: find_SomeD)
  have used: "ac_users (snd (api_key_used i at e)) = ac_users e" for i at e
    by (auto simp: api_key_used_def ac_exec_def expect_one_row_def split: sum.splits if_splits)
  from assms show thesis
    by (auto simp: authenticate_def used split: sum.splits option.splits prod.splits if_splits
        dest!: key intro: that)
qed

lemma guarded_route_standing: "(m, p, gs) \<in> set guarded_routes \<Longrightarrow> set standing \<subseteq> set gs"
proof -
  have "list_all (\<lambda>(m, p, gs). list_all (\<lambda>g. g \<in> set gs) standing) guarded_routes" by code_simp
  then show "(m, p, gs) \<in> set guarded_routes \<Longrightarrow> set standing \<subseteq> set gs" by (auto simp: list_all_iff)
qed

text \<open>The credential behind the claims of a request.\<close>

definition key_claims :: "api_key \<Rightarrow> claims \<Rightarrow> bool" where
  "key_claims k c \<longleftrightarrow> cl_user c = ak_created_by k \<and> cl_org c = ak_org k \<and> cl_role c = ''api_key'' \<and> cl_scopes c = ak_scopes k"

definition credential :: "auth_env \<Rightarrow> gotime \<Rightarrow> api_request \<Rightarrow> api_key list \<Rightarrow> claims \<Rightarrow> bool" where
  "credential env now r keys c \<longleftrightarrow> (\<exists>tok. request_token r = Inr tok \<and> (validate env now tok = Some c \<or>
     (\<exists>secret k. ae_hasher env = Some secret \<and> k \<in> set keys \<and> ak_hash k = hasher_hash env secret tok \<and> key_claims k c)))"

text \<open>What a guard is for.\<close>

fun guard_holds :: "api_request \<Rightarrow> claims \<Rightarrow> user list \<Rightarrow> guard \<Rightarrow> bool" where
  "guard_holds r c us LiveAccount \<longleftrightarrow>
     cl_role c = ''api_key'' \<or> (\<exists>u \<in> set us. usr_id u = cl_user c \<and> usr_disabled_at u = None)"
| "guard_holds r c us WriteAccess \<longleftrightarrow>
     ar_method r \<in> {''GET'', ''HEAD'', ''OPTIONS''} \<or> cl_role c \<noteq> ''api_key'' \<or> cl_scopes c = []
     \<or> (\<exists>s \<in> set (cl_scopes c). s \<noteq> ''read'' \<and> \<not> has_read_suffix s)"
| "guard_holds r c us PasswordFresh \<longleftrightarrow>
     trim_slash (ar_path r) \<in> set password_exempt \<or> (\<exists>u \<in> set us. usr_id u = cl_user c \<and> \<not> usr_force_password_change u)"
| "guard_holds r c us (NeedScope s) \<longleftrightarrow> cl_role c \<noteq> ''api_key'' \<or> cl_scopes c = [] \<or> s \<in> set (cl_scopes c)"
| "guard_holds r c us (NeedRole roles) \<longleftrightarrow> cl_role c \<in> set roles"

lemma guard_passed: "run_guard g r c db = (None, d) \<Longrightarrow> guard_holds r c (ac_users db) g"
  by (cases g) (auto simp: has_scope_def is_read_only_def split: prod.splits sum.splits if_splits dest!: reads)


text \<open>
  The routes outside the main group (the two event feeds, the source configuration and the API keys
  of the organisation) admit every session the issuer accepts, whatever its role and whatever the table
  says of its user: disabled, removed, or due for a change of password.
\<close>

theorem side_routes_admit_any_session:
  assumes "request_token r = Inr tok" "validate env now tok = Some c" "cl_role c \<noteq> ''api_key''"
    "(m, p, gs) \<in> set (feed_routes @ api_key_routes)"
  shows "admit env now gs r db = (Inr c, db)"
  using assms by (auto simp: admit_def authenticate_def feed_routes_def api_key_routes_def)

section \<open>API keys\<close>

lemma found_by_id:
  assumes "\<not> ac_fails db (ac_count db)" "wellformed db" "u \<in> set (ac_users db)" "usr_id u = i"
  shows "user_by_id i db = (Inr u, ac_tick db)"
  using assms find_distinct_key[of usr_id "ac_users db" u]
  by (simp add: user_by_id_def ac_query_def one_row_def wellformed_def users_ok_def)

lemma found_by_email:
  assumes "\<not> ac_fails db (ac_count db)" "wellformed db" "u \<in> set (ac_users db)" "usr_email u = e"
  shows "user_by_email e db = (Inr u, ac_tick db)"
  using assms find_distinct_key[of usr_email "ac_users db" u]
  by (simp add: user_by_email_def ac_query_def one_row_def wellformed_def users_ok_def)

lemma found_by_hash:
  assumes "\<not> ac_fails db (ac_count db)" "wellformed db" "k \<in> set (ac_keys db)" "ak_hash k = h"
  shows "api_key_by_hash h db = (Inr k, ac_tick db)"
  using assms find_distinct_key[of ak_hash "ac_keys db" k]
  by (simp add: api_key_by_hash_def ac_query_def one_row_def wellformed_def keys_ok_def)

lemma key_used_frame:
  "ac_users (snd (api_key_used i at db)) = ac_users db" "ac_fails (snd (api_key_used i at db)) = ac_fails db"
  "wellformed db \<Longrightarrow> wellformed (snd (api_key_used i at db))"
proof -
  have "map g (update_where p (\<lambda>k. k\<lparr>ak_last_used_at := t\<rparr>) ks) = map g ks"
    if "\<And>k. g (k\<lparr>ak_last_used_at := t\<rparr>) = g k" for g :: "api_key \<Rightarrow> string" and p t ks
    by (rule map_update_where) (rule that)
  then show "wellformed db \<Longrightarrow> wellformed (snd (api_key_used i at db))"
    by (auto simp: api_key_used_def ac_exec_def expect_one_row_def wellformed_def keys_ok_def set_update_where split: sum.splits if_splits)
qed (auto simp: api_key_used_def ac_exec_def expect_one_row_def split: sum.splits if_splits)

lemma wellformed_tick [simp]: "wellformed (ac_tick db) = wellformed db"
  by (simp add: wellformed_def)

lemma key_refreshes:
  assumes "\<And>n. \<not> ac_fails db n" "wellformed db" "u \<in> set (ac_users db)" "usr_id u = cl_user c" "usr_disabled_at u = None"
    "cl_role c = ''api_key''" "\<not> is_read_only (cl_scopes c)" "ar_path r = ''/api/v1/auth/refresh''" "ar_method r = ''POST''"
  shows "run_guards standing r c db = (None, ac_tick db)"
  using found_by_id[OF assms(1,2,3,4)] assms
  by (simp add: standing_def password_exempt_def trim_slash_def)

text \<open>
  C36: Whoever holds an API key that is not limited to reading, whatever its scopes and its expiry,
  becomes the user who created it: the key is admitted to the refresh of sessions, which answers with a
  session token of the creator, with the creator's role and no scopes, so that the scope and role guards
  of every route treat its bearer as the creator.
\<close>

theorem api_key_becomes_its_creator:
  assumes "jwt_sound env" "ae_hasher env = Some secret" "\<forall>n. \<not> ac_fails db n" "wellformed db"
    and key: "k \<in> set (ac_keys db)" "ak_hash k = hasher_hash env secret plain" "has_prefix ''yy_'' plain"
      "ae_parse env now None plain = None" "\<not> is_read_only (ak_scopes k)"
    and user: "u \<in> set (ac_users db)" "usr_id u = ak_created_by k" "usr_disabled_at u = None"
    and token: "issue env now (usr_id u) (usr_org u) (usr_role u) = Some tok" "now' < ae_date env (now + ae_ttl env)"
  shows "\<exists>c d c'. admit env now standing
        \<lparr>ar_method = ''POST'', ar_path = ''/api/v1/auth/refresh'', ar_cookie = None, ar_authorization = ''Bearer '' @ plain\<rparr> db = (Inr c, d)
      \<and> fst (refresh env now c d) = (200, Some (session_cookie env tok), BodyAuth tok u)
      \<and> validate env now' tok = Some c' \<and> cl_user c' = usr_id u \<and> cl_role c' = usr_role u
      \<and> (\<forall>r s e. run_guard (NeedScope s) r c' e = (None, e))"
proof -
  define r where "r = \<lparr>ar_method = ''POST'', ar_path = ''/api/v1/auth/refresh'', ar_cookie = None, ar_authorization = ''Bearer '' @ plain\<rparr>"
  define c where "c = \<lparr>cl_user = ak_created_by k, cl_org = ak_org k, cl_role = ''api_key'', cl_nonce = [],
    cl_scopes = ak_scopes k, cl_issued_at = None, cl_expires_at = None, cl_audience = []\<rparr>"
  define d where "d = snd (api_key_used (ak_id k) now (ac_tick db))"
  have "request_token r = Inr plain" by (simp add: request_token_def r_def has_prefix_def)
  moreover have "validate env now plain = None" by (simp add: validate_def key(4))
  ultimately have "authenticate env now r db = (Inr c, d)"
    using found_by_hash[of db k] assms(2-4) key by (simp add: authenticate_def c_def d_def)
  moreover have d: "ac_users d = ac_users db" "ac_fails d = ac_fails db" "wellformed d"
    unfolding d_def using assms(4) by (simp_all add: key_used_frame)
  have "run_guards standing r c d = (None, ac_tick d)"
    by (rule key_refreshes[of d u]) (use assms(3) key user d in \<open>simp_all add: c_def r_def\<close>)
  ultimately have "admit env now standing r db = (Inr c, ac_tick d)" by (simp add: admit_def)
  moreover have "user_by_id (cl_user c) (ac_tick d) = (Inr u, ac_tick (ac_tick d))"
    by (rule found_by_id) (use assms(3) user d in \<open>simp_all add: c_def\<close>)
  then have "fst (refresh env now c (ac_tick d)) = (200, Some (session_cookie env tok), BodyAuth tok u)"
    using token(1) user(3) by (simp add: refresh_def grant_session_def)
  ultimately show ?thesis
    using session_claims[OF assms(1) token] unfolding r_def[symmetric]
    by (intro exI[of _ c] exI[of _ "ac_tick d"] exI[of _ "new_claims env now (ae_ttl env) [] (usr_id u) (usr_org u) (usr_role u) []"])
      (simp add: new_claims_def)
qed

text \<open>
  A scope is compared literally, and a key is read-only when every scope is a read scope: no key that the
  write guard calls read-only passes the scope guard of any route.
\<close>

lemma read_only_keys_reach_no_scope:
  assumes "cl_role c = ''api_key''" "cl_scopes c \<noteq> []" "is_read_only (cl_scopes c)"
    "(m, p, gs) \<in> set guarded_routes" "NeedScope s \<in> set gs"
  shows "require_scope s c \<noteq> None"
proof -
  have "s \<in> {''monitors'', ''alerts'', ''escalation_policies'', ''notification_channels'', ''maintenance_windows''}"
    using assms(4,5) by (auto simp: guarded_routes_def account_routes_def monitor_routes_def alert_routes_def
        standing_def managers_def crud_def Let_def)
  then have "s \<noteq> ''read'' \<and> \<not> has_read_suffix s" by (auto simp: has_read_suffix_def)
  then have "s \<notin> set (cl_scopes c)" using assms(3) by (auto simp: is_read_only_def)
  then show ?thesis using assms(1,2) by (simp add: has_scope_def)
qed

end
