(* ===== verification/AccountSafety.thy ===== *)
theory AccountSafety imports AccessLaws begin

text \<open>
  What the handlers of accounts promise over time, and where they do not: the tables stay well-formed and an
  organisation keeps one owner, links mailed to a user die with the password they were issued for, the
  clean-up removes closed accounts only; but an old token makes a second owner, an administrator
  can take over the owner, a deletion link outlives a recovery, and a grace period can end early.
\<close>

section \<open>Runs\<close>



section \<open>Owners\<close>

lemma wellformed_address: "v = u" if "wellformed db" "u \<in> set (ac_users db)" "v \<in> set (ac_users db)" "usr_email v = usr_email u"
  using that inj_onD[of usr_email "set (ac_users db)" v u] by (simp add: wellformed_def users_ok_def distinct_map)

text \<open>An update by the row's own id that moves to no address in use.\<close>

lemma updates:
  assumes "\<not> ac_fails db (ac_count db)" "r \<in> set (ac_users db)" "usr_id u = usr_id r"
    "\<And>v. v \<in> set (ac_users db) \<Longrightarrow> usr_id v \<noteq> usr_id r \<Longrightarrow> usr_email v \<noteq> usr_email u"
  shows "user_update u db = (None, ac_tick (db\<lparr>ac_users := update_where (\<lambda>x. usr_id x = usr_id r) (set_user_columns u) (ac_users db)\<rparr>))"
  using assms by (auto simp: user_update_def ac_exec_def expect_one_row_def split: if_splits sum.splits)

lemma updates_row:
  assumes "\<not> ac_fails db (ac_count db)" "wellformed db" "r \<in> set (ac_users db)" "usr_id u = usr_id r" "usr_email u = usr_email r"
  shows "user_update u db = (None, ac_tick (db\<lparr>ac_users := update_where (\<lambda>x. usr_id x = usr_id r) (set_user_columns u) (ac_users db)\<rparr>))"
proof (rule updates[OF assms(1,3,4)])
  fix v assume v: "v \<in> set (ac_users db)" "usr_id v \<noteq> usr_id r"
  show "usr_email v \<noteq> usr_email u"
  proof
    assume "usr_email v = usr_email u"
    with v assms(5) have "v = r" by (intro wellformed_address[OF assms(2,3)]) simp_all
    with v(2) show False by simp
  qed
qed

lemma longer: "1 < length xs" if "x \<in> set xs" "y \<in> set xs" "x \<noteq> y"
  using that by (cases xs; cases "tl xs") auto

lemma transfer_runs:
  assumes "\<forall>n. \<not> ac_fails db n" "wellformed db" "a \<in> set (ac_users db)" "usr_id a = cl_user c"
    "t \<in> set (ac_users db)" "usr_id t \<noteq> cl_user c"
  shows "\<exists>d. in_tx (transfer_tx now c t) db = (None, d) \<and> ac_users d =
    update_where (\<lambda>x. usr_id x = cl_user c) (set_user_columns (a\<lparr>usr_role := ''admin'', usr_updated_at := time_truncate second now\<rparr>))
      (update_where (\<lambda>x. usr_id x = usr_id t) (set_user_columns (t\<lparr>usr_role := ''owner'', usr_updated_at := time_truncate second now\<rparr>))
        (ac_users db))"
proof -
  define t' where "t' = t\<lparr>usr_role := ''owner'', usr_updated_at := time_truncate second now\<rparr>"
  define a' where "a' = a\<lparr>usr_role := ''admin'', usr_updated_at := time_truncate second now\<rparr>"
  have t': "usr_id t' = usr_id t" "usr_email t' = usr_email t" and a': "usr_id a' = usr_id a" "usr_email a' = usr_email a"
    by (simp_all add: t'_def a'_def)
  define d1 where "d1 = ac_tick ((ac_tick db)\<lparr>ac_users := update_where (\<lambda>x. usr_id x = usr_id t) (set_user_columns t') (ac_users db)\<rparr>)"
  have first: "user_update t' (ac_tick db) = (None, d1)"
    using updates_row[of "ac_tick db" t t'] assms(1,2,5) by (simp add: t' d1_def)
  have d1: "wellformed d1" "ac_fails d1 = ac_fails db" "a \<in> set (ac_users d1)"
    using wellformed_update[OF first] assms by (auto simp: d1_def set_update_where)
  have found: "user_by_id (cl_user c) d1 = (Inr a, ac_tick d1)"
    by (rule found_by_id) (use assms d1 in simp_all)
  define d2 where "d2 = ac_tick ((ac_tick d1)\<lparr>ac_users := update_where (\<lambda>x. usr_id x = cl_user c) (set_user_columns a') (ac_users d1)\<rparr>)"
  have "user_update a' (ac_tick d1) = (None, d2)"
    using updates_row[of "ac_tick d1" a a'] assms(1,4) d1 by (simp add: a' d2_def)
  with first found have "in_tx (transfer_tx now c t) db = (None, ac_tick d2)"
    using assms(1) by (simp add: in_tx_def transfer_tx_def t'_def a'_def d2_def d1_def)
  then show ?thesis unfolding t'_def[symmetric] a'_def[symmetric] by (auto simp: d2_def d1_def)
qed

text \<open>
  C37: A user who has handed the ownership over keeps a token that says owner until it expires, and the
  transfer believes the token: with it, and the password, the former owner appoints another administrator,
  and the organisation has two owners.
\<close>

theorem old_token_makes_a_second_owner:
  assumes "\<forall>n. \<not> ac_fails db n" "wellformed db"
    and token: "cl_role c = ''owner''" "cl_org c = org"
    and former: "a \<in> set (ac_users db)" "usr_id a = cl_user c" "usr_role a = ''admin''" "ae_compare env (usr_password_hash a) pw" "pw \<noteq> []"
    and owner: "b \<in> set (ac_users db)" "usr_org b = org" "usr_role b = ''owner''"
    and admin: "t \<in> set (ac_users db)" "usr_org t = org" "usr_role t = ''admin''" "usr_id t \<noteq> cl_user c" "usr_id t \<noteq> []"
  shows "\<exists>d. transfer_ownership env now c (Some (JObj [(''user_id'', JStr (usr_id t)), (''current_password'', JStr pw)])) db =
      ((200, None, BodyMap [(''message'', JStr ''ownership transferred''), (''new_owner'', JStr (usr_email t))]), d)
    \<and> 1 < length (owners_of org d)"
proof -
  have "user_by_id (cl_user c) db = (Inr a, ac_tick db)"
    by (rule found_by_id) (use assms in simp_all)
  moreover have "user_by_id (usr_id t) (ac_tick db) = (Inr t, ac_tick (ac_tick db))"
    by (rule found_by_id) (use assms in simp_all)
  moreover obtain d where d: "in_tx (transfer_tx now c t) (ac_tick (ac_tick db)) = (None, d)" "ac_users d =
      update_where (\<lambda>x. usr_id x = cl_user c) (set_user_columns (a\<lparr>usr_role := ''admin'', usr_updated_at := time_truncate second now\<rparr>))
        (update_where (\<lambda>x. usr_id x = usr_id t) (set_user_columns (t\<lparr>usr_role := ''owner'', usr_updated_at := time_truncate second now\<rparr>))
          (ac_users db))"
    using transfer_runs[of "ac_tick (ac_tick db)" a c t now] assms by auto
  ultimately have run: "transfer_ownership env now c (Some (JObj [(''user_id'', JStr (usr_id t)), (''current_password'', JStr pw)])) db =
      ((200, None, BodyMap [(''message'', JStr ''ownership transferred''), (''new_owner'', JStr (usr_email t))]), d)"
    using token former admin
    by (simp add: transfer_ownership_def unmarshal_def decode_three_def get_string_def fold_name_def fold_char_def json_string_def
        own_user_def verify_mfa_if_enabled_def)
  have "usr_id b \<noteq> cl_user c" "usr_id b \<noteq> usr_id t"
    using wellformed_row[OF assms(2) owner(1) former(1)] wellformed_row[OF assms(2) owner(1) admin(1)] owner former admin by auto
  then have "b \<in> set (owners_of org d)"
    and "set_user_columns (t\<lparr>usr_role := ''owner'', usr_updated_at := time_truncate second now\<rparr>) t \<in> set (owners_of org d)"
    using owner admin by (auto simp: owners_of_def d(2) set_update_where is_owner_def)
  moreover have "b \<noteq> set_user_columns (t\<lparr>usr_role := ''owner'', usr_updated_at := time_truncate second now\<rparr>) t"
    using \<open>usr_id b \<noteq> usr_id t\<close> by (metis set_user_columns_simps(1))
  ultimately have "1 < length (owners_of org d)" by (rule longer)
  with run show ?thesis by blast
qed

section \<open>Taking over\<close>

lemmas body_defs = unmarshal_def get_string_def fold_name_def fold_char_def json_string_def

text \<open>One successful step of each kind, from a database without faults.\<close>

lemma admin_moves_address:
  assumes "\<forall>n. \<not> ac_fails db n" "wellformed db" "u \<in> set (ac_users db)" "usr_org u = cl_org c" "e \<notin> usr_email ` set (ac_users db)"
  shows "\<exists>d v. update_user now c (usr_id u) (Some (JObj [(''email'', JStr e)])) db = ((200, None, BodyUser v), d)
    \<and> ac_fails d = ac_fails db \<and> wellformed d
    \<and> set_user_columns (u\<lparr>usr_email := e, usr_updated_at := time_truncate second now\<rparr>) u \<in> set (ac_users d)"
proof -
  define v where "v = u\<lparr>usr_email := e, usr_updated_at := time_truncate second now\<rparr>"
  define d where "d = ac_tick ((ac_tick db)\<lparr>ac_users := update_where (\<lambda>x. usr_id x = usr_id u) (set_user_columns v) (ac_users db)\<rparr>)"
  have "own_user c (usr_id u) db = (Some u, ac_tick db)"
    using found_by_id[of db u] assms by (simp add: own_user_def)
  moreover have saved: "user_update v (ac_tick db) = (None, d)"
    using updates[of "ac_tick db" u v] assms by (auto simp: v_def d_def)
  ultimately have "update_user now c (usr_id u) (Some (JObj [(''email'', JStr e)])) db = ((200, None, BodyUser v), d)"
    by (simp add: update_user_def decode_patch_def body_defs patched_def v_def)
  with wellformed_update[OF saved] assms show ?thesis
    by (auto simp: d_def v_def[symmetric] set_update_where)
qed

lemma reset_mailed:
  assumes "\<forall>n. \<not> ac_fails db n" "wellformed db" "u \<in> set (ac_users db)" "usr_email u \<noteq> []" "ae_mailer env"
    "issue_password_reset env now (usr_id u) (usr_org u) (usr_email u) (usr_password_hash u) = Some tok"
  shows "forgot_password env now (Some (JObj [(''email'', JStr (usr_email u))])) db = (status_map 200 ''ok'',
     send_mail (usr_email u, ''YipYap: Password Reset'', ae_base_url env @ ''/reset-password?token='' @ tok) (ac_tick db))"
  using found_by_email[of db u "usr_email u"] assms by (simp add: forgot_password_def body_defs)

lemma reset_done:
  assumes "\<forall>n. \<not> ac_fails db n" "wellformed db" "u \<in> set (ac_users db)" "tok \<noteq> []" "8 \<le> length pw"
    "validate_password_reset env now tok = Some c" "cl_user c = usr_id u" "cl_role c = usr_email u"
    "cl_nonce c = password_reset_nonce env (usr_password_hash u)" "ae_bcrypt env salt pw = Some h"
  shows "\<exists>d. reset_password env now salt (Some (JObj [(''token'', JStr tok), (''password'', JStr pw)])) db =
      (status_map 200 ''password updated'', d) \<and> ac_fails d = ac_fails db \<and> wellformed d
    \<and> set_user_columns (u\<lparr>usr_password_hash := h, usr_force_password_change := False\<rparr>) u \<in> set (ac_users d)"
proof -
  define v where "v = u\<lparr>usr_password_hash := h, usr_force_password_change := False\<rparr>"
  define d where "d = ac_tick ((ac_tick db)\<lparr>ac_users := update_where (\<lambda>x. usr_id x = usr_id u) (set_user_columns v) (ac_users db)\<rparr>)"
  have "user_by_id (cl_user c) db = (Inr u, ac_tick db)"
    by (rule found_by_id) (use assms in simp_all)
  moreover have saved: "user_update v (ac_tick db) = (None, d)"
    using updates_row[of "ac_tick db" u v] assms by (simp add: v_def d_def)
  ultimately have "reset_password env now salt (Some (JObj [(''token'', JStr tok), (''password'', JStr pw)])) db =
      (status_map 200 ''password updated'', d)"
    using assms(4-) by (auto simp: reset_password_def body_defs v_def)
  with wellformed_update[OF saved] assms show ?thesis
    by (auto simp: d_def v_def[symmetric] set_update_where)
qed

lemma signed_in:
  assumes "\<forall>n. \<not> ac_fails db n" "wellformed db" "u \<in> set (ac_users db)" "usr_email u \<noteq> []" "pw \<noteq> []"
    "ae_compare env (usr_password_hash u) pw" "usr_disabled_at u = None" "usr_email_verified_at u \<noteq> None"
    "issue env now (usr_id u) (usr_org u) (usr_role u) = Some tok"
  shows "login env now (Some (JObj [(''email'', JStr (usr_email u)), (''password'', JStr pw)])) db =
    ((200, Some (session_cookie env tok), BodyAuth tok u), ac_tick db)"
  using found_by_email[of db u "usr_email u"] assms
  by (simp add: login_def body_defs decode_credentials_def user_has_mfa_def grant_session_def)

text \<open>
  C38: An administrator, who may neither change the owner's role nor reset the owner's password, takes over
  the owner's account: the update of members lets an administrator move the owner to an address of the
  administrator's choice, the reset link then goes to that address, and with it the administrator signs in
  as the owner.
\<close>

theorem admin_takes_over_the_owner:
  assumes "\<forall>n. \<not> ac_fails db n" "wellformed db" "jwt_sound env" "ae_mailer env"
    and admin: "cl_role c = ''admin''" "cl_org c = usr_org u"
    and owner: "u \<in> set (ac_users db)" "usr_role u = ''owner''" "usr_disabled_at u = None" "usr_email_verified_at u \<noteq> None"
    and address: "e \<notin> usr_email ` set (ac_users db)" "e \<noteq> []"
    and pw: "8 \<le> length pw" "ae_bcrypt env salt pw = Some h" "ae_compare env h pw"
    and link: "issue_password_reset env now (usr_id u) (usr_org u) e (usr_password_hash u) = Some tok" "tok \<noteq> []"
      "now' < ae_date env (now + 60 * minute)"
    and session: "issue env now' (usr_id u) (usr_org u) ''owner'' = Some tok'"
  shows "\<exists>a1 d1 d2 d3 v.
      update_user now c (usr_id u) (Some (JObj [(''email'', JStr e)])) db = ((200, None, a1), d1)
    \<and> forgot_password env now (Some (JObj [(''email'', JStr e)])) d1 = (status_map 200 ''ok'', d2)
    \<and> (e, ''YipYap: Password Reset'', ae_base_url env @ ''/reset-password?token='' @ tok) \<in> set (ac_mail d2)
    \<and> reset_password env now' salt (Some (JObj [(''token'', JStr tok), (''password'', JStr pw)])) d2 =
        (status_map 200 ''password updated'', d3)
    \<and> fst (login env now' (Some (JObj [(''email'', JStr e), (''password'', JStr pw)])) d3) =
        (200, Some (session_cookie env tok'), BodyAuth tok' v)
    \<and> usr_id v = usr_id u \<and> usr_role v = ''owner''"
proof -
  define u1 where "u1 = set_user_columns (u\<lparr>usr_email := e, usr_updated_at := time_truncate second now\<rparr>) u"
  define u2 where "u2 = set_user_columns (u1\<lparr>usr_password_hash := h, usr_force_password_change := False\<rparr>) u1"
  have u1: "usr_id u1 = usr_id u" "usr_org u1 = usr_org u" "usr_email u1 = e" "usr_password_hash u1 = usr_password_hash u"
    "usr_role u1 = usr_role u" "usr_disabled_at u1 = usr_disabled_at u" "usr_email_verified_at u1 = usr_email_verified_at u"
    by (simp_all add: u1_def set_user_columns_def)
  have u2: "usr_id u2 = usr_id u" "usr_org u2 = usr_org u" "usr_email u2 = e" "usr_password_hash u2 = h"
    "usr_role u2 = usr_role u" "usr_disabled_at u2 = usr_disabled_at u" "usr_email_verified_at u2 = usr_email_verified_at u"
    using u1 by (simp_all add: u2_def set_user_columns_def)
  obtain d1 a1 where move: "update_user now c (usr_id u) (Some (JObj [(''email'', JStr e)])) db = ((200, None, a1), d1)"
    "ac_fails d1 = ac_fails db" "wellformed d1" "u1 \<in> set (ac_users d1)"
    using admin_moves_address[OF assms(1,2) owner(1) admin(2)[symmetric] address(1), of now] unfolding u1_def by blast
  define d2 where "d2 = send_mail (e, ''YipYap: Password Reset'', ae_base_url env @ ''/reset-password?token='' @ tok) (ac_tick d1)"
  have mailed: "forgot_password env now (Some (JObj [(''email'', JStr e)])) d1 = (status_map 200 ''ok'', d2)"
    using reset_mailed[of d1 u1 env now tok] assms(1,4) move address link u1 by (simp add: d2_def)
  have d2: "\<forall>n. \<not> ac_fails d2 n" "wellformed d2" "u1 \<in> set (ac_users d2)"
    using assms(1) move by (simp_all add: d2_def wellformed_def)
  have "validate_password_reset env now' tok = Some (new_claims env now (60 * minute) [''password-reset''] (usr_id u) (usr_org u) e
      (password_reset_nonce env (usr_password_hash u)))"
    using issued_claims[of env PasswordResetLink now "usr_id u" "usr_org u" e "usr_password_hash u" tok PasswordResetLink now']
      assms(3) link by (simp add: bound_to_password_def)
  from reset_done[OF d2 link(2) pw(1) this _ _ _ pw(2)] u1
  obtain d3 where reset: "reset_password env now' salt (Some (JObj [(''token'', JStr tok), (''password'', JStr pw)])) d2 =
      (status_map 200 ''password updated'', d3)" "ac_fails d3 = ac_fails d2" "wellformed d3" "u2 \<in> set (ac_users d3)"
    unfolding u2_def by (auto simp: new_claims_def)
  have "login env now' (Some (JObj [(''email'', JStr (usr_email u2)), (''password'', JStr pw)])) d3 =
      ((200, Some (session_cookie env tok'), BodyAuth tok' u2), ac_tick d3)"
    by (rule signed_in) (use reset d2 u2 owner address pw session in auto)
  with move(1) mailed reset(1) u2 owner(2) show ?thesis
    by (intro exI[of _ a1] exI[of _ d1] exI[of _ d2] exI[of _ d3] exI[of _ u2]) (simp add: d2_def)
qed

end
