(* ===== verification/AccountLinks.thy ===== *)
theory AccountLinks imports AccountSafety begin

text \<open>
  Mailed links and the clean-up: a reset link dies with the password it was issued for, a deletion link
  does not die with the deletion it confirmed, the clean-up removes closed accounts only, and ends the
  grace period of the last one early.
\<close>

section \<open>Links\<close>


lemma user_set_one:
  assumes "\<not> ac_fails db (ac_count db)" "u \<in> set (ac_users db)" "p u"
  shows "ac_exec (user_set p f) db = (None, ac_tick (db\<lparr>ac_users := update_where p f (ac_users db)\<rparr>))"
  using assms by (auto simp: ac_exec_def user_set_def expect_one_row_def)

lemma deletion_confirmed:
  assumes "\<forall>n. \<not> ac_fails db n" "wellformed db" "u \<in> set (ac_users db)" "usr_disabled_at u = None" "usr_role u \<noteq> ''owner''"
    "validate_account_deletion env now tok = Some c" "tok \<noteq> []" "cl_user c = usr_id u" "cl_role c = usr_email u"
    "cl_nonce c = password_reset_nonce env (usr_password_hash u)"
  shows "\<exists>d. confirm_deletion env now (Some (JObj [(''token'', JStr tok)])) db =
      (status_map 200 ''account disabled, will be permanently deleted in 96 hours'', d)
    \<and> ac_fails d = ac_fails db \<and> wellformed d
    \<and> u\<lparr>usr_disabled_at := Some (rfc3339 now), usr_updated_at := rfc3339 now\<rparr> \<in> set (ac_users d)"
proof -
  define d where "d = snd (user_disable (usr_id u) now (ac_tick db))"
  have "user_by_id (cl_user c) db = (Inr u, ac_tick db)"
    by (rule found_by_id) (use assms in simp_all)
  moreover have off: "user_disable (usr_id u) now (ac_tick db) = (None, d)"
    "u\<lparr>usr_disabled_at := Some (rfc3339 now), usr_updated_at := rfc3339 now\<rparr> \<in> set (ac_users d)" "ac_fails d = ac_fails db"
    using assms user_set_one[of "ac_tick db" u] by (auto simp: user_disable_def d_def set_update_where)
  ultimately have "confirm_deletion env now (Some (JObj [(''token'', JStr tok)])) db =
      (status_map 200 ''account disabled, will be permanently deleted in 96 hours'', d)"
    using assms(4-) by (simp add: confirm_deletion_def with_token_user_def body_defs stale_token_def owner_guard_def)
  moreover have "wellformed d" unfolding d_def using assms(2) by (intro schema.disabled) simp
  ultimately show ?thesis using off by blast
qed

lemma recovery_confirmed:
  assumes "\<forall>n. \<not> ac_fails db n" "wellformed db" "u \<in> set (ac_users db)" "usr_disabled_at u \<noteq> None"
    "validate_account_recovery env now tok = Some c" "tok \<noteq> []" "cl_user c = usr_id u" "cl_role c = usr_email u"
    "cl_nonce c = password_reset_nonce env (usr_password_hash u)"
  shows "\<exists>d. confirm_recovery env now (Some (JObj [(''token'', JStr tok)])) db = (status_map 200 ''account re-enabled'', d)
    \<and> ac_fails d = ac_fails db \<and> wellformed d
    \<and> u\<lparr>usr_disabled_at := None, usr_updated_at := rfc3339 now\<rparr> \<in> set (ac_users d)"
proof -
  define d where "d = snd (user_enable (usr_id u) now (ac_tick db))"
  have "user_by_id (cl_user c) db = (Inr u, ac_tick db)"
    by (rule found_by_id) (use assms in simp_all)
  moreover have on: "user_enable (usr_id u) now (ac_tick db) = (None, d)"
    "u\<lparr>usr_disabled_at := None, usr_updated_at := rfc3339 now\<rparr> \<in> set (ac_users d)" "ac_fails d = ac_fails db"
    using assms user_set_one[of "ac_tick db" u] by (auto simp: user_enable_def d_def set_update_where)
  ultimately have "confirm_recovery env now (Some (JObj [(''token'', JStr tok)])) db = (status_map 200 ''account re-enabled'', d)"
    using assms(4-) by (auto simp: confirm_recovery_def with_token_user_def body_defs stale_token_def)
  moreover have "wellformed d" unfolding d_def using assms(2) by (intro schema.enabled) simp
  ultimately show ?thesis using on by blast
qed

text \<open>
  C39: The link that confirmed the deletion of an account is not used up by it: once the user has recovered
  the account, and until the hour of the link is over, the same link disables the account again.
\<close>

theorem deletion_link_survives_recovery:
  assumes "\<forall>n. \<not> ac_fails db n" "wellformed db" "jwt_sound env"
    and user: "u \<in> set (ac_users db)" "usr_disabled_at u = None" "usr_role u \<noteq> ''owner''"
    and deletion: "issue_account_deletion env t0 (usr_id u) (usr_org u) (usr_email u) (usr_password_hash u) = Some del" "del \<noteq> []"
    and recovery: "issue_account_recovery env t1 (usr_id u) (usr_org u) (usr_email u) (usr_password_hash u) = Some rec" "rec \<noteq> []"
    and times: "t2 < ae_date env (t0 + 60 * minute)" "t3 < ae_date env (t1 + 60 * minute)" "t4 < ae_date env (t0 + 60 * minute)"
  shows "\<exists>d1 d2 d3.
      confirm_deletion env t2 (Some (JObj [(''token'', JStr del)])) db =
        (status_map 200 ''account disabled, will be permanently deleted in 96 hours'', d1)
    \<and> confirm_recovery env t3 (Some (JObj [(''token'', JStr rec)])) d1 = (status_map 200 ''account re-enabled'', d2)
    \<and> confirm_deletion env t4 (Some (JObj [(''token'', JStr del)])) d2 =
        (status_map 200 ''account disabled, will be permanently deleted in 96 hours'', d3)
    \<and> (\<exists>v \<in> set (ac_users d3). usr_id v = usr_id u \<and> usr_disabled_at v \<noteq> None)"
proof -
  define n where "n = password_reset_nonce env (usr_password_hash u)"
  have del: "\<exists>c. validate_account_deletion env t del = Some c \<and> cl_user c = usr_id u \<and> cl_role c = usr_email u \<and> cl_nonce c = n"
    if "t < ae_date env (t0 + 60 * minute)" for t
    using issued_claims[of env DeletionLink t0 "usr_id u" "usr_org u" "usr_email u" "usr_password_hash u" del DeletionLink t]
      assms(3) deletion that by (auto simp: bound_to_password_def new_claims_def n_def)
  have rec: "\<exists>c. validate_account_recovery env t3 rec = Some c \<and> cl_user c = usr_id u \<and> cl_role c = usr_email u \<and> cl_nonce c = n"
    using issued_claims[of env RecoveryLink t1 "usr_id u" "usr_org u" "usr_email u" "usr_password_hash u" rec RecoveryLink t3]
      assms(3) recovery times by (auto simp: bound_to_password_def new_claims_def n_def)
  define u1 where "u1 = u\<lparr>usr_disabled_at := Some (rfc3339 t2), usr_updated_at := rfc3339 t2\<rparr>"
  define u2 where "u2 = u1\<lparr>usr_disabled_at := None, usr_updated_at := rfc3339 t3\<rparr>"
  obtain d1 where d1: "confirm_deletion env t2 (Some (JObj [(''token'', JStr del)])) db =
      (status_map 200 ''account disabled, will be permanently deleted in 96 hours'', d1)"
      "ac_fails d1 = ac_fails db" "wellformed d1" "u1 \<in> set (ac_users d1)"
    using deletion_confirmed[OF assms(1,2) user] del[OF times(1)] deletion(2) unfolding n_def u1_def by metis
  obtain r where r: "validate_account_recovery env t3 rec = Some r" "cl_user r = usr_id u" "cl_role r = usr_email u" "cl_nonce r = n"
    using rec by blast
  obtain d2 where d2: "confirm_recovery env t3 (Some (JObj [(''token'', JStr rec)])) d1 = (status_map 200 ''account re-enabled'', d2)"
      "ac_fails d2 = ac_fails d1" "wellformed d2" "u2 \<in> set (ac_users d2)"
    using recovery_confirmed[OF _ d1(3,4) _ r(1) recovery(2)] r assms(1) d1(2) unfolding u2_def n_def by (auto simp: u1_def)
  obtain k where k: "validate_account_deletion env t4 del = Some k" "cl_user k = usr_id u" "cl_role k = usr_email u" "cl_nonce k = n"
    using del[OF times(3)] by blast
  obtain d3 where d3: "confirm_deletion env t4 (Some (JObj [(''token'', JStr del)])) d2 =
      (status_map 200 ''account disabled, will be permanently deleted in 96 hours'', d3)"
      "u2\<lparr>usr_disabled_at := Some (rfc3339 t4), usr_updated_at := rfc3339 t4\<rparr> \<in> set (ac_users d3)"
    using deletion_confirmed[OF _ d2(3,4) _ _ k(1) deletion(2)] k assms(1) d1(2) d2(2) user(3)
    unfolding n_def by (auto simp: u2_def u1_def)
  show ?thesis
    by (intro exI[of _ d1] exI[of _ d2] exI[of _ d3] conjI bexI[OF _ d3(2)])
      (simp_all add: d1(1) d2(1) d3(1) u2_def u1_def)
qed

section \<open>The clean-up\<close>

definition active_rows :: "accounts \<Rightarrow> user list" where
  "active_rows db = filter (\<lambda>u. usr_disabled_at u = None) (ac_users db)"

lemma active_members_rows: "active_members org db = filter (\<lambda>u. usr_org u = org) (active_rows db)"
  by (simp add: active_members_def active_rows_def conj_commute)

lemma active_rows_tick [simp]: "active_rows (ac_tick db) = active_rows db"
  by (simp add: active_rows_def)

lemma empty_table_fails [simp]: "ac_fails (empty_table org t db) = ac_fails db"
  by (auto simp: empty_table_def ac_exec_def)

lemma empty_table_active: "active_rows (empty_table org t db) = active_rows db" if "active_members org db = []"
proof -
  have "filter (\<lambda>u. usr_disabled_at u = None) (delete_where (\<lambda>u. usr_org u = org) (ac_users db)) = active_rows db"
    using that by (auto simp: active_members_def active_rows_def delete_where_def filter_empty_conv intro!: filter_cong)
  then show ?thesis by (auto simp: empty_table_def ac_exec_def active_rows_def)
qed

lemma empty_tables_active: "active_rows (foldl (\<lambda>d t. empty_table org t d) db ts) = active_rows db" if "active_members org db = []"
  using that
proof (induction ts arbitrary: db)
  case (Cons t ts)
  moreover have "active_members org (empty_table org t db) = []"
    using Cons.prems empty_table_active by (simp add: active_members_rows)
  ultimately show ?case by (simp add: empty_table_active)
qed simp

lemma org_delete_active: "active_rows (snd (org_delete org db)) = active_rows db" if "active_members org db = []"
proof -
  define d where "d = foldl (\<lambda>d t. empty_table org t d) db (org_tables @ [''monitor_checks'', ''monitor_rollups''])"
  have "active_rows d = active_rows db" unfolding d_def using that by (rule empty_tables_active)
  then show ?thesis unfolding org_delete_def Let_def d_def[symmetric]
    by (auto simp: ac_exec_def active_rows_def split: sum.splits if_splits)
qed

lemma delete_keys_frame: "ac_users (delete_keys ks db) = ac_users db \<and> ac_fails (delete_keys ks db) = ac_fails db"
proof -
  have "ac_users (snd (api_key_delete i d)) = ac_users d \<and> ac_fails (snd (api_key_delete i d)) = ac_fails d" for i d
    by (auto simp: api_key_delete_def ac_exec_def expect_one_row_def split: sum.splits if_splits)
  then show ?thesis unfolding delete_keys_def by (induction ks arbitrary: db) simp_all
qed

lemma nobody_listed: "active_members org db = []" if "users_by_org org 1 0 db = (Inr [], d)"
proof -
  have "page 1 0 (sort_key usr_email (active_members org db)) = []"
    using ac_query_cases(2)[OF that[unfolded users_by_org_def]] by auto
  then have "sort_key usr_email (active_members org db) = []" by (simp add: page_def)
  then show ?thesis by (metis length_0_conv length_sort)
qed

lemma cleanup_org_active: "active_rows (cleanup_org org db) = active_rows db"
proof -
  obtain r d1 where r: "users_by_org org 1 0 db = (r, d1)" by (cases "users_by_org org 1 0 db")
  obtain k d2 where k: "api_keys_by_org org 1000 0 d1 = (k, d2)" by (cases "api_keys_by_org org 1000 0 d1")
  note d = read_tick(1)[OF r] read_tick(5)[OF k]
  have deleted: "active_rows (snd (org_delete org e)) = active_rows db" if "r = Inr []" "ac_users e = ac_users db" for e
    using org_delete_active[of org e] nobody_listed[OF r[unfolded that(1)]] that(2) by (simp add: active_members_def active_rows_def)
  show ?thesis
  proof (cases r)
    case (Inr ms)
    with r k d deleted delete_keys_frame show ?thesis
      by (cases ms; cases k) (simp_all add: cleanup_org_def)
  qed (use r d in \<open>simp add: cleanup_org_def\<close>)
qed

lemma cleanup_user_active: "active_rows (cleanup_user u db) = active_rows db" if "wellformed db"
proof (cases "user_by_id (usr_id u) db")
  case (Pair r d1)
  have kept: "active_rows d2 = active_rows db"
    if "user_delete (usr_id v) (ac_tick db) = (x, d2)" "v \<in> set (ac_users db)" "usr_disabled_at v \<noteq> None" for v x d2
  proof -
    have "usr_id y \<noteq> usr_id v" if "y \<in> set (ac_users db)" "usr_disabled_at y = None" for y
      using wellformed_row[OF \<open>wellformed db\<close> that(1) \<open>v \<in> _\<close>] that(2) \<open>usr_disabled_at v \<noteq> None\<close> by auto
    then have "filter (\<lambda>u. usr_disabled_at u = None) (delete_where (\<lambda>x. usr_id x = usr_id v) (ac_users db)) = active_rows db"
      by (auto simp: active_rows_def delete_where_def intro!: filter_cong)
    with that(1) show ?thesis
      by (auto simp: user_delete_def ac_exec_def expect_one_row_def active_rows_def split: sum.splits if_splits)
  qed
  show ?thesis
  proof (cases r)
    case (Inl e)
    with Pair reads(1)[OF Pair[unfolded Inl]] show ?thesis by (simp add: cleanup_user_def)
  next
    case (Inr v)
    with Pair have v: "d1 = ac_tick db" "v \<in> set (ac_users db)" using reads(2) by auto
    show ?thesis
    proof (cases "user_delete (usr_id v) (ac_tick db)")
      case del: (Pair x d2)
      with kept[OF del v(2)] Pair Inr v(1) show ?thesis
        by (simp add: cleanup_user_def cleanup_org_active split: option.split)
    qed
  qed
qed


lemma emptied_users:
  assumes "\<forall>n. \<not> ac_fails db n" "''users'' \<in> set ts"
  shows "\<forall>u \<in> set (ac_users (foldl (\<lambda>d t. empty_table org t d) db ts)). usr_org u \<noteq> org"
  using assms
proof (induction ts arbitrary: db)
  case (Cons t ts)
  show ?case
  proof (cases "''users'' \<in> set ts")
    case False
    with Cons.prems have "\<forall>u \<in> set (ac_users (empty_table org t db)). usr_org u \<noteq> org"
      by (auto simp: empty_table_def ac_exec_def)
    then show ?thesis using empty_tables_users[of org "empty_table org t db" ts] by auto
  qed (use Cons.prems Cons.IH[of "empty_table org t db"] in simp)
qed simp

lemma org_delete_users:
  assumes "\<forall>n. \<not> ac_fails db n"
  shows "\<forall>u \<in> set (ac_users (snd (org_delete org db))). usr_org u \<noteq> org"
proof -
  define d where "d = foldl (\<lambda>d t. empty_table org t d) db (org_tables @ [''monitor_checks'', ''monitor_rollups''])"
  have "\<forall>u \<in> set (ac_users d). usr_org u \<noteq> org"
    unfolding d_def using assms by (rule emptied_users) (simp add: org_tables_def)
  then show ?thesis unfolding org_delete_def Let_def d_def[symmetric]
    by (auto simp: ac_exec_def split: sum.splits if_splits)
qed

lemma filter_single: "distinct xs \<Longrightarrow> x \<in> set xs \<Longrightarrow> filter (\<lambda>v. v = x) xs = [x]"
  by (induction xs) (auto simp: filter_empty_conv)

lemma cleanup_org_users:
  assumes "\<forall>n. \<not> ac_fails db n" "active_members org db = []"
  shows "\<forall>u \<in> set (ac_users (cleanup_org org db)). usr_org u \<noteq> org"
proof -
  have "users_by_org org 1 0 db = (Inr [], ac_tick db)"
    using assms by (simp add: users_by_org_def ac_query_def page_def)
  moreover obtain ks where "api_keys_by_org org 1000 0 (ac_tick db) = (Inr ks, ac_tick (ac_tick db))"
    using assms by (simp add: api_keys_by_org_def ac_query_def)
  ultimately show ?thesis
    using org_delete_users[of "delete_keys ks (ac_tick (ac_tick db))" org] delete_keys_frame[of ks] assms(1)
    by (simp add: cleanup_org_def)
qed


end
