(* ===== verification/AccountExamples.thy ===== *)
theory AccountExamples imports AccountLinks begin

text \<open>
  Instances of the properties of accounts. The token library signs the claims of a table, a hash of a password
  is its salt and the password, and the digests are the identity.
\<close>

section \<open>A sample organisation\<close>

definition toy_env :: "(claims \<times> string) list \<Rightarrow> auth_env" where
  "toy_env table =
     \<lparr>ae_sign = map_of table,
      ae_parse = (\<lambda>now aud tok. case List.find (\<lambda>e. snd e = tok) table of
        None \<Rightarrow> None | Some e \<Rightarrow> if token_fits now aud (fst e) then Some (fst e) else None),
      ae_date = rfc3339, ae_ttl = 24 * 60 * minute,
      ae_bcrypt = (\<lambda>salt pw. Some (salt @ '':'' @ pw)),
      ae_compare = (\<lambda>h pw. dropWhile (\<lambda>c. c \<noteq> CHR '':'') h = CHR '':'' # pw),
      ae_sha256 = (\<lambda>s. s), ae_hmac = (\<lambda>secret s. s), ae_hasher = Some ''k'',
      ae_mailer = True, ae_base_url = ''https://y''\<rparr>"

lemma toy_env_sound: "jwt_sound (toy_env table)" if "distinct (map snd table)"
proof -
  have "List.find (\<lambda>e. snd e = tok) table = Some (c, tok)" if "map_of table c = Some tok" for c tok
    using find_distinct_key[OF \<open>distinct (map snd table)\<close> map_of_SomeD[OF that]] by simp
  then show ?thesis by (auto simp: jwt_sound_def toy_env_def)
qed

definition toy_user :: "string \<Rightarrow> string \<Rightarrow> string \<Rightarrow> user" where
  "toy_user i email role = (new_user i ''o'' email [] (i @ '':password'') role [] 0)\<lparr>usr_email_verified_at := Some 0\<rparr>"

definition toy_org :: org where
  "toy_org = \<lparr>org_id = ''o'', org_name = ''O'', org_slug = ''o'', org_plan = ''free'', org_oncall_display = [],
     org_mfa_required = False, org_mfa_grace_days = 0, org_promo_expires_at = [], org_promo_grace_days = 0,
     org_created_at = 0, org_updated_at = 0\<rparr>"

text \<open>A key for alerts only that expired long ago.\<close>

definition toy_key :: api_key where
  "toy_key = \<lparr>ak_id = ''key'', ak_org = ''o'', ak_name = ''ci'', ak_hash = hex_text ''yy_secret'', ak_prefix = ''yy_secret'',
     ak_scopes = [''alerts''], ak_created_by = ''b'', ak_expires_at = Some 0, ak_created_at = 0, ak_last_used_at = None\<rparr>"

definition toy_db :: "user list \<Rightarrow> accounts" where
  "toy_db us = \<lparr>ac_users = us, ac_orgs = [toy_org], ac_keys = [toy_key], ac_states = [], ac_fails = (\<lambda>n. False),
     ac_count = 0, ac_mail = []\<rparr>"

definition toy_members :: "user list" where
  "toy_members = [toy_user ''a'' ''a@o'' ''admin'', toy_user ''b'' ''b@o'' ''owner'', toy_user ''t'' ''t@o'' ''admin'',
     toy_user ''m'' ''m@o'' ''member'']"

lemma toy_user_simps [simp]:
  "usr_id (toy_user i e r) = i" "usr_org (toy_user i e r) = ''o''" "usr_email (toy_user i e r) = e" "usr_role (toy_user i e r) = r"
  "usr_password_hash (toy_user i e r) = i @ '':password''" "usr_disabled_at (toy_user i e r) = None"
  "usr_email_verified_at (toy_user i e r) = Some 0" "usr_force_password_change (toy_user i e r) = False"
  by (simp_all add: toy_user_def new_user_def)

lemma toy_db_simps [simp]:
  "ac_users (toy_db us) = us" "ac_fails (toy_db us) = (\<lambda>n. False)" "ac_keys (toy_db us) = [toy_key]"
  by (simp_all add: toy_db_def)

lemma toy_wellformed: "wellformed (toy_db toy_members)"
  by (simp add: wellformed_def users_ok_def keys_ok_def toy_db_def toy_members_def toy_org_def toy_key_def)

lemma toy_one_owner: "one_owner (toy_db toy_members)"
  by (simp add: one_owner_def sole_owners_def is_owner_def toy_members_def)

section \<open>Tokens and guards\<close>

definition toy_session :: "string \<Rightarrow> string \<Rightarrow> claims" where
  "toy_session user role = new_claims (toy_env []) 0 (24 * 60 * minute) [] user ''o'' role []"

definition toy_link :: "string \<Rightarrow> string \<Rightarrow> string \<Rightarrow> claims" where
  "toy_link aud user email = new_claims (toy_env []) 0 (60 * minute) [aud] user ''o'' email
     (password_reset_nonce (toy_env []) (user @ '':password''))"

definition toy_full :: auth_env where
  "toy_full = toy_env [(toy_session ''b'' ''owner'', ''s-b''), (toy_session ''m'' ''member'', ''s-m''),
     (toy_link ''password-reset'' ''b'' ''x@x'', ''r-b''), (toy_link ''password-reset'' ''m'' ''m@o'', ''r-m''),
     (toy_link ''account-delete'' ''m'' ''m@o'', ''d-m''), (toy_link ''account-recover'' ''m'' ''m@o'', ''c-m'')]"

lemma toy_full_sound: "jwt_sound toy_full"
  unfolding toy_full_def by (rule toy_env_sound) simp

lemmas toy_defs = toy_full_def toy_env_def toy_session_def toy_link_def new_claims_def issue_defs rfc3339_def
  password_reset_nonce_def hex_text_def json_hex_def

lemma toy_issued:
  "issue toy_full 0 ''b'' ''o'' ''owner'' = Some ''s-b''"
  "issue_password_reset toy_full 0 ''b'' ''o'' ''x@x'' ''b:password'' = Some ''r-b''"
  "issue_password_reset toy_full 0 ''m'' ''o'' ''m@o'' ''m:password'' = Some ''r-m''"
  "issue_account_deletion toy_full 0 ''m'' ''o'' ''m@o'' ''m:password'' = Some ''d-m''"
  "issue_account_recovery toy_full 0 ''m'' ''o'' ''m@o'' ''m:password'' = Some ''c-m''"
  by (simp_all add: toy_defs)

lemma toy_validated: "validate toy_full 1 ''s-m'' = Some (toy_session ''m'' ''member'')"
  by (simp add: validate_def toy_defs token_fits_def)

theorem tokens_serve_one_purpose_witness:
  "validate_for Session toy_full 1 ''r-m'' = None \<and> validate_for PasswordResetLink toy_full 1 ''r-m'' \<noteq> None"
proof -
  have issued: "issue_for PasswordResetLink toy_full 0 ''m'' ''o'' ''m@o'' ''m:password'' = Some ''r-m''"
    using toy_issued(3) by simp
  have "1 < ae_date toy_full (0 + lifetime toy_full PasswordResetLink)" by (simp add: toy_defs)
  then show ?thesis
    using tokens_serve_one_purpose[OF toy_full_sound issued, of Session 1]
      tokens_serve_one_purpose[OF toy_full_sound issued, of PasswordResetLink 1] by auto
qed

definition toy_request :: "string \<Rightarrow> string \<Rightarrow> string \<Rightarrow> api_request" where
  "toy_request meth path tok = \<lparr>ar_method = meth, ar_path = path, ar_cookie = Some tok, ar_authorization = []\<rparr>"

lemma toy_admitted:
  "admit toy_full 1 (standing @ [NeedScope ''alerts'']) (toy_request ''GET'' ''/api/v1/alerts'' ''s-m'') (toy_db toy_members)
   = (Inr (toy_session ''m'' ''member''), ac_tick (ac_tick (toy_db toy_members)))"
proof -
  have "user_by_id ''m'' (toy_db toy_members) = (Inr (toy_user ''m'' ''m@o'' ''member''), ac_tick (toy_db toy_members))"
    "user_by_id ''m'' (ac_tick (toy_db toy_members)) = (Inr (toy_user ''m'' ''m@o'' ''member''), ac_tick (ac_tick (toy_db toy_members)))"
    by (rule found_by_id; simp add: toy_wellformed; simp add: toy_members_def)+
  moreover have "cl_user (toy_session ''m'' ''member'') = ''m''" "cl_role (toy_session ''m'' ''member'') = ''member''"
    by (simp_all add: toy_session_def new_claims_def)
  moreover have "request_token (toy_request ''GET'' ''/api/v1/alerts'' ''s-m'') = Inr ''s-m''"
    "ar_method (toy_request ''GET'' ''/api/v1/alerts'' ''s-m'') = ''GET''" "ar_path (toy_request ''GET'' ''/api/v1/alerts'' ''s-m'') = ''/api/v1/alerts''"
    by (simp_all add: toy_request_def request_token_def)
  ultimately show ?thesis
    using toy_validated by (simp add: admit_def authenticate_def standing_def password_exempt_def trim_slash_def)
qed


theorem side_routes_admit_any_session_witness:
  "admit toy_full 1 [WriteAccess] (toy_request ''POST'' ''/api/v1/org/api-keys'' ''s-m'')
     (toy_db [(toy_user ''m'' ''m@o'' ''member'')\<lparr>usr_disabled_at := Some 0\<rparr>]) =
   (Inr (toy_session ''m'' ''member''), toy_db [(toy_user ''m'' ''m@o'' ''member'')\<lparr>usr_disabled_at := Some 0\<rparr>])"
proof (rule side_routes_admit_any_session[where m = "''POST''" and p = "''/org/api-keys''"])
  show "validate toy_full 1 ''s-m'' = Some (toy_session ''m'' ''member'')" by (rule toy_validated)
qed (simp_all add: request_token_def toy_request_def toy_session_def new_claims_def api_key_routes_def)

theorem api_key_becomes_its_creator_witness:
  "\<exists>c d c'. admit toy_full 0 standing \<lparr>ar_method = ''POST'', ar_path = ''/api/v1/auth/refresh'', ar_cookie = None,
        ar_authorization = ''Bearer '' @ ''yy_secret''\<rparr> (toy_db toy_members) = (Inr c, d)
      \<and> fst (refresh toy_full 0 c d) = (200, Some (session_cookie toy_full ''s-b''), BodyAuth ''s-b'' (toy_user ''b'' ''b@o'' ''owner''))
      \<and> validate toy_full 1 ''s-b'' = Some c' \<and> cl_role c' = ''owner''"
proof -
  have "ae_parse toy_full 0 None ''yy_secret'' = None" "ae_hasher toy_full = Some ''k''"
    "ak_hash toy_key = hasher_hash toy_full ''k'' ''yy_secret''" "1 < ae_date toy_full (0 + ae_ttl toy_full)"
    by (simp_all add: toy_defs hasher_hash_def toy_key_def)
  moreover have "\<not> is_read_only (ak_scopes toy_key)" "ak_created_by toy_key = ''b''" "has_prefix ''yy_'' ''yy_secret''"
    by (simp_all add: toy_key_def is_read_only_def has_read_suffix_def has_prefix_def)
  moreover have "toy_user ''b'' ''b@o'' ''owner'' \<in> set (ac_users (toy_db toy_members))" by (simp add: toy_members_def)
  ultimately show ?thesis
    using api_key_becomes_its_creator[of toy_full "''k''" "toy_db toy_members" toy_key "''yy_secret''" 0
        "toy_user ''b'' ''b@o'' ''owner''" "''s-b''" 1] toy_full_sound toy_wellformed toy_issued(1) by fastforce
qed

section \<open>Runs and owners\<close>



theorem old_token_makes_a_second_owner_witness:
  "1 < length (owners_of ''o'' (snd (transfer_ownership toy_full 0 (toy_session ''a'' ''owner'')
     (Some (JObj [(''user_id'', JStr ''t''), (''current_password'', JStr ''password'')])) (toy_db toy_members))))"
proof -
  let ?a = "toy_user ''a'' ''a@o'' ''admin''" and ?b = "toy_user ''b'' ''b@o'' ''owner''" and ?t = "toy_user ''t'' ''t@o'' ''admin''"
  have "?a \<in> set toy_members" "?b \<in> set toy_members" "?t \<in> set toy_members" by (simp_all add: toy_members_def)
  moreover have "cl_role (toy_session ''a'' ''owner'') = ''owner''" "cl_org (toy_session ''a'' ''owner'') = ''o''"
    "cl_user (toy_session ''a'' ''owner'') = ''a''" "ae_compare toy_full ''a:password'' ''password''"
    by (simp_all add: toy_defs)
  ultimately show ?thesis
    using old_token_makes_a_second_owner[of "toy_db toy_members" "toy_session ''a'' ''owner''" "''o''" ?a toy_full "''password''" ?b ?t 0]
      toy_wellformed by auto
qed

theorem admin_takes_over_the_owner_witness:
  "\<exists>d v. fst (login toy_full 0 (Some (JObj [(''email'', JStr ''x@x''), (''password'', JStr ''taken-over'')])) d) =
      (200, Some (session_cookie toy_full ''s-b''), BodyAuth ''s-b'' v) \<and> usr_id v = ''b'' \<and> usr_role v = ''owner''"
proof -
  let ?b = "toy_user ''b'' ''b@o'' ''owner''"
  have "?b \<in> set toy_members" "''x@x'' \<notin> usr_email ` set toy_members" by (simp_all add: toy_members_def)
  moreover have "cl_role (toy_session ''a'' ''admin'') = ''admin''" "cl_org (toy_session ''a'' ''admin'') = ''o''" "ae_mailer toy_full"
    "ae_bcrypt toy_full ''z'' ''taken-over'' = Some ''z:taken-over''" "ae_compare toy_full ''z:taken-over'' ''taken-over''"
    "0 < ae_date toy_full (0 + 60 * minute)"
    by (simp_all add: toy_defs)
  ultimately show ?thesis
    using admin_takes_over_the_owner[of "toy_db toy_members" toy_full "toy_session ''a'' ''admin''" ?b "''x@x''" "''taken-over''" "''z''"
        "''z:taken-over''" 0 "''r-b''" 0 "''s-b''"] toy_wellformed toy_full_sound toy_issued(1,2)
    by (simp; blast)
qed

section \<open>Links and the clean-up\<close>

lemma toy_reset: "\<exists>d. reset_password toy_full 1 ''z'' (Some (JObj [(''token'', JStr ''r-m''), (''password'', JStr ''password2'')])) (toy_db toy_members) =
   (status_map 200 ''password updated'', d)"
proof -
  have "toy_user ''m'' ''m@o'' ''member'' \<in> set toy_members" by (simp add: toy_members_def)
  moreover have "validate_password_reset toy_full 1 ''r-m'' = Some (toy_link ''password-reset'' ''m'' ''m@o'')"
    by (simp add: validate_password_reset_def toy_defs token_fits_def)
  ultimately show ?thesis
    using reset_done[of "toy_db toy_members" "toy_user ''m'' ''m@o'' ''member''" "''r-m''" "''password2''" toy_full 1
        "toy_link ''password-reset'' ''m'' ''m@o''" "''z''" "''z:password2''"] toy_wellformed
    by (auto simp: toy_defs)
qed


theorem deletion_link_survives_recovery_witness:
  "\<exists>d d'. confirm_deletion toy_full 3 (Some (JObj [(''token'', JStr ''d-m'')])) d =
    (status_map 200 ''account disabled, will be permanently deleted in 96 hours'', d')"
proof -
  have "toy_user ''m'' ''m@o'' ''member'' \<in> set toy_members" by (simp add: toy_members_def)
  moreover have "1 < ae_date toy_full (0 + 60 * minute)" "2 < ae_date toy_full (0 + 60 * minute)" "3 < ae_date toy_full (0 + 60 * minute)"
    by (simp_all add: toy_defs)
  ultimately show ?thesis
    using deletion_link_survives_recovery[of "toy_db toy_members" toy_full "toy_user ''m'' ''m@o'' ''member''" 0 "''d-m''" 0 "''c-m''" 1 2 3]
      toy_wellformed toy_full_sound toy_issued(4,5) by (simp; blast)
qed

text \<open>One account closed five days ago, the owner's an hour ago.\<close>

definition toy_closed :: "user list" where
  "toy_closed = [(toy_user ''m'' ''m@o'' ''member'')\<lparr>usr_disabled_at := Some 0\<rparr>,
     (toy_user ''b'' ''b@o'' ''owner'')\<lparr>usr_disabled_at := Some (119 * 60 * minute)\<rparr>]"

lemma toy_closed_wellformed: "wellformed (toy_db toy_closed)"
  by (simp add: wellformed_def users_ok_def keys_ok_def toy_db_def toy_closed_def toy_org_def toy_key_def)



section \<open>Created owners\<close>

text \<open>An administrator may create a second owner outright.\<close>

lemma admin_creates_an_owner:
  "length (owners_of ''o'' (snd (create_user toy_full 0 (''n'', ''z'') (toy_session ''a'' ''admin'')
     (Some (JObj [(''email'', JStr ''n@o''), (''password'', JStr ''password9''), (''role'', JStr ''owner'')])) (toy_db toy_members)))) = 2"
  by (simp add: create_user_def unmarshal_def decode_member_def get_string_def fold_name_def fold_char_def json_string_def
      seat_check_def org_by_id_def users_by_org_def ac_query_def one_row_def toy_db_def toy_org_def page_def free_max_members_def
      active_members_def toy_members_def toy_session_def toy_env_def new_claims_def toy_full_def new_user_def user_create_def ac_exec_def
      mark_email_verified_def user_set_def expect_one_row_def owners_of_def is_owner_def new_user_row_def Let_def)

end
