(* ===== verification/Spec2Isabelle.thy ===== *)
theory Spec2Isabelle imports RateLimiter Maintenance ReplyEffects DeliveryExamples InboundLaws IngestExamples TokenExamples JwksExamples SsrfLaws SinkLaws AccountExamples begin

text \<open>
  A verification development of YipYap, an uptime monitor with alerting, written in Go. The program runs
  checks of monitors (\<open>internal/checker\<close>), turns changes of status into alerts that it escalates
  (\<open>internal/escalation\<close>), delivers notifications (\<open>internal/notify\<close>), emits
  CloudEvents (\<open>internal/cloudevents\<close>) and acts on the replies the receivers of events send back
  (\<open>internal/cloudevents/reply\<close>). The parts talk over a message bus (\<open>internal/bus\<close>) and share a
  database (\<open>internal/store/sqlite\<close>).

  State. A record \<open>world\<close> (Store) holds the tables as lists of rows, the messages published so far,
  the CloudEvents emitted so far, the metrics, and two oracles: which generated id comes next, and which
  statements fail. Every operation takes the world and returns it changed; a Go error is the left value of
  a sum or \<open>Some\<close> of an error type. Instants are integers in nanoseconds since 1970, 64-bit integers
  are words where they can overflow. Concurrency is modelled by steps: what a goroutine does under one
  lock, or between two statements on shared state, is one operation, and the properties quantify over
  their order. An operation reads the clock once. JSON is modelled as its parse tree, with the matching
  of member names and the treatment of null that \<open>encoding/json\<close> has.

  Theories, with the files under src/internal they model:

  Prelude: int64 and time, tables as lists, strings; the locale of invariants of step relations. Json,
  GoTime, GoText, Ip: what the source uses of Go's standard library. Calendar: civil dates.
  Domain: \<open>domain\<close> and the row types of \<open>store\<close>. Store: the statements of \<open>store/sqlite\<close> that
  modelled code issues, with their constraints. StoreLaws: what each statement changes, and the schema
  invariant (unique ids, one unresolved alert of a monitor, references) that every statement keeps.

  Rules, Scheduler, CheckRun: \<open>checker/rules.go\<close>, \<open>scheduler.go\<close>, \<open>batchwriter.go\<close>. CheckLaws: the
  messages of a check and the escalation engine together, a monitor has an active alert exactly while its
  last status is down or degraded. CheckEdges: resync, heartbeats, monitors that were never up.
  Ssrf, SsrfLaws: \<open>checker/ssrf.go\<close>, \<open>ssrf\_dialer.go\<close>, \<open>notify/providers/cloudevent\_http\_ssrf.go\<close>;
  the blocked ranges of address values, and what the guarded dial promises.

  Escalation: \<open>escalation/engine.go\<close>, every handler and the tick. EscalationSpec: the effects of each
  handler and the invariant of all runs. EscalationEnds: ticks change only finitely much when a policy
  is bounded.

  Notify, NotifyLaws: \<open>notify/worker.go\<close>, \<open>dispatcher.go\<close>; the contract of a deduplication store is the
  locale \<open>claim\_window\<close>, interpreted on the in-memory one. Bus: \<open>bus/channel.go\<close>, with subject matching
  against the NATS rules. Router: \<open>cloudevents/router.go\<close> and the subjects of \<open>publisher.go\<close>.
  Delivery: the jobs of a step and of an event, through the dispatcher.
  CloudEventHttp, SinkLaws: \<open>notify/providers/cloudevent\_http.go\<close>, one send and its reply, and runs of
  the provider.

  Lru, RateLimiter: \<open>cloudevents/reply/rate\_limiter.go\<close>, a refinement of a list of buckets and its sliding
  bound. Registry: \<open>reply/registry.go\<close>; the interface OutboundRegistry is the locale
  \<open>outbound\_registry\<close>, interpreted on MemoryRegistry. Utf8, Glob: rune caps and type patterns.
  ReplyCommon, ReplyAnnotations, ReplyMutations, ReplyRemediation, ReplyRouting: the thirteen handlers of
  \<open>reply/handlers\<close>; ReplyContract: the contract a handler is held to, a locale every handler interprets.
  ReplyDispatcher, ReplySafety, ReplyEffects: \<open>reply/dispatcher.go\<close>, isolation of organisations, the
  gates, and the effects of single replies.

  JsonText: the text of json.Marshal. Inbound, InboundLaws: the heartbeat endpoint and the events API of
  \<open>api/handlers/monitors.go\<close> and \<open>events.go\<close>, composed with the check of heartbeat monitors and with
  the engine behind the bus. Verifier: \<open>cloudevents/oidc/verifier.go\<close> and its cache. Ingest: the endpoint
  of \<open>api/handlers/cloudevents.go\<close> and the idempotency table. IngestLaws: events are recorded once a day,
  and lost when they fail. AuthText, IngestSafety: the texts configurations are compared by determine
  the configuration, and only verified events of the named monitor are admitted. IngestRuns: the life of
  verifiers over runs of requests, and ingested heartbeats in the eyes of the scheduler.

  TokenClient, TokenLaws, TokenRuns: \<open>oidc/client.go\<close> and \<open>singleflight.go\<close>, a program point for every
  concurrent call of Token; the cache refines a list in order of use, and its interface is the locale
  \<open>token\_cache\_contract\<close>. Joined: texts joined without quoting. Jwks, JwksLaws: \<open>auth/jwks\<close>, its table and
  the envelope; what rotations do to the table is a locale of row invariants, interpreted three times.

  Accounts: the tables behind sign-in (\<open>store/sqlite/users.go\<close>, \<open>orgs.go\<close>, \<open>api\_keys.go\<close>), with a record
  \<open>accounts\<close> of their own, and transactions. Access: tokens and keys (\<open>auth/jwt.go\<close>, \<open>apikey.go\<close>), the
  middleware (\<open>api/middleware\<close>) and the table of the routes it guards (\<open>api/server.go\<close>). AccountHandlers:
  registration, sign-in, self-service and resets (\<open>api/handlers/auth.go\<close>, \<open>auth\_self\_service.go\<close>,
  \<open>email\_verification.go\<close>, \<open>password\_reset.go\<close>). Members: \<open>users.go\<close>, \<open>auth\_admin\_reset.go\<close>,
  \<open>orgs\_apikeys.go\<close>. AccountClosing: \<open>account\_delete.go\<close> and \<open>jobs/account\_cleanup.go\<close>. AccountLaws:
  runs of all of them, and what an invariant of the tables must satisfy, the locale \<open>account\_rows\<close>;
  AccountInvariants interprets it for the constraints of the schema and for one owner per organisation.
  AccessLaws: each token serves its purpose only, and what a guarded request is known to satisfy.
  AccountSafety, AccountLinks: ownership, mailed links and the clean-up, and where they fail.

  Maintenance: \<open>domain/maintenance.go\<close> and \<open>maintenance/ticker.go\<close>; the SQL conditions that mute a
  monitor are exact, and started and ended events alternate.

  EscalationExamples, DeliveryExamples, CheckExamples, IngestExamples, TokenExamples, JwksExamples,
  AccountExamples (and the ends of other theories): concrete worlds on which the hypotheses of the properties hold.

  Bounds and fuel. Loops recurse on their data. The retry loop counts its attempts down from the
  configured number, five by default. The loop over the groups of an IPv6 address runs eight times, its
  bound in the source. \<open>int\_text\<close> writes twenty digits, enough for every 64-bit integer. The Glob and
  resolve loops terminate by measures.

  Parameters. Code that is not under src/ is an argument of the definitions that use it: the envelope
  encryption, the regular expression engine, the CloudEvents SDK, the HTTP round trip and the OIDC token
  of a sink, DNS, the URL parser, a notification provider, the outcome of a probe, the JSON parser on
  texts the program stored, the library of signed tokens, bcrypt, SHA-256 and HMAC. Hypotheses about them are stated in the properties.

  Not modelled: the other handlers of the HTTP API (monitors, channels, policies, states, settings of an
  organisation, public pages), rate limits and proxy headers, the message formats of the other
  notification providers, the probes themselves, the background jobs of rollups and retention, the NATS
  bus, telemetry, configuration, generated code and the catalog, the guards of the commercial edition
  that let everything pass here, the
  demonstration data and the web user interface. Of the scheduler, the ticker goroutines appear as the
  message they publish. Rounding of float64 minutes in the expiry of routing rules is not modelled.
\<close>

end
